(* ===== verification/Js_Prelude.thy ===== *)
theory Js_Prelude
  imports Complex_Main "HOL-Library.AList" "HOL-Library.Multiset" "HOL-Library.Sublist"
begin

text \<open>
  The part of the ECMAScript language and library that every component of the front end uses:
  strings as lists of UTF-16 code units, \<open>trim\<close>, \<open>split\<close>, \<open>join\<close>, \<open>indexOf\<close>,
  \<open>startsWith\<close>, \<open>slice\<close>, insertion-ordered \<open>Set\<close> and \<open>Map\<close>, the stable
  \<open>Array.prototype.sort\<close>, and decimal rendering and parsing of integers.

  The collection \<open>js_eval\<close> holds the equations that evaluate closed terms; the locale
  \<open>comparator\<close> is the contract a sort comparator has to meet, and \<open>collation\<close> is the
  contract of \<open>String.prototype.localeCompare\<close>, which the host's locale data implements.
\<close>

named_theorems js_eval \<open>equations that evaluate closed terms of the model\<close>

section \<open>Strings\<close>

type_synonym code_unit = nat
type_synonym jstring = "code_unit list"

definition js :: "string \<Rightarrow> jstring" where
  "js s = map of_char s"

definition is_space :: "code_unit \<Rightarrow> bool" where
  \<comment> \<open>ECMAScript WhiteSpace and LineTerminator, what \<open>trim\<close> removes and \<open>\s\<close> matches\<close>
  "is_space c \<longleftrightarrow>
     9 \<le> c \<and> c \<le> 13 \<or> c = 32 \<or> c = 160 \<or> c = 5760 \<or> 8192 \<le> c \<and> c \<le> 8202 \<or>
     c = 8232 \<or> c = 8233 \<or> c = 8239 \<or> c = 8287 \<or> c = 12288 \<or> c = 65279"

definition is_digit :: "code_unit \<Rightarrow> bool" where
  "is_digit c \<longleftrightarrow> 48 \<le> c \<and> c \<le> 57"

definition trim :: "jstring \<Rightarrow> jstring" where
  "trim s = rev (dropWhile is_space (rev (dropWhile is_space s)))"

definition startsWith :: "jstring \<Rightarrow> jstring \<Rightarrow> bool" where
  "startsWith s p \<longleftrightarrow> take (length p) s = p"

definition endsWith :: "jstring \<Rightarrow> jstring \<Rightarrow> bool" where
  "endsWith s p \<longleftrightarrow> length p \<le> length s \<and> drop (length s - length p) s = p"

fun index_of :: "jstring \<Rightarrow> jstring \<Rightarrow> nat option" where
  \<comment> \<open>\<open>s.indexOf(p)\<close>, with \<open>None\<close> for \<open>-1\<close>\<close>
  "index_of [] p = (if p = [] then Some 0 else None)"
| "index_of (c # cs) p =
     (if startsWith (c # cs) p then Some 0 else map_option Suc (index_of cs p))"

definition index_of_from :: "jstring \<Rightarrow> jstring \<Rightarrow> nat \<Rightarrow> nat option" where
  \<comment> \<open>\<open>s.indexOf(p, i)\<close> for \<open>i \<le> s.length\<close>\<close>
  "index_of_from s p i = map_option (\<lambda>k. i + k) (index_of (drop i s) p)"

definition str_includes :: "jstring \<Rightarrow> jstring \<Rightarrow> bool" where
  "str_includes s p \<longleftrightarrow> index_of s p \<noteq> None"

definition slice :: "jstring \<Rightarrow> nat \<Rightarrow> nat \<Rightarrow> jstring" where
  \<comment> \<open>\<open>s.slice(i, j)\<close> for non-negative bounds\<close>
  "slice s i j = take (j - i) (drop i s)"

definition slice_last :: "'a list \<Rightarrow> nat \<Rightarrow> 'a list" where
  \<comment> \<open>\<open>xs.slice(-n)\<close> for positive \<open>n\<close>\<close>
  "slice_last xs n = drop (length xs - n) xs"

fun split_on :: "code_unit \<Rightarrow> jstring \<Rightarrow> jstring list" where
  "split_on c [] = [[]]"
| "split_on c (x # xs) =
     (if x = c then [] # split_on c xs
      else (case split_on c xs of [] \<Rightarrow> [[x]] | y # ys \<Rightarrow> (x # y) # ys))"

fun join :: "jstring \<Rightarrow> jstring list \<Rightarrow> jstring" where
  "join sep [] = []"
| "join sep [x] = x"
| "join sep (x # y # zs) = x @ sep @ join sep (y # zs)"

definition str_or :: "jstring \<Rightarrow> jstring \<Rightarrow> jstring" where
  \<comment> \<open>\<open>s || d\<close> on strings: the empty string is falsy\<close>
  "str_or s d = (if s = [] then d else s)"

definition opt_str :: "jstring option \<Rightarrow> jstring" where
  \<comment> \<open>an optional string where only truthiness matters: \<open>undefined\<close> reads as the empty string\<close>
  "opt_str s = (case s of None \<Rightarrow> [] | Some t \<Rightarrow> t)"

section \<open>Sets, maps and arrays\<close>

fun uniq_from :: "'a list \<Rightarrow> 'a list \<Rightarrow> 'a list" where
  "uniq_from seen [] = []"
| "uniq_from seen (x # xs) =
     (if x \<in> set seen then uniq_from seen xs else x # uniq_from (x # seen) xs)"

definition uniq :: "'a list \<Rightarrow> 'a list" where
  \<comment> \<open>\<open>[...new Set(xs)]\<close>: first occurrences, in insertion order\<close>
  "uniq xs = uniq_from [] xs"

fun find_index :: "('a \<Rightarrow> bool) \<Rightarrow> 'a list \<Rightarrow> nat option" where
  \<comment> \<open>\<open>xs.findIndex(p)\<close>, with \<open>None\<close> for \<open>-1\<close>\<close>
  "find_index P [] = None"
| "find_index P (x # xs) = (if P x then Some 0 else map_option Suc (find_index P xs))"

fun sort_insert :: "('a \<Rightarrow> 'a \<Rightarrow> 'n::{linorder,zero}) \<Rightarrow> 'a \<Rightarrow> 'a list \<Rightarrow> 'a list" where
  "sort_insert cmp x [] = [x]"
| "sort_insert cmp x (y # ys) =
     (if cmp x y \<le> 0 then x # y # ys else y # sort_insert cmp x ys)"

definition js_sort :: "('a \<Rightarrow> 'a \<Rightarrow> 'n::{linorder,zero}) \<Rightarrow> 'a list \<Rightarrow> 'a list" where
  \<comment> \<open>\<open>[...xs].sort(cmp)\<close>: the stable sort; any stable sort gives this list for a comparator\<close>
  "js_sort cmp xs = foldr (sort_insert cmp) xs []"

definition num_or :: "'n::zero \<Rightarrow> 'n \<Rightarrow> 'n" where
  \<comment> \<open>\<open>x || y\<close> on numbers, as comparators chain their keys\<close>
  "num_or x y = (if x = 0 then y else x)"

fun code_unit_compare :: "jstring \<Rightarrow> jstring \<Rightarrow> int" where
  \<comment> \<open>the order of \<open>sort()\<close> without a comparator: by UTF-16 code units\<close>
  "code_unit_compare [] [] = 0"
| "code_unit_compare [] (y # ys) = -1"
| "code_unit_compare (x # xs) [] = 1"
| "code_unit_compare (x # xs) (y # ys) =
     (if x < y then -1 else if y < x then 1 else code_unit_compare xs ys)"

section \<open>Decimal integers\<close>

fun nat_str :: "nat \<Rightarrow> jstring" where
  "nat_str n = (if n < 10 then [48 + n] else nat_str (n div 10) @ [48 + n mod 10])"

declare nat_str.simps [simp del]

definition int_str :: "int \<Rightarrow> jstring" where
  \<comment> \<open>\<open>String(n)\<close> of an integer below \<open>1e21\<close>\<close>
  "int_str n = (if n < 0 then 45 # nat_str (nat (- n)) else nat_str (nat n))"

definition digits_val :: "jstring \<Rightarrow> nat" where
  \<comment> \<open>\<open>Number.parseInt(s, 10)\<close> of a string of decimal digits\<close>
  "digits_val s = foldl (\<lambda>n c. 10 * n + (c - 48)) 0 s"

section \<open>Lemmas on strings\<close>

lemma js_Nil [simp, js_eval]: "js [] = []"
  and js_Cons [js_eval]: "js (c # cs) = of_char c # js cs"
  by (simp_all add: js_def)

lemma length_js [simp]: "length (js s) = length s"
  by (simp add: js_def)

lemma js_eq_Nil_iff [simp]: "js s = [] \<longleftrightarrow> s = []"
  by (simp add: js_def)

lemmas str_eval [js_eval] =
  is_space_def is_digit_def trim_def startsWith_def endsWith_def index_of_from_def
  str_includes_def slice_def slice_last_def str_or_def opt_str_def uniq_def js_sort_def
  num_or_def int_str_def digits_val_def Let_def

lemma trim_Nil [simp]: "trim [] = []"
  by (simp add: trim_def)

lemma dropWhile_idem: "dropWhile P (dropWhile P xs) = dropWhile P xs"
  by (induction xs) auto

lemma hd_dropWhile_rev:
  "xs \<noteq> [] \<Longrightarrow> \<not> P (hd xs) \<Longrightarrow> dropWhile P (rev xs) \<noteq> [] \<and> last (dropWhile P (rev xs)) = hd xs"
  by (induction xs rule: list.induct) (auto simp: dropWhile_append)

lemma dropWhile_eq_self: "xs = [] \<or> \<not> P (hd xs) \<Longrightarrow> dropWhile P xs = xs"
  by (cases xs) auto

lemma trim_no_ws_ends:
  assumes "s = [] \<or> \<not> is_space (hd s) \<and> \<not> is_space (last s)"
  shows "trim s = s"
  using assms by (cases "s = []") (auto simp: trim_def dropWhile_eq_self hd_rev)

lemma trim_idem [simp]: "trim (trim s) = trim s"
proof -
  define t where "t = dropWhile is_space s"
  define u where "u = dropWhile is_space (rev t)"
  have tr: "trim s = rev u" by (simp add: trim_def t_def u_def)
  show ?thesis
  proof (cases "u = []")
    case False
    then have hu: "\<not> is_space (hd u)"
      unfolding u_def by (rule hd_dropWhile)
    have "t \<noteq> []" using False by (auto simp: u_def)
    then have "\<not> is_space (hd t)" unfolding t_def by (rule hd_dropWhile)
    with \<open>t \<noteq> []\<close> have "last u = hd t"
      unfolding u_def using hd_dropWhile_rev [of t is_space] by blast
    with \<open>\<not> is_space (hd t)\<close> hu False show ?thesis
      unfolding tr by (intro trim_no_ws_ends) (simp add: hd_rev last_rev)
  qed (simp add: tr)
qed

lemma trim_no_space: "(\<And>c. c \<in> set s \<Longrightarrow> \<not> is_space c) \<Longrightarrow> trim s = s"
  by (rule trim_no_ws_ends) (metis hd_in_set last_in_set)

lemma set_trim: "set (trim s) \<subseteq> set s"
  by (auto simp: trim_def dest!: set_dropWhileD)

lemma startsWith_append [simp]: "startsWith (p @ s) p"
  by (simp add: startsWith_def)

lemma startsWith_iff: "startsWith s p \<longleftrightarrow> (\<exists>t. s = p @ t)"
  unfolding startsWith_def by (metis append_take_drop_id append_eq_conv_conj)

lemma startsWith_Nil [simp]: "startsWith s []"
  by (simp add: startsWith_def)

lemma endsWith_append [simp]: "endsWith (s @ p) p"
  by (simp add: endsWith_def)

lemma index_of_Some:
  "index_of s p = Some i \<Longrightarrow> i + length p \<le> length s \<and> take (length p) (drop i s) = p"
proof (induction s arbitrary: i)
  case (Cons c cs)
  show ?case
  proof (cases "startsWith (c # cs) p")
    case True
    with Cons.prems show ?thesis
      using length_take [of "length p" "c # cs"] by (auto simp: startsWith_def)
  next
    case False
    with Cons.prems obtain j where "index_of cs p = Some j" "i = Suc j"
      by auto
    with Cons.IH show ?thesis by auto
  qed
qed (auto split: if_splits)

lemma index_of_first:
  "index_of s p = Some i \<Longrightarrow> j < i \<Longrightarrow> \<not> startsWith (drop j s) p"
proof (induction s arbitrary: i j)
  case (Cons c cs)
  then obtain i' where i': "index_of cs p = Some i'" "i = Suc i'" and ns: "\<not> startsWith (c # cs) p"
    by (auto split: if_splits)
  show ?case
    using Cons.IH [OF i'(1)] Cons.prems(2) i'(2) ns by (cases j) auto
qed (auto split: if_splits)

lemma index_of_None: "index_of s p = None \<Longrightarrow> \<not> startsWith (drop j s) p"
proof (induction s arbitrary: j)
  case Nil
  then show ?case by (auto simp: startsWith_def split: if_splits)
next
  case (Cons c cs)
  then show ?case by (cases j) (auto split: if_splits)
qed

lemma index_of_decomp:
  assumes "index_of s p = Some i"
  shows "s = take i s @ p @ drop (i + length p) s"
  using index_of_Some [OF assms]
  by (metis append_take_drop_id drop_drop add.commute)

lemma index_of_from_Some:
  assumes "index_of_from s p i = Some k" "i \<le> length s"
  shows "i \<le> k" "k + length p \<le> length s" "slice s k (k + length p) = p"
proof -
  from assms obtain j where j: "index_of (drop i s) p = Some j" "k = i + j"
    by (auto simp: index_of_from_def)
  from index_of_Some [OF j(1)] j(2) assms(2)
  show "i \<le> k" "k + length p \<le> length s" "slice s k (k + length p) = p"
    by (auto simp: slice_def add.commute)
qed

lemma str_includes_iff: "str_includes s p \<longleftrightarrow> (\<exists>a b. s = a @ p @ b)"
proof
  assume "str_includes s p"
  then show "\<exists>a b. s = a @ p @ b"
    using index_of_decomp by (auto simp: str_includes_def) blast
next
  assume "\<exists>a b. s = a @ p @ b"
  then obtain a b where "s = a @ p @ b" by blast
  then have "startsWith (drop (length a) s) p" by simp
  then show "str_includes s p"
    unfolding str_includes_def using index_of_None by blast
qed

lemma split_on_not_Nil [simp]: "split_on c s \<noteq> []"
  by (induction s) (auto split: list.splits)

lemma join_split_on: "join [c] (split_on c s) = s"
proof (induction s)
  case (Cons x xs)
  obtain y ys where "split_on c xs = y # ys"
    by (cases "split_on c xs") auto
  with Cons show ?case by (cases ys) auto
qed simp

lemma split_on_no_sep: "p \<in> set (split_on c s) \<Longrightarrow> c \<notin> set p"
  by (induction s arbitrary: p) (auto split: if_splits list.splits)

lemma split_on_plain: "c \<notin> set s \<Longrightarrow> split_on c s = [s]"
  by (induction s) auto

lemma split_on_append_sep: "c \<notin> set s \<Longrightarrow> split_on c (s @ c # t) = s # split_on c t"
  by (induction s) auto

lemma split_on_join:
  "xs \<noteq> [] \<Longrightarrow> \<forall>x \<in> set xs. c \<notin> set x \<Longrightarrow> split_on c (join [c] xs) = xs"
  by (induction "[c]" xs rule: join.induct) (auto simp: split_on_plain split_on_append_sep)

lemma join_eq_Nil: "join sep xs = [] \<Longrightarrow> x \<in> set xs \<Longrightarrow> x = []"
  by (induction sep xs rule: join.induct) auto

lemma str_or_simps [simp]: "str_or [] d = d" "str_or (c # s) d = c # s"
  by (simp_all add: str_or_def)

section \<open>Lemmas on sets, maps and sorting\<close>

lemma set_uniq_from: "set (uniq_from seen xs) = set xs - set seen"
  by (induction seen xs rule: uniq_from.induct) auto

lemma set_uniq [simp]: "set (uniq xs) = set xs"
  by (simp add: uniq_def set_uniq_from)

lemma distinct_uniq [simp]: "distinct (uniq xs)"
proof -
  have "distinct (uniq_from seen xs)" for seen
    by (induction seen xs rule: uniq_from.induct) (auto simp: set_uniq_from)
  then show ?thesis by (simp add: uniq_def)
qed

lemma uniq_distinct: "distinct xs \<Longrightarrow> uniq xs = xs"
proof -
  have "distinct xs \<Longrightarrow> set xs \<inter> set seen = {} \<Longrightarrow> uniq_from seen xs = xs" for seen
    by (induction seen xs rule: uniq_from.induct) auto
  then show "distinct xs \<Longrightarrow> uniq xs = xs" by (simp add: uniq_def)
qed

lemma length_uniq_le: "length (uniq xs) \<le> length xs"
proof -
  have "length (uniq_from seen xs) \<le> length xs" for seen
    by (induction seen xs rule: uniq_from.induct) auto
  then show ?thesis by (simp add: uniq_def)
qed

lemma find_index_Some:
  "find_index P xs = Some i \<Longrightarrow> i < length xs \<and> P (xs ! i) \<and> (\<forall>j < i. \<not> P (xs ! j))"
proof (induction xs arbitrary: i)
  case (Cons x xs)
  then show ?case
    by (auto split: if_splits simp: nth_Cons split: nat.splits)
qed simp

lemma find_index_None: "find_index P xs = None \<longleftrightarrow> (\<forall>x \<in> set xs. \<not> P x)"
  by (induction xs) auto

lemma in_map_filter: "y \<in> set (List.map_filter f xs) \<longleftrightarrow> (\<exists>x \<in> set xs. f x = Some y)"
  by (induction xs) (auto split: option.splits)

lemma map_filter_total: "(\<And>x. x \<in> set xs \<Longrightarrow> f x = Some (g x)) \<Longrightarrow> List.map_filter f xs = map g xs"
  by (induction xs) auto

lemma mset_sort_insert [simp]: "mset (sort_insert cmp x xs) = add_mset x (mset xs)"
  by (induction xs) auto

lemma mset_js_sort [simp]: "mset (js_sort cmp xs) = mset xs"
  by (induction xs) (simp_all add: js_sort_def)

lemma set_js_sort [simp]: "set (js_sort cmp xs) = set xs"
  by (metis mset_js_sort set_mset_mset)

lemma length_js_sort [simp]: "length (js_sort cmp xs) = length xs"
  by (metis mset_js_sort size_mset)

lemma distinct_js_sort [simp]: "distinct (js_sort cmp xs) = distinct xs"
  by (metis mset_js_sort mset_eq_imp_distinct_iff)

lemma js_sort_Nil [simp]: "js_sort cmp [] = []"
  by (simp add: js_sort_def)

lemma js_sort_Cons: "js_sort cmp (x # xs) = sort_insert cmp x (js_sort cmp xs)"
  by (simp add: js_sort_def)

lemma set_sort_insert [simp]: "set (sort_insert cmp x xs) = insert x (set xs)"
  by (induction xs) auto

lemma mset_map_js_sort: "mset (map f (js_sort cmp xs)) = mset (map f xs)"
  by (simp only: mset_map mset_js_sort)

lemma sum_list_js_sort:
  fixes f :: "'a \<Rightarrow> 'b::comm_monoid_add"
  shows "sum_list (map f (js_sort cmp xs)) = sum_list (map f xs)"
  by (metis mset_js_sort mset_map sum_mset_sum_list)

text \<open>
  The contract of a comparator: \<open>cmp x y \<le> 0\<close> is a total preorder. Then the sorted array is
  ordered by it, and sorting is idempotent.
\<close>

locale comparator =
  fixes cmp :: "'a \<Rightarrow> 'a \<Rightarrow> 'n::{linorder,zero}"
  assumes cmp_total: "cmp x y \<le> 0 \<or> cmp y x \<le> 0"
    and cmp_trans: "cmp x y \<le> 0 \<Longrightarrow> cmp y z \<le> 0 \<Longrightarrow> cmp x z \<le> 0"
begin

lemma sorted_sort_insert:
  "sorted_wrt (\<lambda>a b. cmp a b \<le> 0) xs \<Longrightarrow> sorted_wrt (\<lambda>a b. cmp a b \<le> 0) (sort_insert cmp x xs)"
proof (induction xs)
  case (Cons y ys)
  then show ?case
    using cmp_total [of x y] by (auto intro: cmp_trans)
qed simp

lemma sorted_js_sort: "sorted_wrt (\<lambda>a b. cmp a b \<le> 0) (js_sort cmp xs)"
  by (induction xs) (simp_all add: js_sort_Cons sorted_sort_insert)

lemma js_sort_sorted: "sorted_wrt (\<lambda>a b. cmp a b \<le> 0) xs \<Longrightarrow> js_sort cmp xs = xs"
proof (induction xs)
  case (Cons x xs)
  then show ?case by (cases xs) (simp_all add: js_sort_Cons)
qed simp

lemma js_sort_idem: "js_sort cmp (js_sort cmp xs) = js_sort cmp xs"
  by (rule js_sort_sorted) (rule sorted_js_sort)

end

text \<open>
  What \<open>localeCompare\<close> promises (ECMA-402): it orders strings consistently, and equal strings
  compare equal. Which order it is depends on the host's locale data, so it is a parameter of
  the definitions that use it.
\<close>

locale collation =
  fixes lc :: "jstring \<Rightarrow> jstring \<Rightarrow> int"
  assumes lc_refl: "lc s s = 0"
    and lc_sym: "lc t s = 0 \<longleftrightarrow> lc s t = 0"
    and lc_anti: "0 < lc t s \<longleftrightarrow> lc s t < 0"
    and lc_trans: "lc s t \<le> 0 \<Longrightarrow> lc t u \<le> 0 \<Longrightarrow> lc s u \<le> 0"
begin

lemma lc_total: "lc s t \<le> 0 \<or> lc t s \<le> 0"
  using lc_anti [of s t] by auto

end

sublocale collation \<subseteq> lc: comparator lc
  by unfold_locales (rule lc_total, rule lc_trans)

text \<open>Comparators are built by chaining keys with \<open>||\<close>: first a number, then a collated string.\<close>

lemma num_or_le_0:
  fixes x :: "'n::{linorder,zero}"
  shows "num_or x y \<le> 0 \<longleftrightarrow> x < 0 \<or> x = 0 \<and> y \<le> 0"
  by (auto simp: num_or_def)

lemma comparator_inv_image: "comparator c \<Longrightarrow> comparator (\<lambda>a b. c (f a) (f b))"
  unfolding comparator_def by blast

lemma comparator_by_value:
  fixes v :: "'a \<Rightarrow> int"
  assumes "comparator c"
  shows "comparator (\<lambda>a b. num_or (v b - v a) (c a b))"
proof
  fix x y z
  show "num_or (v y - v x) (c x y) \<le> 0 \<or> num_or (v x - v y) (c y x) \<le> 0"
    using comparator.cmp_total [OF assms, of x y] unfolding num_or_le_0 by linarith
  assume "num_or (v y - v x) (c x y) \<le> 0" "num_or (v z - v y) (c y z) \<le> 0"
  then show "num_or (v z - v x) (c x z) \<le> 0"
    using comparator.cmp_trans [OF assms, of x y z] unfolding num_or_le_0 by linarith
qed

context collation
begin

lemma lc_strict_left: "lc s t < 0 \<Longrightarrow> lc t u \<le> 0 \<Longrightarrow> lc s u < 0"
  using lc_trans [of s t u] lc_trans [of t u s] lc_anti [of t s] lc_sym [of u s] by fastforce

lemma lc_strict_right: "lc s t \<le> 0 \<Longrightarrow> lc t u < 0 \<Longrightarrow> lc s u < 0"
  using lc_trans [of s t u] lc_trans [of u s t] lc_anti [of u t] lc_sym [of u s] by fastforce

lemma lc_eq_trans: "lc s t = 0 \<Longrightarrow> lc t u = 0 \<Longrightarrow> lc s u = 0"
  using lc_trans [of s t u] lc_trans [of u t s] lc_anti [of u s] lc_sym [of t s] lc_sym [of u t] by fastforce

lemma comparator_by_label:
  assumes "comparator c"
  shows "comparator (\<lambda>a b. num_or (lc (f a) (f b)) (c a b))"
proof
  fix x y z
  show "num_or (lc (f x) (f y)) (c x y) \<le> 0 \<or> num_or (lc (f y) (f x)) (c y x) \<le> 0"
    using comparator.cmp_total [OF assms, of x y] lc_anti [of "f x" "f y"] lc_sym [of "f x" "f y"]
    unfolding num_or_le_0 by linarith
  assume "num_or (lc (f x) (f y)) (c x y) \<le> 0" "num_or (lc (f y) (f z)) (c y z) \<le> 0"
  then show "num_or (lc (f x) (f z)) (c x z) \<le> 0"
    unfolding num_or_le_0
    using lc_strict_left [of "f x" "f y" "f z"] lc_strict_right [of "f x" "f y" "f z"]
      lc_eq_trans [of "f x" "f y" "f z"] comparator.cmp_trans [OF assms, of x y z]
    by linarith
qed

lemma comparator_label: "comparator (\<lambda>a b. lc (f a) (f b))"
  by (rule comparator_inv_image) (rule lc.comparator_axioms)

end

lemma code_unit_compare_refl: "code_unit_compare s s = 0"
  by (induction s) auto

lemma code_unit_compare_eq: "code_unit_compare s t = 0 \<longleftrightarrow> s = t"
  by (induction s t rule: code_unit_compare.induct) auto

lemma code_unit_compare_anti: "code_unit_compare t s = - code_unit_compare s t"
  by (induction s t rule: code_unit_compare.induct) auto

lemma code_unit_compare_Cons_le:
  "code_unit_compare (x # xs) (y # ys) \<le> 0 \<longleftrightarrow> x < y \<or> x = y \<and> code_unit_compare xs ys \<le> 0"
  by auto

lemma code_unit_compare_trans:
  "code_unit_compare s t \<le> 0 \<Longrightarrow> code_unit_compare t u \<le> 0 \<Longrightarrow> code_unit_compare s u \<le> 0"
proof (induction s arbitrary: t u)
  case Nil
  then show ?case by (cases u) simp_all
next
  case (Cons x xs)
  then obtain y ys where t: "t = y # ys" by (cases t) auto
  with Cons.prems obtain z zs where u: "u = z # zs" by (cases u) auto
  from Cons.prems show ?case
    unfolding t u code_unit_compare_Cons_le by (meson Cons.IH less_trans)
qed

interpretation cuc: collation code_unit_compare
proof unfold_locales
  fix s t u :: jstring
  show "code_unit_compare s s = 0" by (rule code_unit_compare_refl)
  show "code_unit_compare t s = 0 \<longleftrightarrow> code_unit_compare s t = 0"
    by (auto simp: code_unit_compare_eq)
  show "0 < code_unit_compare t s \<longleftrightarrow> code_unit_compare s t < 0"
    by (simp add: code_unit_compare_anti [of t s])
  show "code_unit_compare s t \<le> 0 \<Longrightarrow> code_unit_compare t u \<le> 0 \<Longrightarrow> code_unit_compare s u \<le> 0"
    by (rule code_unit_compare_trans)
qed

section \<open>Lemmas on decimal integers\<close>

lemma nat_str_not_Nil [simp]: "nat_str n \<noteq> []"
  by (subst nat_str.simps) simp

lemma nat_str_digits: "c \<in> set (nat_str n) \<Longrightarrow> is_digit c"
proof (induction n rule: nat_str.induct)
  case (1 n)
  then show ?case
    by (subst (asm) (2) nat_str.simps) (auto simp: is_digit_def split: if_splits)
qed

lemma foldl_digits_append:
  "foldl (\<lambda>n c. 10 * n + (c - 48)) a (s @ [d]) = 10 * foldl (\<lambda>n c. 10 * n + (c - 48)) a s + (d - (48::nat))"
  by simp

lemma digits_val_nat_str [simp]: "digits_val (nat_str n) = n"
proof (induction n rule: nat_str.induct)
  case (1 n)
  show ?case
  proof (cases "n < 10")
    case True
    then show ?thesis by (simp add: nat_str.simps [of n] digits_val_def)
  next
    case False
    with 1 show ?thesis by (simp add: nat_str.simps [of n] digits_val_def)
  qed
qed

lemma nat_str_inject [simp]: "nat_str m = nat_str n \<longleftrightarrow> m = n"
  by (metis digits_val_nat_str)

lemma nat_str_no_space: "c \<in> set (nat_str n) \<Longrightarrow> \<not> is_space c"
  using nat_str_digits by (fastforce simp: is_digit_def is_space_def)

lemma zero_int_str: "0 \<notin> set (int_str n)"
  using nat_str_digits [of 0] by (auto simp: int_str_def is_digit_def)

lemma split_at_zero:
  assumes "0 \<notin> set a"
  shows "takeWhile (\<lambda>c. c \<noteq> 0) (a @ 0 # b) = a" "dropWhile (\<lambda>c. c \<noteq> 0) (a @ 0 # b) = (0 :: nat) # b"
  using assms by (induction a) auto

lemma trim_nat_str [simp]: "trim (nat_str n) = nat_str n"
  by (rule trim_no_ws_ends) (use nat_str_no_space hd_in_set last_in_set nat_str_not_Nil in blast)

section \<open>Accumulating into an insertion-ordered map\<close>

text \<open>
  The loops of the dashboard build their totals with
  \<open>const prev = m.get(k) ?? init; update prev; m.set(k, prev)\<close>. \<open>accum\<close> is one such step for an
  element \<open>e\<close>; the locale states once what folding it over a list of elements keeps and sums.
\<close>

definition accum :: "('e \<Rightarrow> 'k) \<Rightarrow> ('e \<Rightarrow> 'v) \<Rightarrow> ('e \<Rightarrow> 'v \<Rightarrow> 'v) \<Rightarrow> ('k \<times> 'v) list \<Rightarrow> 'e \<Rightarrow> ('k \<times> 'v) list" where
  "accum key ini stp m e =
     AList.update (key e) (stp e (case map_of m (key e) of None \<Rightarrow> ini e | Some v \<Rightarrow> v)) m"

lemma fst_accum: "fst ` set (accum key ini stp m e) = insert (key e) (fst ` set m)"
  by (simp add: accum_def dom_update)

lemma distinct_accum: "distinct (map fst m) \<Longrightarrow> distinct (map fst (accum key ini stp m e))"
  by (simp add: accum_def distinct_update)

lemma fst_foldl_accum: "fst ` set (foldl (accum key ini stp) m es) = fst ` set m \<union> key ` set es"
  by (induction es arbitrary: m) (auto simp: fst_accum)

lemma distinct_foldl_accum:
  "distinct (map fst m) \<Longrightarrow> distinct (map fst (foldl (accum key ini stp) m es))"
  by (induction es arbitrary: m) (simp_all add: distinct_accum)

lemma update_in_set:
  "(k, v) \<in> set (AList.update k' v' m) \<Longrightarrow> k = k' \<and> v = v' \<or> (k, v) \<in> set m"
  by (induction m) (auto split: if_splits)

lemma accum_inv:
  assumes "\<And>k v. (k, v) \<in> set m \<Longrightarrow> I k v"
    and "\<And>e. e \<in> set es \<Longrightarrow> I (key e) (stp e (ini e))"
    and "\<And>e v. e \<in> set es \<Longrightarrow> I (key e) v \<Longrightarrow> I (key e) (stp e v)"
    and "(k, v) \<in> set (foldl (accum key ini stp) m es)"
  shows "I k v"
  using assms
proof (induction es arbitrary: m)
  case (Cons e es)
  have "I k v" if "(k, v) \<in> set (accum key ini stp m e)" for k v
    using that Cons.prems(1) Cons.prems(2) [of e] Cons.prems(3) [of e]
    by (auto simp: accum_def dest!: update_in_set split: option.splits dest: map_of_SomeD)
  with Cons.IH [of "accum key ini stp m e"] Cons.prems show ?case by auto
qed auto

lemma sum_list_update:
  fixes meas :: "'v \<Rightarrow> int"
  assumes "distinct (map fst m)"
  shows "sum_list (map (meas \<circ> snd) (filter (Q \<circ> fst) (AList.update k v m))) =
    sum_list (map (meas \<circ> snd) (filter (Q \<circ> fst) m)) +
    (if Q k then meas v - (case map_of m k of None \<Rightarrow> 0 | Some w \<Rightarrow> meas w) else 0)"
  using assms
proof (induction m)
  case (Cons p m)
  then show ?case
    by (cases p) (auto split: option.splits simp: map_of_eq_None_iff)
qed simp

lemma filter_distinct_key:
  "distinct (map fst m) \<Longrightarrow> (k, v) \<in> set m \<Longrightarrow> filter (\<lambda>p. fst p = k) m = [(k, v)]"
proof (induction m)
  case (Cons p m)
  then show ?case by (cases p) (auto simp: filter_empty_conv image_iff)
qed simp

locale accumulator =
  fixes key :: "'e \<Rightarrow> 'k"
    and ini :: "'e \<Rightarrow> 'v"
    and stp :: "'e \<Rightarrow> 'v \<Rightarrow> 'v"
    and meas :: "'v \<Rightarrow> int"
    and weight :: "'e \<Rightarrow> int"
  assumes meas_ini: "meas (ini e) = 0"
    and meas_stp: "meas (stp e v) = meas v + weight e"
begin

lemma total_accum:
  assumes "distinct (map fst m)"
  shows "sum_list (map (meas \<circ> snd) (filter (Q \<circ> fst) (accum key ini stp m e))) =
    sum_list (map (meas \<circ> snd) (filter (Q \<circ> fst) m)) + (if Q (key e) then weight e else 0)"
  using sum_list_update [OF assms]
  by (simp add: accum_def meas_ini meas_stp split: option.splits)

lemma total_foldl_accum:
  "distinct (map fst m) \<Longrightarrow>
   sum_list (map (meas \<circ> snd) (filter (Q \<circ> fst) (foldl (accum key ini stp) m es))) =
   sum_list (map (meas \<circ> snd) (filter (Q \<circ> fst) m)) + sum_list (map weight (filter (Q \<circ> key) es))"
  by (induction es arbitrary: m) (simp_all add: total_accum distinct_accum)

text \<open>The total of the entries whose key satisfies \<open>Q\<close> is the weight of the elements that went there.\<close>

lemma total:
  "sum_list (map (meas \<circ> snd) (filter (Q \<circ> fst) (foldl (accum key ini stp) [] es))) =
   sum_list (map weight (filter (Q \<circ> key) es))"
  by (simp add: total_foldl_accum)

lemma entry:
  assumes "(k, v) \<in> set (foldl (accum key ini stp) [] es)"
  shows "meas v = sum_list (map weight (filter (\<lambda>e. key e = k) es))"
proof -
  let ?m = "foldl (accum key ini stp) [] es"
  have d: "distinct (map fst ?m)" by (simp add: distinct_foldl_accum)
  have "filter ((\<lambda>x. x = k) \<circ> fst) ?m = [(k, v)]"
    using filter_distinct_key [OF d assms] by (simp add: comp_def)
  then show ?thesis using total [of "\<lambda>x. x = k" es] by (simp add: comp_def)
qed

end

lemma not_space_ascii: "33 \<le> c \<Longrightarrow> c < 127 \<Longrightarrow> \<not> is_space c"
  by (simp add: is_space_def)

end
