(* ===== verification/Status_Code_Rules.thy ===== *)
theory Status_Code_Rules
  imports Js_Prelude
begin

text \<open>
  The HTTP status code rules of the routing settings (\<open>lib/http-status-code-rules.ts\<close>): a
  text such as \<open>500-503, 429\<close> is parsed into ranges, the ranges are sorted and merged, and the
  normalized text is what the settings page stores.

  Shown here: the merged ranges denote exactly the codes of the tokens, they are ordered and
  separated by gaps, the normalized text depends only on the set of codes, parsing it again
  gives the same result, and the invalid tokens are exactly the segments that do not parse.
\<close>

section \<open>Model\<close>

record StatusCodeRange =
  start :: nat
  end_code :: nat

record ParsedHttpStatusCodeRules =
  ok :: bool
  ranges :: "StatusCodeRange list"
  tokens :: "jstring list"
  normalized :: jstring
  invalidTokens :: "jstring list"

definition isNumber :: "jstring \<Rightarrow> bool" where
  \<comment> \<open>\<open>/^\d+$/\<close>\<close>
  "isNumber s \<longleftrightarrow> s \<noteq> [] \<and> list_all is_digit s"

definition isValidCode :: "nat \<Rightarrow> bool" where
  "isValidCode code \<longleftrightarrow> 100 \<le> code \<and> code \<le> 599"

definition parseToken :: "jstring \<Rightarrow> StatusCodeRange option" where
  "parseToken token =
     (let cleaned = filter (\<lambda>c. \<not> is_space c) (trim token) in
      if cleaned = [] then None
      else if 45 \<in> set cleaned then
        (case split_on 45 cleaned of
           a # b # _ \<Rightarrow>
             if \<not> isNumber a \<or> \<not> isNumber b then None
             else (let s = digits_val a; e = digits_val b in
                   if \<not> isValidCode s \<or> \<not> isValidCode e \<or> s > e then None
                   else Some \<lparr>start = s, end_code = e\<rparr>)
         | _ \<Rightarrow> None)
      else if \<not> isNumber cleaned then None
      else (let code = digits_val cleaned in
            if \<not> isValidCode code then None
            else Some \<lparr>start = code, end_code = code\<rparr>))"

definition range_compare :: "StatusCodeRange \<Rightarrow> StatusCodeRange \<Rightarrow> int" where
  "range_compare a b =
     (if start a \<noteq> start b then int (start a) - int (start b)
      else int (end_code a) - int (end_code b))"

definition merge_step :: "StatusCodeRange list \<Rightarrow> StatusCodeRange \<Rightarrow> StatusCodeRange list" where
  "merge_step merged current =
     (if merged = [] then [current]
      else if start current > end_code (last merged) + 1 then merged @ [current]
      else butlast merged @
        [(last merged)\<lparr>end_code := max (end_code (last merged)) (end_code current)\<rparr>])"

definition mergeRanges :: "StatusCodeRange list \<Rightarrow> StatusCodeRange list" where
  "mergeRanges rs =
     (if rs = [] then [] else foldl merge_step [] (js_sort range_compare rs))"

definition range_token :: "StatusCodeRange \<Rightarrow> jstring" where
  "range_token r =
     (if start r = end_code r then nat_str (start r)
      else nat_str (start r) @ [45] @ nat_str (end_code r))"

definition rule_segments :: "jstring \<Rightarrow> jstring list" where
  \<comment> \<open>the full-width comma U+FF0C separates too\<close>
  "rule_segments raw =
     filter (\<lambda>s. s \<noteq> [])
       (map trim (split_on 44 (map (\<lambda>c. if c = 65292 then 44 else c) raw)))"

definition parseHttpStatusCodeRules :: "jstring option \<Rightarrow> ParsedHttpStatusCodeRules" where
  "parseHttpStatusCodeRules input =
     (let raw = trim (opt_str input) in
      if length raw = 0 then
        \<lparr>ok = True, ranges = [], tokens = [], normalized = [], invalidTokens = []\<rparr>
      else
        (let segments = rule_segments raw;
             invalid = filter (\<lambda>s. parseToken s = None) segments;
             rs = List.map_filter parseToken segments in
         if length invalid > 0 then
           \<lparr>ok = False, ranges = [], tokens = [], normalized = raw, invalidTokens = invalid\<rparr>
         else
           (let merged = mergeRanges rs; toks = map range_token merged in
            \<lparr>ok = True, ranges = merged, tokens = toks, normalized = join [44] toks,
             invalidTokens = []\<rparr>)))"

lemmas status_code_eval [js_eval] =
  isNumber_def isValidCode_def parseToken_def range_compare_def merge_step_def mergeRanges_def
  range_token_def rule_segments_def parseHttpStatusCodeRules_def

section \<open>What a list of ranges denotes\<close>

definition range_codes :: "StatusCodeRange \<Rightarrow> nat set" where
  "range_codes r = {start r..end_code r}"

definition rule_codes :: "StatusCodeRange list \<Rightarrow> nat set" where
  "rule_codes rs = (\<Union>r \<in> set rs. range_codes r)"

definition valid_range :: "StatusCodeRange \<Rightarrow> bool" where
  "valid_range r \<longleftrightarrow> isValidCode (start r) \<and> isValidCode (end_code r) \<and> start r \<le> end_code r"

definition separated :: "StatusCodeRange list \<Rightarrow> bool" where
  "separated rs \<longleftrightarrow> sorted_wrt (\<lambda>a b. end_code a + 1 < start b) rs \<and> (\<forall>r \<in> set rs. start r \<le> end_code r)"

lemma rule_codes_simps [simp]:
  "rule_codes [] = {}"
  "rule_codes (r # rs) = range_codes r \<union> rule_codes rs"
  "rule_codes (rs @ qs) = rule_codes rs \<union> rule_codes qs"
  by (auto simp: rule_codes_def)

interpretation range_cmp: comparator range_compare
  by unfold_locales (auto simp: range_compare_def split: if_splits)

lemma parseToken_valid: "parseToken t = Some r \<Longrightarrow> valid_range r"
  by (auto simp: parseToken_def valid_range_def Let_def split: if_splits list.splits)

section \<open>Merging\<close>

lemma merge_step_codes:
  assumes "merged \<noteq> [] \<Longrightarrow> start (last merged) \<le> start r" "start r \<le> end_code r"
    and "merged \<noteq> [] \<Longrightarrow> start (last merged) \<le> end_code (last merged)"
  shows "rule_codes (merge_step merged r) = rule_codes merged \<union> range_codes r"
proof (cases merged rule: rev_cases)
  case (snoc ms m)
  with assms show ?thesis by (auto simp: merge_step_def range_codes_def)
qed (simp add: merge_step_def)

lemma merge_step_separated:
  assumes "separated merged" "start r \<le> end_code r" "merged \<noteq> [] \<Longrightarrow> start (last merged) \<le> start r"
  shows "separated (merge_step merged r)"
  using assms
  by (cases merged rule: rev_cases) (auto simp: merge_step_def separated_def sorted_wrt_append)

lemma merge_step_last:
  "start (last (merge_step merged r)) = (if merged = [] \<or> start r > end_code (last merged) + 1 then start r else start (last merged))"
  "merge_step merged r \<noteq> []"
  by (auto simp: merge_step_def)

lemma foldl_merge_step:
  assumes "separated merged" "sorted_wrt (\<lambda>a b. range_compare a b \<le> 0) rs"
    and "\<forall>r \<in> set rs. start r \<le> end_code r"
    and "\<forall>r \<in> set rs. merged \<noteq> [] \<longrightarrow> start (last merged) \<le> start r"
  shows "separated (foldl merge_step merged rs) \<and>
         rule_codes (foldl merge_step merged rs) = rule_codes merged \<union> rule_codes rs"
  using assms
proof (induction rs arbitrary: merged)
  case (Cons r rs)
  have le: "start r \<le> start q" if "q \<in> set rs" for q
    using Cons.prems(2) that by (auto simp: range_compare_def split: if_splits)
  have sep: "separated (merge_step merged r)"
    using Cons.prems by (intro merge_step_separated) auto
  have "rule_codes (merge_step merged r) = rule_codes merged \<union> range_codes r"
    using Cons.prems by (intro merge_step_codes) (auto simp: separated_def)
  moreover have "\<forall>q \<in> set rs. merge_step merged r \<noteq> [] \<longrightarrow> start (last (merge_step merged r)) \<le> start q"
    using le Cons.prems(4) by (auto simp: merge_step_last)
  ultimately show ?case
    using Cons.IH [OF sep] Cons.prems by auto
qed auto

lemma mergeRanges_correct:
  assumes "\<forall>r \<in> set rs. start r \<le> end_code r"
  shows "separated (mergeRanges rs)" "rule_codes (mergeRanges rs) = rule_codes rs"
proof -
  have "separated (mergeRanges rs) \<and> rule_codes (mergeRanges rs) = rule_codes (js_sort range_compare rs)"
    using foldl_merge_step [of "[]" "js_sort range_compare rs"] range_cmp.sorted_js_sort assms
    by (auto simp: mergeRanges_def separated_def)
  then show "separated (mergeRanges rs)" "rule_codes (mergeRanges rs) = rule_codes rs"
    by (auto simp: rule_codes_def)
qed

text \<open>A list of separated ranges is determined by the codes it denotes.\<close>

lemma separated_Cons:
  "separated (r # rs) \<longleftrightarrow>
     separated rs \<and> start r \<le> end_code r \<and> (\<forall>q \<in> set rs. end_code r + 1 < start q)"
  by (auto simp: separated_def)

lemma separated_rest_above:
  assumes "separated (r # rs)" "c \<in> rule_codes rs"
  shows "end_code r + 1 < c"
  using assms by (fastforce simp: separated_Cons rule_codes_def range_codes_def)

lemma separated_start_least:
  assumes "separated (r # rs)" "c \<in> rule_codes (r # rs)"
  shows "start r \<le> c"
  using assms separated_rest_above [OF assms(1)]
  by (fastforce simp: separated_Cons range_codes_def)

lemma separated_hd_end_le:
  assumes "separated (r # rs)" "separated (q # qs)" "rule_codes (r # rs) = rule_codes (q # qs)"
    and "start r = start q"
  shows "end_code q \<le> end_code r"
proof (rule ccontr)
  assume "\<not> ?thesis"
  then have "end_code r + 1 \<in> range_codes q"
    using assms(1,4) by (auto simp: range_codes_def separated_Cons)
  then have "end_code r + 1 \<in> rule_codes (r # rs)"
    unfolding assms(3) by simp
  with separated_rest_above [OF assms(1)] show False
    by (auto simp: range_codes_def)
qed

lemma separated_unique:
  "separated rs \<Longrightarrow> separated qs \<Longrightarrow> rule_codes rs = rule_codes qs \<Longrightarrow> rs = qs"
proof (induction rs arbitrary: qs)
  case Nil
  then show ?case
    by (cases qs) (auto simp: separated_Cons range_codes_def)
next
  case (Cons r rs)
  then obtain q qs' where qs: "qs = q # qs'"
    by (cases qs) (auto simp: separated_Cons range_codes_def)
  have in_own: "start r \<in> rule_codes (r # rs)" "start q \<in> rule_codes (q # qs')"
    using Cons.prems by (auto simp: qs separated_Cons range_codes_def)
  have st: "start r = start q"
    using separated_start_least [of r rs "start q"] separated_start_least [of q qs' "start r"]
      Cons.prems in_own unfolding qs by (intro order_antisym) auto
  moreover have en: "end_code r = end_code q"
    using separated_hd_end_le [of r rs q qs'] separated_hd_end_le [of q qs' r rs] Cons.prems st
    unfolding qs by (intro order_antisym) auto
  ultimately have rq: "r = q" by simp
  have "rule_codes rs = rule_codes (r # rs) - range_codes r"
    using separated_rest_above [OF Cons.prems(1)] by (fastforce simp: range_codes_def)
  moreover have "rule_codes qs' = rule_codes (q # qs') - range_codes q"
    using separated_rest_above [OF Cons.prems(2) [unfolded qs]] by (fastforce simp: range_codes_def)
  ultimately have "rule_codes rs = rule_codes qs'"
    using Cons.prems(3) rq unfolding qs by simp
  then show ?case
    using Cons.IH [of qs'] Cons.prems rq unfolding qs by (simp add: separated_Cons)
qed

section \<open>Tokens and their text\<close>

lemma nat_str_no_char: "c < 48 \<or> 57 < c \<Longrightarrow> c \<notin> set (nat_str n)"
  using nat_str_digits [of c n] by (auto simp: is_digit_def)

lemma range_token_chars: "c \<in> set (range_token r) \<Longrightarrow> is_digit c \<or> c = 45"
  by (auto simp: range_token_def dest: nat_str_digits split: if_splits)

lemma range_token_plain:
  "c \<in> set (range_token r) \<Longrightarrow> \<not> is_space c \<and> c \<noteq> 44 \<and> c \<noteq> 65292"
  by (auto dest!: range_token_chars simp: is_digit_def is_space_def)

lemma filter_trim: "filter (\<lambda>c. \<not> is_space c) (trim s) = filter (\<lambda>c. \<not> is_space c) s"
proof -
  have "filter (\<lambda>c. \<not> is_space c) (dropWhile is_space t) = filter (\<lambda>c. \<not> is_space c) t" for t
    by (induction t) auto
  then show ?thesis by (simp add: trim_def rev_filter [symmetric])
qed

lemma range_token_not_Nil [simp]: "range_token r \<noteq> []"
  by (simp add: range_token_def)

lemma trim_range_token [simp]: "trim (range_token r) = range_token r"
  by (rule trim_no_ws_ends) (use range_token_plain hd_in_set last_in_set range_token_not_Nil in blast)

lemma filter_range_token: "filter (\<lambda>c. \<not> is_space c) (range_token r) = range_token r"
  by (simp add: filter_id_conv range_token_plain)

lemma isNumber_nat_str [simp]: "isNumber (nat_str n)"
  by (auto simp: isNumber_def list_all_iff dest: nat_str_digits)

lemma parseToken_range_token:
  assumes "valid_range r"
  shows "parseToken (range_token r) = Some r"
proof (cases "start r = end_code r")
  case True
  then have "45 \<notin> set (range_token r)" "isNumber (range_token r)" "digits_val (range_token r) = start r"
    by (simp_all add: range_token_def nat_str_no_char)
  with assms True show ?thesis
    by (simp add: parseToken_def filter_range_token valid_range_def Let_def)
next
  case False
  then have "45 \<in> set (range_token r)"
    "split_on 45 (range_token r) = [nat_str (start r), nat_str (end_code r)]"
    by (simp_all add: range_token_def split_on_append_sep split_on_plain nat_str_no_char)
  with assms show ?thesis
    by (simp add: parseToken_def filter_range_token valid_range_def Let_def)
qed

lemma mergeRanges_separated: "separated rs \<Longrightarrow> mergeRanges rs = rs"
  using mergeRanges_correct [of rs] by (intro separated_unique) (auto simp: separated_def)

lemma mergeRanges_valid:
  assumes "\<forall>r \<in> set rs. valid_range r" "r \<in> set (mergeRanges rs)"
  shows "valid_range r"
proof -
  have le: "\<forall>r \<in> set rs. start r \<le> end_code r"
    using assms(1) by (auto simp: valid_range_def)
  have "start r \<le> end_code r"
    using mergeRanges_correct(1) [OF le] assms(2) by (auto simp: separated_def)
  then have "range_codes r \<subseteq> rule_codes rs" "start r \<in> range_codes r" "end_code r \<in> range_codes r"
    using mergeRanges_correct(2) [OF le] assms(2) by (auto simp: rule_codes_def range_codes_def)
  then have "start r \<in> rule_codes rs" "end_code r \<in> rule_codes rs"
    by auto
  then show ?thesis
    using assms(1) \<open>start r \<le> end_code r\<close>
    by (fastforce simp: rule_codes_def range_codes_def valid_range_def isValidCode_def)
qed

lemma hd_join: "x \<noteq> [] \<Longrightarrow> hd (join sep (x # xs)) = hd x"
  by (cases xs) auto

lemma last_join: "xs \<noteq> [] \<Longrightarrow> last xs \<noteq> [] \<Longrightarrow> last (join sep xs) = last (last xs)"
proof (induction sep xs rule: join.induct)
  case (3 sep x y zs)
  moreover have "join sep (y # zs) \<noteq> []"
    using "3.prems"(2) join_eq_Nil [of sep "y # zs" "last (y # zs)"] last_in_set [of "y # zs"] by auto
  ultimately show ?case by simp
qed auto

lemma set_join_subset: "set (join sep xs) \<subseteq> set sep \<union> (\<Union>x \<in> set xs. set x)"
  by (induction sep xs rule: join.induct) auto

lemma trim_join_tokens: "trim (join [44] (map range_token rs)) = join [44] (map range_token rs)"
proof (cases rs)
  case (Cons r rs')
  have "hd (join [44] (map range_token rs)) = hd (range_token r)"
    by (simp add: Cons hd_join)
  moreover have "last (join [44] (map range_token rs)) = last (range_token (last rs))"
    by (simp add: Cons last_join last_map)
  ultimately show ?thesis
    using range_token_plain [OF hd_in_set] range_token_plain [OF last_in_set]
    by (intro trim_no_ws_ends) simp
qed simp

lemma rule_segments_tokens:
  assumes "rs \<noteq> []"
  shows "rule_segments (join [44] (map range_token rs)) = map range_token rs"
proof -
  have "65292 \<notin> set (join [44] (map range_token rs))"
    using set_join_subset [of "[44]" "map range_token rs"] range_token_plain by fastforce
  then have "map (\<lambda>c. if c = 65292 then 44 else c) (join [44] (map range_token rs)) =
      join [44] (map range_token rs)"
    by (intro map_idI) auto
  moreover have "split_on 44 (join [44] (map range_token rs)) = map range_token rs"
    using assms range_token_plain by (intro split_on_join) auto
  ultimately show ?thesis
    by (simp add: rule_segments_def comp_def filter_map filter_True)
qed

section \<open>Properties\<close>

lemma rule_segments_Nil [simp]: "rule_segments [] = []"
  by (simp add: rule_segments_def)

lemma mergeRanges_Nil [simp]: "mergeRanges [] = []"
  by (simp add: mergeRanges_def)

lemma parse_rules_ok_iff:
  "ok (parseHttpStatusCodeRules (Some s)) \<longleftrightarrow> (\<forall>t \<in> set (rule_segments (trim s)). parseToken t \<noteq> None)"
  by (cases "trim s = []")
    (simp_all add: parseHttpStatusCodeRules_def opt_str_def Let_def filter_empty_conv)

lemma parse_rules_ok:
  assumes "ok (parseHttpStatusCodeRules (Some s))"
  shows "parseHttpStatusCodeRules (Some s) =
    (let m = mergeRanges (List.map_filter parseToken (rule_segments (trim s))) in
     \<lparr>ok = True, ranges = m, tokens = map range_token m, normalized = join [44] (map range_token m),
      invalidTokens = []\<rparr>)"
  using assms unfolding parse_rules_ok_iff
  by (cases "trim s = []")
    (simp_all add: parseHttpStatusCodeRules_def opt_str_def Let_def filter_empty_conv List.map_filter_def)

lemma map_filter_parse_valid: "\<forall>r \<in> set (List.map_filter parseToken ts). valid_range r"
  by (auto simp: List.map_filter_def dest: parseToken_valid)

lemma parse_rules_ranges:
  assumes "ok (parseHttpStatusCodeRules (Some s))"
  shows "separated (ranges (parseHttpStatusCodeRules (Some s)))"
    and "\<forall>r \<in> set (ranges (parseHttpStatusCodeRules (Some s))). valid_range r"
    and "rule_codes (ranges (parseHttpStatusCodeRules (Some s))) =
      rule_codes (List.map_filter parseToken (rule_segments (trim s)))"
proof -
  let ?rs = "List.map_filter parseToken (rule_segments (trim s))"
  have m: "ranges (parseHttpStatusCodeRules (Some s)) = mergeRanges ?rs"
    by (simp add: parse_rules_ok [OF assms] Let_def)
  have "\<forall>r \<in> set ?rs. start r \<le> end_code r"
    using map_filter_parse_valid valid_range_def by blast
  then show "separated (ranges (parseHttpStatusCodeRules (Some s)))"
    and "rule_codes (ranges (parseHttpStatusCodeRules (Some s))) = rule_codes ?rs"
    unfolding m by (rule mergeRanges_correct)+
  show "\<forall>r \<in> set (ranges (parseHttpStatusCodeRules (Some s))). valid_range r"
    unfolding m using mergeRanges_valid [OF map_filter_parse_valid] by blast
qed

text \<open>
  C11: when the text parses, the ranges of the result cover exactly the status codes of its
  tokens, are strictly ordered with a gap of at least one code between neighbours, and stay
  between 100 and 599.
\<close>

theorem parseHttpStatusCodeRules_denotes:
  assumes "ok (parseHttpStatusCodeRules (Some s))"
  shows "rule_codes (ranges (parseHttpStatusCodeRules (Some s))) =
      (\<Union>t \<in> set (rule_segments (trim s)). case parseToken t of None \<Rightarrow> {} | Some r \<Rightarrow> range_codes r)
    \<and> separated (ranges (parseHttpStatusCodeRules (Some s)))
    \<and> (\<forall>r \<in> set (ranges (parseHttpStatusCodeRules (Some s))). valid_range r)"
proof -
  have "rule_codes (List.map_filter parseToken ts) =
      (\<Union>t \<in> set ts. case parseToken t of None \<Rightarrow> {} | Some r \<Rightarrow> range_codes r)" for ts
    by (auto simp: rule_codes_def List.map_filter_def split: option.splits)
  then show ?thesis
    using parse_rules_ranges [OF assms] by simp
qed

theorem parseHttpStatusCodeRules_denotes_witness:
  "ok (parseHttpStatusCodeRules (Some (js ''502-504, 429,500-501''))) \<and>
   rule_codes (ranges (parseHttpStatusCodeRules (Some (js ''502-504, 429,500-501'')))) = {429} \<union> {500..504}"
proof -
  let ?s = "js ''502-504, 429,500-501''"
  have p: "parseHttpStatusCodeRules (Some ?s) =
    \<lparr>ok = True, ranges = [\<lparr>start = 429, end_code = 429\<rparr>, \<lparr>start = 500, end_code = 504\<rparr>],
     tokens = [js ''429'', js ''500-504''], normalized = js ''429,500-504'', invalidTokens = []\<rparr>"
    by (simp add: js_eval nat_str.simps List.map_filter_def)
  have "ok (parseHttpStatusCodeRules (Some ?s))" by (simp add: p)
  from parseHttpStatusCodeRules_denotes [OF this] this show ?thesis
    by (simp add: p range_codes_def)
qed

text \<open>
  the normalized text is a normal form. Two texts that parse and denote the same set of
  status codes give the same ranges, the same tokens and the same normalized text.
\<close>

theorem parseHttpStatusCodeRules_normal_form:
  assumes "ok (parseHttpStatusCodeRules (Some s))" "ok (parseHttpStatusCodeRules (Some t))"
    and "rule_codes (ranges (parseHttpStatusCodeRules (Some s))) =
         rule_codes (ranges (parseHttpStatusCodeRules (Some t)))"
  shows "parseHttpStatusCodeRules (Some s) = parseHttpStatusCodeRules (Some t)"
proof -
  have "ranges (parseHttpStatusCodeRules (Some s)) = ranges (parseHttpStatusCodeRules (Some t))"
    using parse_rules_ranges(1) [OF assms(1)] parse_rules_ranges(1) [OF assms(2)] assms(3)
    by (rule separated_unique)
  then show ?thesis
    unfolding parse_rules_ok [OF assms(1)] parse_rules_ok [OF assms(2)] by (simp add: Let_def)
qed

theorem parseHttpStatusCodeRules_normal_form_witness:
  "parseHttpStatusCodeRules (Some (js ''500,501'')) = parseHttpStatusCodeRules (Some (js '' 500 - 501,500''))"
proof -
  have p: "parseHttpStatusCodeRules (Some (js ''500,501'')) =
    \<lparr>ok = True, ranges = [\<lparr>start = 500, end_code = 501\<rparr>], tokens = [js ''500-501''],
     normalized = js ''500-501'', invalidTokens = []\<rparr>"
    by (simp add: js_eval nat_str.simps List.map_filter_def)
  have q: "parseHttpStatusCodeRules (Some (js '' 500 - 501,500'')) =
    \<lparr>ok = True, ranges = [\<lparr>start = 500, end_code = 501\<rparr>], tokens = [js ''500-501''],
     normalized = js ''500-501'', invalidTokens = []\<rparr>"
    by (simp add: js_eval nat_str.simps List.map_filter_def)
  show ?thesis
    by (rule parseHttpStatusCodeRules_normal_form) (simp_all add: p q)
qed

lemma map_filter_range_token:
  "\<forall>r \<in> set rs. valid_range r \<Longrightarrow> List.map_filter parseToken (map range_token rs) = rs"
  by (induction rs) (simp_all add: parseToken_range_token)

text \<open>
  the round trip of the settings page. Parsing the normalized text of a result that parsed
  gives that result again: same ranges, same tokens, same text, no invalid token.
\<close>

theorem parseHttpStatusCodeRules_roundtrip:
  assumes "ok (parseHttpStatusCodeRules (Some s))"
  shows "parseHttpStatusCodeRules (Some (normalized (parseHttpStatusCodeRules (Some s)))) =
    parseHttpStatusCodeRules (Some s)"
proof -
  define m where "m = ranges (parseHttpStatusCodeRules (Some s))"
  have p: "parseHttpStatusCodeRules (Some s) =
    \<lparr>ok = True, ranges = m, tokens = map range_token m, normalized = join [44] (map range_token m),
     invalidTokens = []\<rparr>"
    unfolding m_def parse_rules_ok [OF assms] by (simp add: Let_def)
  have v: "\<forall>r \<in> set m. valid_range r" and sep: "separated m"
    using parse_rules_ranges [OF assms] by (simp_all add: m_def)
  let ?n = "join [44] (map range_token m)"
  have segs: "rule_segments (trim ?n) = map range_token m"
    unfolding trim_join_tokens by (cases "m = []") (simp_all add: rule_segments_tokens)
  then have "ok (parseHttpStatusCodeRules (Some ?n))"
    using v by (auto simp: parse_rules_ok_iff parseToken_range_token)
  from parse_rules_ok [OF this] have "parseHttpStatusCodeRules (Some ?n) = parseHttpStatusCodeRules (Some s)"
    unfolding segs map_filter_range_token [OF v] mergeRanges_separated [OF sep]
    by (simp add: p Let_def)
  then show ?thesis by (simp add: p)
qed

theorem parseHttpStatusCodeRules_roundtrip_witness:
  "parseHttpStatusCodeRules (Some (js ''400,500-503'')) = parseHttpStatusCodeRules (Some (js ''500-502,,503, 400''))"
proof -
  let ?s = "js ''500-502,,503, 400''"
  have p: "parseHttpStatusCodeRules (Some ?s) =
    \<lparr>ok = True, ranges = [\<lparr>start = 400, end_code = 400\<rparr>, \<lparr>start = 500, end_code = 503\<rparr>],
     tokens = [js ''400'', js ''500-503''], normalized = js ''400,500-503'', invalidTokens = []\<rparr>"
    by (simp add: js_eval nat_str.simps List.map_filter_def)
  have "ok (parseHttpStatusCodeRules (Some ?s))" by (simp add: p)
  from parseHttpStatusCodeRules_roundtrip [OF this] show ?thesis by (simp add: p)
qed

text \<open>
  the error branch. A text is refused exactly when one of its non-empty segments does not
  parse; then no range is returned, the text is kept as typed (trimmed) and the invalid tokens
  are the refused segments in order. A missing input is the empty rule.
\<close>

theorem parseHttpStatusCodeRules_errors:
  "ok (parseHttpStatusCodeRules (Some s)) = list_all (\<lambda>t. parseToken t \<noteq> None) (rule_segments (trim s))
   \<and> invalidTokens (parseHttpStatusCodeRules (Some s)) = filter (\<lambda>t. parseToken t = None) (rule_segments (trim s))
   \<and> (ok (parseHttpStatusCodeRules (Some s)) \<or>
      ranges (parseHttpStatusCodeRules (Some s)) = [] \<and> tokens (parseHttpStatusCodeRules (Some s)) = [] \<and>
      normalized (parseHttpStatusCodeRules (Some s)) = trim s)
   \<and> parseHttpStatusCodeRules None = parseHttpStatusCodeRules (Some [])"
  by (cases "trim s = []")
    (auto simp: parseHttpStatusCodeRules_def opt_str_def Let_def filter_empty_conv list_all_iff)

text \<open>
  a range token with more than two parts is accepted: everything after the second part is
  dropped, whatever it holds. The server's own parser refuses such a token
  (\<open>parseHTTPStatusCodeToken\<close> requires exactly two parts).
\<close>

theorem parseToken_ignores_extra_parts:
  assumes "valid_range r" "start r < end_code r"
  shows "parseToken (range_token r @ [45] @ junk) = Some r"
proof -
  let ?t = "range_token r @ [45] @ junk"
  have c: "filter (\<lambda>c. \<not> is_space c) (trim ?t) =
      nat_str (start r) @ 45 # nat_str (end_code r) @ 45 # filter (\<lambda>c. \<not> is_space c) junk"
    using assms(2) by (simp add: filter_trim filter_range_token) (simp add: range_token_def is_space_def)
  have "split_on 45 (filter (\<lambda>c. \<not> is_space c) (trim ?t)) =
      nat_str (start r) # nat_str (end_code r) # split_on 45 (filter (\<lambda>c. \<not> is_space c) junk)"
    unfolding c by (simp add: split_on_append_sep nat_str_no_char)
  moreover have "45 \<in> set (filter (\<lambda>c. \<not> is_space c) (trim ?t))"
    unfolding c by simp
  ultimately show ?thesis
    using assms(1) by (simp add: parseToken_def valid_range_def Let_def c del: append.simps)
qed

theorem parseToken_ignores_extra_parts_witness:
  "parseToken (js ''500-503-x'') = Some \<lparr>start = 500, end_code = 503\<rparr>"
proof -
  have "parseToken (range_token \<lparr>start = 500, end_code = 503\<rparr> @ [45] @ js ''x'') =
      Some \<lparr>start = 500, end_code = 503\<rparr>"
    by (rule parseToken_ignores_extra_parts) (simp_all add: valid_range_def isValidCode_def)
  then show ?thesis by (simp add: range_token_def nat_str.simps js_eval)
qed

end
