(* ===== verification/Flow_Paths.thy ===== *)
theory Flow_Paths
  imports Js_Prelude
begin

text \<open>
  The first half of the dashboard's flow view (\<open>features/dashboard/lib/flow.ts\<close>): quota rows
  become paths of nodes, one node per visible stage; rows are filtered by selected users and
  nodes; and the nodes outside the top of each stage are aggregated or hidden.

  Ids, counters and quotas are integers, as the server's \<open>QuotaData\<close> declares them, so the
  sums are exact below \<open>2^53\<close>. \<open>localeCompare\<close> is the parameter \<open>lc\<close>.
\<close>

section \<open>Data\<close>

datatype FlowMetric = QuotaMetric | TokensMetric | RequestsMetric

datatype FlowOverflowMode = AggregateOverflow | HideOverflow

datatype FlowRole = UserRole | AdminRole | RootRole

datatype FlowNodeKind = UserKind | NodeKind | TokenKind | GroupKind | ModelKind | ChannelKind

record FlowQuotaDataItem =
  user_id :: "int option"
  username :: "jstring option"
  node_name :: "jstring option"
  use_group :: "jstring option"
  token_id :: "int option"
  token_name :: "jstring option"
  channel_id :: "int option"
  channel_name :: "jstring option"
  model_name :: "jstring option"
  token_used :: "int option"
  row_count :: "int option"
  row_quota :: "int option"

record FlowMetrics =
  m_quota :: int
  m_tokens :: int
  m_requests :: int

record FlowPathNode =
  pn_id :: jstring
  pn_label :: jstring
  pn_kind :: FlowNodeKind

record FlowNodeFilter =
  nf_kind :: FlowNodeKind
  nf_id :: jstring

record FlowNodeRank =
  rank_node :: FlowPathNode
  rank_value :: int

type_synonym FlowPathContext = "(int \<Rightarrow> jstring) option"
  \<comment> \<open>the optional \<open>deletedTokenLabel\<close>\<close>

section \<open>Rows to nodes\<close>

definition numberValue :: "int option \<Rightarrow> int" where
  \<comment> \<open>\<open>Number(undefined)\<close> is NaN, which counts as 0\<close>
  "numberValue value = (case value of None \<Rightarrow> 0 | Some n \<Rightarrow> n)"

definition rowMetrics :: "FlowQuotaDataItem \<Rightarrow> FlowMetrics" where
  "rowMetrics row =
     \<lparr>m_quota = numberValue (row_quota row), m_tokens = numberValue (token_used row),
      m_requests = numberValue (row_count row)\<rparr>"

definition metricValue :: "FlowMetrics \<Rightarrow> FlowMetric \<Rightarrow> int" where
  "metricValue metrics metric =
     (case metric of RequestsMetric \<Rightarrow> m_requests metrics
      | TokensMetric \<Rightarrow> m_tokens metrics
      | QuotaMetric \<Rightarrow> m_quota metrics)"

definition userNode :: "FlowQuotaDataItem \<Rightarrow> FlowPathNode" where
  "userNode row =
     (let userID = numberValue (user_id row); name = opt_str (username row) in
      \<lparr>pn_id = (if userID > 0 then js ''user:'' @ int_str userID
                else js ''user:'' @ str_or name (js ''unknown'')),
       pn_label = str_or name
         (if userID > 0 then js ''user-'' @ int_str userID else js ''Unknown User''),
       pn_kind = UserKind\<rparr>)"

definition nodeNameNode :: "FlowQuotaDataItem \<Rightarrow> FlowPathNode" where
  "nodeNameNode row =
     (let nodeName = str_or (opt_str (node_name row)) (js ''default-node'') in
      \<lparr>pn_id = js ''node:'' @ nodeName, pn_label = nodeName, pn_kind = NodeKind\<rparr>)"

definition deletedTokenLabel :: "int \<Rightarrow> FlowPathContext \<Rightarrow> jstring" where
  "deletedTokenLabel tokenID ctx =
     (if tokenID \<le> 0 then js ''Unknown Token''
      else (case ctx of Some f \<Rightarrow> f tokenID | None \<Rightarrow> js ''token-'' @ int_str tokenID))"

definition tokenNode :: "FlowQuotaDataItem \<Rightarrow> FlowPathContext \<Rightarrow> FlowPathNode" where
  "tokenNode row ctx =
     (let tokenID = numberValue (token_id row); name = opt_str (token_name row) in
      \<lparr>pn_id = (if tokenID > 0 then js ''token:'' @ int_str tokenID
                else js ''token:'' @ str_or name (js ''unknown'')),
       pn_label = str_or name (deletedTokenLabel tokenID ctx),
       pn_kind = TokenKind\<rparr>)"

definition groupNode :: "FlowQuotaDataItem \<Rightarrow> FlowPathNode" where
  "groupNode row =
     (let useGroup = str_or (opt_str (use_group row)) (js ''unknown'') in
      \<lparr>pn_id = js ''group:'' @ useGroup, pn_label = useGroup, pn_kind = GroupKind\<rparr>)"

definition modelNode :: "FlowQuotaDataItem \<Rightarrow> FlowPathNode" where
  "modelNode row =
     (let name = opt_str (model_name row) in
      \<lparr>pn_id = js ''model:'' @ str_or name (js ''unknown''),
       pn_label = str_or name (js ''Unknown Model''), pn_kind = ModelKind\<rparr>)"

definition channelNode :: "FlowQuotaDataItem \<Rightarrow> FlowPathNode" where
  "channelNode row =
     (let channelID = numberValue (channel_id row); name = opt_str (channel_name row) in
      \<lparr>pn_id = (if channelID > 0 then js ''channel:'' @ int_str channelID
                else js ''channel:'' @ str_or name (js ''unknown'')),
       pn_label = str_or name
         (if channelID > 0 then js ''channel-'' @ int_str channelID else js ''Unknown''),
       pn_kind = ChannelKind\<rparr>)"

fun NODE_BUILDERS :: "FlowNodeKind \<Rightarrow> FlowQuotaDataItem \<Rightarrow> FlowPathContext \<Rightarrow> FlowPathNode" where
  "NODE_BUILDERS UserKind row ctx = userNode row"
| "NODE_BUILDERS NodeKind row ctx = nodeNameNode row"
| "NODE_BUILDERS TokenKind row ctx = tokenNode row ctx"
| "NODE_BUILDERS GroupKind row ctx = groupNode row"
| "NODE_BUILDERS ModelKind row ctx = modelNode row"
| "NODE_BUILDERS ChannelKind row ctx = channelNode row"

section \<open>Stages\<close>

fun getFlowStages :: "FlowRole \<Rightarrow> FlowNodeKind list" where
  \<comment> \<open>\<open>ROLE_FLOW_STAGES\<close>\<close>
  "getFlowStages RootRole = [UserKind, NodeKind, TokenKind, GroupKind, ModelKind, ChannelKind]"
| "getFlowStages AdminRole = [UserKind, GroupKind, ModelKind, ChannelKind]"
| "getFlowStages UserRole = [TokenKind, GroupKind, ModelKind]"

definition MIN_FLOW_STAGES :: nat where
  "MIN_FLOW_STAGES = 2"

definition resolveVisibleStages :: "FlowRole \<Rightarrow> FlowNodeKind list option \<Rightarrow> FlowNodeKind list" where
  "resolveVisibleStages role visibleStages =
     (let stages = getFlowStages role in
      case visibleStages of
        None \<Rightarrow> stages
      | Some visible \<Rightarrow>
          (let filtered = filter (\<lambda>stage. stage \<in> set visible) stages in
           if length filtered \<ge> MIN_FLOW_STAGES then filtered else stages))"

definition flowPathForStages ::
  "FlowQuotaDataItem \<Rightarrow> FlowNodeKind list \<Rightarrow> FlowPathContext \<Rightarrow> FlowPathNode list" where
  "flowPathForStages row stages ctx = map (\<lambda>stage. NODE_BUILDERS stage row ctx) stages"

section \<open>Row filters\<close>

definition filterRows :: "FlowQuotaDataItem list \<Rightarrow> jstring list option \<Rightarrow> FlowQuotaDataItem list" where
  "filterRows rows selectedUsers =
     (let selected = uniq (case selectedUsers of None \<Rightarrow> [] | Some us \<Rightarrow> us) in
      if selected = [] then rows
      else filter (\<lambda>row. pn_id (userNode row) \<in> set selected) rows)"

definition add_to_group :: "('k \<times> 'v list) list \<Rightarrow> 'k \<Rightarrow> 'v \<Rightarrow> ('k \<times> 'v list) list" where
  \<comment> \<open>\<open>const s = m.get(k) ?? new Set(); s.add(v); m.set(k, s)\<close>\<close>
  "add_to_group m k v =
     (let s = (case map_of m k of None \<Rightarrow> [] | Some s \<Rightarrow> s) in
      AList.update k (if v \<in> set s then s else s @ [v]) m)"

definition normalizeSelectedNodeFilters ::
  "FlowNodeFilter list option \<Rightarrow> FlowNodeKind list \<Rightarrow> (FlowNodeKind \<times> jstring list) list" where
  "normalizeSelectedNodeFilters selectedNodes stages =
     foldl (\<lambda>filters f.
         if nf_kind f \<notin> set stages then filters else add_to_group filters (nf_kind f) (nf_id f))
       [] (case selectedNodes of None \<Rightarrow> [] | Some ns \<Rightarrow> ns)"

definition pathMatchesNodeFilters ::
  "FlowPathNode list \<Rightarrow> (FlowNodeKind \<times> jstring list) list \<Rightarrow> bool" where
  "pathMatchesNodeFilters path filters =
     (if filters = [] then True
      else
        (let pathNodesByKind = foldl (\<lambda>m node. add_to_group m (pn_kind node) (pn_id node)) [] path in
         list_all (\<lambda>(kind, selectedIds).
             case map_of pathNodesByKind kind of
               None \<Rightarrow> False
             | Some pathIds \<Rightarrow> list_ex (\<lambda>i. i \<in> set pathIds) selectedIds) filters))"

definition filterRowsByNodes ::
  "FlowQuotaDataItem list \<Rightarrow> FlowNodeFilter list option \<Rightarrow> FlowNodeKind list \<Rightarrow> FlowPathContext \<Rightarrow>
   FlowQuotaDataItem list" where
  "filterRowsByNodes rows selectedNodes stages ctx =
     (let filters = normalizeSelectedNodeFilters selectedNodes stages in
      if filters = [] then rows
      else filter (\<lambda>row. pathMatchesNodeFilters (flowPathForStages row stages ctx) filters) rows)"

definition selectedNodeFiltersExceptKind ::
  "FlowNodeFilter list option \<Rightarrow> FlowNodeKind \<Rightarrow> FlowNodeFilter list option" where
  "selectedNodeFiltersExceptKind selectedNodes kind =
     (let filtered = filter (\<lambda>f. nf_kind f \<noteq> kind) (case selectedNodes of None \<Rightarrow> [] | Some ns \<Rightarrow> ns) in
      if length filtered > 0 then Some filtered else None)"

section \<open>The top nodes of each stage\<close>

fun OTHER_FLOW_NODE_IDS :: "FlowNodeKind \<Rightarrow> jstring" where
  "OTHER_FLOW_NODE_IDS UserKind = js ''user:__other__''"
| "OTHER_FLOW_NODE_IDS NodeKind = js ''node:__other__''"
| "OTHER_FLOW_NODE_IDS TokenKind = js ''token:__other__''"
| "OTHER_FLOW_NODE_IDS GroupKind = js ''group:__other__''"
| "OTHER_FLOW_NODE_IDS ModelKind = js ''model:__other__''"
| "OTHER_FLOW_NODE_IDS ChannelKind = js ''channel:__other__''"

fun DEFAULT_OTHER_FLOW_NODE_LABELS :: "FlowNodeKind \<Rightarrow> jstring" where
  "DEFAULT_OTHER_FLOW_NODE_LABELS UserKind = js ''Other users''"
| "DEFAULT_OTHER_FLOW_NODE_LABELS NodeKind = js ''Other nodes''"
| "DEFAULT_OTHER_FLOW_NODE_LABELS TokenKind = js ''Other tokens''"
| "DEFAULT_OTHER_FLOW_NODE_LABELS GroupKind = js ''Other groups''"
| "DEFAULT_OTHER_FLOW_NODE_LABELS ModelKind = js ''Other models''"
| "DEFAULT_OTHER_FLOW_NODE_LABELS ChannelKind = js ''Other channels''"

definition otherFlowNode :: "FlowNodeKind \<Rightarrow> (FlowNodeKind \<Rightarrow> jstring) option \<Rightarrow> FlowPathNode" where
  "otherFlowNode kind labeler =
     \<lparr>pn_id = OTHER_FLOW_NODE_IDS kind,
      pn_label = (case labeler of Some f \<Rightarrow> f kind | None \<Rightarrow> DEFAULT_OTHER_FLOW_NODE_LABELS kind),
      pn_kind = kind\<rparr>"

definition normalizeTopNodeLimit :: "rat option \<Rightarrow> nat option" where
  "normalizeTopNodeLimit limit =
     (case limit of None \<Rightarrow> None
      | Some l \<Rightarrow> (let parsed = floor l in if parsed > 0 then Some (nat parsed) else None))"

definition rank_compare :: "(jstring \<Rightarrow> jstring \<Rightarrow> int) \<Rightarrow> FlowNodeRank \<Rightarrow> FlowNodeRank \<Rightarrow> int" where
  "rank_compare lc a b =
     num_or (rank_value b - rank_value a)
       (num_or (lc (pn_label (rank_node a)) (pn_label (rank_node b)))
         (lc (pn_id (rank_node a)) (pn_id (rank_node b))))"

definition add_rank ::
  "(jstring \<times> FlowNodeRank) list \<Rightarrow> FlowPathNode \<Rightarrow> int \<Rightarrow> (jstring \<times> FlowNodeRank) list" where
  "add_rank stageTotals node value =
     (let current = (case map_of stageTotals (pn_id node) of
          None \<Rightarrow> \<lparr>rank_node = node, rank_value = 0\<rparr> | Some r \<Rightarrow> r) in
      AList.update (pn_id node) (current\<lparr>rank_value := rank_value current + value\<rparr>) stageTotals)"

definition add_node_total ::
  "int \<Rightarrow> (FlowNodeKind \<times> (jstring \<times> FlowNodeRank) list) list \<Rightarrow> FlowPathNode \<Rightarrow>
   (FlowNodeKind \<times> (jstring \<times> FlowNodeRank) list) list" where
  "add_node_total value totals node =
     (case map_of totals (pn_kind node) of
        None \<Rightarrow> totals
      | Some stageTotals \<Rightarrow> AList.update (pn_kind node) (add_rank stageTotals node value) totals)"

definition stage_totals ::
  "FlowQuotaDataItem list \<Rightarrow> FlowMetric \<Rightarrow> FlowNodeKind list \<Rightarrow> FlowPathContext \<Rightarrow>
   (FlowNodeKind \<times> (jstring \<times> FlowNodeRank) list) list" where
  "stage_totals rows metric stages ctx =
     foldl (\<lambda>totals row.
         foldl (add_node_total (metricValue (rowMetrics row) metric)) totals
           (flowPathForStages row stages ctx))
       (foldl (\<lambda>totals stage. AList.update stage [] totals) [] stages) rows"

definition buildTopNodeSets ::
  "(jstring \<Rightarrow> jstring \<Rightarrow> int) \<Rightarrow> FlowQuotaDataItem list \<Rightarrow> FlowMetric \<Rightarrow> FlowNodeKind list \<Rightarrow>
   nat option \<Rightarrow> FlowPathContext \<Rightarrow> (FlowNodeKind \<times> jstring list) list option" where
  "buildTopNodeSets lc rows metric stages limit ctx =
     (case limit of
        None \<Rightarrow> None
      | Some n \<Rightarrow>
          if n = 0 then None
          else Some (map (\<lambda>(kind, stageTotals).
              (kind, map (\<lambda>rank. pn_id (rank_node rank))
                       (take n (js_sort (rank_compare lc) (map snd stageTotals)))))
            (stage_totals rows metric stages ctx)))"

definition isTopFlowNode :: "FlowPathNode \<Rightarrow> (FlowNodeKind \<times> jstring list) list option \<Rightarrow> bool" where
  "isTopFlowNode node topNodeSets =
     (case topNodeSets of
        None \<Rightarrow> True
      | Some sets \<Rightarrow>
          (case map_of sets (pn_kind node) of None \<Rightarrow> True | Some topNodes \<Rightarrow> pn_id node \<in> set topNodes))"

definition applyTopNodeLimit ::
  "FlowPathNode list \<Rightarrow> (FlowNodeKind \<times> jstring list) list option \<Rightarrow> FlowOverflowMode \<Rightarrow>
   (FlowNodeKind \<Rightarrow> jstring) option \<Rightarrow> FlowPathNode list option" where
  "applyTopNodeLimit path topNodeSets mode labeler =
     (if topNodeSets = None then Some path
      else if \<not> list_ex (\<lambda>node. \<not> isTopFlowNode node topNodeSets) path then Some path
      else if mode = HideOverflow then None
      else Some (map (\<lambda>node. if isTopFlowNode node topNodeSets then node
                              else otherFlowNode (pn_kind node) labeler) path))"

lemmas flow_path_eval [js_eval] =
  numberValue_def rowMetrics_def metricValue_def userNode_def nodeNameNode_def deletedTokenLabel_def
  tokenNode_def groupNode_def modelNode_def channelNode_def MIN_FLOW_STAGES_def
  resolveVisibleStages_def flowPathForStages_def filterRows_def add_to_group_def
  normalizeSelectedNodeFilters_def pathMatchesNodeFilters_def filterRowsByNodes_def
  selectedNodeFiltersExceptKind_def otherFlowNode_def normalizeTopNodeLimit_def rank_compare_def
  add_rank_def add_node_total_def stage_totals_def buildTopNodeSets_def isTopFlowNode_def
  applyTopNodeLimit_def

section \<open>Paths: one node per stage, ids that show their kind\<close>

definition kind_letter :: "FlowNodeKind \<Rightarrow> code_unit" where
  "kind_letter k = hd (OTHER_FLOW_NODE_IDS k)"

definition wf_path_node :: "FlowPathNode \<Rightarrow> bool" where
  "wf_path_node n \<longleftrightarrow> pn_id n \<noteq> [] \<and> hd (pn_id n) = kind_letter (pn_kind n)"

definition wf_path :: "FlowNodeKind list \<Rightarrow> FlowPathNode list \<Rightarrow> bool" where
  "wf_path stages path \<longleftrightarrow> map pn_kind path = stages \<and> list_all wf_path_node path"

lemma kind_letter_inject [simp]: "kind_letter k = kind_letter k' \<longleftrightarrow> k = k'"
  by (cases k; cases k') (simp_all add: kind_letter_def js_eval)

lemma pn_kind_NODE_BUILDERS [simp]: "pn_kind (NODE_BUILDERS k row ctx) = k"
  by (cases k) (simp_all add: userNode_def nodeNameNode_def tokenNode_def groupNode_def modelNode_def
      channelNode_def Let_def)

lemma wf_NODE_BUILDERS: "wf_path_node (NODE_BUILDERS k row ctx)"
  by (cases k) (simp_all add: wf_path_node_def userNode_def nodeNameNode_def tokenNode_def groupNode_def
      modelNode_def channelNode_def Let_def kind_letter_def js_Cons)

lemma wf_otherFlowNode: "wf_path_node (otherFlowNode k f)"
  by (cases k) (simp_all add: wf_path_node_def otherFlowNode_def kind_letter_def js_Cons)

lemma pn_kind_otherFlowNode [simp]: "pn_kind (otherFlowNode k f) = k"
  and pn_id_otherFlowNode [simp]: "pn_id (otherFlowNode k f) = OTHER_FLOW_NODE_IDS k"
  by (simp_all add: otherFlowNode_def)

lemma wf_flowPathForStages: "wf_path stages (flowPathForStages row stages ctx)"
  by (simp add: wf_path_def flowPathForStages_def comp_def list_all_iff wf_NODE_BUILDERS)

lemma wf_applyTopNodeLimit:
  assumes "applyTopNodeLimit path sets mode f = Some path'" "wf_path stages path"
  shows "wf_path stages path'"
  using assms
  by (auto simp: applyTopNodeLimit_def wf_path_def list_all_iff wf_otherFlowNode split: if_splits)

lemma wf_path_not_Nil: "wf_path stages path \<Longrightarrow> stages \<noteq> [] \<Longrightarrow> path \<noteq> []"
  by (auto simp: wf_path_def)

lemma wf_path_kind: "wf_path stages path \<Longrightarrow> n \<in> set path \<Longrightarrow> pn_kind n \<in> set stages"
  by (auto simp: wf_path_def)

lemma wf_path_letter: "wf_path stages path \<Longrightarrow> n \<in> set path \<Longrightarrow> hd (pn_id n) = kind_letter (pn_kind n)"
  by (auto simp: wf_path_def list_all_iff wf_path_node_def)

lemma wf_path_kind_id:
  assumes "wf_path stages path" "wf_path stages path'" "n \<in> set path" "n' \<in> set path'" "pn_id n = pn_id n'"
  shows "pn_kind n = pn_kind n'"
  using assms by (auto simp: wf_path_def list_all_iff wf_path_node_def)

section \<open>Visible stages\<close>

lemma distinct_getFlowStages: "distinct (getFlowStages role)"
  by (cases role) auto

lemma distinct_resolveVisibleStages [simp]: "distinct (resolveVisibleStages role visible)"
  by (auto simp: resolveVisibleStages_def Let_def distinct_getFlowStages split: option.splits)

lemma length_getFlowStages: "2 \<le> length (getFlowStages role)"
  by (cases role) auto

lemma two_le_resolveVisibleStages: "2 \<le> length (resolveVisibleStages role visible)"
  by (simp add: resolveVisibleStages_def Let_def MIN_FLOW_STAGES_def length_getFlowStages split: option.splits)

lemma resolveVisibleStages_not_Nil: "resolveVisibleStages role visible \<noteq> []"
  by (cases role) (auto simp: resolveVisibleStages_def Let_def MIN_FLOW_STAGES_def split: option.splits)

text \<open>
  hiding columns never leaves fewer than two, so the graph always has links to draw, and
  the columns shown are the role's own columns in the role's order.
\<close>

theorem resolveVisibleStages_columns:
  "2 \<le> length (resolveVisibleStages role visible) \<and>
   subseq (resolveVisibleStages role visible) (getFlowStages role) \<and>
   (resolveVisibleStages role visible = getFlowStages role \<or>
    set (resolveVisibleStages role visible) = set (getFlowStages role) \<inter> set (the visible))"
  by (auto simp: resolveVisibleStages_def Let_def MIN_FLOW_STAGES_def length_getFlowStages
      split: option.splits)

section \<open>Node filters\<close>

lemma map_of_add_to_group:
  "map_of (add_to_group m k v) k' =
     (if k' = k then Some (case map_of m k of None \<Rightarrow> [v] | Some s \<Rightarrow> if v \<in> set s then s else s @ [v])
      else map_of m k')"
  by (auto simp: add_to_group_def update_conv' split: option.splits)

lemma distinct_add_to_group: "distinct (map fst m) \<Longrightarrow> distinct (map fst (add_to_group m k v))"
  by (simp add: add_to_group_def distinct_update Let_def)

text \<open>Grouping values by key: the entry of a key holds exactly the values added under it.\<close>

definition group_values :: "('k \<times> 'v list) list \<Rightarrow> 'k \<Rightarrow> 'v set" where
  "group_values m k = (case map_of m k of None \<Rightarrow> {} | Some s \<Rightarrow> set s)"

lemma group_values_add: "group_values (add_to_group m k v) k' = group_values m k' \<union> (if k' = k then {v} else {})"
  by (auto simp: group_values_def map_of_add_to_group split: option.splits)

lemma foldl_add_to_group:
  fixes kf :: "'a \<Rightarrow> 'k" and vf :: "'a \<Rightarrow> 'v" and P :: "'a \<Rightarrow> bool"
  defines "g \<equiv> foldl (\<lambda>m x. if P x then add_to_group m (kf x) (vf x) else m)"
  shows "distinct (map fst m) \<Longrightarrow> distinct (map fst (g m xs))"
    and "group_values (g m xs) k = group_values m k \<union> {vf x | x. x \<in> set xs \<and> P x \<and> kf x = k}"
    and "fst ` set (g m xs) = fst ` set m \<union> {kf x | x. x \<in> set xs \<and> P x}"
proof -
  show "distinct (map fst m) \<Longrightarrow> distinct (map fst (g m xs))"
    unfolding g_def by (induction xs arbitrary: m) (auto simp: distinct_add_to_group)
  show "group_values (g m xs) k = group_values m k \<union> {vf x | x. x \<in> set xs \<and> P x \<and> kf x = k}"
    unfolding g_def by (induction xs arbitrary: m) (auto simp: group_values_add)
  show "fst ` set (g m xs) = fst ` set m \<union> {kf x | x. x \<in> set xs \<and> P x}"
    unfolding g_def
    by (induction xs arbitrary: m) (auto simp: add_to_group_def dom_update Let_def)
qed

definition selected_ids :: "FlowNodeFilter list option \<Rightarrow> FlowNodeKind \<Rightarrow> jstring list" where
  "selected_ids sel k = map nf_id (filter (\<lambda>f. nf_kind f = k) (case sel of None \<Rightarrow> [] | Some ns \<Rightarrow> ns))"

lemma normalizeSelectedNodeFilters_entries:
  "distinct (map fst (normalizeSelectedNodeFilters sel stages))"
  "group_values (normalizeSelectedNodeFilters sel stages) k = (if k \<in> set stages then set (selected_ids sel k) else {})"
  "fst ` set (normalizeSelectedNodeFilters sel stages) = {k \<in> set stages. selected_ids sel k \<noteq> []}"
proof -
  let ?xs = "case sel of None \<Rightarrow> [] | Some ns \<Rightarrow> ns"
  have eq: "normalizeSelectedNodeFilters sel stages =
      foldl (\<lambda>m f. if nf_kind f \<in> set stages then add_to_group m (nf_kind f) (nf_id f) else m) [] ?xs"
    unfolding normalizeSelectedNodeFilters_def by (rule arg_cong [where f = "\<lambda>g. foldl g [] ?xs"]) (simp add: fun_eq_iff)
  note fold = foldl_add_to_group [where P = "\<lambda>f. nf_kind f \<in> set stages" and kf = nf_kind and vf = nf_id
      and m = "[]" and xs = ?xs, folded eq]
  show "distinct (map fst (normalizeSelectedNodeFilters sel stages))"
    using fold(1) by simp
  show "group_values (normalizeSelectedNodeFilters sel stages) k = (if k \<in> set stages then set (selected_ids sel k) else {})"
    using fold(2) [of k] by (auto simp: group_values_def selected_ids_def image_iff)
  show "fst ` set (normalizeSelectedNodeFilters sel stages) = {k \<in> set stages. selected_ids sel k \<noteq> []}"
    using fold(3) by (auto simp: selected_ids_def filter_empty_conv)
qed

lemma pathMatchesNodeFilters_iff:
  assumes "distinct (map fst filters)"
  shows "pathMatchesNodeFilters path filters \<longleftrightarrow>
    (\<forall>k \<in> fst ` set filters. \<exists>n \<in> set path. pn_kind n = k \<and> pn_id n \<in> group_values filters k)"
proof -
  define byKind where "byKind = foldl (\<lambda>m node. add_to_group m (pn_kind node) (pn_id node)) [] path"
  have gv: "group_values byKind k = {pn_id n | n. n \<in> set path \<and> pn_kind n = k}" for k
    using foldl_add_to_group(2) [where P = "\<lambda>_. True" and kf = pn_kind and vf = pn_id and m = "[]" and xs = path]
    by (auto simp: byKind_def group_values_def)
  have test: "(case map_of byKind kind of None \<Rightarrow> False | Some pathIds \<Rightarrow> list_ex (\<lambda>i. i \<in> set pathIds) ids)
      \<longleftrightarrow> (\<exists>n \<in> set path. pn_kind n = kind \<and> pn_id n \<in> set ids)" for kind ids
    using gv [of kind] by (auto simp: group_values_def list_ex_iff split: option.splits)
  have "map_of filters k = Some ids" if "(k, ids) \<in> set filters" for k ids
    using that assms by simp
  then have "group_values filters (fst p) = set (snd p)" if "p \<in> set filters" for p
    using that by (cases p) (simp add: group_values_def)
  then have "(\<forall>k \<in> fst ` set filters. \<exists>n \<in> set path. pn_kind n = k \<and> pn_id n \<in> group_values filters k)
      \<longleftrightarrow> (\<forall>p \<in> set filters. \<exists>n \<in> set path. pn_kind n = fst p \<and> pn_id n \<in> set (snd p))"
    by simp
  then show ?thesis
    by (simp add: pathMatchesNodeFilters_def byKind_def [symmetric] test list_all_iff Let_def
        case_prod_beta)
qed

lemma filterRowsByNodes_filter:
  "filterRowsByNodes rows sel stages ctx =
   filter (\<lambda>row. list_all (\<lambda>k. selected_ids sel k = [] \<or>
      pn_id (NODE_BUILDERS k row ctx) \<in> set (selected_ids sel k)) stages) rows"
proof -
  let ?f = "normalizeSelectedNodeFilters sel stages"
  note ent = normalizeSelectedNodeFilters_entries [of sel stages]
  have match: "pathMatchesNodeFilters (flowPathForStages row stages ctx) ?f \<longleftrightarrow>
      list_all (\<lambda>k. selected_ids sel k = [] \<or> pn_id (NODE_BUILDERS k row ctx) \<in> set (selected_ids sel k)) stages" for row
    by (auto simp: pathMatchesNodeFilters_iff [OF ent(1)] ent(2,3) flowPathForStages_def list_all_iff)
  show ?thesis
  proof (cases "?f = []")
    case True
    then have "selected_ids sel k = []" if "k \<in> set stages" for k
      using ent(3) that by auto
    then show ?thesis
      using True by (simp add: filterRowsByNodes_def list_all_iff filter_True)
  next
    case False
    then show ?thesis by (simp add: filterRowsByNodes_def match)
  qed
qed

text \<open>
  node selections combine as the filter panel promises. A row stays exactly when, for every
  visible column with a selection, the row's node of that column is one of the selected ones;
  selections of hidden columns are ignored, and the order of rows is kept.
\<close>

theorem filterRowsByNodes_spec:
  "filterRowsByNodes rows sel stages ctx =
   filter (\<lambda>row. list_all (\<lambda>k. selected_ids sel k = [] \<or>
      pn_id (NODE_BUILDERS k row ctx) \<in> set (selected_ids sel k)) stages) rows"
  by (rule filterRowsByNodes_filter)

section \<open>Ranking the nodes of a stage\<close>

definition rank_entry_node :: "FlowPathNode \<times> int \<Rightarrow> jstring" where
  "rank_entry_node e = pn_id (fst e)"

definition rank_init :: "FlowPathNode \<times> int \<Rightarrow> FlowNodeRank" where
  "rank_init e = \<lparr>rank_node = fst e, rank_value = 0\<rparr>"

definition rank_step :: "FlowPathNode \<times> int \<Rightarrow> FlowNodeRank \<Rightarrow> FlowNodeRank" where
  "rank_step e r = r\<lparr>rank_value := rank_value r + snd e\<rparr>"

lemma add_rank_accum: "add_rank m node value = accum rank_entry_node rank_init rank_step m (node, value)"
  by (auto simp: add_rank_def accum_def rank_entry_node_def rank_init_def rank_step_def Let_def
      split: option.splits)

interpretation rank_acc: accumulator rank_entry_node rank_init rank_step rank_value snd
  by unfold_locales (simp_all add: rank_init_def rank_step_def)

lemma foldl_add_node_total:
  "map_of (foldl (add_node_total v) T path) k =
   map_option (\<lambda>st. foldl (\<lambda>s n. add_rank s n v) st (filter (\<lambda>n. pn_kind n = k) path)) (map_of T k)"
proof (induction path arbitrary: T)
  case (Cons n path)
  show ?case
    unfolding foldl_Cons Cons.IH
    by (cases "map_of T k"; cases "map_of T (pn_kind n)") (auto simp: add_node_total_def update_conv')
qed (simp add: option.map_ident)

definition row_entries ::
  "FlowQuotaDataItem list \<Rightarrow> FlowMetric \<Rightarrow> FlowNodeKind \<Rightarrow> FlowPathContext \<Rightarrow> (FlowPathNode \<times> int) list" where
  "row_entries rows metric k ctx =
     map (\<lambda>row. (NODE_BUILDERS k row ctx, metricValue (rowMetrics row) metric)) rows"

lemma filter_kind_path:
  assumes "distinct stages" "k \<in> set stages"
  shows "filter (\<lambda>n. pn_kind n = k) (flowPathForStages row stages ctx) = [NODE_BUILDERS k row ctx]"
proof -
  have "filter (\<lambda>s. s = k) stages = [k]"
    using assms by (induction stages) (auto simp: filter_empty_conv)
  then show ?thesis by (simp add: flowPathForStages_def filter_map comp_def)
qed

lemma map_of_stage_init:
  "map_of (foldl (\<lambda>t s. AList.update s [] t) T stages) k = (if k \<in> set stages then Some [] else map_of T k)"
  by (induction stages arbitrary: T) (auto simp: update_conv')

lemma map_of_stage_totals:
  assumes "distinct stages" "k \<in> set stages"
  shows "map_of (stage_totals rows metric stages ctx) k =
    Some (foldl (accum rank_entry_node rank_init rank_step) [] (row_entries rows metric k ctx))"
proof -
  let ?step = "\<lambda>totals row. foldl (add_node_total (metricValue (rowMetrics row) metric)) totals
      (flowPathForStages row stages ctx)"
  have "map_of (foldl ?step T rows) k =
      map_option (\<lambda>st. foldl (accum rank_entry_node rank_init rank_step) st (row_entries rows metric k ctx)) (map_of T k)" for T
    by (induction rows arbitrary: T)
      (simp_all add: row_entries_def foldl_add_node_total filter_kind_path [OF assms] add_rank_accum
        option.map_comp comp_def option.map_ident)
  then show ?thesis
    using assms(2) by (simp add: stage_totals_def map_of_stage_init)
qed

definition node_total ::
  "FlowQuotaDataItem list \<Rightarrow> FlowMetric \<Rightarrow> FlowNodeKind \<Rightarrow> FlowPathContext \<Rightarrow> jstring \<Rightarrow> int" where
  "node_total rows metric k ctx i =
     sum_list (map (\<lambda>row. metricValue (rowMetrics row) metric)
       (filter (\<lambda>row. pn_id (NODE_BUILDERS k row ctx) = i) rows))"

definition stage_ranks ::
  "FlowQuotaDataItem list \<Rightarrow> FlowMetric \<Rightarrow> FlowNodeKind \<Rightarrow> FlowPathContext \<Rightarrow> FlowNodeRank list" where
  "stage_ranks rows metric k ctx =
     map snd (foldl (accum rank_entry_node rank_init rank_step) [] (row_entries rows metric k ctx))"

lemma stage_rank_ids:
  "map (\<lambda>r. pn_id (rank_node r)) (stage_ranks rows metric k ctx) =
   map fst (foldl (accum rank_entry_node rank_init rank_step) [] (row_entries rows metric k ctx))"
proof -
  have "pn_id (rank_node r) = i"
    if "(i, r) \<in> set (foldl (accum rank_entry_node rank_init rank_step) [] (row_entries rows metric k ctx))" for i r
    by (rule accum_inv [where I = "\<lambda>i r. pn_id (rank_node r) = i", OF _ _ _ that])
      (auto simp: rank_entry_node_def rank_init_def rank_step_def)
  then show ?thesis by (auto simp: stage_ranks_def)
qed

lemma distinct_stage_rank_ids: "distinct (map (\<lambda>r. pn_id (rank_node r)) (stage_ranks rows metric k ctx))"
  unfolding stage_rank_ids by (simp add: distinct_foldl_accum)

lemma set_stage_rank_ids:
  "(\<lambda>r. pn_id (rank_node r)) ` set (stage_ranks rows metric k ctx) = (\<lambda>row. pn_id (NODE_BUILDERS k row ctx)) ` set rows"
proof -
  have "set (map (\<lambda>r. pn_id (rank_node r)) (stage_ranks rows metric k ctx)) =
      (\<lambda>row. pn_id (NODE_BUILDERS k row ctx)) ` set rows"
    unfolding stage_rank_ids by (auto simp: fst_foldl_accum row_entries_def rank_entry_node_def image_iff)
  then show ?thesis by simp
qed

lemma stage_rank_value:
  assumes "r \<in> set (stage_ranks rows metric k ctx)"
  shows "rank_value r = node_total rows metric k ctx (pn_id (rank_node r))"
proof -
  let ?m = "foldl (accum rank_entry_node rank_init rank_step) [] (row_entries rows metric k ctx)"
  from assms obtain i where i: "(i, r) \<in> set ?m" by (auto simp: stage_ranks_def)
  have "pn_id (rank_node r) = i"
    by (rule accum_inv [where I = "\<lambda>i r. pn_id (rank_node r) = i", OF _ _ _ i])
      (auto simp: rank_entry_node_def rank_init_def rank_step_def)
  with rank_acc.entry [OF i] show ?thesis
    by (simp add: node_total_def row_entries_def rank_entry_node_def filter_map comp_def)
qed

sublocale collation \<subseteq> rank: comparator "rank_compare lc"
  unfolding rank_compare_def
  by (intro comparator_by_value comparator_by_label comparator_label)

definition stage_ids :: "FlowQuotaDataItem list \<Rightarrow> FlowNodeKind \<Rightarrow> FlowPathContext \<Rightarrow> jstring set" where
  "stage_ids rows k ctx = (\<lambda>row. pn_id (NODE_BUILDERS k row ctx)) ` set rows"

definition top_ids ::
  "(jstring \<Rightarrow> jstring \<Rightarrow> int) \<Rightarrow> FlowQuotaDataItem list \<Rightarrow> FlowMetric \<Rightarrow> FlowNodeKind \<Rightarrow> FlowPathContext \<Rightarrow> nat \<Rightarrow>
   jstring list" where
  "top_ids lc rows metric k ctx n =
     map (\<lambda>rank. pn_id (rank_node rank)) (take n (js_sort (rank_compare lc) (stage_ranks rows metric k ctx)))"

lemma map_of_map_snd: "map_of (map (\<lambda>(k, v). (k, f v)) m) k = map_option f (map_of m k)"
  by (induction m) auto

lemma map_of_buildTopNodeSets:
  assumes "distinct stages" "k \<in> set stages" "0 < n"
  shows "\<exists>sets. buildTopNodeSets lc rows metric stages (Some n) ctx = Some sets \<and>
    map_of sets k = Some (top_ids lc rows metric k ctx n)"
  using assms
  by (auto simp: buildTopNodeSets_def map_of_map_snd map_of_stage_totals top_ids_def stage_ranks_def
      simp del: map_map)

lemma map_of_buildTopNodeSets_other:
  assumes "k \<notin> set stages"
  shows "map_of (stage_totals rows metric stages ctx) k = None"
proof -
  have "map_of (foldl (\<lambda>totals row. foldl (add_node_total (metricValue (rowMetrics row) metric)) totals
      (flowPathForStages row stages ctx)) T rows) k = None" if "map_of T k = None" for T
    using that by (induction rows arbitrary: T) (simp_all add: foldl_add_node_total)
  then show ?thesis using assms by (simp add: stage_totals_def map_of_stage_init)
qed

lemma card_stage_ids: "card (stage_ids rows k ctx) = length (stage_ranks rows metric k ctx)"
  using distinct_card [OF distinct_stage_rank_ids] set_stage_rank_ids
  by (metis length_map list.set_map stage_ids_def)

lemma distinct_top_ids: "distinct (top_ids lc rows metric k ctx n)"
proof -
  have "mset (map (\<lambda>r. pn_id (rank_node r)) (js_sort (rank_compare lc) (stage_ranks rows metric k ctx))) =
      mset (map (\<lambda>r. pn_id (rank_node r)) (stage_ranks rows metric k ctx))"
    by (simp only: mset_map mset_js_sort)
  then have "distinct (map (\<lambda>r. pn_id (rank_node r)) (js_sort (rank_compare lc) (stage_ranks rows metric k ctx)))"
    using distinct_stage_rank_ids mset_eq_imp_distinct_iff by blast
  then show ?thesis by (simp add: top_ids_def take_map [symmetric])
qed

lemma length_top_ids: "length (top_ids lc rows metric k ctx n) = min n (card (stage_ids rows k ctx))"
  by (simp add: top_ids_def card_stage_ids [of _ _ _ metric])

lemma set_top_ids: "set (top_ids lc rows metric k ctx n) \<subseteq> stage_ids rows k ctx"
proof -
  have "set (top_ids lc rows metric k ctx n) \<subseteq> (\<lambda>r. pn_id (rank_node r)) ` set (stage_ranks rows metric k ctx)"
    by (auto simp: top_ids_def dest: in_set_takeD)
  then show ?thesis by (simp add: set_stage_rank_ids stage_ids_def)
qed

lemma sorted_wrt_take_drop: "sorted_wrt R xs \<Longrightarrow> x \<in> set (take n xs) \<Longrightarrow> y \<in> set (drop n xs) \<Longrightarrow> R x y"
  using sorted_wrt_append [of R "take n xs" "drop n xs"] by simp

context collation
begin

lemma top_ids_dominate:
  assumes "i \<in> set (top_ids lc rows metric k ctx n)" "j \<in> stage_ids rows k ctx"
    and "j \<notin> set (top_ids lc rows metric k ctx n)"
  shows "node_total rows metric k ctx j \<le> node_total rows metric k ctx i"
proof -
  let ?s = "js_sort (rank_compare lc) (stage_ranks rows metric k ctx)"
  from assms(1) obtain r where r: "r \<in> set (take n ?s)" "i = pn_id (rank_node r)"
    by (auto simp: top_ids_def)
  from assms(2) obtain q where q: "q \<in> set ?s" "j = pn_id (rank_node q)"
    using set_stage_rank_ids [of rows metric k ctx] by (auto simp: stage_ids_def image_iff)
  have "q \<notin> set (take n ?s)" using assms(3) q(2) by (auto simp: top_ids_def)
  with q(1) have "q \<in> set (drop n ?s)"
    by (metis Un_iff append_take_drop_id set_append)
  with sorted_wrt_take_drop [OF rank.sorted_js_sort r(1)] have "rank_compare lc r q \<le> 0" .
  then have "rank_value q \<le> rank_value r"
    unfolding rank_compare_def num_or_le_0 by linarith
  moreover have "r \<in> set (stage_ranks rows metric k ctx)" "q \<in> set (stage_ranks rows metric k ctx)"
    using r(1) q(1) by (auto dest: in_set_takeD)
  ultimately show ?thesis
    using r(2) q(2) by (simp add: stage_rank_value)
qed

end

text \<open>
  the top-N cut of a column is right. For every visible column the kept ids are distinct
  ids of that column, there are \<open>n\<close> of them (or all, if there are fewer), and no id left out has
  a larger total of the chosen metric than one kept, whatever order \<open>localeCompare\<close> uses to
  break ties.
\<close>

theorem buildTopNodeSets_top:
  assumes "collation lc" "distinct stages" "k \<in> set stages" "0 < n"
  shows "\<exists>sets top. buildTopNodeSets lc rows metric stages (Some n) ctx = Some sets \<and>
    map_of sets k = Some top \<and> distinct top \<and> set top \<subseteq> stage_ids rows k ctx \<and>
    length top = min n (card (stage_ids rows k ctx)) \<and>
    (\<forall>i \<in> set top. \<forall>j \<in> stage_ids rows k ctx - set top.
       node_total rows metric k ctx j \<le> node_total rows metric k ctx i)"
  using map_of_buildTopNodeSets [OF assms(2-4)] collation.top_ids_dominate [OF assms(1)]
    distinct_top_ids set_top_ids length_top_ids
  by (metis (no_types, lifting) DiffE)

definition sample_row :: "string \<Rightarrow> string \<Rightarrow> int \<Rightarrow> FlowQuotaDataItem" where
  \<comment> \<open>a row with a token, a model and a quota, for the closed instances below\<close>
  "sample_row token model q =
     \<lparr>user_id = Some 7, username = Some (js ''ann''), node_name = None, use_group = Some (js ''vip''),
      token_id = None, token_name = Some (js token), channel_id = Some 3, channel_name = None,
      model_name = Some (js model), token_used = Some 10, row_count = Some 1, row_quota = Some q\<rparr>"

theorem buildTopNodeSets_top_witness:
  "\<exists>sets top. buildTopNodeSets code_unit_compare
      [sample_row ''a'' ''m1'' 5, sample_row ''b'' ''m2'' 9, sample_row ''c'' ''m1'' 2]
      QuotaMetric [TokenKind, ModelKind] (Some 1) None = Some sets \<and>
    map_of sets ModelKind = Some top \<and> length top = 1 \<and> top = [js ''model:m2'']"
proof -
  let ?rows = "[sample_row ''a'' ''m1'' 5, sample_row ''b'' ''m2'' 9, sample_row ''c'' ''m1'' 2]"
  have "stage_ids ?rows ModelKind None = {js ''model:m1'', js ''model:m2''}"
    by (auto simp: stage_ids_def sample_row_def modelNode_def js_eval)
  moreover have "card {js ''model:m1'', js ''model:m2''} = 2"
    by (simp add: js_eval)
  ultimately obtain sets top where st: "buildTopNodeSets code_unit_compare ?rows QuotaMetric
      [TokenKind, ModelKind] (Some 1) None = Some sets" "map_of sets ModelKind = Some top" "length top = 1"
    using buildTopNodeSets_top [OF cuc.collation_axioms, of "[TokenKind, ModelKind]" ModelKind 1 ?rows QuotaMetric None]
    by auto
  moreover have "map_of (the (buildTopNodeSets code_unit_compare ?rows QuotaMetric
      [TokenKind, ModelKind] (Some 1) None)) ModelKind = Some [js ''model:m2'']"
    by (simp add: js_eval sample_row_def)
  ultimately show ?thesis by auto
qed

end
