(* ===== verification/Flow_Graph.thy ===== *)
theory Flow_Graph
  imports Flow_Paths
begin

text \<open>
  The second half of the dashboard's flow view (\<open>features/dashboard/lib/flow.ts\<close>): the prepared
  paths are accumulated into the nodes and links of a Sankey graph, with colours, highlighting
  and masking; the filter options; and \<open>buildDashboardFlowData\<close>, which composes them.

  \<open>chartColors\<close> stands for \<open>getDashboardChartColors\<close>, which reads the chart library's colour
  table, \<open>formatNumber\<close> for the \<open>Intl.NumberFormat\<close> of the host, \<open>lc\<close> for
  \<open>localeCompare\<close>. A \<open>Map\<close> is an association list in insertion order; the objects
  the code mutates through it are its values.
\<close>

section \<open>Data\<close>

record FlowLinkSelection =
  ls_source :: jstring
  ls_target :: jstring

record DashboardFlowNode =
  n_id :: jstring
  n_label :: jstring
  n_kind :: FlowNodeKind
  n_value :: int
  n_requests :: int
  n_quota :: int
  n_tokens :: int
  n_color :: jstring
  n_colorKey :: jstring
  n_highlighted :: "bool option"
  n_dimmed :: "bool option"

record DashboardFlowLink =
  l_source :: jstring
  l_target :: jstring
  l_value :: int
  l_requests :: int
  l_quota :: int
  l_tokens :: int
  l_sourceLabel :: jstring
  l_targetLabel :: jstring
  l_color :: jstring
  l_linkColor :: jstring
  l_linkAlpha :: rat
  l_hoverColor :: jstring
  l_colorKey :: jstring
  l_share :: rat
  l_highlighted :: "bool option"
  l_dimmed :: "bool option"

record DashboardFlowGraph =
  g_nodes :: "DashboardFlowNode list"
  g_links :: "DashboardFlowLink list"

record PreparedFlowPath =
  pp_path :: "FlowPathNode list"
  pp_metrics :: FlowMetrics

record FlowGraphOptions =
  topNodeLimit :: "rat option"
  overflowMode :: "FlowOverflowMode option"
  otherNodeLabel :: "(FlowNodeKind \<Rightarrow> jstring) option"
  activeNode :: "FlowNodeFilter option"
  activeLink :: "FlowLinkSelection option"
  maskSensitive :: bool

record FlowHighlightSets =
  h_nodes :: "jstring list"
  h_links :: "jstring list"

record FlowSummary =
  s_quota :: int
  s_tokens :: int
  s_requests :: int

section \<open>Colours\<close>

definition DEFAULT_FLOW_CHART_COLOR :: jstring where
  "DEFAULT_FLOW_CHART_COLOR = js ''#1664FF''"

definition palette_given :: "jstring list option \<Rightarrow> bool" where
  "palette_given palette = (case palette of None \<Rightarrow> False | Some p \<Rightarrow> length p > 0)"

definition colorAt :: "(nat \<Rightarrow> jstring list) \<Rightarrow> nat \<Rightarrow> jstring list option \<Rightarrow> jstring" where
  "colorAt chartColors index palette =
     (let colors = (if palette_given palette then the palette else chartColors (index + 1)) in
      if length colors = 0 then DEFAULT_FLOW_CHART_COLOR
      else colors ! (index mod length colors))"

definition colorPalette :: "(nat \<Rightarrow> jstring list) \<Rightarrow> nat \<Rightarrow> jstring list option \<Rightarrow> jstring list" where
  "colorPalette chartColors colorCount palette =
     (if palette_given palette then the palette
      else (let colors = chartColors colorCount in
            if length colors > 0 then colors else [DEFAULT_FLOW_CHART_COLOR]))"

definition stableColorMap ::
  "(nat \<Rightarrow> jstring list) \<Rightarrow> jstring list \<Rightarrow> jstring list option \<Rightarrow> (jstring \<times> jstring) list" where
  "stableColorMap chartColors keys palette =
     (let uniqueKeys = uniq keys; colors = colorPalette chartColors (length uniqueKeys) palette in
      map (\<lambda>i. (uniqueKeys ! i, colorAt chartColors i (Some colors))) [0..<length uniqueKeys])"

definition hex_digit :: "code_unit \<Rightarrow> nat option" where
  "hex_digit c =
     (if is_digit c then Some (c - 48)
      else if 97 \<le> c \<and> c \<le> 102 then Some (c - 87)
      else if 65 \<le> c \<and> c \<le> 70 then Some (c - 55) else None)"

definition to_fixed_2 :: "rat \<Rightarrow> jstring" where
  \<comment> \<open>\<open>x.toFixed(2)\<close> for \<open>0 \<le> x\<close>: ties go to the larger number\<close>
  "to_fixed_2 x =
     (let n = nat (floor (100 * x + 1 / 2)) in
      nat_str (n div 100) @ [46] @ [48 + n mod 100 div 10] @ [48 + n mod 10])"

definition alphaColor :: "jstring \<Rightarrow> rat \<Rightarrow> jstring \<times> rat" where
  "alphaColor color alpha =
     (let norm = trim color;
          hex = (if startsWith norm [35] then drop 1 norm else norm) in
      if \<not> (length hex = 6 \<and> list_all (\<lambda>c. hex_digit c \<noteq> None) hex) then (norm, alpha)
      else
        (let value = foldl (\<lambda>n c. 16 * n + the (hex_digit c)) 0 hex;
             red = value div 65536 mod 256; green = value div 256 mod 256; blue = value mod 256 in
         (js ''rgba('' @ nat_str red @ js '', '' @ nat_str green @ js '', '' @ nat_str blue @
          js '', '' @ to_fixed_2 alpha @ js '')'', 1)))"

section \<open>Accumulating nodes and links\<close>

definition addNode ::
  "(jstring \<times> DashboardFlowNode) list \<Rightarrow> FlowPathNode \<Rightarrow> FlowMetrics \<Rightarrow> FlowMetric \<Rightarrow> jstring \<Rightarrow> jstring \<Rightarrow>
   (jstring \<times> DashboardFlowNode) list" where
  "addNode m pathNode metrics metric color colorKey =
     (let previous = (case map_of m (pn_id pathNode) of
            Some n \<Rightarrow> n
          | None \<Rightarrow> \<lparr>n_id = pn_id pathNode, n_label = pn_label pathNode, n_kind = pn_kind pathNode,
              n_value = 0, n_requests = 0, n_quota = 0, n_tokens = 0, n_color = color,
              n_colorKey = colorKey, n_highlighted = None, n_dimmed = None\<rparr>) in
      AList.update (pn_id pathNode)
        (previous\<lparr>n_value := n_value previous + metricValue metrics metric,
          n_requests := n_requests previous + m_requests metrics,
          n_quota := n_quota previous + m_quota metrics,
          n_tokens := n_tokens previous + m_tokens metrics\<rparr>) m)"

definition pathLinkKey :: "FlowPathNode \<Rightarrow> FlowPathNode \<Rightarrow> jstring" where
  "pathLinkKey source target = pn_id source @ [0] @ pn_id target"

definition linkStableKey :: "DashboardFlowLink \<Rightarrow> jstring" where
  "linkStableKey link = l_source link @ [0] @ l_target link"

definition addLink ::
  "(jstring \<times> DashboardFlowLink) list \<Rightarrow> FlowPathNode \<Rightarrow> FlowPathNode \<Rightarrow> FlowMetrics \<Rightarrow> FlowMetric \<Rightarrow>
   jstring \<Rightarrow> jstring \<Rightarrow> (jstring \<times> DashboardFlowLink) list" where
  "addLink m source target metrics metric color colorKey =
     (let key = pn_id source @ [0] @ pn_id target;
          previous = (case map_of m key of
            Some l \<Rightarrow> l
          | None \<Rightarrow> \<lparr>l_source = pn_id source, l_target = pn_id target, l_value = 0, l_requests = 0,
              l_quota = 0, l_tokens = 0, l_sourceLabel = pn_label source,
              l_targetLabel = pn_label target, l_color = color, l_linkColor = color,
              l_linkAlpha = 1, l_hoverColor = color, l_colorKey = colorKey, l_share = 0,
              l_highlighted = None, l_dimmed = None\<rparr>) in
      AList.update key
        (previous\<lparr>l_value := l_value previous + metricValue metrics metric,
          l_requests := l_requests previous + m_requests metrics,
          l_quota := l_quota previous + m_quota metrics,
          l_tokens := l_tokens previous + m_tokens metrics\<rparr>) m)"

definition path_pairs :: "'a list \<Rightarrow> ('a \<times> 'a) list" where
  \<comment> \<open>\<open>(path[i], path[i + 1])\<close> for \<open>i < path.length - 1\<close>\<close>
  "path_pairs path = zip path (tl path)"

definition link_display_compare ::
  "(jstring \<Rightarrow> jstring \<Rightarrow> int) \<Rightarrow> DashboardFlowLink \<Rightarrow> DashboardFlowLink \<Rightarrow> int" where
  "link_display_compare lc a b =
     num_or (l_value b - l_value a) (lc (linkStableKey a) (linkStableKey b))"

definition display_link ::
  "(jstring \<Rightarrow> jstring \<Rightarrow> int) \<Rightarrow> DashboardFlowLink list \<Rightarrow> DashboardFlowLink \<Rightarrow> DashboardFlowLink" where
  \<comment> \<open>the body of the inner loop: the link's colours from its index among its source's links\<close>
  "display_link lc links link =
     (let sortedLinks = js_sort (link_display_compare lc) (filter (\<lambda>k. l_source k = l_source link) links);
          denominator = max (length sortedLinks - 1) 1;
          index = (case find_index (\<lambda>k. linkStableKey k = linkStableKey link) sortedLinks of
            None \<Rightarrow> 0 | Some i \<Rightarrow> i);
          alpha = (if length sortedLinks = 1 then 34 / 100
                   else 24 / 100 + of_nat index / of_nat denominator * (2 / 10));
          displayColor = alphaColor (l_color link) alpha in
      link\<lparr>l_linkColor := fst displayColor, l_linkAlpha := snd displayColor,
        l_hoverColor := l_color link\<rparr>)"

definition assignLinkDisplayColors ::
  "(jstring \<Rightarrow> jstring \<Rightarrow> int) \<Rightarrow> DashboardFlowLink list \<Rightarrow> DashboardFlowLink list" where
  "assignLinkDisplayColors lc links = map (display_link lc links) links"

definition byValueThenLabel ::
  "(jstring \<Rightarrow> jstring \<Rightarrow> int) \<Rightarrow> DashboardFlowNode \<Rightarrow> DashboardFlowNode \<Rightarrow> int" where
  "byValueThenLabel lc a b = num_or (n_value b - n_value a) (lc (n_label a) (n_label b))"

definition buildSummary :: "FlowQuotaDataItem list \<Rightarrow> FlowSummary" where
  "buildSummary rows =
     foldl (\<lambda>summary row.
         (let metrics = rowMetrics row in
          summary\<lparr>s_quota := s_quota summary + m_quota metrics,
            s_tokens := s_tokens summary + m_tokens metrics,
            s_requests := s_requests summary + m_requests metrics\<rparr>))
       \<lparr>s_quota = 0, s_tokens = 0, s_requests = 0\<rparr> rows"

section \<open>Highlighting\<close>

definition pathContainsFlowNode :: "FlowPathNode list \<Rightarrow> FlowNodeFilter \<Rightarrow> bool" where
  "pathContainsFlowNode path f =
     list_ex (\<lambda>node. pn_kind node = nf_kind f \<and> pn_id node = nf_id f) path"

definition pathContainsFlowLink :: "FlowPathNode list \<Rightarrow> FlowLinkSelection \<Rightarrow> bool" where
  "pathContainsFlowLink path link =
     list_ex (\<lambda>(s, t). pn_id s = ls_source link \<and> pn_id t = ls_target link) (path_pairs path)"

definition matchesPath :: "FlowNodeFilter option \<Rightarrow> FlowLinkSelection option \<Rightarrow> FlowPathNode list \<Rightarrow> bool" where
  "matchesPath aNode aLink path =
     (case aLink of
        Some link \<Rightarrow> pathContainsFlowLink path link
      | None \<Rightarrow> (case aNode of Some node \<Rightarrow> pathContainsFlowNode path node | None \<Rightarrow> False))"

definition buildFlowHighlightSets ::
  "PreparedFlowPath list \<Rightarrow> FlowNodeFilter option \<Rightarrow> FlowLinkSelection option \<Rightarrow> FlowNodeKind list \<Rightarrow>
   FlowHighlightSets option" where
  "buildFlowHighlightSets preparedPaths aNode aLink stages =
     (let nodeActive = (case aNode of None \<Rightarrow> False | Some n \<Rightarrow> nf_kind n \<in> set stages) in
      if \<not> nodeActive \<and> aLink = None then None
      else
        (let hit = filter (\<lambda>p. matchesPath aNode aLink (pp_path p)) preparedPaths;
             highlightedNodes = uniq (concat (map (\<lambda>p. map pn_id (pp_path p)) hit));
             highlightedLinks =
               uniq (concat (map (\<lambda>p. map (\<lambda>(s, t). pathLinkKey s t) (path_pairs (pp_path p))) hit)) in
         if length highlightedNodes = 0 then None
         else Some \<lparr>h_nodes = highlightedNodes, h_links = highlightedLinks\<rparr>))"

definition highlight_node :: "FlowHighlightSets \<Rightarrow> DashboardFlowNode \<Rightarrow> DashboardFlowNode" where
  "highlight_node h node =
     (let highlighted = n_id node \<in> set (h_nodes h) in
      node\<lparr>n_highlighted := Some highlighted, n_dimmed := Some (\<not> highlighted)\<rparr>)"

definition highlight_link :: "FlowHighlightSets \<Rightarrow> DashboardFlowLink \<Rightarrow> DashboardFlowLink" where
  "highlight_link h link =
     (let highlighted = linkStableKey link \<in> set (h_links h) in
      link\<lparr>l_highlighted := Some highlighted, l_dimmed := Some (\<not> highlighted)\<rparr>)"

definition applyFlowHighlights ::
  "DashboardFlowNode list \<Rightarrow> DashboardFlowLink list \<Rightarrow> FlowHighlightSets option \<Rightarrow>
   DashboardFlowNode list \<times> DashboardFlowLink list" where
  "applyFlowHighlights nodes links highlightSets =
     (case highlightSets of
        None \<Rightarrow> (nodes, links)
      | Some h \<Rightarrow> (map (highlight_node h) nodes, map (highlight_link h) links))"

section \<open>Masking\<close>

definition FLOW_MASK_TEXT :: jstring where
  \<comment> \<open>four U+2022 bullets\<close>
  "FLOW_MASK_TEXT = [8226, 8226, 8226, 8226]"

definition SENSITIVE_FLOW_KINDS :: "FlowNodeKind list" where
  "SENSITIVE_FLOW_KINDS = [UserKind, NodeKind, TokenKind, GroupKind, ChannelKind]"

definition OTHER_FLOW_NODE_ID_SET :: "jstring list" where
  "OTHER_FLOW_NODE_ID_SET =
     map OTHER_FLOW_NODE_IDS [UserKind, NodeKind, TokenKind, GroupKind, ModelKind, ChannelKind]"

definition maskFlowLabel :: "jstring \<Rightarrow> jstring" where
  "maskFlowLabel label = (if length label = 0 then label else FLOW_MASK_TEXT)"

definition mask_candidate :: "DashboardFlowNode \<Rightarrow> bool" where
  \<comment> \<open>the two \<open>continue\<close> guards of the masking loop\<close>
  "mask_candidate node \<longleftrightarrow> n_kind node \<in> set SENSITIVE_FLOW_KINDS \<and> n_id node \<notin> set OTHER_FLOW_NODE_ID_SET"

definition mask_node :: "DashboardFlowNode \<Rightarrow> DashboardFlowNode" where
  "mask_node node = (if mask_candidate node then node\<lparr>n_label := maskFlowLabel (n_label node)\<rparr> else node)"

definition mask_link :: "(jstring \<times> jstring) list \<Rightarrow> DashboardFlowLink \<Rightarrow> DashboardFlowLink" where
  "mask_link maskedById link =
     link\<lparr>l_sourceLabel := (case map_of maskedById (l_source link) of Some s \<Rightarrow> s | None \<Rightarrow> l_sourceLabel link),
       l_targetLabel := (case map_of maskedById (l_target link) of Some t \<Rightarrow> t | None \<Rightarrow> l_targetLabel link)\<rparr>"

definition maskFlowGraphLabels ::
  "DashboardFlowNode list \<Rightarrow> DashboardFlowLink list \<Rightarrow> DashboardFlowNode list \<times> DashboardFlowLink list" where
  "maskFlowGraphLabels nodes links =
     (let maskedById = foldl (\<lambda>m node.
            if mask_candidate node then AList.update (n_id node) (maskFlowLabel (n_label node)) m else m)
          [] nodes;
          nodes' = map mask_node nodes in
      if maskedById = [] then (nodes', links) else (nodes', map (mask_link maskedById) links))"

section \<open>The graph\<close>

definition prepare_paths ::
  "(jstring \<Rightarrow> jstring \<Rightarrow> int) \<Rightarrow> FlowQuotaDataItem list \<Rightarrow> FlowMetric \<Rightarrow> FlowNodeKind list \<Rightarrow> FlowPathContext \<Rightarrow>
   FlowGraphOptions \<Rightarrow> PreparedFlowPath list" where
  \<comment> \<open>the first part of \<open>buildFlowGraph\<close>, up to \<open>preparedPaths\<close>\<close>
  "prepare_paths lc rows metric stages ctx options =
     (let topNodeSets = buildTopNodeSets lc rows metric stages (normalizeTopNodeLimit (topNodeLimit options)) ctx;
          mode = (case overflowMode options of Some m \<Rightarrow> m | None \<Rightarrow> AggregateOverflow) in
      List.map_filter (\<lambda>row.
          map_option (\<lambda>path. \<lparr>pp_path = path, pp_metrics = rowMetrics row\<rparr>)
            (applyTopNodeLimit (flowPathForStages row stages ctx) topNodeSets mode (otherNodeLabel options)))
        rows)"

definition path_roots :: "PreparedFlowPath list \<Rightarrow> jstring list" where
  "path_roots preparedPaths =
     filter (\<lambda>i. i \<noteq> []) (List.map_filter (\<lambda>p. case pp_path p of [] \<Rightarrow> None | n # _ \<Rightarrow> Some (pn_id n)) preparedPaths)"

definition add_path ::
  "FlowMetric \<Rightarrow> (jstring \<Rightarrow> jstring) \<Rightarrow>
   (jstring \<times> DashboardFlowNode) list \<times> (jstring \<times> DashboardFlowLink) list \<Rightarrow> PreparedFlowPath \<Rightarrow>
   (jstring \<times> DashboardFlowNode) list \<times> (jstring \<times> DashboardFlowLink) list" where
  \<comment> \<open>one turn of the accumulation loop; \<open>color_of\<close> is \<open>colors.get(root.id) ?? colorAt(0)\<close>\<close>
  "add_path metric color_of nl prepared =
     (case pp_path prepared of
        [] \<Rightarrow> nl
      | rt # _ \<Rightarrow>
          (let color = color_of (pn_id rt); metrics = pp_metrics prepared in
           (foldl (\<lambda>m node. addNode m node metrics metric color (pn_id rt)) (fst nl) (pp_path prepared),
            foldl (\<lambda>m (s, t). addLink m s t metrics metric color (pn_id rt)) (snd nl)
              (path_pairs (pp_path prepared)))))"

definition set_shares :: "jstring list \<Rightarrow> DashboardFlowLink list \<Rightarrow> DashboardFlowLink list" where
  "set_shares firstStepSources flowLinks =
     (let total = foldl (\<lambda>sum link. sum + l_value link) 0
            (filter (\<lambda>link. l_source link \<in> set firstStepSources) flowLinks) in
      map (\<lambda>link. link\<lparr>l_share := (if total > 0 then of_int (l_value link) / of_int total else 0)\<rparr>) flowLinks)"

definition link_order ::
  "(jstring \<Rightarrow> jstring \<Rightarrow> int) \<Rightarrow> DashboardFlowLink \<Rightarrow> DashboardFlowLink \<Rightarrow> int" where
  "link_order lc a b = num_or (lc (l_source a) (l_source b)) (lc (l_target a) (l_target b))"

definition buildFlowGraph ::
  "(jstring \<Rightarrow> jstring \<Rightarrow> int) \<Rightarrow> (nat \<Rightarrow> jstring list) \<Rightarrow> FlowQuotaDataItem list \<Rightarrow> FlowMetric \<Rightarrow> FlowRole \<Rightarrow>
   jstring list option \<Rightarrow> FlowNodeKind list option \<Rightarrow> FlowPathContext \<Rightarrow> FlowGraphOptions \<Rightarrow>
   DashboardFlowGraph" where
  "buildFlowGraph lc chartColors rows metric role palette visibleStages ctx options =
     (let stages = resolveVisibleStages role visibleStages;
          preparedPaths = prepare_paths lc rows metric stages ctx options;
          colors = stableColorMap chartColors (js_sort lc (path_roots preparedPaths)) palette;
          color_of = (\<lambda>i. case map_of colors i of Some c \<Rightarrow> c | None \<Rightarrow> colorAt chartColors 0 palette);
          nl = foldl (add_path metric color_of) ([], []) preparedPaths;
          nodes = map snd (fst nl);
          links = map snd (snd nl);
          masked = (if maskSensitive options then maskFlowGraphLabels nodes links else (nodes, links));
          highlighted = applyFlowHighlights (fst masked) (snd masked)
            (buildFlowHighlightSets preparedPaths (activeNode options) (activeLink options) stages);
          flowLinks = js_sort (link_order lc) (snd highlighted);
          shared = set_shares (path_roots preparedPaths) flowLinks in
      \<lparr>g_nodes = js_sort (byValueThenLabel lc) (fst highlighted),
       g_links = assignLinkDisplayColors lc shared\<rparr>)"

lemmas flow_graph_eval [js_eval] =
  DEFAULT_FLOW_CHART_COLOR_def palette_given_def colorAt_def colorPalette_def stableColorMap_def
  hex_digit_def to_fixed_2_def alphaColor_def addNode_def pathLinkKey_def linkStableKey_def addLink_def
  path_pairs_def link_display_compare_def display_link_def assignLinkDisplayColors_def
  byValueThenLabel_def buildSummary_def pathContainsFlowNode_def pathContainsFlowLink_def matchesPath_def
  buildFlowHighlightSets_def highlight_node_def highlight_link_def applyFlowHighlights_def
  FLOW_MASK_TEXT_def SENSITIVE_FLOW_KINDS_def OTHER_FLOW_NODE_ID_SET_def maskFlowLabel_def
  mask_candidate_def mask_node_def mask_link_def maskFlowGraphLabels_def prepare_paths_def path_roots_def
  add_path_def set_shares_def link_order_def buildFlowGraph_def

end
