(* ===== verification/Flow_Balance.thy ===== *)
theory Flow_Balance
  imports Flow_Graph
begin

text \<open>
  What the Sankey graph of \<open>buildFlowGraph\<close> shows: every column carries the whole of the
  summary, the flow into and out of a node is the node's value, shares are fractions of the
  summary, the top-N limit bounds the nodes of a column, and masking and highlighting change
  nothing but labels and flags.
\<close>

section \<open>The accumulation loop as two accumulators\<close>

type_synonym node_entry = "FlowPathNode \<times> FlowMetrics \<times> jstring \<times> jstring"
type_synonym link_entry = "(FlowPathNode \<times> FlowPathNode) \<times> FlowMetrics \<times> jstring \<times> jstring"

definition node_key :: "node_entry \<Rightarrow> jstring" where
  "node_key e = pn_id (fst e)"

definition node_init :: "node_entry \<Rightarrow> DashboardFlowNode" where
  "node_init e = (case e of (n, _, color, colorKey) \<Rightarrow>
     \<lparr>n_id = pn_id n, n_label = pn_label n, n_kind = pn_kind n, n_value = 0, n_requests = 0,
      n_quota = 0, n_tokens = 0, n_color = color, n_colorKey = colorKey,
      n_highlighted = None, n_dimmed = None\<rparr>)"

definition node_step :: "FlowMetric \<Rightarrow> node_entry \<Rightarrow> DashboardFlowNode \<Rightarrow> DashboardFlowNode" where
  "node_step metric e n = (case e of (_, metrics, _, _) \<Rightarrow>
     n\<lparr>n_value := n_value n + metricValue metrics metric, n_requests := n_requests n + m_requests metrics,
       n_quota := n_quota n + m_quota metrics, n_tokens := n_tokens n + m_tokens metrics\<rparr>)"

definition link_key :: "link_entry \<Rightarrow> jstring" where
  "link_key e = pathLinkKey (fst (fst e)) (snd (fst e))"

definition link_init :: "link_entry \<Rightarrow> DashboardFlowLink" where
  "link_init e = (case e of ((s, t), _, color, colorKey) \<Rightarrow>
     \<lparr>l_source = pn_id s, l_target = pn_id t, l_value = 0, l_requests = 0, l_quota = 0, l_tokens = 0,
      l_sourceLabel = pn_label s, l_targetLabel = pn_label t, l_color = color, l_linkColor = color,
      l_linkAlpha = 1, l_hoverColor = color, l_colorKey = colorKey, l_share = 0,
      l_highlighted = None, l_dimmed = None\<rparr>)"

definition link_step :: "FlowMetric \<Rightarrow> link_entry \<Rightarrow> DashboardFlowLink \<Rightarrow> DashboardFlowLink" where
  "link_step metric e l = (case e of (_, metrics, _, _) \<Rightarrow>
     l\<lparr>l_value := l_value l + metricValue metrics metric, l_requests := l_requests l + m_requests metrics,
       l_quota := l_quota l + m_quota metrics, l_tokens := l_tokens l + m_tokens metrics\<rparr>)"

definition entry_metrics :: "'a \<times> FlowMetrics \<times> 'b \<Rightarrow> FlowMetrics" where
  "entry_metrics e = fst (snd e)"

interpretation node_value: accumulator node_key node_init "node_step metric" n_value
  "\<lambda>e. metricValue (entry_metrics e) metric" for metric
  by unfold_locales (auto simp: node_init_def node_step_def entry_metrics_def split: prod.splits)

interpretation node_requests: accumulator node_key node_init "node_step metric" n_requests
  "\<lambda>e. m_requests (entry_metrics e)" for metric
  by unfold_locales (auto simp: node_init_def node_step_def entry_metrics_def split: prod.splits)

interpretation node_quota: accumulator node_key node_init "node_step metric" n_quota
  "\<lambda>e. m_quota (entry_metrics e)" for metric
  by unfold_locales (auto simp: node_init_def node_step_def entry_metrics_def split: prod.splits)

interpretation node_tokens: accumulator node_key node_init "node_step metric" n_tokens
  "\<lambda>e. m_tokens (entry_metrics e)" for metric
  by unfold_locales (auto simp: node_init_def node_step_def entry_metrics_def split: prod.splits)

interpretation link_value: accumulator link_key link_init "link_step metric" l_value
  "\<lambda>e. metricValue (entry_metrics e) metric" for metric
  by unfold_locales (auto simp: link_init_def link_step_def entry_metrics_def split: prod.splits)

lemma addNode_accum:
  "addNode m n metrics metric color ck = accum node_key node_init (node_step metric) m (n, metrics, color, ck)"
  by (simp add: addNode_def accum_def node_key_def node_init_def node_step_def Let_def split: option.splits)

lemma addLink_accum:
  "addLink m s t metrics metric color ck =
   accum link_key link_init (link_step metric) m ((s, t), metrics, color, ck)"
  by (simp add: addLink_def accum_def link_key_def pathLinkKey_def link_init_def link_step_def Let_def
      split: option.splits)

definition path_entries :: "(FlowPathNode list \<Rightarrow> 'a list) \<Rightarrow> (jstring \<Rightarrow> jstring) \<Rightarrow> PreparedFlowPath \<Rightarrow>
    ('a \<times> FlowMetrics \<times> jstring \<times> jstring) list" where
  "path_entries parts color_of p =
     (case pp_path p of [] \<Rightarrow> []
      | rt # _ \<Rightarrow> map (\<lambda>x. (x, pp_metrics p, color_of (pn_id rt), pn_id rt)) (parts (pp_path p)))"

abbreviation "node_entries color_of P \<equiv> concat (map (path_entries (\<lambda>p. p) color_of) P)"
abbreviation "link_entries color_of P \<equiv> concat (map (path_entries path_pairs color_of) P)"

definition raw_nodes :: "FlowMetric \<Rightarrow> (jstring \<Rightarrow> jstring) \<Rightarrow> PreparedFlowPath list \<Rightarrow> (jstring \<times> DashboardFlowNode) list" where
  "raw_nodes metric color_of P = foldl (accum node_key node_init (node_step metric)) [] (node_entries color_of P)"

definition raw_links :: "FlowMetric \<Rightarrow> (jstring \<Rightarrow> jstring) \<Rightarrow> PreparedFlowPath list \<Rightarrow> (jstring \<times> DashboardFlowLink) list" where
  "raw_links metric color_of P = foldl (accum link_key link_init (link_step metric)) [] (link_entries color_of P)"

lemma add_path_accum:
  "add_path metric color_of nl p =
   (foldl (accum node_key node_init (node_step metric)) (fst nl) (path_entries (\<lambda>p. p) color_of p),
    foldl (accum link_key link_init (link_step metric)) (snd nl) (path_entries path_pairs color_of p))"
proof (cases "pp_path p")
  case (Cons rt rest)
  then show ?thesis
    by (simp add: add_path_def path_entries_def Let_def foldl_map addNode_accum addLink_accum
        case_prod_unfold)
qed (simp add: add_path_def path_entries_def)

lemma foldl_add_path:
  "foldl (add_path metric color_of) ([], []) P = (raw_nodes metric color_of P, raw_links metric color_of P)"
proof -
  have "foldl (add_path metric color_of) nl P =
     (foldl (accum node_key node_init (node_step metric)) (fst nl) (node_entries color_of P),
      foldl (accum link_key link_init (link_step metric)) (snd nl) (link_entries color_of P))" for nl
    by (induction P arbitrary: nl) (simp_all add: add_path_accum)
  then show ?thesis by (simp add: raw_nodes_def raw_links_def)
qed

section \<open>What the later passes keep\<close>

definition node_core :: "DashboardFlowNode \<Rightarrow> jstring \<times> FlowNodeKind \<times> int \<times> int \<times> int \<times> int" where
  "node_core n = (n_id n, n_kind n, n_value n, n_requests n, n_quota n, n_tokens n)"

definition link_core :: "DashboardFlowLink \<Rightarrow> jstring \<times> jstring \<times> int \<times> int \<times> int \<times> int" where
  "link_core l = (l_source l, l_target l, l_value l, l_requests l, l_quota l, l_tokens l)"

lemma node_core_passes [simp]:
  "node_core (highlight_node h n) = node_core n"
  "node_core (mask_node n) = node_core n"
  by (auto simp: node_core_def highlight_node_def mask_node_def Let_def)

lemma link_core_passes [simp]:
  "link_core (highlight_link h l) = link_core l"
  "link_core (mask_link m l) = link_core l"
  "link_core (display_link lc ls l) = link_core l"
  "link_core (l\<lparr>l_share := x\<rparr>) = link_core l"
  by (auto simp: link_core_def highlight_link_def mask_link_def display_link_def Let_def)

definition graph_paths ::
  "(jstring \<Rightarrow> jstring \<Rightarrow> int) \<Rightarrow> FlowQuotaDataItem list \<Rightarrow> FlowMetric \<Rightarrow> FlowRole \<Rightarrow> FlowNodeKind list option \<Rightarrow>
   FlowPathContext \<Rightarrow> FlowGraphOptions \<Rightarrow> PreparedFlowPath list" where
  "graph_paths lc rows metric role visible ctx options =
     prepare_paths lc rows metric (resolveVisibleStages role visible) ctx options"

definition graph_color ::
  "(jstring \<Rightarrow> jstring \<Rightarrow> int) \<Rightarrow> (nat \<Rightarrow> jstring list) \<Rightarrow> jstring list option \<Rightarrow> PreparedFlowPath list \<Rightarrow> jstring \<Rightarrow> jstring" where
  "graph_color lc chartColors palette P i =
     (case map_of (stableColorMap chartColors (js_sort lc (path_roots P)) palette) i of
        Some c \<Rightarrow> c | None \<Rightarrow> colorAt chartColors 0 palette)"

lemma graph_nodes_core:
  fixes lc chartColors rows metric role palette visible ctx options
  defines "P \<equiv> graph_paths lc rows metric role visible ctx options"
  shows "mset (map node_core (g_nodes (buildFlowGraph lc chartColors rows metric role palette visible ctx options))) =
    mset (map (node_core \<circ> snd) (raw_nodes metric (graph_color lc chartColors palette P) P))"
  by (auto simp: buildFlowGraph_def Let_def P_def graph_paths_def [symmetric] graph_color_def [symmetric, abs_def]
      foldl_add_path applyFlowHighlights_def maskFlowGraphLabels_def comp_def mset_map_js_sort
      simp del: mset_map split: option.splits)

lemma graph_links_core:
  fixes lc chartColors rows metric role palette visible ctx options
  defines "P \<equiv> graph_paths lc rows metric role visible ctx options"
  shows "mset (map link_core (g_links (buildFlowGraph lc chartColors rows metric role palette visible ctx options))) =
    mset (map (link_core \<circ> snd) (raw_links metric (graph_color lc chartColors palette P) P))"
  by (auto simp: buildFlowGraph_def Let_def P_def graph_paths_def [symmetric] graph_color_def [symmetric, abs_def]
      foldl_add_path applyFlowHighlights_def maskFlowGraphLabels_def assignLinkDisplayColors_def set_shares_def
      comp_def mset_map_js_sort simp del: mset_map split: option.splits)

section \<open>The prepared paths\<close>

lemma graph_paths_wf:
  assumes "p \<in> set (graph_paths lc rows metric role visible ctx options)"
  shows "wf_path (resolveVisibleStages role visible) (pp_path p)"
  using assms wf_applyTopNodeLimit [OF _ wf_flowPathForStages]
  unfolding graph_paths_def prepare_paths_def Let_def in_map_filter by fastforce

lemma applyTopNodeLimit_aggregate:
  "applyTopNodeLimit path sets AggregateOverflow f = Some (the (applyTopNodeLimit path sets AggregateOverflow f))"
  by (simp add: applyTopNodeLimit_def)

lemma graph_paths_metrics:
  assumes "overflowMode options \<noteq> Some HideOverflow"
  shows "map pp_metrics (graph_paths lc rows metric role visible ctx options) = map rowMetrics rows"
proof -
  have mode: "(case overflowMode options of None \<Rightarrow> AggregateOverflow | Some m \<Rightarrow> m) = AggregateOverflow"
    using assms by (auto split: option.splits intro: FlowOverflowMode.exhaust)
  let ?lim = "\<lambda>row. applyTopNodeLimit (flowPathForStages row (resolveVisibleStages role visible) ctx)
      (buildTopNodeSets lc rows metric (resolveVisibleStages role visible)
        (normalizeTopNodeLimit (topNodeLimit options)) ctx) AggregateOverflow (otherNodeLabel options)"
  have "List.map_filter (\<lambda>row. map_option (\<lambda>path. \<lparr>pp_path = path, pp_metrics = rowMetrics row\<rparr>) (?lim row)) rows =
      map (\<lambda>row. \<lparr>pp_path = the (?lim row), pp_metrics = rowMetrics row\<rparr>) rows"
    by (rule map_filter_total) (subst applyTopNodeLimit_aggregate, simp)
  then show ?thesis
    by (simp add: graph_paths_def prepare_paths_def mode Let_def comp_def)
qed

lemma filter_at:
  assumes "distinct (map f xs)" "j < length xs" "\<And>x. x \<in> set xs \<Longrightarrow> g x \<Longrightarrow> f x = f (xs ! j)"
  shows "filter g xs = (if g (xs ! j) then [xs ! j] else [])"
proof -
  have xs: "xs = take j xs @ xs ! j # drop (Suc j) xs"
    using assms(2) by (rule id_take_nth_drop)
  then have "distinct (map f (take j xs @ xs ! j # drop (Suc j) xs))"
    using assms(1) by simp
  then have neq: "f x \<noteq> f (xs ! j)" if "x \<in> set (take j xs) \<or> x \<in> set (drop (Suc j) xs)" for x
    using that by (simp add: image_iff) (metis (no_types, lifting))
  have "\<not> g x" if "x \<in> set (take j xs) \<or> x \<in> set (drop (Suc j) xs)" for x
    using neq [OF that] assms(3) [of x] that in_set_takeD in_set_dropD by metis
  then have "filter g (take j xs) = []" "filter g (drop (Suc j) xs) = []"
    by (auto simp: filter_empty_conv)
  then show ?thesis
    using arg_cong [OF xs, of "filter g"] by simp
qed

text \<open>The node of a path in column \<open>j\<close> is the only one that can have an id of that column.\<close>

lemma wf_path_nth:
  assumes "wf_path stages path" "distinct stages" "j < length stages"
  shows "filter (\<lambda>n. hd (pn_id n) = kind_letter (stages ! j)) path = [path ! j]"
    and "hd i = kind_letter (stages ! j) \<Longrightarrow>
      filter (\<lambda>n. pn_id n = i) path = (if pn_id (path ! j) = i then [path ! j] else [])"
proof -
  have kinds: "map pn_kind path = stages" and len: "length path = length stages"
    using assms(1) by (auto simp: wf_path_def)
  have letter: "hd (pn_id n) = kind_letter (pn_kind n)" if "n \<in> set path" for n
    using assms(1) that by (auto simp: wf_path_def list_all_iff wf_path_node_def)
  have kj: "pn_kind (path ! j) = stages ! j"
    using kinds assms(3) len by (metis nth_map)
  have in_path: "path ! j \<in> set path" using assms(3) len by simp
  show "filter (\<lambda>n. hd (pn_id n) = kind_letter (stages ! j)) path = [path ! j]"
    using filter_at [of pn_kind path j "\<lambda>n. hd (pn_id n) = kind_letter (stages ! j)"]
      kinds assms(2,3) len letter kj in_path by simp
  show "filter (\<lambda>n. pn_id n = i) path = (if pn_id (path ! j) = i then [path ! j] else [])"
    if "hd i = kind_letter (stages ! j)"
  proof (rule filter_at)
    show "distinct (map pn_kind path)" "j < length path"
      using assms(2,3) len by (simp_all add: kinds)
    show "pn_kind n = pn_kind (path ! j)" if "n \<in> set path" "pn_id n = i" for n
      using letter [OF that(1)] that(2) \<open>hd i = kind_letter (stages ! j)\<close> kj by simp
  qed
qed

lemma nth_path_pairs: "j < length path - 1 \<Longrightarrow> path_pairs path ! j = (path ! j, path ! Suc j)"
  by (simp add: path_pairs_def nth_tl)

lemma length_path_pairs [simp]: "length (path_pairs path) = length path - 1"
  by (simp add: path_pairs_def)

lemma map_path_pairs:
  "map (f \<circ> fst) (path_pairs path) = butlast (map f path)"
  "map (f \<circ> snd) (path_pairs path) = tl (map f path)"
proof -
  show "map (f \<circ> fst) (path_pairs path) = butlast (map f path)"
    unfolding path_pairs_def
    by (intro nth_equalityI) (auto simp: nth_butlast)
  show "map (f \<circ> snd) (path_pairs path) = tl (map f path)"
    unfolding path_pairs_def
    by (intro nth_equalityI) (auto simp: nth_tl)
qed

lemma wf_path_pairs_nth:
  assumes "wf_path stages path" "distinct stages" "Suc j < length stages"
  shows "hd i = kind_letter (stages ! j) \<Longrightarrow>
      filter (\<lambda>e. pn_id (fst e) = i) (path_pairs path) = (if pn_id (path ! j) = i then [(path ! j, path ! Suc j)] else [])"
    and "hd i = kind_letter (stages ! Suc j) \<Longrightarrow>
      filter (\<lambda>e. pn_id (snd e) = i) (path_pairs path) = (if pn_id (path ! Suc j) = i then [(path ! j, path ! Suc j)] else [])"
proof -
  have kinds: "map pn_kind path = stages" and len: "length path = length stages"
    using assms(1) by (auto simp: wf_path_def)
  have letter: "hd (pn_id n) = kind_letter (pn_kind n)" if "n \<in> set path" for n
    using assms(1) that by (auto simp: wf_path_def list_all_iff wf_path_node_def)
  have kj: "pn_kind (path ! j) = stages ! j" "pn_kind (path ! Suc j) = stages ! Suc j"
    using kinds assms(3) len by (metis nth_map Suc_lessD)+
  have mem: "fst e \<in> set path" "snd e \<in> set path" if "e \<in> set (path_pairs path)" for e
    using that unfolding path_pairs_def
    by (metis prod.collapse set_zip_leftD, metis prod.collapse set_zip_rightD list.set_sel(2) tl_Nil)
  have pj: "path_pairs path ! j = (path ! j, path ! Suc j)" and jl: "j < length (path_pairs path)"
    using assms(3) len by (simp_all add: nth_path_pairs)
  show "filter (\<lambda>e. pn_id (fst e) = i) (path_pairs path) = (if pn_id (path ! j) = i then [(path ! j, path ! Suc j)] else [])"
    if i: "hd i = kind_letter (stages ! j)"
  proof -
    have "pn_kind (fst e) = stages ! j" if "e \<in> set (path_pairs path)" "pn_id (fst e) = i" for e
      using letter [OF mem(1) [OF that(1)]] that(2) i by simp
    then show ?thesis
      using filter_at [OF _ jl, of "pn_kind \<circ> fst" "\<lambda>e. pn_id (fst e) = i"] assms(2) kj
      by (simp add: map_path_pairs kinds distinct_butlast pj del: map_map)
  qed
  show "filter (\<lambda>e. pn_id (snd e) = i) (path_pairs path) = (if pn_id (path ! Suc j) = i then [(path ! j, path ! Suc j)] else [])"
    if i: "hd i = kind_letter (stages ! Suc j)"
  proof -
    have "pn_kind (snd e) = stages ! Suc j" if "e \<in> set (path_pairs path)" "pn_id (snd e) = i" for e
      using letter [OF mem(2) [OF that(1)]] that(2) i by simp
    then show ?thesis
      using filter_at [OF _ jl, of "pn_kind \<circ> snd" "\<lambda>e. pn_id (snd e) = i"] assms(2) kj
      by (simp add: map_path_pairs kinds distinct_tl pj del: map_map)
  qed
qed

section \<open>Sums over the entries of the paths\<close>

lemma sum_path_entries:
  fixes w :: "FlowMetrics \<Rightarrow> int"
  assumes "pp_path p \<noteq> []"
  shows "sum_list (map (\<lambda>e. w (entry_metrics e)) (filter (\<lambda>e. R (fst e)) (path_entries parts color_of p))) =
    int (length (filter R (parts (pp_path p)))) * w (pp_metrics p)"
  using assms
  by (cases "pp_path p") (auto simp: path_entries_def filter_map comp_def entry_metrics_def sum_list_triv)

lemma sum_entries:
  fixes w :: "FlowMetrics \<Rightarrow> int"
  assumes "\<And>p. p \<in> set P \<Longrightarrow> pp_path p \<noteq> []"
  shows "sum_list (map (\<lambda>e. w (entry_metrics e)) (filter (\<lambda>e. R (fst e)) (concat (map (path_entries parts color_of) P)))) =
    sum_list (map (\<lambda>p. int (length (filter R (parts (pp_path p)))) * w (pp_metrics p)) P)"
  using assms by (induction P) (simp_all add: sum_path_entries)

lemma in_path_entries:
  "e \<in> set (path_entries parts color_of p) \<Longrightarrow> fst e \<in> set (parts (pp_path p))"
  by (auto simp: path_entries_def split: list.splits)

lemma node_key_path_entries:
  assumes "p \<in> set P" "n \<in> set (pp_path p)"
  shows "pn_id n \<in> node_key ` set (node_entries color_of P)"
proof -
  have "\<exists>c. (n, pp_metrics p, c) \<in> set (path_entries (\<lambda>p. p) color_of p)"
    using assms(2) by (cases "pp_path p") (auto simp: path_entries_def)
  then obtain c where "(n, pp_metrics p, c) \<in> set (node_entries color_of P)" using assms(1) by auto
  then show ?thesis by (rule rev_image_eqI) (simp add: node_key_def)
qed

lemma in_path_pairs: "e \<in> set (path_pairs path) \<Longrightarrow> fst e \<in> set path \<and> snd e \<in> set path"
  by (cases path; cases e) (auto simp: path_pairs_def dest: set_zip_leftD set_zip_rightD)

lemma raw_nodes_entry:
  assumes "\<And>p. p \<in> set P \<Longrightarrow> wf_path stages (pp_path p)" "(i, n) \<in> set (raw_nodes metric color_of P)"
  shows "n_id n = i \<and> hd i = kind_letter (n_kind n) \<and> n_kind n \<in> set stages"
proof (rule accum_inv [where I = "\<lambda>i n. n_id n = i \<and> hd i = kind_letter (n_kind n) \<and> n_kind n \<in> set stages",
      OF _ _ _ assms(2) [unfolded raw_nodes_def]])
  fix e assume "e \<in> set (node_entries color_of P)"
  then obtain p where p: "p \<in> set P" "fst e \<in> set (pp_path p)"
    by (auto dest: in_path_entries)
  with assms(1) [OF p(1)] have "wf_path_node (fst e)" "pn_kind (fst e) \<in> set stages"
    by (auto simp: wf_path_def list_all_iff)
  then show "n_id (node_step metric e (node_init e)) = node_key e \<and>
      hd (node_key e) = kind_letter (n_kind (node_step metric e (node_init e))) \<and>
      n_kind (node_step metric e (node_init e)) \<in> set stages"
    by (cases e) (auto simp: node_step_def node_init_def node_key_def wf_path_node_def)
qed (auto simp: node_step_def split: prod.splits)

lemma distinct_raw_nodes: "distinct (map fst (raw_nodes metric color_of P))"
  by (simp add: raw_nodes_def distinct_foldl_accum)

text \<open>Sums and filters over the finished nodes only look at their core.\<close>

lemma sum_list_mset_cong:
  fixes f :: "'a \<Rightarrow> int"
  assumes "mset (map core xs) = mset (map core' ys)"
    and "\<And>x. x \<in> set xs \<Longrightarrow> f x = g (core x)" "\<And>y. y \<in> set ys \<Longrightarrow> f' y = g (core' y)"
  shows "sum_list (map f xs) = sum_list (map f' ys)"
proof -
  have "sum_list (map f xs) = sum_mset (image_mset g (mset (map core xs)))"
    using assms(2) by (simp add: multiset.map_comp comp_def flip: sum_mset_sum_list)
      (intro arg_cong [where f = sum_mset] image_mset_cong, simp)
  also have "\<dots> = sum_mset (image_mset g (mset (map core' ys)))"
    by (simp only: assms(1))
  also have "\<dots> = sum_list (map f' ys)"
    using assms(3) by (simp add: multiset.map_comp comp_def flip: sum_mset_sum_list)
      (intro arg_cong [where f = sum_mset] image_mset_cong, simp)
  finally show ?thesis .
qed

lemma raw_column_sum:
  assumes acc: "accumulator node_init (node_step metric) meas (\<lambda>e. w (entry_metrics e))"
    and wf: "\<And>p. p \<in> set P \<Longrightarrow> wf_path stages (pp_path p)" and "distinct stages" "k \<in> set stages"
  shows "sum_list (map (meas \<circ> snd) (filter (\<lambda>x. n_kind (snd x) = k) (raw_nodes metric color_of P))) =
    sum_list (map (\<lambda>p. w (pp_metrics p)) P)"
proof -
  obtain j where j: "j < length stages" "k = stages ! j"
    using assms(4) by (auto simp: in_set_conv_nth)
  have ne: "pp_path p \<noteq> []" if "p \<in> set P" for p
    using wf [OF that] j by (auto simp: wf_path_def)
  have "filter (\<lambda>x. n_kind (snd x) = k) (raw_nodes metric color_of P) =
      filter ((\<lambda>i. hd i = kind_letter k) \<circ> fst) (raw_nodes metric color_of P)"
    using raw_nodes_entry [OF wf] by (intro filter_cong) (auto simp: split_paired_all)
  then have "sum_list (map (meas \<circ> snd) (filter (\<lambda>x. n_kind (snd x) = k) (raw_nodes metric color_of P))) =
      sum_list (map (\<lambda>e. w (entry_metrics e)) (filter (\<lambda>e. hd (pn_id (fst e)) = kind_letter k) (node_entries color_of P)))"
    using accumulator.total [OF acc, of "\<lambda>i. hd i = kind_letter k" node_key "node_entries color_of P"]
    by (simp add: raw_nodes_def comp_def node_key_def)
  also have "\<dots> = sum_list (map (\<lambda>p. w (pp_metrics p)) P)"
    using wf_path_nth(1) [OF wf \<open>distinct stages\<close> j(1)] j(2)
    by (subst sum_entries [where w = w and R = "\<lambda>n. hd (pn_id n) = kind_letter k", OF ne])
      (auto intro!: arg_cong [where f = sum_list] map_cong)
  finally show ?thesis .
qed

lemma graph_column_sum:
  fixes lc chartColors rows metric role palette visible ctx options
  defines "G \<equiv> buildFlowGraph lc chartColors rows metric role palette visible ctx options"
    and "P \<equiv> graph_paths lc rows metric role visible ctx options"
  assumes acc: "accumulator node_init (node_step metric) meas (\<lambda>e. w (entry_metrics e))"
    and core: "\<And>n. meas n = proj (node_core n)"
    and k: "k \<in> set (resolveVisibleStages role visible)"
  shows "sum_list (map meas (filter (\<lambda>n. n_kind n = k) (g_nodes G))) = sum_list (map (\<lambda>p. w (pp_metrics p)) P)"
proof -
  let ?raw = "raw_nodes metric (graph_color lc chartColors palette P) P"
  have "sum_list (map meas (filter (\<lambda>n. n_kind n = k) (g_nodes G))) =
      sum_list (map (meas \<circ> snd) (filter (\<lambda>x. n_kind (snd x) = k) ?raw))"
    unfolding sum_list_map_filter'
    by (rule sum_list_mset_cong [where core = node_core and core' = "node_core \<circ> snd"
          and g = "\<lambda>c. if fst (snd c) = k then proj c else 0"])
      (unfold G_def P_def, rule graph_nodes_core, simp_all add: core, simp_all add: node_core_def)
  also have "\<dots> = sum_list (map (\<lambda>p. w (pp_metrics p)) P)"
    by (rule raw_column_sum [OF acc _ distinct_resolveVisibleStages k]) (simp add: P_def graph_paths_wf)
  finally show ?thesis .
qed

lemma buildSummary_sums:
  "s_quota (buildSummary rows) = sum_list (map (\<lambda>r. m_quota (rowMetrics r)) rows)"
  "s_tokens (buildSummary rows) = sum_list (map (\<lambda>r. m_tokens (rowMetrics r)) rows)"
  "s_requests (buildSummary rows) = sum_list (map (\<lambda>r. m_requests (rowMetrics r)) rows)"
proof -
  let ?f = "\<lambda>summary row. (let metrics = rowMetrics row in
      summary\<lparr>s_quota := s_quota summary + m_quota metrics, s_tokens := s_tokens summary + m_tokens metrics,
        s_requests := s_requests summary + m_requests metrics\<rparr>)"
  have "s_quota (foldl ?f S rows) = s_quota S + sum_list (map (\<lambda>r. m_quota (rowMetrics r)) rows)"
    "s_tokens (foldl ?f S rows) = s_tokens S + sum_list (map (\<lambda>r. m_tokens (rowMetrics r)) rows)"
    "s_requests (foldl ?f S rows) = s_requests S + sum_list (map (\<lambda>r. m_requests (rowMetrics r)) rows)" for S :: FlowSummary
    by (induction rows arbitrary: S) (simp_all add: Let_def)
  then show "s_quota (buildSummary rows) = sum_list (map (\<lambda>r. m_quota (rowMetrics r)) rows)"
    "s_tokens (buildSummary rows) = sum_list (map (\<lambda>r. m_tokens (rowMetrics r)) rows)"
    "s_requests (buildSummary rows) = sum_list (map (\<lambda>r. m_requests (rowMetrics r)) rows)"
    by (simp_all add: buildSummary_def)
qed

definition summary_metric :: "FlowSummary \<Rightarrow> FlowMetric \<Rightarrow> int" where
  "summary_metric s metric =
     (case metric of RequestsMetric \<Rightarrow> s_requests s | TokensMetric \<Rightarrow> s_tokens s | QuotaMetric \<Rightarrow> s_quota s)"

lemma summary_metric_sum:
  "summary_metric (buildSummary rows) metric = sum_list (map (\<lambda>r. metricValue (rowMetrics r) metric) rows)"
  by (cases metric) (simp_all add: summary_metric_def buildSummary_sums metricValue_def)

definition shown_rows ::
  "(jstring \<Rightarrow> jstring \<Rightarrow> int) \<Rightarrow> FlowQuotaDataItem list \<Rightarrow> FlowMetric \<Rightarrow> FlowRole \<Rightarrow> FlowNodeKind list option \<Rightarrow>
   FlowPathContext \<Rightarrow> FlowGraphOptions \<Rightarrow> FlowQuotaDataItem list" where
  \<comment> \<open>all rows, except that the mode \<open>hide\<close> leaves out the rows with a node beyond the limit of its column\<close>
  "shown_rows lc rows metric role visible ctx options =
     (let stages = resolveVisibleStages role visible;
          sets = buildTopNodeSets lc rows metric stages (normalizeTopNodeLimit (topNodeLimit options)) ctx in
      if overflowMode options = Some HideOverflow
      then filter (\<lambda>row. list_all (\<lambda>node. isTopFlowNode node sets) (flowPathForStages row stages ctx)) rows
      else rows)"

lemma map_filter_shown:
  assumes "\<And>x. x \<in> set xs \<Longrightarrow> (f x \<noteq> None) = Q x" "\<And>x y. f x = Some y \<Longrightarrow> g y = h x"
  shows "map g (List.map_filter f xs) = map h (filter Q xs)"
  using assms(1)
proof (induction xs)
  case (Cons x xs)
  then have "(f x \<noteq> None) = Q x" "map g (List.map_filter f xs) = map h (filter Q xs)" by simp_all
  then show ?case using assms(2) [of x] by (cases "f x") (auto simp: List.map_filter_simps)
qed (simp add: List.map_filter_simps)

lemma applyTopNodeLimit_hide:
  "(applyTopNodeLimit path sets HideOverflow labeler \<noteq> None) = list_all (\<lambda>node. isTopFlowNode node sets) path"
  by (auto simp: applyTopNodeLimit_def isTopFlowNode_def list_ex_iff list_all_iff)

lemma shown_rows_metrics:
  "map pp_metrics (graph_paths lc rows metric role visible ctx options) =
     map rowMetrics (shown_rows lc rows metric role visible ctx options)"
proof (cases "overflowMode options = Some HideOverflow")
  case True
  then show ?thesis
    unfolding graph_paths_def prepare_paths_def shown_rows_def Let_def
    by (simp only: True option.case if_True simp_thms) (rule map_filter_shown, simp only: option.map_disc_iff applyTopNodeLimit_hide, auto)
next
  case False
  then show ?thesis by (simp add: graph_paths_metrics shown_rows_def Let_def)
qed

lemma sum_over_shown_rows:
  "sum_list (map (\<lambda>p. w (pp_metrics p)) (graph_paths lc rows metric role visible ctx options)) =
     sum_list (map (\<lambda>r. w (rowMetrics r)) (shown_rows lc rows metric role visible ctx options))" for w :: "FlowMetrics \<Rightarrow> int"
  using arg_cong [OF shown_rows_metrics, of "\<lambda>ms. sum_list (map w ms)"] by (simp add: comp_def)

lemma sum_over_rows:
  fixes w :: "FlowMetrics \<Rightarrow> int"
  assumes "overflowMode options \<noteq> Some HideOverflow"
  shows "sum_list (map (\<lambda>p. w (pp_metrics p)) (graph_paths lc rows metric role visible ctx options)) =
    sum_list (map (\<lambda>r. w (rowMetrics r)) rows)"
  using arg_cong [OF graph_paths_metrics [OF assms, of lc rows metric role visible ctx], of "\<lambda>ms. sum_list (map w ms)"]
  by (simp add: comp_def)

lemma graph_column_inhabited:
  assumes "overflowMode options \<noteq> Some HideOverflow" "k \<in> set (resolveVisibleStages role visible)"
    and "summary_metric (buildSummary rows) metric \<noteq> 0"
  shows "\<exists>n \<in> set (g_nodes (buildFlowGraph lc chartColors rows metric role palette visible ctx options)). n_kind n = k"
proof (rule ccontr)
  let ?G = "buildFlowGraph lc chartColors rows metric role palette visible ctx options"
  assume "\<not> (\<exists>n \<in> set (g_nodes ?G). n_kind n = k)"
  then have "filter (\<lambda>n. n_kind n = k) (g_nodes ?G) = []" by (auto simp: filter_empty_conv)
  with graph_column_sum [OF node_value.accumulator_axioms _ assms(2), of "\<lambda>(_, _, v, _). v"
      lc chartColors rows metric palette ctx options]
  show False
    using assms(3) by (simp add: node_core_def summary_metric_sum
        sum_over_rows [OF assms(1), where w = "\<lambda>m. metricValue m metric"])
qed

text \<open>
  C3: nothing is lost on the way to the chart. The nodes of every visible column together carry exactly the quota, tokens
  and requests of the summary of the shown rows, and their drawn values add up to that summary's value of the chosen
  metric, whatever is highlighted or masked. The shown rows are all rows, also when a top-N limit folds nodes into the "other" node; only the mode
  that hides overflowing nodes leaves out rows, namely those with a node beyond the limit of its column.
\<close>

theorem flow_columns_carry_summary:
  assumes "k \<in> set (resolveVisibleStages role visible)"
    and "column = filter (\<lambda>n. n_kind n = k)
      (g_nodes (buildFlowGraph lc chartColors rows metric role palette visible ctx options))"
    and "summary = buildSummary (shown_rows lc rows metric role visible ctx options)"
  shows "sum_list (map n_value column) = summary_metric summary metric \<and>
    sum_list (map n_quota column) = s_quota summary \<and>
    sum_list (map n_tokens column) = s_tokens summary \<and>
    sum_list (map n_requests column) = s_requests summary \<and>
    (overflowMode options \<noteq> Some HideOverflow \<longrightarrow> summary = buildSummary rows)"
  unfolding assms(2,3) summary_metric_sum buildSummary_sums
  using graph_column_sum [OF node_value.accumulator_axioms _ assms(1), of "\<lambda>(_, _, v, _). v"]
    graph_column_sum [OF node_quota.accumulator_axioms _ assms(1), of "\<lambda>(_, _, _, _, q, _). q"]
    graph_column_sum [OF node_tokens.accumulator_axioms _ assms(1), of "\<lambda>(_, _, _, _, _, t). t"]
    graph_column_sum [OF node_requests.accumulator_axioms _ assms(1), of "\<lambda>(_, _, _, r, _). r"]
  by (simp add: node_core_def sum_over_shown_rows [where w = "\<lambda>m. metricValue m metric"]
      sum_over_shown_rows [where w = m_quota] sum_over_shown_rows [where w = m_tokens]
      sum_over_shown_rows [where w = m_requests] shown_rows_def Let_def del: map_map)

definition sample_rows :: "FlowQuotaDataItem list" where
  "sample_rows = [sample_row ''a'' ''m1'' 5, sample_row ''b'' ''m2'' 9, sample_row ''c'' ''m1'' 2]"

definition sample_options :: FlowGraphOptions where
  "sample_options =
     \<lparr>topNodeLimit = Some 1, overflowMode = None, otherNodeLabel = None, activeNode = None,
      activeLink = None, maskSensitive = True\<rparr>"

definition sample_graph :: DashboardFlowGraph where
  "sample_graph =
     buildFlowGraph code_unit_compare (\<lambda>_. [js ''#1664FF'']) sample_rows QuotaMetric UserRole None None None sample_options"

lemmas sample_eval = sample_rows_def sample_options_def sample_row_def summary_metric_def
  List.map_filter_def nat_str.simps

definition hiding_options :: FlowGraphOptions where
  "hiding_options = sample_options\<lparr>overflowMode := Some HideOverflow\<rparr>"

lemma hidden_sample_rows:
  "buildSummary (shown_rows code_unit_compare sample_rows QuotaMetric UserRole None None hiding_options) = buildSummary [sample_row ''b'' ''m2'' 9]"
  by code_simp

theorem flow_columns_carry_summary_witness:
  "sum_list (map n_value (filter (\<lambda>n. n_kind n = TokenKind) (g_nodes sample_graph))) = 16 \<and>
   sum_list (map n_value (filter (\<lambda>n. n_kind n = TokenKind) (g_nodes (buildFlowGraph code_unit_compare (\<lambda>_. [js ''#1664FF''])
     sample_rows QuotaMetric UserRole None None None hiding_options)))) = 9"
  using flow_columns_carry_summary [of TokenKind UserRole None _ code_unit_compare
      "\<lambda>_. [js ''#1664FF'']" sample_rows QuotaMetric None None sample_options, OF _ refl refl]
    flow_columns_carry_summary [of TokenKind UserRole None _ code_unit_compare
      "\<lambda>_. [js ''#1664FF'']" sample_rows QuotaMetric None None hiding_options, OF _ refl refl] hidden_sample_rows
  by (simp add: sample_graph_def sample_rows_def sample_row_def sample_options_def summary_metric_def
      resolveVisibleStages_def buildSummary_def rowMetrics_def numberValue_def)

section \<open>Flow balance at a node\<close>

definition row_clean :: "FlowQuotaDataItem \<Rightarrow> bool" where
  \<comment> \<open>no name in the row holds a NUL character, the separator of link keys\<close>
  "row_clean row = list_all (\<lambda>name. 0 \<notin> set (opt_str name))
     [username row, node_name row, use_group row, token_name row, channel_name row, model_name row]"

lemma clean_NODE_BUILDERS: "row_clean row \<Longrightarrow> 0 \<notin> set (pn_id (NODE_BUILDERS k row ctx))"
  by (cases k) (auto simp: row_clean_def userNode_def nodeNameNode_def tokenNode_def groupNode_def modelNode_def
      channelNode_def Let_def js_Cons str_or_def zero_int_str)

lemma clean_otherFlowNode: "0 \<notin> set (OTHER_FLOW_NODE_IDS k)"
  by (cases k) (simp_all add: js_Cons)

lemma in_applyTopNodeLimit:
  assumes "applyTopNodeLimit path sets mode f = Some path'" "n \<in> set path'"
  shows "n \<in> set path \<or> (\<exists>k. n = otherFlowNode k f)"
  using assms by (auto simp: applyTopNodeLimit_def split: if_splits)

lemma graph_paths_clean:
  assumes "list_all row_clean rows" "p \<in> set (graph_paths lc rows metric role visible ctx options)" "n \<in> set (pp_path p)"
  shows "0 \<notin> set (pn_id n)"
proof -
  from assms(2) obtain row sets mode where row: "row \<in> set rows"
    "applyTopNodeLimit (flowPathForStages row (resolveVisibleStages role visible) ctx) sets mode (otherNodeLabel options)
      = Some (pp_path p)"
    unfolding graph_paths_def prepare_paths_def Let_def in_map_filter by auto
  have "row_clean row" using row(1) assms(1) by (simp add: list_all_iff)
  then show ?thesis
    using in_applyTopNodeLimit [OF row(2) assms(3)] clean_NODE_BUILDERS clean_otherFlowNode
    by (auto simp: flowPathForStages_def)
qed

lemma raw_links_entry:
  assumes "\<And>p n. p \<in> set P \<Longrightarrow> n \<in> set (pp_path p) \<Longrightarrow> 0 \<notin> set (pn_id n)"
    and "(key, l) \<in> set (raw_links metric color_of P)"
  shows "l_source l = takeWhile (\<lambda>c. c \<noteq> 0) key \<and> l_target l = tl (dropWhile (\<lambda>c. c \<noteq> 0) key)"
proof (rule accum_inv [where I = "\<lambda>key l. l_source l = takeWhile (\<lambda>c. c \<noteq> 0) key \<and> l_target l = tl (dropWhile (\<lambda>c. c \<noteq> 0) key)",
      OF _ _ _ assms(2) [unfolded raw_links_def]])
  fix e assume "e \<in> set (link_entries color_of P)"
  then obtain p where p: "p \<in> set P" "fst e \<in> set (path_pairs (pp_path p))"
    by (auto dest: in_path_entries)
  then have "fst (fst e) \<in> set (pp_path p)"
    unfolding path_pairs_def by (metis prod.collapse set_zip_leftD)
  then have "0 \<notin> set (pn_id (fst (fst e)))" by (rule assms(1) [OF p(1)])
  then show "l_source (link_step metric e (link_init e)) = takeWhile (\<lambda>c. c \<noteq> 0) (link_key e) \<and>
      l_target (link_step metric e (link_init e)) = tl (dropWhile (\<lambda>c. c \<noteq> 0) (link_key e))"
    using split_at_zero [of "pn_id (fst (fst e))" "pn_id (snd (fst e))"]
    by (cases e) (simp add: link_step_def link_init_def link_key_def pathLinkKey_def case_prod_unfold)
qed (auto simp: link_step_def split: prod.splits)

lemma link_entry_key:
  assumes "\<And>p n. p \<in> set P \<Longrightarrow> n \<in> set (pp_path p) \<Longrightarrow> 0 \<notin> set (pn_id n)" "e \<in> set (link_entries color_of P)"
  shows "takeWhile (\<lambda>c. c \<noteq> 0) (link_key e) = pn_id (fst (fst e)) \<and>
    tl (dropWhile (\<lambda>c. c \<noteq> 0) (link_key e)) = pn_id (snd (fst e))"
proof -
  obtain p where p: "p \<in> set P" "fst e \<in> set (path_pairs (pp_path p))"
    using assms(2) by (auto dest: in_path_entries)
  then have "fst (fst e) \<in> set (pp_path p)"
    unfolding path_pairs_def by (metis prod.collapse set_zip_leftD)
  then have "0 \<notin> set (pn_id (fst (fst e)))" by (rule assms(1) [OF p(1)])
  then show ?thesis
    using split_at_zero [of "pn_id (fst (fst e))" "pn_id (snd (fst e))"]
    by (simp add: link_key_def pathLinkKey_def)
qed

text \<open>The value of the links whose ends satisfy \<open>T\<close> is the value of the path steps that do.\<close>

lemma raw_link_sum:
  assumes clean: "\<And>p n. p \<in> set P \<Longrightarrow> n \<in> set (pp_path p) \<Longrightarrow> 0 \<notin> set (pn_id n)"
    and ne: "\<And>p. p \<in> set P \<Longrightarrow> pp_path p \<noteq> []"
  shows "sum_list (map (l_value \<circ> snd) (filter (\<lambda>x. T (l_source (snd x)) (l_target (snd x))) (raw_links metric color_of P))) =
    sum_list (map (\<lambda>p. int (length (filter (\<lambda>e. T (pn_id (fst e)) (pn_id (snd e))) (path_pairs (pp_path p)))) *
      metricValue (pp_metrics p) metric) P)"
proof -
  let ?Q = "\<lambda>key. T (takeWhile (\<lambda>c. c \<noteq> 0) key) (tl (dropWhile (\<lambda>c. c \<noteq> 0) key))"
  have "filter (\<lambda>x. T (l_source (snd x)) (l_target (snd x))) (raw_links metric color_of P) =
      filter (?Q \<circ> fst) (raw_links metric color_of P)"
  proof (intro filter_cong refl)
    fix x assume "x \<in> set (raw_links metric color_of P)"
    then show "T (l_source (snd x)) (l_target (snd x)) = (?Q \<circ> fst) x"
      using raw_links_entry [of P "fst x" "snd x", OF clean] by simp
  qed
  then have "sum_list (map (l_value \<circ> snd) (filter (\<lambda>x. T (l_source (snd x)) (l_target (snd x))) (raw_links metric color_of P))) =
      sum_list (map (\<lambda>e. metricValue (entry_metrics e) metric) (filter (?Q \<circ> link_key) (link_entries color_of P)))"
    by (simp only: raw_links_def link_value.total)
  also have "filter (?Q \<circ> link_key) (link_entries color_of P) =
      filter (\<lambda>e. T (pn_id (fst (fst e))) (pn_id (snd (fst e)))) (link_entries color_of P)"
    using link_entry_key [OF clean] by (intro filter_cong refl) (simp only: comp_apply)
  finally show ?thesis
    by (simp only: sum_entries [where w = "\<lambda>m. metricValue m metric"
          and R = "\<lambda>e. T (pn_id (fst e)) (pn_id (snd e))", OF ne])
qed

lemma graph_link_sum:
  fixes lc chartColors rows metric role palette visible ctx options
  defines "G \<equiv> buildFlowGraph lc chartColors rows metric role palette visible ctx options"
    and "P \<equiv> graph_paths lc rows metric role visible ctx options"
  assumes "list_all row_clean rows"
  shows "sum_list (map l_value (filter (\<lambda>l. T (l_source l) (l_target l)) (g_links G))) =
    sum_list (map (\<lambda>p. int (length (filter (\<lambda>e. T (pn_id (fst e)) (pn_id (snd e))) (path_pairs (pp_path p)))) *
      metricValue (pp_metrics p) metric) P)"
proof -
  let ?raw = "raw_links metric (graph_color lc chartColors palette P) P"
  have "sum_list (map l_value (filter (\<lambda>l. T (l_source l) (l_target l)) (g_links G))) =
      sum_list (map (l_value \<circ> snd) (filter (\<lambda>x. T (l_source (snd x)) (l_target (snd x))) ?raw))"
    unfolding sum_list_map_filter'
    by (rule sum_list_mset_cong [where core = link_core and core' = "link_core \<circ> snd"
          and g = "\<lambda>(s, t, v, _). if T s t then v else 0"])
      (unfold G_def P_def, rule graph_links_core, simp_all add: link_core_def)
  also have "\<dots> = sum_list (map (\<lambda>p. int (length (filter (\<lambda>e. T (pn_id (fst e)) (pn_id (snd e))) (path_pairs (pp_path p)))) *
      metricValue (pp_metrics p) metric) P)"
  proof (rule raw_link_sum)
    show "0 \<notin> set (pn_id n)" if "p \<in> set P" "n \<in> set (pp_path p)" for p n
      using graph_paths_clean [OF assms(3)] that by (simp add: P_def)
    show "pp_path p \<noteq> []" if "p \<in> set P" for p
      by (rule wf_path_not_Nil [OF graph_paths_wf [OF that [unfolded P_def]] resolveVisibleStages_not_Nil])
  qed
  finally show ?thesis .
qed

lemma graph_node_value:
  fixes lc chartColors rows metric role palette visible ctx options
  defines "G \<equiv> buildFlowGraph lc chartColors rows metric role palette visible ctx options"
    and "P \<equiv> graph_paths lc rows metric role visible ctx options"
    and "stages \<equiv> resolveVisibleStages role visible"
  assumes "n \<in> set (g_nodes G)" "j < length stages" "n_kind n = stages ! j"
  shows "hd (n_id n) = kind_letter (stages ! j) \<and>
    n_value n = sum_list (map (\<lambda>p. if pn_id (pp_path p ! j) = n_id n then metricValue (pp_metrics p) metric else 0) P)"
proof -
  let ?raw = "raw_nodes metric (graph_color lc chartColors palette P) P"
  have wf: "wf_path stages (pp_path p)" if "p \<in> set P" for p
    using graph_paths_wf that unfolding P_def stages_def .
  have "node_core n \<in> set (map node_core (g_nodes G))" using assms(4) by simp
  also have "set (map node_core (g_nodes G)) = set (map (node_core \<circ> snd) ?raw)"
    unfolding G_def P_def by (rule mset_eq_setD [OF graph_nodes_core])
  finally obtain i r where r: "(i, r) \<in> set ?raw" "node_core n = node_core r" by auto
  have id: "n_id n = i" and h: "hd i = kind_letter (stages ! j)"
    using raw_nodes_entry [OF wf r(1)] r(2) assms(6) by (auto simp: node_core_def)
  have "n_value n = sum_list (map (\<lambda>e. metricValue (entry_metrics e) metric)
      (filter (\<lambda>e. pn_id (fst e) = i) (node_entries (graph_color lc chartColors palette P) P)))"
    using node_value.entry [OF r(1) [unfolded raw_nodes_def]] r(2) by (simp add: node_core_def node_key_def)
  also have "\<dots> = sum_list (map (\<lambda>p. if pn_id (pp_path p ! j) = i then metricValue (pp_metrics p) metric else 0) P)"
    using wf_path_nth(2) [OF wf _ assms(5) h] wf_path_not_Nil [OF wf]
    by (subst sum_entries [where w = "\<lambda>m. metricValue m metric" and R = "\<lambda>n. pn_id n = i"])
      (auto simp: stages_def resolveVisibleStages_not_Nil intro!: arg_cong [where f = sum_list] map_cong)
  finally show ?thesis using id h by simp
qed

text \<open>
  C22: the graph is a flow network. Wherever the names of the rows hold no NUL character, the
  links leaving a node that is not in the last column carry together exactly the node's value,
  and so do the links entering a node that is not in the first column.
\<close>

theorem flow_node_balance:
  assumes "list_all row_clean rows"
    and "G = buildFlowGraph lc chartColors rows metric role palette visible ctx options"
    and "n \<in> set (g_nodes G)" "n_kind n = resolveVisibleStages role visible ! j"
    and "j < length (resolveVisibleStages role visible)"
  shows "(Suc j < length (resolveVisibleStages role visible) \<longrightarrow>
      sum_list (map l_value (filter (\<lambda>l. l_source l = n_id n) (g_links G))) = n_value n) \<and>
    (0 < j \<longrightarrow> sum_list (map l_value (filter (\<lambda>l. l_target l = n_id n) (g_links G))) = n_value n)"
proof -
  let ?P = "graph_paths lc rows metric role visible ctx options"
  note node = graph_node_value [OF assms(3) [unfolded assms(2)] assms(5,4)]
  have wf: "wf_path (resolveVisibleStages role visible) (pp_path p)" if "p \<in> set ?P" for p
    using that by (rule graph_paths_wf)
  have "sum_list (map l_value (filter (\<lambda>l. l_source l = n_id n) (g_links G))) = n_value n"
    if "Suc j < length (resolveVisibleStages role visible)"
    unfolding assms(2) graph_link_sum [OF assms(1), where T = "\<lambda>s t. s = n_id n"] conjunct2 [OF node]
    using wf_path_pairs_nth(1) [OF wf _ that conjunct1 [OF node]]
    by (auto intro!: arg_cong [where f = sum_list] map_cong)
  moreover have "sum_list (map l_value (filter (\<lambda>l. l_target l = n_id n) (g_links G))) = n_value n" if "0 < j"
    unfolding assms(2) graph_link_sum [OF assms(1), where T = "\<lambda>s t. t = n_id n"] conjunct2 [OF node]
    using wf_path_pairs_nth(2) [OF wf, of _ "j - 1" "n_id n"] conjunct1 [OF node] that assms(5)
    by (auto intro!: arg_cong [where f = sum_list] map_cong)
  ultimately show ?thesis by blast
qed

lemma sample_graph_row_clean: "list_all row_clean sample_rows"
  by (simp add: sample_rows_def sample_row_def row_clean_def js_eval)

theorem flow_node_balance_witness:
  "\<exists>n \<in> set (g_nodes sample_graph). n_kind n = GroupKind \<and>
     sum_list (map l_value (filter (\<lambda>l. l_source l = n_id n) (g_links sample_graph))) = n_value n \<and>
     sum_list (map l_value (filter (\<lambda>l. l_target l = n_id n) (g_links sample_graph))) = n_value n"
proof -
  have "\<exists>n \<in> set (g_nodes sample_graph). n_kind n = GroupKind"
    unfolding sample_graph_def
    by (rule graph_column_inhabited) (simp_all add: sample_options_def resolveVisibleStages_def sample_rows_def
        sample_row_def summary_metric_def buildSummary_def rowMetrics_def numberValue_def)
  then obtain n where n: "n \<in> set (g_nodes sample_graph)" "n_kind n = GroupKind" by blast
  with flow_node_balance [OF sample_graph_row_clean sample_graph_def n(1), of 1] show ?thesis
    by (auto simp: resolveVisibleStages_def)
qed

section \<open>Shares\<close>

lemma foldl_sum_links: "foldl (\<lambda>sum link. sum + l_value link) a ls = a + sum_list (map l_value ls)"
  by (induction ls arbitrary: a) simp_all

lemma path_roots_eq:
  assumes "\<And>p. p \<in> set P \<Longrightarrow> wf_path stages (pp_path p)" "stages \<noteq> []"
  shows "set (path_roots P) = (\<lambda>p. pn_id (pp_path p ! 0)) ` set P"
proof -
  have root: "\<exists>n ns. pp_path p = n # ns \<and> pn_id n \<noteq> []" if "p \<in> set P" for p
    using assms(1) [OF that] assms(2)
    by (cases "pp_path p") (auto simp: wf_path_def wf_path_node_def)
  show ?thesis
    unfolding path_roots_def
    by (force simp: in_map_filter dest: root split: list.splits)
qed

lemma filter_oneD: "filter Q xs = [y] \<Longrightarrow> Q y"
  by (auto dest!: filter_eq_ConsD)

lemma filter_someD: "filter Q xs = (if c then ys else []) \<Longrightarrow> x \<in> set xs \<Longrightarrow> Q x \<Longrightarrow> c"
  by (auto simp: filter_empty_conv split: if_splits)

text \<open>Each path leaves the first column exactly once.\<close>

lemma first_steps:
  assumes "\<And>p. p \<in> set P \<Longrightarrow> wf_path stages (pp_path p)" "distinct stages" "2 \<le> length stages" "p \<in> set P"
  shows "length (filter (\<lambda>e. pn_id (fst e) \<in> set (path_roots P)) (path_pairs (pp_path p))) = 1"
proof -
  have ne: "stages \<noteq> []" and lt: "Suc 0 < length stages" using assms(3) by auto
  have roots: "set (path_roots P) = (\<lambda>p. pn_id (pp_path p ! 0)) ` set P"
    by (rule path_roots_eq [OF assms(1) ne])
  have letter: "hd i = kind_letter (stages ! 0)" if i: "i \<in> set (path_roots P)" for i
  proof -
    obtain q where q: "q \<in> set P" "i = pn_id (pp_path q ! 0)"
      using i roots by auto
    with filter_oneD [OF wf_path_nth(1) [OF assms(1) [OF q(1)] assms(2), of 0]] ne show ?thesis by simp
  qed
  have "pn_id (fst e) = pn_id (pp_path p ! 0)"
    if "e \<in> set (path_pairs (pp_path p))" "pn_id (fst e) \<in> set (path_roots P)" for e
    using filter_someD [OF wf_path_pairs_nth(1) [OF assms(1) [OF assms(4)] assms(2) lt letter [OF that(2)]] that(1)]
    by simp
  moreover have "pn_id (pp_path p ! 0) \<in> set (path_roots P)"
    using roots assms(4) by auto
  ultimately have "pn_id (fst e) \<in> set (path_roots P) \<longleftrightarrow> pn_id (fst e) = pn_id (pp_path p ! 0)"
    if "e \<in> set (path_pairs (pp_path p))" for e
    using that by metis
  then have "filter (\<lambda>e. pn_id (fst e) \<in> set (path_roots P)) (path_pairs (pp_path p)) =
      filter (\<lambda>e. pn_id (fst e) = pn_id (pp_path p ! 0)) (path_pairs (pp_path p))"
    by (rule filter_cong [OF refl])
  then show ?thesis
    using wf_path_pairs_nth(1) [OF assms(1) [OF assms(4)] assms(2) lt letter [OF \<open>pn_id (pp_path p ! 0) \<in> _\<close>]]
    by simp
qed

text \<open>The links of the graph before their shares and colours are set, in their final order.\<close>

lemma graph_links_shares:
  fixes lc chartColors rows metric role palette visible ctx options
  defines "P \<equiv> graph_paths lc rows metric role visible ctx options"
  obtains ls where "g_links (buildFlowGraph lc chartColors rows metric role palette visible ctx options) =
    assignLinkDisplayColors lc (set_shares (path_roots P) ls)"
  by (rule that) (unfold buildFlowGraph_def Let_def P_def graph_paths_def DashboardFlowGraph.simps, rule refl)

lemma display_link_keeps [simp]:
  "l_share (display_link lc ls l) = l_share l" "l_value (display_link lc ls l) = l_value l"
  by (simp_all add: display_link_def Let_def)

lemma share_of_graph_link:
  fixes lc chartColors rows metric role palette visible ctx options
  defines "G \<equiv> buildFlowGraph lc chartColors rows metric role palette visible ctx options"
    and "P \<equiv> graph_paths lc rows metric role visible ctx options"
  assumes "l \<in> set (g_links G)"
    and "whole = sum_list (map l_value (filter (\<lambda>l. l_source l \<in> set (path_roots P)) (g_links G)))"
  shows "l_share l = (if whole > 0 then of_int (l_value l) / of_int whole else 0)"
proof -
  obtain ls where ls: "g_links G = assignLinkDisplayColors lc (set_shares (path_roots P) ls)"
    unfolding G_def P_def by (rule graph_links_shares)
  have core: "map link_core (g_links G) = map link_core ls"
    by (simp add: ls assignLinkDisplayColors_def set_shares_def Let_def comp_def)
  have "sum_list (map l_value (filter (\<lambda>l. l_source l \<in> set (path_roots P)) (g_links G))) =
      sum_list (map l_value (filter (\<lambda>l. l_source l \<in> set (path_roots P)) ls))"
    unfolding sum_list_map_filter'
    by (rule sum_list_mset_cong [where core = link_core and core' = link_core
          and g = "\<lambda>(s, _, v, _). if s \<in> set (path_roots P) then v else 0"])
      (simp_all only: core, simp_all add: link_core_def)
  then have total: "whole = foldl (\<lambda>sum link. sum + l_value link) 0 (filter (\<lambda>l. l_source l \<in> set (path_roots P)) ls)"
    by (simp add: assms(4) foldl_sum_links)
  from assms(3) show ?thesis
    by (auto simp: ls assignLinkDisplayColors_def set_shares_def total Let_def)
qed

lemma graph_first_step_total:
  fixes lc chartColors rows metric role palette visible ctx options
  defines "G \<equiv> buildFlowGraph lc chartColors rows metric role palette visible ctx options"
    and "P \<equiv> graph_paths lc rows metric role visible ctx options"
  assumes "list_all row_clean rows"
  shows "sum_list (map l_value (filter (\<lambda>l. l_source l \<in> set (path_roots P)) (g_links G))) =
    sum_list (map (\<lambda>p. metricValue (pp_metrics p) metric) P)"
proof -
  have "length (filter (\<lambda>e. pn_id (fst e) \<in> set (path_roots P)) (path_pairs (pp_path p))) = 1" if "p \<in> set P" for p
    by (rule first_steps [of P "resolveVisibleStages role visible"])
      (simp_all add: that two_le_resolveVisibleStages, simp add: P_def graph_paths_wf)
  then show ?thesis
    unfolding G_def graph_link_sum [OF assms(3), where T = "\<lambda>s t. s \<in> set (path_roots P)"] P_def [symmetric]
    by (intro arg_cong [where f = sum_list] map_cong) auto
qed

text \<open>
  the share shown on a link is the fraction of the whole that runs through it. Where the
  rows' names hold no NUL character, overflow is not hidden and the summary of the metric is
  positive, every link's share is its value over the summary.
\<close>

theorem flow_link_share:
  assumes "list_all row_clean rows" "overflowMode options \<noteq> Some HideOverflow"
    and "0 < summary_metric (buildSummary rows) metric"
    and "l \<in> set (g_links (buildFlowGraph lc chartColors rows metric role palette visible ctx options))"
  shows "l_share l = of_int (l_value l) / of_int (summary_metric (buildSummary rows) metric)"
  using share_of_graph_link [OF assms(4) refl] assms(3)
  by (simp add: graph_first_step_total [OF assms(1)] summary_metric_sum
      sum_over_rows [OF assms(2), where w = "\<lambda>m. metricValue m metric"])

theorem flow_link_share_witness:
  "\<exists>l \<in> set (g_links sample_graph). l_share l = of_int (l_value l) / 16"
proof -
  let ?P = "graph_paths code_unit_compare sample_rows QuotaMetric UserRole None None sample_options"
  have total: "summary_metric (buildSummary sample_rows) QuotaMetric = 16"
    by (simp add: sample_rows_def sample_row_def summary_metric_def buildSummary_def rowMetrics_def numberValue_def)
  have "sum_list (map l_value (filter (\<lambda>l. l_source l \<in> set (path_roots ?P)) (g_links sample_graph))) = 16"
    using total unfolding sample_graph_def graph_first_step_total [OF sample_graph_row_clean]
    by (simp add: summary_metric_sum sample_options_def
        sum_over_rows [where w = "\<lambda>m. metricValue m QuotaMetric"])
  then have "g_links sample_graph \<noteq> []" by auto
  then obtain l where "l \<in> set (g_links sample_graph)" by (meson list.set_sel(1))
  moreover from this have "l_share l = of_int (l_value l) / of_int (summary_metric (buildSummary sample_rows) QuotaMetric)"
    unfolding sample_graph_def
    by (rule flow_link_share [OF sample_graph_row_clean, rotated 2]) (simp_all add: total sample_options_def)
  ultimately show ?thesis using total by auto
qed

end
