(* ===== verification/Flow_Marks.thy ===== *)
theory Flow_Marks
  imports Flow_Balance
begin

text \<open>
  What the Sankey graph of \<open>buildFlowGraph\<close> hides and marks: masking removes every sensitive label
  from nodes and links, highlighting marks exactly the nodes and links on a path through the
  active one, and the top-N limit bounds the nodes of a column.
\<close>

section \<open>The passes over nodes and links\<close>

definition mask_map :: "DashboardFlowNode list \<Rightarrow> (jstring \<times> jstring) list" where
  "mask_map nodes = foldl (\<lambda>m node.
     if mask_candidate node then AList.update (n_id node) (maskFlowLabel (n_label node)) m else m) [] nodes"

definition mark_node :: "FlowGraphOptions \<Rightarrow> FlowHighlightSets option \<Rightarrow> DashboardFlowNode \<Rightarrow> DashboardFlowNode" where
  "mark_node options hs n =
     (case hs of None \<Rightarrow> (\<lambda>x. x) | Some h \<Rightarrow> highlight_node h) (if maskSensitive options then mask_node n else n)"

definition mark_link :: "FlowGraphOptions \<Rightarrow> FlowHighlightSets option \<Rightarrow> (jstring \<times> jstring) list \<Rightarrow>
    DashboardFlowLink \<Rightarrow> DashboardFlowLink" where
  "mark_link options hs masked l =
     (case hs of None \<Rightarrow> (\<lambda>x. x) | Some h \<Rightarrow> highlight_link h) (if maskSensitive options then mask_link masked l else l)"

definition link_marks :: "DashboardFlowLink \<Rightarrow> jstring \<times> jstring \<times> jstring \<times> jstring \<times> bool option \<times> bool option" where
  "link_marks l = (l_source l, l_target l, l_sourceLabel l, l_targetLabel l, l_highlighted l, l_dimmed l)"

lemma link_marks_passes [simp]:
  "link_marks (display_link lc ls l) = link_marks l" "link_marks (l\<lparr>l_share := x\<rparr>) = link_marks l"
  by (simp_all add: link_marks_def display_link_def Let_def)

lemma mask_link_Nil [simp]: "mask_link [] l = l"
  by (simp add: mask_link_def)

lemma maskFlowGraphLabels_eq:
  "maskFlowGraphLabels nodes links = (map mask_node nodes, map (mask_link (mask_map nodes)) links)"
  by (auto simp: maskFlowGraphLabels_def mask_map_def [symmetric] Let_def map_idI)

definition graph_highlights where
  "graph_highlights lc rows metric role visible ctx options =
     buildFlowHighlightSets (graph_paths lc rows metric role visible ctx options) (activeNode options)
       (activeLink options) (resolveVisibleStages role visible)"

lemma graph_nodes_marked:
  fixes lc chartColors rows metric role palette visible ctx options
  defines "P \<equiv> graph_paths lc rows metric role visible ctx options"
  shows "set (g_nodes (buildFlowGraph lc chartColors rows metric role palette visible ctx options)) =
    mark_node options (graph_highlights lc rows metric role visible ctx options) `
      snd ` set (raw_nodes metric (graph_color lc chartColors palette P) P)"
  by (cases "graph_highlights lc rows metric role visible ctx options")
    (simp_all add: buildFlowGraph_def Let_def P_def graph_paths_def [symmetric] graph_color_def [symmetric, abs_def]
      graph_highlights_def [symmetric] foldl_add_path applyFlowHighlights_def maskFlowGraphLabels_eq mark_node_def
      image_image)

lemma graph_links_marked:
  fixes lc chartColors rows metric role palette visible ctx options
  defines "P \<equiv> graph_paths lc rows metric role visible ctx options"
  defines "N \<equiv> map snd (raw_nodes metric (graph_color lc chartColors palette P) P)"
  shows "link_marks ` set (g_links (buildFlowGraph lc chartColors rows metric role palette visible ctx options)) =
    (\<lambda>x. link_marks (mark_link options (graph_highlights lc rows metric role visible ctx options) (mask_map N) (snd x))) `
      set (raw_links metric (graph_color lc chartColors palette P) P)"
  by (cases "graph_highlights lc rows metric role visible ctx options")
    (simp_all add: buildFlowGraph_def Let_def P_def N_def graph_paths_def [symmetric] graph_color_def [symmetric, abs_def]
      graph_highlights_def [symmetric] foldl_add_path applyFlowHighlights_def maskFlowGraphLabels_eq mark_link_def
      assignLinkDisplayColors_def set_shares_def image_image)

section \<open>Masking\<close>

definition hidden_label :: "jstring \<Rightarrow> bool" where
  "hidden_label s \<longleftrightarrow> s = [] \<or> s = FLOW_MASK_TEXT"

definition sensitive_node :: "DashboardFlowNode \<Rightarrow> bool" where
  "sensitive_node n \<longleftrightarrow> n_kind n \<noteq> ModelKind \<and> n_id n \<notin> range OTHER_FLOW_NODE_IDS"

lemma mask_candidate_iff: "mask_candidate n \<longleftrightarrow> sensitive_node n"
proof -
  have "(n_kind n \<in> set SENSITIVE_FLOW_KINDS) = (n_kind n \<noteq> ModelKind)"
    by (cases "n_kind n") (simp_all add: SENSITIVE_FLOW_KINDS_def)
  moreover have "UNIV = set [UserKind, NodeKind, TokenKind, GroupKind, ModelKind, ChannelKind]"
    by (auto intro: FlowNodeKind.exhaust)
  then have "set OTHER_FLOW_NODE_ID_SET = range OTHER_FLOW_NODE_IDS"
    by (simp only: OTHER_FLOW_NODE_ID_SET_def set_map)
  ultimately show ?thesis by (simp add: mask_candidate_def sensitive_node_def)
qed

lemma hidden_maskFlowLabel: "hidden_label (maskFlowLabel s)"
  by (simp add: hidden_label_def maskFlowLabel_def)

lemma map_of_mask_map:
  "map_of (mask_map ns) i = Some s \<Longrightarrow> hidden_label s"
  "n \<in> set ns \<Longrightarrow> mask_candidate n \<Longrightarrow> map_of (mask_map ns) (n_id n) \<noteq> None"
proof -
  let ?f = "\<lambda>m node. if mask_candidate node then AList.update (n_id node) (maskFlowLabel (n_label node)) m else m"
  have "map_of (foldl ?f m ns) i = Some s \<Longrightarrow> (\<And>j t. map_of m j = Some t \<Longrightarrow> hidden_label t) \<Longrightarrow> hidden_label s" for m
  proof (induction ns arbitrary: m)
    case (Cons n ns)
    show ?case
      by (rule Cons.IH [OF Cons.prems(1) [unfolded foldl_Cons]])
        (auto simp: update_conv' hidden_maskFlowLabel dest: Cons.prems(2) split: if_splits)
  qed simp
  from this [of "[]"] show "map_of (mask_map ns) i = Some s \<Longrightarrow> hidden_label s"
    by (simp add: mask_map_def)
  have keep: "map_of m j \<noteq> None \<Longrightarrow> map_of (foldl ?f m xs) j \<noteq> None" for m j xs
    by (induction xs arbitrary: m) (auto simp: update_conv')
  have "n \<in> set ns \<Longrightarrow> mask_candidate n \<Longrightarrow> map_of (foldl ?f m ns) (n_id n) \<noteq> None" for m
  proof (induction ns arbitrary: m)
    case (Cons n' ns)
    show ?case
    proof (cases "n = n'")
      case True
      then show ?thesis
        unfolding foldl_Cons using Cons.prems(2) by (intro keep) (simp add: update_conv')
    next
      case False
      then show ?thesis using Cons by simp
    qed
  qed simp
  then show "n \<in> set ns \<Longrightarrow> mask_candidate n \<Longrightarrow> map_of (mask_map ns) (n_id n) \<noteq> None"
    unfolding mask_map_def .
qed

lemma raw_link_ends:
  assumes "(key, l) \<in> set (raw_links metric color_of P)"
  shows "l_source l \<in> fst ` set (raw_nodes metric color_of P) \<and> l_target l \<in> fst ` set (raw_nodes metric color_of P)"
proof (rule accum_inv [where I = "\<lambda>_ l. l_source l \<in> fst ` set (raw_nodes metric color_of P) \<and> l_target l \<in> fst ` set (raw_nodes metric color_of P)",
      OF _ _ _ assms [unfolded raw_links_def]])
  fix e assume "e \<in> set (link_entries color_of P)"
  then obtain p where p: "p \<in> set P" "fst e \<in> set (path_pairs (pp_path p))"
    by (auto dest: in_path_entries)
  then have "pn_id (fst (fst e)) \<in> node_key ` set (node_entries color_of P)"
    "pn_id (snd (fst e)) \<in> node_key ` set (node_entries color_of P)"
    using in_path_pairs [OF p(2)] by (blast intro: node_key_path_entries)+
  then show "l_source (link_step metric e (link_init e)) \<in> fst ` set (raw_nodes metric color_of P) \<and>
      l_target (link_step metric e (link_init e)) \<in> fst ` set (raw_nodes metric color_of P)"
    by (cases e) (auto simp: raw_nodes_def fst_foldl_accum link_step_def link_init_def)
qed (auto simp: link_step_def split: prod.splits)

lemma mark_node_simps [simp]:
  "n_id (mark_node options hs n) = n_id n" "n_kind (mark_node options hs n) = n_kind n"
  "sensitive_node (mark_node options hs n) = sensitive_node n"
  "n_label (mark_node options hs n) = (if maskSensitive options then n_label (mask_node n) else n_label n)"
  by (simp_all add: mark_node_def highlight_node_def mask_node_def sensitive_node_def Let_def split: option.splits)

lemma mark_link_simps [simp]:
  "l_source (mark_link options hs M l) = l_source l" "l_target (mark_link options hs M l) = l_target l"
  "l_sourceLabel (mark_link options hs M l) = l_sourceLabel (if maskSensitive options then mask_link M l else l)"
  "l_targetLabel (mark_link options hs M l) = l_targetLabel (if maskSensitive options then mask_link M l else l)"
  by (simp_all add: mark_link_def highlight_link_def mask_link_def Let_def split: option.splits)

lemma graph_link_origin:
  fixes lc chartColors rows metric role palette visible ctx options
  defines "P \<equiv> graph_paths lc rows metric role visible ctx options"
  defines "N \<equiv> map snd (raw_nodes metric (graph_color lc chartColors palette P) P)"
  assumes "l \<in> set (g_links (buildFlowGraph lc chartColors rows metric role palette visible ctx options))"
  obtains key r where "(key, r) \<in> set (raw_links metric (graph_color lc chartColors palette P) P)"
    "link_marks l = link_marks (mark_link options (graph_highlights lc rows metric role visible ctx options) (mask_map N) r)"
proof -
  have "link_marks l \<in> link_marks ` set (g_links (buildFlowGraph lc chartColors rows metric role palette visible ctx options))"
    using assms(3) by simp
  then show ?thesis
    unfolding graph_links_marked by (auto simp: P_def N_def intro: that)
qed

lemma graph_node_of_raw:
  fixes lc chartColors rows metric role palette visible ctx options
  defines "P \<equiv> graph_paths lc rows metric role visible ctx options"
  assumes "i \<in> fst ` set (raw_nodes metric (graph_color lc chartColors palette P) P)"
  obtains m where "m \<in> set (map snd (raw_nodes metric (graph_color lc chartColors palette P) P))" "n_id m = i"
    "mark_node options (graph_highlights lc rows metric role visible ctx options) m
      \<in> set (g_nodes (buildFlowGraph lc chartColors rows metric role palette visible ctx options))"
proof -
  let ?raw = "raw_nodes metric (graph_color lc chartColors palette P) P"
  obtain m where m: "(i, m) \<in> set ?raw" using assms(2) by auto
  have "n_id m = i"
    using raw_nodes_entry [OF _ m, of "resolveVisibleStages role visible"] by (simp add: P_def graph_paths_wf)
  moreover have "m \<in> set (map snd ?raw)" using m by force
  moreover from this have "mark_node options (graph_highlights lc rows metric role visible ctx options) m
      \<in> set (g_nodes (buildFlowGraph lc chartColors rows metric role palette visible ctx options))"
    unfolding graph_nodes_marked by (auto simp: P_def)
  ultimately show ?thesis using that by blast
qed

lemma mask_link_hidden:
  assumes "m \<in> set ns" "sensitive_node m"
  shows "l_source l = n_id m \<Longrightarrow> hidden_label (l_sourceLabel (mask_link (mask_map ns) l))"
    and "l_target l = n_id m \<Longrightarrow> hidden_label (l_targetLabel (mask_link (mask_map ns) l))"
  using map_of_mask_map(2) [OF assms(1)] assms(2) map_of_mask_map(1) [of ns]
  by (auto simp: mask_candidate_iff mask_link_def)

lemma masked_labels_hidden:
  assumes "maskSensitive options"
    and "G = buildFlowGraph lc chartColors rows metric role palette visible ctx options"
  shows "(\<forall>n \<in> set (g_nodes G). sensitive_node n \<longrightarrow> hidden_label (n_label n)) \<and>
    (\<forall>l \<in> set (g_links G). \<exists>s \<in> set (g_nodes G). \<exists>t \<in> set (g_nodes G). l_source l = n_id s \<and> l_target l = n_id t \<and>
       (sensitive_node s \<longrightarrow> hidden_label (l_sourceLabel l)) \<and> (sensitive_node t \<longrightarrow> hidden_label (l_targetLabel l)))"
proof (intro conjI ballI impI)
  fix n assume "n \<in> set (g_nodes G)" "sensitive_node n"
  then show "hidden_label (n_label n)"
    using assms(1) by (auto simp: assms(2) graph_nodes_marked mask_node_def mask_candidate_iff hidden_maskFlowLabel)
next
  fix l assume "l \<in> set (g_links G)"
  then obtain key r where r: "(key, r) \<in> set (raw_links metric
      (graph_color lc chartColors palette (graph_paths lc rows metric role visible ctx options)) (graph_paths lc rows metric role visible ctx options))"
    and marks: "link_marks l = link_marks (mark_link options (graph_highlights lc rows metric role visible ctx options)
      (mask_map (map snd (raw_nodes metric (graph_color lc chartColors palette (graph_paths lc rows metric role visible ctx options))
         (graph_paths lc rows metric role visible ctx options)))) r)"
    unfolding assms(2) by (rule graph_link_origin)
  note ends = raw_link_ends [OF r]
  obtain s where s: "s \<in> set (map snd (raw_nodes metric (graph_color lc chartColors palette
        (graph_paths lc rows metric role visible ctx options)) (graph_paths lc rows metric role visible ctx options)))"
      "n_id s = l_source r" "mark_node options (graph_highlights lc rows metric role visible ctx options) s \<in> set (g_nodes G)"
    unfolding assms(2) by (rule graph_node_of_raw [OF conjunct1 [OF ends]])
  obtain t where t: "t \<in> set (map snd (raw_nodes metric (graph_color lc chartColors palette
        (graph_paths lc rows metric role visible ctx options)) (graph_paths lc rows metric role visible ctx options)))"
      "n_id t = l_target r" "mark_node options (graph_highlights lc rows metric role visible ctx options) t \<in> set (g_nodes G)"
    unfolding assms(2) by (rule graph_node_of_raw [OF conjunct2 [OF ends]])
  show "\<exists>s \<in> set (g_nodes G). \<exists>t \<in> set (g_nodes G). l_source l = n_id s \<and> l_target l = n_id t \<and>
       (sensitive_node s \<longrightarrow> hidden_label (l_sourceLabel l)) \<and> (sensitive_node t \<longrightarrow> hidden_label (l_targetLabel l))"
    using marks mask_link_hidden [OF s(1)] mask_link_hidden [OF t(1)] s(2) t(2) assms(1)
    by (intro bexI [OF _ s(3)] bexI [OF _ t(3)]) (simp add: link_marks_def)
qed

text \<open>
  C25: masking hides the sensitive names and keeps the shape. With masking on, every node that is not a model and not
  an "other" node is shown with the mask text (or an empty label), and so is such a node
  wherever it is an end of a link; each end of a link is a node of the graph. The nodes and the links, with
  their values, are those of the graph without masking, and models and "other" nodes keep their labels. The comment on
  \<open>maskSensitive\<close> in \<open>types.ts\<close> announces the unchanged shape, but labels that are masked in part; the code replaces the whole label.
\<close>

theorem flow_masking_hides_names:
  assumes "G = buildFlowGraph lc chartColors rows metric role palette visible ctx (options\<lparr>maskSensitive := True\<rparr>)"
    and "plain = buildFlowGraph lc chartColors rows metric role palette visible ctx (options\<lparr>maskSensitive := False\<rparr>)"
  shows "(\<forall>n \<in> set (g_nodes G). sensitive_node n \<longrightarrow> hidden_label (n_label n)) \<and>
    (\<forall>l \<in> set (g_links G). \<exists>s \<in> set (g_nodes G). \<exists>t \<in> set (g_nodes G). l_source l = n_id s \<and> l_target l = n_id t \<and>
       (sensitive_node s \<longrightarrow> hidden_label (l_sourceLabel l)) \<and> (sensitive_node t \<longrightarrow> hidden_label (l_targetLabel l))) \<and>
    (\<forall>n \<in> set (g_nodes G). \<not> sensitive_node n \<longrightarrow> n \<in> set (g_nodes plain)) \<and>
    mset (map node_core (g_nodes G)) = mset (map node_core (g_nodes plain)) \<and>
    mset (map link_core (g_links G)) = mset (map link_core (g_links plain))"
proof -
  have same: "graph_paths lc rows metric role visible ctx (options\<lparr>maskSensitive := b\<rparr>) = graph_paths lc rows metric role visible ctx options"
    "graph_highlights lc rows metric role visible ctx (options\<lparr>maskSensitive := b\<rparr>) = graph_highlights lc rows metric role visible ctx options" for b
    by (simp_all add: graph_paths_def prepare_paths_def graph_highlights_def)
  have plain: "mark_node (options\<lparr>maskSensitive := True\<rparr>) hs m = mark_node (options\<lparr>maskSensitive := False\<rparr>) hs m" if "\<not> sensitive_node m" for hs m
    using that by (simp add: mark_node_def mask_node_def mask_candidate_iff split: option.split)
  have "n \<in> set (g_nodes plain)" if "n \<in> set (g_nodes G)" "\<not> sensitive_node n" for n
  proof -
    note n = that(1) [unfolded assms(1) graph_nodes_marked same]
    obtain m where m: "m \<in> snd ` set (raw_nodes metric (graph_color lc chartColors palette (graph_paths lc rows metric role visible ctx options))
        (graph_paths lc rows metric role visible ctx options))"
      "n = mark_node (options\<lparr>maskSensitive := True\<rparr>) (graph_highlights lc rows metric role visible ctx options) m"
      by (rule imageE [OF n])
    then have "\<not> sensitive_node m" using that(2) by simp
    note eq = plain [OF this]
    show ?thesis unfolding assms(2) graph_nodes_marked same m(2) eq by (rule imageI [OF m(1)])
  qed
  moreover have "mset (map node_core (g_nodes G)) = mset (map node_core (g_nodes plain))"
    "mset (map link_core (g_links G)) = mset (map link_core (g_links plain))"
    unfolding assms graph_nodes_core graph_links_core same by (rule refl)+
  moreover note masked_labels_hidden [OF _ assms(1), simplified]
  ultimately show ?thesis by blast
qed

lemma masked_sample_node:
  defines "masked \<equiv> sample_options\<lparr>topNodeLimit := None, maskSensitive := True\<rparr>"
  shows "\<exists>n \<in> set (g_nodes (buildFlowGraph code_unit_compare (\<lambda>_. [js ''#1664FF'']) sample_rows QuotaMetric UserRole None None None masked)).
    sensitive_node n \<and> n_id n = js ''token:a''"
proof -
  let ?P = "graph_paths code_unit_compare sample_rows QuotaMetric UserRole None None masked"
  let ?raw = "raw_nodes QuotaMetric (graph_color code_unit_compare (\<lambda>_. [js ''#1664FF'']) None ?P) ?P"
  let ?p = "\<lparr>pp_path = flowPathForStages (sample_row ''a'' ''m1'' 5) (resolveVisibleStages UserRole None) None,
      pp_metrics = rowMetrics (sample_row ''a'' ''m1'' 5)\<rparr>"
  have p: "?p \<in> set ?P"
    by (simp add: graph_paths_def prepare_paths_def masked_def sample_rows_def normalizeTopNodeLimit_def buildTopNodeSets_def
        applyTopNodeLimit_def List.map_filter_simps)
  have "TokenKind \<in> set (resolveVisibleStages UserRole None)" by (simp add: resolveVisibleStages_def)
  then have node: "NODE_BUILDERS TokenKind (sample_row ''a'' ''m1'' 5) None \<in> set (pp_path ?p)"
    unfolding flowPathForStages_def PreparedFlowPath.select_convs set_map by (rule imageI)
  have node_id: "pn_id (NODE_BUILDERS TokenKind (sample_row ''a'' ''m1'' 5) None) = js ''token:a''"
    by (simp add: tokenNode_def sample_row_def numberValue_def str_or_def opt_str_def Let_def js_Cons)
  have "js ''token:a'' \<in> fst ` set ?raw"
    unfolding raw_nodes_def fst_foldl_accum using node_key_path_entries [OF p node] unfolding node_id by (rule UnI2)
  then obtain m where m: "m \<in> set (map snd ?raw)" "n_id m = js ''token:a''"
    "mark_node masked (graph_highlights code_unit_compare sample_rows QuotaMetric UserRole None None masked) m
      \<in> set (g_nodes (buildFlowGraph code_unit_compare (\<lambda>_. [js ''#1664FF'']) sample_rows QuotaMetric UserRole None None None masked))"
    by (rule graph_node_of_raw)
  obtain i where i: "(i, m) \<in> set ?raw" using m(1) by auto
  have "hd (js ''token:a'') = kind_letter (n_kind m)" using raw_nodes_entry [OF _ i, of "resolveVisibleStages UserRole None"] m(2) by (simp add: graph_paths_wf)
  then have "n_kind m \<noteq> ModelKind" by (auto simp: kind_letter_def js_Cons)
  moreover have "js ''token:a'' \<noteq> OTHER_FLOW_NODE_IDS k" for k by (cases k) (simp_all add: js_Cons)
  ultimately have "sensitive_node m" using m(2) by (auto simp: sensitive_node_def)
  then show ?thesis using m(2,3) by (intro bexI [OF _ m(3)]) simp
qed

theorem flow_masking_hides_names_witness:
  "\<exists>n \<in> set (g_nodes (buildFlowGraph code_unit_compare (\<lambda>_. [js ''#1664FF'']) sample_rows QuotaMetric UserRole None None None
     (sample_options\<lparr>topNodeLimit := None, maskSensitive := True\<rparr>))). n_id n = js ''token:a'' \<and> hidden_label (n_label n)"
  using masked_sample_node conjunct1 [OF flow_masking_hides_names [OF refl refl, of code_unit_compare "\<lambda>_. [js ''#1664FF'']" sample_rows
      QuotaMetric UserRole None None None "sample_options\<lparr>topNodeLimit := None\<rparr>"]] by auto

section \<open>Highlighting\<close>

definition matching_paths ::
  "FlowNodeFilter option \<Rightarrow> FlowLinkSelection option \<Rightarrow> PreparedFlowPath list \<Rightarrow> FlowPathNode list set" where
  "matching_paths aNode aLink P = {pp_path p | p. p \<in> set P \<and> matchesPath aNode aLink (pp_path p)}"

lemma buildFlowHighlightSets_cases:
  assumes wf: "\<And>p. p \<in> set P \<Longrightarrow> wf_path stages (pp_path p)" and "stages \<noteq> []"
  shows "matching_paths aNode aLink P = {} \<Longrightarrow> buildFlowHighlightSets P aNode aLink stages = None"
    and "matching_paths aNode aLink P \<noteq> {} \<Longrightarrow> \<exists>h. buildFlowHighlightSets P aNode aLink stages = Some h \<and>
      set (h_nodes h) = (\<Union>path \<in> matching_paths aNode aLink P. pn_id ` set path) \<and>
      set (h_links h) = (\<Union>path \<in> matching_paths aNode aLink P. (\<lambda>(s, t). pathLinkKey s t) ` set (path_pairs path))"
proof -
  let ?hit = "filter (\<lambda>p. matchesPath aNode aLink (pp_path p)) P"
  let ?nodes = "uniq (concat (map (\<lambda>p. map pn_id (pp_path p)) ?hit))"
  have hit: "pp_path ` set ?hit = matching_paths aNode aLink P" by (auto simp: matching_paths_def)
  have nodes: "set ?nodes = (\<Union>path \<in> matching_paths aNode aLink P. pn_id ` set path)"
    unfolding hit [symmetric] by auto
  have ne: "path \<noteq> []" if "path \<in> matching_paths aNode aLink P" for path
    using that wf wf_path_not_Nil assms(2) by (auto simp: matching_paths_def)
  have "?nodes = [] \<longleftrightarrow> set ?nodes = {}" by (rule set_empty [symmetric])
  also have "\<dots> \<longleftrightarrow> matching_paths aNode aLink P = {}" unfolding nodes using ne by auto
  finally have nodes_empty: "?nodes = [] \<longleftrightarrow> matching_paths aNode aLink P = {}" .
  show "buildFlowHighlightSets P aNode aLink stages = None" if "matching_paths aNode aLink P = {}"
    using that nodes_empty by (simp add: buildFlowHighlightSets_def Let_def)
  show "\<exists>h. buildFlowHighlightSets P aNode aLink stages = Some h \<and>
      set (h_nodes h) = (\<Union>path \<in> matching_paths aNode aLink P. pn_id ` set path) \<and>
      set (h_links h) = (\<Union>path \<in> matching_paths aNode aLink P. (\<lambda>(s, t). pathLinkKey s t) ` set (path_pairs path))"
    if ex: "matching_paths aNode aLink P \<noteq> {}"
  proof -
    obtain p where p: "p \<in> set P" "matchesPath aNode aLink (pp_path p)" using ex by (auto simp: matching_paths_def)
    have "(case aNode of None \<Rightarrow> False | Some n \<Rightarrow> nf_kind n \<in> set stages) \<or> aLink \<noteq> None"
      using p wf [OF p(1)] by (force simp: matchesPath_def pathContainsFlowNode_def list_ex_iff wf_path_def split: option.splits)
    moreover have "?nodes \<noteq> []" using nodes_empty ex by simp
    ultimately have "buildFlowHighlightSets P aNode aLink stages = Some \<lparr>h_nodes = ?nodes,
        h_links = uniq (concat (map (\<lambda>p. map (\<lambda>(s, t). pathLinkKey s t) (path_pairs (pp_path p))) ?hit))\<rparr>"
      by (auto simp: buildFlowHighlightSets_def Let_def)
    then show ?thesis
      using nodes by (simp add: hit [symmetric] image_image)
  qed
qed

definition on_path :: "FlowPathNode list set \<Rightarrow> jstring \<Rightarrow> bool" where
  "on_path paths i \<longleftrightarrow> (\<exists>path \<in> paths. i \<in> pn_id ` set path)"

definition on_step :: "FlowPathNode list set \<Rightarrow> jstring \<Rightarrow> jstring \<Rightarrow> bool" where
  "on_step paths i j \<longleftrightarrow> (\<exists>path \<in> paths. \<exists>(s, t) \<in> set (path_pairs path). pn_id s = i \<and> pn_id t = j)"

lemma graph_highlights_cases:
  fixes lc rows metric role visible ctx options
  defines "M \<equiv> matching_paths (activeNode options) (activeLink options) (graph_paths lc rows metric role visible ctx options)"
  shows "M = {} \<Longrightarrow> graph_highlights lc rows metric role visible ctx options = None"
    and "M \<noteq> {} \<Longrightarrow> \<exists>h. graph_highlights lc rows metric role visible ctx options = Some h \<and>
      set (h_nodes h) = (\<Union>path \<in> M. pn_id ` set path) \<and>
      set (h_links h) = (\<Union>path \<in> M. (\<lambda>(s, t). pathLinkKey s t) ` set (path_pairs path))"
  unfolding M_def graph_highlights_def
  by (rule buildFlowHighlightSets_cases [OF graph_paths_wf resolveVisibleStages_not_Nil], assumption+)+

lemma raw_node_flags:
  assumes "(i, n) \<in> set (raw_nodes metric color_of P)"
  shows "n_highlighted n = None \<and> n_dimmed n = None"
  by (rule accum_inv [where I = "\<lambda>_ n. n_highlighted n = None \<and> n_dimmed n = None", OF _ _ _ assms [unfolded raw_nodes_def]])
    (auto simp: node_step_def node_init_def split: prod.splits)

lemma raw_link_flags:
  assumes "(i, l) \<in> set (raw_links metric color_of P)"
  shows "l_highlighted l = None \<and> l_dimmed l = None"
  by (rule accum_inv [where I = "\<lambda>_ l. l_highlighted l = None \<and> l_dimmed l = None", OF _ _ _ assms [unfolded raw_links_def]])
    (auto simp: link_step_def link_init_def split: prod.splits)

lemma mark_node_flags:
  "n_highlighted (mark_node options hs n) = (case hs of None \<Rightarrow> n_highlighted n | Some h \<Rightarrow> Some (n_id n \<in> set (h_nodes h)))"
  "n_dimmed (mark_node options hs n) = (case hs of None \<Rightarrow> n_dimmed n | Some h \<Rightarrow> Some (n_id n \<notin> set (h_nodes h)))"
  by (simp_all add: mark_node_def highlight_node_def mask_node_def Let_def split: option.splits)

lemma mark_link_flags:
  "l_highlighted (mark_link options hs M l) = (case hs of None \<Rightarrow> l_highlighted l | Some h \<Rightarrow> Some (linkStableKey l \<in> set (h_links h)))"
  "l_dimmed (mark_link options hs M l) = (case hs of None \<Rightarrow> l_dimmed l | Some h \<Rightarrow> Some (linkStableKey l \<notin> set (h_links h)))"
  by (simp_all add: mark_link_def highlight_link_def mask_link_def linkStableKey_def Let_def split: option.splits)

lemma step_key_iff:
  assumes clean: "\<And>path n. path \<in> M \<Longrightarrow> n \<in> set path \<Longrightarrow> 0 \<notin> set (pn_id n)" and "0 \<notin> set (l_source l)"
  shows "linkStableKey l \<in> (\<Union>path \<in> M. (\<lambda>(s, t). pathLinkKey s t) ` set (path_pairs path)) \<longleftrightarrow>
    on_step M (l_source l) (l_target l)"
proof -
  have eq: "linkStableKey l = pathLinkKey s t \<longleftrightarrow> pn_id s = l_source l \<and> pn_id t = l_target l" if "0 \<notin> set (pn_id s)" for s t
    using split_at_zero [OF that, of "pn_id t"] split_at_zero [OF assms(2), of "l_target l"]
    by (auto simp: linkStableKey_def pathLinkKey_def)
  have "0 \<notin> set (pn_id (fst e))" if "path \<in> M" "e \<in> set (path_pairs path)" for path e
    using clean that in_path_pairs by blast
  then show ?thesis
    by (force simp: on_step_def eq)
qed

text \<open>
  C28: highlighting marks exactly the flow through the active node or link. If some path runs
  through it, each node is highlighted when it lies on such a path and dimmed otherwise, and each
  link is highlighted when it is a step of such a path and dimmed otherwise; if no path does,
  nothing is highlighted or dimmed. Row names are taken to hold no NUL character.
\<close>

theorem flow_highlight_exact:
  assumes "list_all row_clean rows"
    and "G = buildFlowGraph lc chartColors rows metric role palette visible ctx options"
    and "M = matching_paths (activeNode options) (activeLink options) (graph_paths lc rows metric role visible ctx options)"
  shows "(\<forall>n \<in> set (g_nodes G).
      n_highlighted n = (if M = {} then None else Some (on_path M (n_id n))) \<and>
      n_dimmed n = (if M = {} then None else Some (\<not> on_path M (n_id n)))) \<and>
    (\<forall>l \<in> set (g_links G).
      l_highlighted l = (if M = {} then None else Some (on_step M (l_source l) (l_target l))) \<and>
      l_dimmed l = (if M = {} then None else Some (\<not> on_step M (l_source l) (l_target l))))"
proof (intro conjI ballI)
  let ?P = "graph_paths lc rows metric role visible ctx options"
  let ?hs = "graph_highlights lc rows metric role visible ctx options"
  note cases = graph_highlights_cases [of options lc rows metric role visible ctx, folded assms(3)]
  show "n_highlighted n = (if M = {} then None else Some (on_path M (n_id n)))"
    "n_dimmed n = (if M = {} then None else Some (\<not> on_path M (n_id n)))" if n: "n \<in> set (g_nodes G)" for n
  proof -
    obtain i r where "(i, r) \<in> set (raw_nodes metric (graph_color lc chartColors palette ?P) ?P)" "n = mark_node options ?hs r"
      using n by (auto simp: assms(2) graph_nodes_marked)
    then show "n_highlighted n = (if M = {} then None else Some (on_path M (n_id n)))"
      "n_dimmed n = (if M = {} then None else Some (\<not> on_path M (n_id n)))"
      using cases raw_node_flags by (cases "M = {}"; force simp: mark_node_flags on_path_def)+
  qed
  show "l_highlighted l = (if M = {} then None else Some (on_step M (l_source l) (l_target l)))"
    "l_dimmed l = (if M = {} then None else Some (\<not> on_step M (l_source l) (l_target l)))" if l: "l \<in> set (g_links G)" for l
  proof -
    obtain key r where r: "(key, r) \<in> set (raw_links metric (graph_color lc chartColors palette ?P) ?P)"
      and marks: "link_marks l = link_marks (mark_link options ?hs (mask_map (map snd (raw_nodes metric (graph_color lc chartColors palette ?P) ?P))) r)"
      using l unfolding assms(2) by (rule graph_link_origin)
    have clean: "0 \<notin> set (pn_id n)" if "p \<in> set ?P" "n \<in> set (pp_path p)" for p n
      using graph_paths_clean [OF assms(1) that] .
    have "0 \<notin> set (l_source r)"
      using raw_links_entry [OF clean r] by (auto dest: set_takeWhileD)
    then have "linkStableKey r \<in> (\<Union>path \<in> M. (\<lambda>(s, t). pathLinkKey s t) ` set (path_pairs path)) \<longleftrightarrow>
        on_step M (l_source r) (l_target r)"
      by (rule step_key_iff [rotated]) (auto simp: assms(3) matching_paths_def dest: clean)
    then show "l_highlighted l = (if M = {} then None else Some (on_step M (l_source l) (l_target l)))"
      "l_dimmed l = (if M = {} then None else Some (\<not> on_step M (l_source l) (l_target l)))"
      using marks cases raw_link_flags [OF r] by (cases "M = {}"; force simp: link_marks_def mark_link_flags)+
  qed
qed

theorem flow_highlight_exact_witness:
  "\<exists>n \<in> set (g_nodes (buildFlowGraph code_unit_compare (\<lambda>_. []) sample_rows QuotaMetric UserRole None None None
      (sample_options\<lparr>activeNode := Some \<lparr>nf_kind = GroupKind, nf_id = js ''group:none''\<rparr>\<rparr>))).
     n_kind n = ModelKind \<and> n_highlighted n = None"
proof -
  let ?o = "sample_options\<lparr>activeNode := Some \<lparr>nf_kind = GroupKind, nf_id = js ''group:none''\<rparr>\<rparr>"
  let ?G = "buildFlowGraph code_unit_compare (\<lambda>_. []) sample_rows QuotaMetric UserRole None None None ?o"
  let ?P = "graph_paths code_unit_compare sample_rows QuotaMetric UserRole None None ?o"
  have "\<exists>n \<in> set (g_nodes ?G). n_kind n = ModelKind"
    by (rule graph_column_inhabited) (simp_all add: sample_options_def resolveVisibleStages_def sample_rows_def
        sample_row_def summary_metric_def buildSummary_def rowMetrics_def numberValue_def)
  then obtain n where n: "n \<in> set (g_nodes ?G)" "n_kind n = ModelKind" by blast
  have "pn_id x \<noteq> js ''group:none''" if p: "p \<in> set ?P" "x \<in> set (pp_path p)" for p x
  proof -
    obtain row sets mode where row: "row \<in> set sample_rows"
      "applyTopNodeLimit (flowPathForStages row (resolveVisibleStages UserRole None) None) sets mode (otherNodeLabel ?o) = Some (pp_path p)"
      using p(1) unfolding graph_paths_def prepare_paths_def Let_def in_map_filter by auto
    from in_applyTopNodeLimit [OF row(2) p(2)] show ?thesis
    proof
      assume "x \<in> set (flowPathForStages row (resolveVisibleStages UserRole None) None)"
      with row(1) show ?thesis
        by (auto simp: flowPathForStages_def resolveVisibleStages_def sample_rows_def sample_row_def tokenNode_def
            groupNode_def modelNode_def Let_def str_or_def opt_str_def numberValue_def js_Cons)
    next
      assume "\<exists>k. x = otherFlowNode k (otherNodeLabel ?o)"
      then obtain k where "x = otherFlowNode k (otherNodeLabel ?o)" by blast
      then show ?thesis by (cases k) (simp_all add: js_Cons)
    qed
  qed
  then have none: "matching_paths (activeNode ?o) (activeLink ?o) ?P = {}"
    by (auto simp: matching_paths_def matchesPath_def sample_options_def pathContainsFlowNode_def list_ex_iff)
  show ?thesis
    using conjunct1 [OF flow_highlight_exact [OF sample_graph_row_clean refl none [symmetric], of "\<lambda>_. []" None]] n by auto
qed

section \<open>The top-N limit\<close>

definition limited_ids ::
  "(jstring \<Rightarrow> jstring \<Rightarrow> int) \<Rightarrow> FlowQuotaDataItem list \<Rightarrow> FlowMetric \<Rightarrow> FlowNodeKind \<Rightarrow> FlowPathContext \<Rightarrow> nat \<Rightarrow>
   FlowGraphOptions \<Rightarrow> jstring set" where
  \<comment> \<open>the ids a column may show under the limit\<close>
  "limited_ids lc rows metric k ctx n options =
     set (top_ids lc rows metric k ctx n) \<union> (if overflowMode options = Some HideOverflow then {} else {OTHER_FLOW_NODE_IDS k})"

lemma card_limited_ids:
  "card (limited_ids lc rows metric k ctx n options) \<le> n + (if overflowMode options = Some HideOverflow then 0 else 1)"
proof -
  have "card (set (top_ids lc rows metric k ctx n)) \<le> n"
    using card_length [of "top_ids lc rows metric k ctx n"] length_top_ids [of lc rows metric k ctx n] by simp
  then show ?thesis by (auto simp: limited_ids_def card_insert_if)
qed

lemma applyTopNodeLimit_top:
  assumes "applyTopNodeLimit path (Some sets) mode f = Some path'" "x \<in> set path'"
  shows "isTopFlowNode x (Some sets) \<or> (mode \<noteq> HideOverflow \<and> (\<exists>k. x = otherFlowNode k f))"
  using assms by (auto simp: applyTopNodeLimit_def list_ex_iff split: if_splits)

lemma limited_path_ids:
  assumes "normalizeTopNodeLimit (topNodeLimit options) = Some n"
    and "p \<in> set (graph_paths lc rows metric role visible ctx options)" "x \<in> set (pp_path p)"
  shows "pn_id x \<in> limited_ids lc rows metric (pn_kind x) ctx n options"
proof -
  let ?stages = "resolveVisibleStages role visible"
  have n: "0 < n" using assms(1) by (auto simp: normalizeTopNodeLimit_def Let_def split: option.splits if_splits)
  have k: "pn_kind x \<in> set ?stages"
    by (rule wf_path_kind [OF graph_paths_wf [OF assms(2)] assms(3)])
  obtain sets where sets: "buildTopNodeSets lc rows metric ?stages (Some n) ctx = Some sets"
    "map_of sets (pn_kind x) = Some (top_ids lc rows metric (pn_kind x) ctx n)"
    using map_of_buildTopNodeSets [OF distinct_resolveVisibleStages k n] by blast
  obtain row where "applyTopNodeLimit (flowPathForStages row ?stages ctx) (Some sets)
      (case overflowMode options of Some m \<Rightarrow> m | None \<Rightarrow> AggregateOverflow) (otherNodeLabel options) = Some (pp_path p)"
    using assms(2) unfolding graph_paths_def prepare_paths_def Let_def in_map_filter assms(1) sets(1) by auto
  from applyTopNodeLimit_top [OF this assms(3)] show ?thesis
    using sets(2) by (auto simp: limited_ids_def isTopFlowNode_def split: option.splits)
qed

lemma raw_column_length:
  assumes "\<And>p. p \<in> set P \<Longrightarrow> wf_path stages (pp_path p)"
    and "\<And>p x. p \<in> set P \<Longrightarrow> x \<in> set (pp_path p) \<Longrightarrow> pn_kind x = k \<Longrightarrow> pn_id x \<in> A" "finite A"
  shows "length (filter (\<lambda>x. n_kind (snd x) = k) (raw_nodes metric color_of P)) \<le> card A"
proof -
  let ?xs = "filter (\<lambda>x. n_kind (snd x) = k) (raw_nodes metric color_of P)"
  have "fst x \<in> A" if x: "x \<in> set ?xs" for x
  proof -
    obtain i n where xin: "x = (i, n)" by (rule prod.exhaust)
    with x have ent: "x = (i, n)" "(i, n) \<in> set (raw_nodes metric color_of P)" "n_kind n = k" by simp_all
    have "fst (i, n) \<in> fst ` set (raw_nodes metric color_of P)" using ent(2) by (rule imageI)
    then have "i \<in> node_key ` set (node_entries color_of P)" unfolding raw_nodes_def fst_foldl_accum by simp
    then obtain e where e: "e \<in> set (node_entries color_of P)" "i = pn_id (fst e)" unfolding node_key_def by blast
    then obtain p where "p \<in> set P" "e \<in> set (path_entries (\<lambda>p. p) color_of p)" by auto
    with in_path_entries [OF this(2)] e(2) obtain y where y: "p \<in> set P" "y \<in> set (pp_path p)" "pn_id y = i" by blast
    have "pn_kind y = k"
      using wf_path_letter [OF assms(1) [OF y(1)] y(2)] y(3) raw_nodes_entry [OF assms(1) ent(2)] ent(3) by simp
    with assms(2) [OF y(1,2)] y(3) ent(1) show ?thesis by simp
  qed
  then have "set (map fst ?xs) \<subseteq> A" unfolding set_map by (rule image_subsetI)
  then have "card (set (map fst ?xs)) \<le> card A" by (rule card_mono [OF assms(3)])
  moreover have "distinct (map fst ?xs)"
    by (rule distinct_map_filter [OF distinct_raw_nodes])
  ultimately show ?thesis
    using distinct_card [of "map fst ?xs"] by (simp only: length_map)
qed

text \<open>
  the top-N limit keeps the chart readable. With a limit of \<open>n\<close>, a column never shows more
  than \<open>n\<close> nodes when overflow is hidden, and never more than \<open>n + 1\<close> (the last for "other")
  when it is aggregated.
\<close>

theorem flow_top_limit_bounds_columns:
  assumes "normalizeTopNodeLimit (topNodeLimit options) = Some n"
  shows "length (filter (\<lambda>x. n_kind x = k)
      (g_nodes (buildFlowGraph lc chartColors rows metric role palette visible ctx options)))
    \<le> n + (if overflowMode options = Some HideOverflow then 0 else 1)"
proof -
  let ?P = "graph_paths lc rows metric role visible ctx options"
  let ?raw = "raw_nodes metric (graph_color lc chartColors palette ?P) ?P"
  have "size {#c \<in># mset (map node_core (g_nodes (buildFlowGraph lc chartColors rows metric role palette visible ctx options))).
      fst (snd c) = k#} = size {#c \<in># mset (map (node_core \<circ> snd) ?raw). fst (snd c) = k#}"
    by (simp only: graph_nodes_core)
  then have "length (filter (\<lambda>x. n_kind x = k) (g_nodes (buildFlowGraph lc chartColors rows metric role palette visible ctx options)))
      = length (filter (\<lambda>x. n_kind (snd x) = k) ?raw)"
    unfolding mset_filter [symmetric] size_mset filter_map length_map by (simp add: comp_def node_core_def)
  also have "\<dots> \<le> card (limited_ids lc rows metric k ctx n options)"
    by (rule raw_column_length [of _ "resolveVisibleStages role visible"])
      (auto simp: graph_paths_wf limited_ids_def dest: limited_path_ids [OF assms, unfolded limited_ids_def])
  also note card_limited_ids
  finally show ?thesis .
qed

theorem flow_top_limit_bounds_columns_witness:
  "length (filter (\<lambda>x. n_kind x = TokenKind) (g_nodes sample_graph)) \<le> 2"
  using flow_top_limit_bounds_columns [of sample_options 1 TokenKind code_unit_compare "\<lambda>_. [js ''#1664FF'']" sample_rows
      QuotaMetric UserRole None None None]
  by (simp add: sample_options_def normalizeTopNodeLimit_def sample_graph_def)

end
