(* ===== verification/Js_Value.thy ===== *)
theory Js_Value
  imports Js_Prelude
begin

text \<open>
  JavaScript values of unknown shape, as the client meets them in chart events and parsed JSON:
  own properties, the conversion to numbers and the truth value of a value. Numbers are exact
  rationals; \<open>NaN\<close> and the infinities are \<open>None\<close> where a conversion can give them.
\<close>

datatype jsval =
    JUndef
  | JNull
  | JBool bool
  | JNum rat
  | JStr jstring
  | JArr "jsval list"
  | JObj "(jstring \<times> jsval) list"

definition is_object :: "jsval \<Rightarrow> bool" where
  \<comment> \<open>\<open>value && typeof value === 'object'\<close>; arrays are objects\<close>
  "is_object v = (case v of JArr _ \<Rightarrow> True | JObj _ \<Rightarrow> True | _ \<Rightarrow> False)"

definition elem_at :: "jsval list \<Rightarrow> rat \<Rightarrow> jsval" where
  \<comment> \<open>\<open>xs[i]\<close> for a number \<open>i\<close>: anything but an index in range gives \<open>undefined\<close>\<close>
  "elem_at xs i = (let n = nat (floor i) in if i = of_nat n \<and> n < length xs then xs ! n else JUndef)"

definition js_prop :: "jsval \<Rightarrow> jstring \<Rightarrow> jsval" where
  \<comment> \<open>the own property \<open>v[key]\<close> for a key that is a literal of the source, hence no index\<close>
  "js_prop v key =
     (case v of
        JObj kvs \<Rightarrow> (case map_of kvs key of Some x \<Rightarrow> x | None \<Rightarrow> JUndef)
      | JArr xs \<Rightarrow> (if key = js ''length'' then JNum (of_nat (length xs)) else JUndef)
      | _ \<Rightarrow> JUndef)"

definition truthy :: "jsval \<Rightarrow> bool" where
  "truthy v =
     (case v of JUndef \<Rightarrow> False | JNull \<Rightarrow> False | JBool b \<Rightarrow> b | JNum n \<Rightarrow> n \<noteq> 0
      | JStr s \<Rightarrow> s \<noteq> [] | JArr _ \<Rightarrow> True | JObj _ \<Rightarrow> True)"

section \<open>Decimal literals\<close>

definition digits_rat :: "jstring \<Rightarrow> rat" where
  "digits_rat ds = of_nat (digits_val ds)"

definition pow10 :: "int \<Rightarrow> rat" where
  "pow10 e = (if 0 \<le> e then 10 ^ nat e else 1 / 10 ^ nat (- e))"

definition exponent_part :: "jstring \<Rightarrow> int option" where
  \<comment> \<open>what follows the mantissa: nothing, or \<open>e\<close>, a sign and digits\<close>
  "exponent_part s =
     (case s of [] \<Rightarrow> Some 0
      | c # r \<Rightarrow>
          if c = 101 \<or> c = 69 then
            (let neg = (case r of [] \<Rightarrow> False | d # _ \<Rightarrow> d = 45);
                 ds = (case r of [] \<Rightarrow> [] | d # r' \<Rightarrow> if d = 45 \<or> d = 43 then r' else r) in
             if ds \<noteq> [] \<and> list_all is_digit ds then Some (if neg then - int (digits_val ds) else int (digits_val ds))
             else None)
          else None)"

definition unsigned_decimal :: "jstring \<Rightarrow> rat option" where
  \<comment> \<open>\<open>12\<close>, \<open>12.5\<close>, \<open>12.\<close>, \<open>.5\<close>, each with an optional exponent\<close>
  "unsigned_decimal s =
     (let whole = takeWhile is_digit s; rest = dropWhile is_digit s;
          dot = (case rest of [] \<Rightarrow> False | c # _ \<Rightarrow> c = 46);
          frac = (if dot then takeWhile is_digit (tl rest) else []);
          rest' = (if dot then dropWhile is_digit (tl rest) else rest) in
      if whole = [] \<and> frac = [] then None
      else map_option (\<lambda>e. (digits_rat whole + digits_rat frac / 10 ^ length frac) * pow10 e) (exponent_part rest'))"

definition str_number :: "jstring \<Rightarrow> rat option" where
  \<comment> \<open>\<open>Number(s)\<close> on decimal strings; \<open>None\<close> is NaN, an infinity or a \<open>0x\<close>, \<open>0o\<close>, \<open>0b\<close> literal\<close>
  "str_number s =
     (let t = trim s in
      case t of [] \<Rightarrow> Some 0
      | c # r \<Rightarrow> if c = 45 then map_option uminus (unsigned_decimal r)
                 else if c = 43 then unsigned_decimal r else unsigned_decimal t)"

definition to_number :: "jsval \<Rightarrow> rat option" where
  \<comment> \<open>\<open>Number(v)\<close>; arrays and objects, which the source never passes, give \<open>None\<close>\<close>
  "to_number v =
     (case v of JUndef \<Rightarrow> None | JNull \<Rightarrow> Some 0 | JBool b \<Rightarrow> Some (if b then 1 else 0) | JNum n \<Rightarrow> Some n
      | JStr s \<Rightarrow> str_number s | JArr _ \<Rightarrow> None | JObj _ \<Rightarrow> None)"

lemmas js_value_eval [js_eval] =
  is_object_def elem_at_def js_prop_def truthy_def digits_rat_def pow10_def exponent_part_def
  unsigned_decimal_def str_number_def to_number_def

lemma js_prop_JObj_Cons: "js_prop (JObj ((k, v) # kvs)) key = (if key = k then v else js_prop (JObj kvs) key)"
  by (simp add: js_prop_def)

end
