(* ===== verification/Flow_Data.thy ===== *)
theory Flow_Data
  imports Flow_Balance Js_Value
begin

text \<open>
  The rest of the dashboard's flow view: the filter options with their counts, the composition
  \<open>buildDashboardFlowData\<close>, the data of the Sankey chart and the reading of its click events
  (\<open>features/dashboard/lib/flow.ts\<close>), and the display state of the panel
  (\<open>features/dashboard/lib/flow-selection.ts\<close>).
\<close>

section \<open>Filter options\<close>

record FlowUserFilterOption =
  uo_value :: jstring
  uo_label :: jstring
  uo_valueLabel :: jstring
  uo_valueRaw :: int
  uo_color :: jstring

record FlowNodeFilterOption =
  no_kind :: FlowNodeKind
  no_value :: jstring
  no_label :: jstring
  no_valueLabel :: jstring
  no_valueRaw :: int
  no_color :: jstring

record FlowFilterOptions =
  fo_users :: "FlowUserFilterOption list"
  fo_nodes :: "FlowNodeFilterOption list"

record UserTotal =
  ut_label :: jstring
  ut_value :: int
  ut_color :: jstring

definition has_user :: "FlowQuotaDataItem \<Rightarrow> bool" where
  \<comment> \<open>not \<open>!row.user_id && !row.username\<close>\<close>
  "has_user row \<longleftrightarrow> numberValue (user_id row) \<noteq> 0 \<or> opt_str (username row) \<noteq> []"

definition add_user_total ::
  "FlowMetric \<Rightarrow> (jstring \<Rightarrow> jstring) \<Rightarrow> (jstring \<times> UserTotal) list \<Rightarrow> FlowQuotaDataItem \<Rightarrow> (jstring \<times> UserTotal) list" where
  "add_user_total metric color_of users row =
     (let user = userNode row in
      if \<not> has_user row then users
      else
        (let value = metricValue (rowMetrics row) metric;
             current = (case map_of users (pn_id user) of Some u \<Rightarrow> u
               | None \<Rightarrow> \<lparr>ut_label = pn_label user, ut_value = 0, ut_color = color_of (pn_id user)\<rparr>) in
         AList.update (pn_id user) (current\<lparr>ut_value := ut_value current + value\<rparr>) users))"

definition user_option_compare ::
  "(jstring \<Rightarrow> jstring \<Rightarrow> int) \<Rightarrow> FlowUserFilterOption \<Rightarrow> FlowUserFilterOption \<Rightarrow> int" where
  "user_option_compare lc a b = num_or (uo_valueRaw b - uo_valueRaw a) (lc (uo_label a) (uo_label b))"

definition buildUserFilterOptions ::
  "(jstring \<Rightarrow> jstring \<Rightarrow> int) \<Rightarrow> (nat \<Rightarrow> jstring list) \<Rightarrow> (int \<Rightarrow> jstring) \<Rightarrow> FlowQuotaDataItem list \<Rightarrow> FlowMetric \<Rightarrow>
   jstring list option \<Rightarrow> FlowUserFilterOption list" where
  "buildUserFilterOptions lc chartColors formatNumber rows metric palette =
     (let colors = stableColorMap chartColors (js_sort lc (map (\<lambda>row. pn_id (userNode row)) rows)) palette;
          color_of = (\<lambda>i. case map_of colors i of Some c \<Rightarrow> c | None \<Rightarrow> colorAt chartColors 0 palette);
          users = foldl (add_user_total metric color_of) [] rows in
      js_sort (user_option_compare lc)
        (map (\<lambda>(value, user).
            \<lparr>uo_value = value, uo_label = ut_label user, uo_valueLabel = formatNumber (ut_value user),
             uo_valueRaw = ut_value user, uo_color = ut_color user\<rparr>) users))"

fun kind_name :: "FlowNodeKind \<Rightarrow> jstring" where
  \<comment> \<open>the string a \<open>FlowNodeKind\<close> is\<close>
  "kind_name UserKind = js ''user''"
| "kind_name NodeKind = js ''node''"
| "kind_name TokenKind = js ''token''"
| "kind_name GroupKind = js ''group''"
| "kind_name ModelKind = js ''model''"
| "kind_name ChannelKind = js ''channel''"

definition nodeFilterKey :: "FlowNodeFilter \<Rightarrow> jstring" where
  "nodeFilterKey f = kind_name (nf_kind f) @ [0] @ nf_id f"

definition add_option_total ::
  "FlowMetric \<Rightarrow> FlowNodeKind \<Rightarrow> FlowPathContext \<Rightarrow> (jstring \<times> FlowNodeRank) list \<Rightarrow> FlowQuotaDataItem \<Rightarrow>
   (jstring \<times> FlowNodeRank) list" where
  "add_option_total metric stage ctx totals row =
     (let value = metricValue (rowMetrics row) metric;
          node = NODE_BUILDERS stage row ctx;
          key = nodeFilterKey \<lparr>nf_kind = pn_kind node, nf_id = pn_id node\<rparr>;
          current = (case map_of totals key of Some r \<Rightarrow> r | None \<Rightarrow> \<lparr>rank_node = node, rank_value = 0\<rparr>) in
      AList.update key (current\<lparr>rank_value := rank_value current + value\<rparr>) totals)"

definition stage_index :: "FlowNodeKind list \<Rightarrow> FlowNodeKind \<Rightarrow> int" where
  \<comment> \<open>\<open>stageOrder.get(kind) ?? 0\<close>\<close>
  "stage_index stages k = (case find_index (\<lambda>s. s = k) stages of Some i \<Rightarrow> int i | None \<Rightarrow> 0)"

definition node_option_compare ::
  "(jstring \<Rightarrow> jstring \<Rightarrow> int) \<Rightarrow> FlowNodeKind list \<Rightarrow> FlowNodeFilterOption \<Rightarrow> FlowNodeFilterOption \<Rightarrow> int" where
  "node_option_compare lc stages a b =
     num_or (stage_index stages (no_kind a) - stage_index stages (no_kind b))
       (num_or (no_valueRaw b - no_valueRaw a)
         (num_or (lc (no_label a) (no_label b)) (lc (no_value a) (no_value b))))"

definition stage_options ::
  "(int \<Rightarrow> jstring) \<Rightarrow> (jstring \<Rightarrow> jstring) \<Rightarrow> FlowQuotaDataItem list \<Rightarrow> FlowMetric \<Rightarrow> FlowNodeKind list \<Rightarrow> FlowPathContext \<Rightarrow>
   FlowNodeFilter list option \<Rightarrow> FlowNodeKind \<Rightarrow> FlowNodeFilterOption list" where
  \<comment> \<open>the body of the loop over \<open>stages\<close>\<close>
  "stage_options formatNumber color_of rows metric stages ctx selectedNodes stage =
     (let candidateRows = filterRowsByNodes rows (selectedNodeFiltersExceptKind selectedNodes stage) stages ctx;
          totals = foldl (add_option_total metric stage ctx) [] candidateRows in
      map (\<lambda>rank.
          \<lparr>no_kind = pn_kind (rank_node rank), no_value = pn_id (rank_node rank), no_label = pn_label (rank_node rank),
           no_valueLabel = formatNumber (rank_value rank), no_valueRaw = rank_value rank,
           no_color = color_of (pn_id (rank_node rank))\<rparr>) (map snd totals))"

definition buildNodeFilterOptions ::
  "(jstring \<Rightarrow> jstring \<Rightarrow> int) \<Rightarrow> (nat \<Rightarrow> jstring list) \<Rightarrow> (int \<Rightarrow> jstring) \<Rightarrow> FlowQuotaDataItem list \<Rightarrow> FlowMetric \<Rightarrow>
   FlowRole \<Rightarrow> FlowNodeKind list option \<Rightarrow> jstring list option \<Rightarrow> FlowPathContext \<Rightarrow> FlowNodeFilter list option \<Rightarrow>
   FlowNodeFilterOption list" where
  "buildNodeFilterOptions lc chartColors formatNumber rows metric role visibleStages palette ctx selectedNodes =
     (let stages = resolveVisibleStages role visibleStages;
          colorIds = uniq (concat (map (\<lambda>row. map pn_id (flowPathForStages row stages ctx)) rows));
          colors = stableColorMap chartColors (js_sort lc colorIds) palette;
          color_of = (\<lambda>i. case map_of colors i of Some c \<Rightarrow> c | None \<Rightarrow> colorAt chartColors 0 palette);
          options = concat (map (stage_options formatNumber color_of rows metric stages ctx selectedNodes) stages) in
      js_sort (node_option_compare lc stages) options)"

definition buildFlowFilterOptions ::
  "(jstring \<Rightarrow> jstring \<Rightarrow> int) \<Rightarrow> (nat \<Rightarrow> jstring list) \<Rightarrow> (int \<Rightarrow> jstring) \<Rightarrow> FlowQuotaDataItem list \<Rightarrow> FlowMetric \<Rightarrow>
   jstring list option \<Rightarrow> FlowRole \<Rightarrow> FlowNodeKind list option \<Rightarrow> FlowNodeFilter list option \<Rightarrow> FlowFilterOptions" where
  "buildFlowFilterOptions lc chartColors formatNumber rows metric palette role visibleStages selectedNodes =
     \<lparr>fo_users = buildUserFilterOptions lc chartColors formatNumber rows metric palette,
      fo_nodes = buildNodeFilterOptions lc chartColors formatNumber rows metric role visibleStages palette None selectedNodes\<rparr>"

section \<open>The data of the panel\<close>

record FlowBuildOptions =
  o_role :: "FlowRole option"
  o_selectedUsers :: "jstring list option"
  o_selectedNodes :: "FlowNodeFilter list option"
  o_activeNode :: "FlowNodeFilter option"
  o_activeLink :: "FlowLinkSelection option"
  o_colorPalette :: "jstring list option"
  o_visibleStages :: "FlowNodeKind list option"
  o_topNodeLimit :: "rat option"
  o_overflowMode :: "FlowOverflowMode option"
  o_maskSensitive :: bool
  o_deletedTokenLabel :: "(int \<Rightarrow> jstring) option"
  o_otherNodeLabel :: "(FlowNodeKind \<Rightarrow> jstring) option"

record ProcessedFlowData =
  d_summary :: FlowSummary
  d_flow :: DashboardFlowGraph
  d_filterOptions :: FlowFilterOptions

definition DEFAULT_FLOW_ROLE :: FlowRole where
  "DEFAULT_FLOW_ROLE = UserRole"

definition buildDashboardFlowData ::
  "(jstring \<Rightarrow> jstring \<Rightarrow> int) \<Rightarrow> (nat \<Rightarrow> jstring list) \<Rightarrow> (int \<Rightarrow> jstring) \<Rightarrow> FlowQuotaDataItem list \<Rightarrow> FlowMetric \<Rightarrow>
   FlowBuildOptions \<Rightarrow> ProcessedFlowData" where
  "buildDashboardFlowData lc chartColors formatNumber rows metric options =
     (let role = (case o_role options of Some r \<Rightarrow> r | None \<Rightarrow> DEFAULT_FLOW_ROLE);
          palette = o_colorPalette options;
          ctx = o_deletedTokenLabel options;
          stages = resolveVisibleStages role (o_visibleStages options);
          userFilteredRows = filterRows rows (o_selectedUsers options);
          filteredRows = filterRowsByNodes userFilteredRows (o_selectedNodes options) stages ctx in
      \<lparr>d_summary = buildSummary filteredRows,
       d_flow = buildFlowGraph lc chartColors filteredRows metric role palette (o_visibleStages options) ctx
         \<lparr>topNodeLimit = o_topNodeLimit options, overflowMode = o_overflowMode options,
          otherNodeLabel = o_otherNodeLabel options, activeNode = o_activeNode options,
          activeLink = o_activeLink options, maskSensitive = o_maskSensitive options\<rparr>,
       d_filterOptions =
         \<lparr>fo_users = buildUserFilterOptions lc chartColors formatNumber rows metric palette,
          fo_nodes = buildNodeFilterOptions lc chartColors formatNumber userFilteredRows metric role
            (o_visibleStages options) palette ctx (o_selectedNodes options)\<rparr>\<rparr>)"

section \<open>The panel's state\<close>

datatype FlowDisplayState = LoadingState | ErrorState | EmptyState | ChartState

record FlowResponse =
  fr_success :: bool
  fr_data :: "FlowQuotaDataItem list option"
  fr_message :: "jstring option"

definition requireSuccessfulFlowRows :: "FlowResponse \<Rightarrow> jstring \<Rightarrow> jstring + FlowQuotaDataItem list" where
  \<comment> \<open>\<open>Inl\<close> is the message of the error thrown\<close>
  "requireSuccessfulFlowRows response fallbackMessage =
     (if \<not> fr_success response then Inl (str_or (opt_str (fr_message response)) fallbackMessage)
      else Inr (case fr_data response of Some rows \<Rightarrow> rows | None \<Rightarrow> []))"

definition flowDisplayState :: "bool \<Rightarrow> bool \<Rightarrow> nat \<Rightarrow> bool \<Rightarrow> FlowDisplayState" where
  "flowDisplayState isLoading isError linkCount themeReady =
     (if isLoading then LoadingState
      else if isError then ErrorState
      else if linkCount = 0 then EmptyState
      else if \<not> themeReady then LoadingState
      else ChartState)"

definition compactFlowSelectionLabel :: "nat \<Rightarrow> jstring" where
  "compactFlowSelectionLabel n = (if n > 0 then nat_str n else js ''*'')"

definition visibleFlowUsers :: "FlowUserFilterOption list \<Rightarrow> jstring list \<Rightarrow> FlowUserFilterOption list" where
  "visibleFlowUsers users selectedUsers =
     (if length selectedUsers = 0 then users
      else filter (\<lambda>user. uo_value user \<in> set (uniq selectedUsers)) users)"

section \<open>The data of the chart\<close>

definition flag_diff :: "bool option \<Rightarrow> bool option \<Rightarrow> int" where
  \<comment> \<open>\<open>Number(a) - Number(b)\<close>; with an \<open>undefined\<close> flag it is NaN, which \<open>||\<close> takes for 0\<close>
  "flag_diff a b = (case (a, b) of (Some x, Some y) \<Rightarrow> of_bool x - of_bool y | _ \<Rightarrow> 0)"

definition byLinkDrawPriority ::
  "(jstring \<Rightarrow> jstring \<Rightarrow> int) \<Rightarrow> DashboardFlowLink \<Rightarrow> DashboardFlowLink \<Rightarrow> int" where
  "byLinkDrawPriority lc a b =
     num_or (flag_diff (l_dimmed a) (l_dimmed b))
       (num_or (flag_diff (l_highlighted b) (l_highlighted a))
         (num_or (l_value b - l_value a) (lc (linkStableKey a) (linkStableKey b))))"

definition opt_bool :: "bool option \<Rightarrow> jsval" where
  "opt_bool b = (case b of None \<Rightarrow> JUndef | Some x \<Rightarrow> JBool x)"

definition sankey_node :: "DashboardFlowNode \<Rightarrow> jsval" where
  "sankey_node n = JObj
     [(js ''key'', JStr (n_id n)), (js ''name'', JStr (n_label n)), (js ''rawLabel'', JStr (n_label n)),
      (js ''kind'', JStr (kind_name (n_kind n))), (js ''value'', JNum (of_int (n_value n))),
      (js ''requests'', JNum (of_int (n_requests n))), (js ''quota'', JNum (of_int (n_quota n))),
      (js ''tokens'', JNum (of_int (n_tokens n))), (js ''color'', JStr (n_color n)),
      (js ''colorKey'', JStr (n_colorKey n)), (js ''highlighted'', opt_bool (n_highlighted n)),
      (js ''dimmed'', opt_bool (n_dimmed n))]"

definition sankey_zIndex :: "DashboardFlowLink \<Rightarrow> nat \<Rightarrow> nat" where
  "sankey_zIndex link index =
     (if l_highlighted link = Some True then 1000000 + index
      else if l_dimmed link = Some True then index
      else 100000 + index)"

definition sankey_link :: "DashboardFlowLink \<Rightarrow> nat \<Rightarrow> jsval" where
  "sankey_link l index = JObj
     [(js ''source'', JStr (l_source l)), (js ''target'', JStr (l_target l)), (js ''linkKey'', JStr (linkStableKey l)),
      (js ''sourceLabel'', JStr (l_sourceLabel l)), (js ''targetLabel'', JStr (l_targetLabel l)),
      (js ''value'', JNum (of_int (l_value l))), (js ''requests'', JNum (of_int (l_requests l))),
      (js ''quota'', JNum (of_int (l_quota l))), (js ''tokens'', JNum (of_int (l_tokens l))),
      (js ''color'', JStr (l_color l)), (js ''linkColor'', JStr (l_linkColor l)),
      (js ''linkAlpha'', JNum (l_linkAlpha l)), (js ''hoverColor'', JStr (l_hoverColor l)),
      (js ''colorKey'', JStr (l_colorKey l)), (js ''share'', JNum (l_share l)),
      (js ''highlighted'', opt_bool (l_highlighted l)), (js ''dimmed'', opt_bool (l_dimmed l)),
      (js ''zIndex'', JNum (of_nat (sankey_zIndex l index)))]"

definition drawn_links :: "(jstring \<Rightarrow> jstring \<Rightarrow> int) \<Rightarrow> DashboardFlowGraph \<Rightarrow> DashboardFlowLink list" where
  "drawn_links lc flow = js_sort (byLinkDrawPriority lc) (filter (\<lambda>link. l_value link > 0) (g_links flow))"

definition sankey_values :: "(jstring \<Rightarrow> jstring \<Rightarrow> int) \<Rightarrow> DashboardFlowGraph \<Rightarrow> jsval list \<times> jsval list" where
  \<comment> \<open>the \<open>nodes\<close> and \<open>links\<close> of the chart's \<open>data\<close>\<close>
  "sankey_values lc flow =
     (map sankey_node (g_nodes flow),
      (let links = drawn_links lc flow in map (\<lambda>i. sankey_link (links ! i) i) [0..<length links]))"

section \<open>Reading chart events\<close>

definition recordValue :: "jsval \<Rightarrow> jsval option" where
  "recordValue v = (if is_object v then Some v else None)"

definition js_numberValue :: "jsval \<Rightarrow> rat" where
  \<comment> \<open>\<open>numberValue\<close> on a value of unknown type\<close>
  "js_numberValue v = (case to_number v of Some n \<Rightarrow> n | None \<Rightarrow> 0)"

definition sankeyDatumSource :: "jsval \<Rightarrow> jsval" where
  "sankeyDatumSource datum =
     (let nested = js_prop datum (js ''datum'') in
      case nested of
        JArr xs \<Rightarrow>
          (let depth = js_numberValue (js_prop datum (js ''depth'')) in
           case recordValue (elem_at xs depth) of
             Some r \<Rightarrow> r
           | None \<Rightarrow> (case recordValue (elem_at xs 0) of Some r \<Rightarrow> r | None \<Rightarrow> datum))
      | _ \<Rightarrow> (case recordValue nested of Some r \<Rightarrow> r | None \<Rightarrow> datum))"

definition sankeyDatumValue :: "jsval \<Rightarrow> jstring \<Rightarrow> jsval" where
  "sankeyDatumValue datum key =
     (if js_prop datum key \<noteq> JUndef then js_prop datum key else js_prop (sankeyDatumSource datum) key)"

definition sankeyDatumFlag :: "jsval \<Rightarrow> jstring \<Rightarrow> bool" where
  "sankeyDatumFlag datum key \<longleftrightarrow> sankeyDatumValue datum key = JBool True"

definition flowSankeyDatumValue :: "jsval \<Rightarrow> jstring \<Rightarrow> jsval" where
  "flowSankeyDatumValue datum key =
     (case recordValue datum of Some r \<Rightarrow> sankeyDatumValue r key | None \<Rightarrow> JUndef)"

definition isSankeyLinkDatum :: "jsval \<Rightarrow> bool" where
  "isSankeyLinkDatum datum \<longleftrightarrow>
     sankeyDatumValue datum (js ''source'') \<noteq> JUndef \<and> sankeyDatumValue datum (js ''target'') \<noteq> JUndef"

definition FLOW_NODE_KINDS :: "FlowNodeKind list" where
  "FLOW_NODE_KINDS = [UserKind, NodeKind, TokenKind, GroupKind, ModelKind, ChannelKind]"

definition isFlowNodeKind :: "jsval \<Rightarrow> FlowNodeKind option" where
  \<comment> \<open>the kind whose name the value is, if any\<close>
  "isFlowNodeKind v =
     (case v of JStr s \<Rightarrow> find (\<lambda>k. kind_name k = s) FLOW_NODE_KINDS | _ \<Rightarrow> None)"

definition flowNodeFilterFromSankeyDatum :: "(rat \<Rightarrow> jstring) \<Rightarrow> jsval \<Rightarrow> FlowNodeFilter option" where
  \<comment> \<open>\<open>num_string\<close> is \<open>String\<close> on numbers\<close>
  "flowNodeFilterFromSankeyDatum num_string datum =
     (case recordValue datum of
        None \<Rightarrow> None
      | Some r \<Rightarrow>
          if isSankeyLinkDatum r then None
          else
            (let i = flowSankeyDatumValue r (js ''key''); kind = flowSankeyDatumValue r (js ''kind'') in
             case (i, isFlowNodeKind kind) of
               (JStr s, Some k) \<Rightarrow> Some \<lparr>nf_kind = k, nf_id = s\<rparr>
             | (JNum n, Some k) \<Rightarrow> Some \<lparr>nf_kind = k, nf_id = num_string n\<rparr>
             | _ \<Rightarrow> None))"

definition node_fillOpacity :: "jsval \<Rightarrow> rat" where
  "node_fillOpacity datum =
     (if sankeyDatumFlag datum (js ''dimmed'') then 18 / 100
      else if sankeyDatumFlag datum (js ''highlighted'') then 1 else 92 / 100)"

definition link_fillOpacity :: "jsval \<Rightarrow> rat" where
  "link_fillOpacity datum =
     (if sankeyDatumFlag datum (js ''dimmed'') then 8 / 100
      else if sankeyDatumFlag datum (js ''highlighted'') then 86 / 100
      else (let alpha = js_numberValue (sankeyDatumValue datum (js ''linkAlpha'')) in if alpha \<noteq> 0 then alpha else 1))"

definition link_zIndex :: "jsval \<Rightarrow> rat" where
  "link_zIndex datum =
     (let z = sankeyDatumValue datum (js ''zIndex'') in
      if z \<noteq> JUndef then js_numberValue z
      else 1000000000 - js_numberValue (sankeyDatumValue datum (js ''value'')))"

section \<open>The counts beside the options\<close>

lemma selected_ids_except:
  "selected_ids (selectedNodeFiltersExceptKind sel k) k' = (if k' = k then [] else selected_ids sel k')"
  by (cases sel) (auto simp: selected_ids_def selectedNodeFiltersExceptKind_def Let_def filter_empty_conv
      intro!: arg_cong [where f = "map nf_id"] filter_cong)

definition select_only :: "FlowNodeKind \<Rightarrow> jstring \<Rightarrow> FlowNodeFilter list option \<Rightarrow> FlowNodeFilter list option" where
  \<comment> \<open>the selection with that of column \<open>k\<close> replaced by the one node \<open>i\<close>\<close>
  "select_only k i sel =
     Some (\<lparr>nf_kind = k, nf_id = i\<rparr> # filter (\<lambda>f. nf_kind f \<noteq> k) (case sel of None \<Rightarrow> [] | Some ns \<Rightarrow> ns))"

lemma selected_ids_select_only:
  "selected_ids (select_only k i sel) k' = (if k' = k then [i] else selected_ids sel k')"
  by (cases sel) (auto simp: selected_ids_def select_only_def filter_empty_conv
      intro!: arg_cong [where f = "map nf_id"] filter_cong)

lemma filterRowsByNodes_select_only:
  assumes "k \<in> set stages"
  shows "filterRowsByNodes rows (select_only k i sel) stages ctx =
    filter (\<lambda>row. pn_id (NODE_BUILDERS k row ctx) = i)
      (filterRowsByNodes rows (selectedNodeFiltersExceptKind sel k) stages ctx)"
  using assms unfolding filterRowsByNodes_filter filter_filter
  by (intro filter_cong refl) (auto simp: list_all_iff selected_ids_select_only selected_ids_except)

definition option_key :: "FlowNodeKind \<Rightarrow> FlowPathContext \<Rightarrow> FlowQuotaDataItem \<Rightarrow> jstring" where
  "option_key k ctx row = nodeFilterKey \<lparr>nf_kind = k, nf_id = pn_id (NODE_BUILDERS k row ctx)\<rparr>"

definition option_init :: "FlowNodeKind \<Rightarrow> FlowPathContext \<Rightarrow> FlowQuotaDataItem \<Rightarrow> FlowNodeRank" where
  "option_init k ctx row = \<lparr>rank_node = NODE_BUILDERS k row ctx, rank_value = 0\<rparr>"

definition option_step :: "FlowMetric \<Rightarrow> FlowQuotaDataItem \<Rightarrow> FlowNodeRank \<Rightarrow> FlowNodeRank" where
  "option_step metric row r = r\<lparr>rank_value := rank_value r + metricValue (rowMetrics row) metric\<rparr>"

interpretation option_acc: accumulator "option_key k ctx" "option_init k ctx" "option_step metric" rank_value
  "\<lambda>row. metricValue (rowMetrics row) metric" for k ctx metric
  by unfold_locales (simp_all add: option_init_def option_step_def)

lemma add_option_total_accum:
  "add_option_total metric k ctx = accum (option_key k ctx) (option_init k ctx) (option_step metric)"
  by (auto simp: fun_eq_iff add_option_total_def accum_def option_key_def option_init_def option_step_def Let_def
      split: option.splits)

lemma option_key_eq [simp]:
  "option_key k ctx row = nodeFilterKey \<lparr>nf_kind = k, nf_id = i\<rparr> \<longleftrightarrow> pn_id (NODE_BUILDERS k row ctx) = i"
  by (simp add: option_key_def nodeFilterKey_def)

lemma option_totals_entry:
  assumes "(key, r) \<in> set (foldl (add_option_total metric k ctx) [] rows)"
  shows "pn_kind (rank_node r) = k \<and> key = nodeFilterKey \<lparr>nf_kind = k, nf_id = pn_id (rank_node r)\<rparr>"
  by (rule accum_inv [where I = "\<lambda>key r. pn_kind (rank_node r) = k \<and> key = nodeFilterKey \<lparr>nf_kind = k, nf_id = pn_id (rank_node r)\<rparr>",
        OF _ _ _ assms [unfolded add_option_total_accum]])
    (auto simp: option_key_def option_init_def option_step_def)

lemma stage_options_sound:
  assumes "o1 \<in> set (stage_options formatNumber color_of rows metric stages ctx sel k)" "k \<in> set stages"
  shows "no_kind o1 = k \<and> no_valueRaw o1 =
    summary_metric (buildSummary (filterRowsByNodes rows (select_only k (no_value o1) sel) stages ctx)) metric"
proof -
  let ?rows = "filterRowsByNodes rows (selectedNodeFiltersExceptKind sel k) stages ctx"
  obtain key r where r: "(key, r) \<in> set (foldl (add_option_total metric k ctx) [] ?rows)"
    "no_kind o1 = pn_kind (rank_node r)" "no_value o1 = pn_id (rank_node r)" "no_valueRaw o1 = rank_value r"
    using assms(1) by (auto simp: stage_options_def Let_def)
  note ent = option_totals_entry [OF r(1)]
  have "rank_value r = sum_list (map (\<lambda>row. metricValue (rowMetrics row) metric) (filter (\<lambda>row. option_key k ctx row = key) ?rows))"
    by (rule option_acc.entry [OF r(1) [unfolded add_option_total_accum]])
  then show ?thesis
    using ent r(2-4) by (simp add: summary_metric_sum filterRowsByNodes_select_only [OF assms(2)])
qed

text \<open>
  the number beside a filter option is what selecting it gives. For every option of the node
  filter, its value is the summary of the chosen metric over the rows left when the selection of
  the option's column is replaced by that one node and all other selections are kept.
\<close>

theorem node_option_counts:
  assumes "o1 \<in> set (buildNodeFilterOptions lc chartColors formatNumber rows metric role visible palette ctx sel)"
    and "stages = resolveVisibleStages role visible"
  shows "no_kind o1 \<in> set stages \<and> no_valueRaw o1 =
    summary_metric (buildSummary (filterRowsByNodes rows (select_only (no_kind o1) (no_value o1) sel) stages ctx)) metric"
  using assms(1) unfolding buildNodeFilterOptions_def Let_def assms(2) [symmetric]
  by (auto dest: stage_options_sound)

lemma stage_options_ids:
  assumes "k \<in> set stages"
  shows "(\<lambda>x. (no_kind x, no_value x)) ` set (stage_options formatNumber color_of rows metric stages ctx sel k) =
    {k} \<times> (\<lambda>row. pn_id (NODE_BUILDERS k row ctx)) ` set (filterRowsByNodes rows (selectedNodeFiltersExceptKind sel k) stages ctx)"
proof -
  let ?rows = "filterRowsByNodes rows (selectedNodeFiltersExceptKind sel k) stages ctx"
  let ?t = "foldl (add_option_total metric k ctx) [] ?rows"
  have "set (map fst ?t) = option_key k ctx ` set ?rows"
    using fst_foldl_accum [of "option_key k ctx" "option_init k ctx" "option_step metric" "[]" ?rows]
    by (simp add: add_option_total_accum)
  then have keys: "fst ` set ?t = option_key k ctx ` set ?rows" by simp
  have "(\<lambda>x. (no_kind x, no_value x)) ` set (stage_options formatNumber color_of rows metric stages ctx sel k) =
      (\<lambda>x. (pn_kind (rank_node (snd x)), pn_id (rank_node (snd x)))) ` set ?t"
    by (auto simp: stage_options_def Let_def image_image)
  also have "\<dots> = {k} \<times> (\<lambda>row. pn_id (NODE_BUILDERS k row ctx)) ` set ?rows"
  proof (intro equalityI subsetI)
    fix y assume "y \<in> (\<lambda>x. (pn_kind (rank_node (snd x)), pn_id (rank_node (snd x)))) ` set ?t"
    then obtain key r where r: "(key, r) \<in> set ?t" "y = (pn_kind (rank_node r), pn_id (rank_node r))" by auto
    from keys r(1) obtain row where row: "row \<in> set ?rows" "key = option_key k ctx row" by force
    with option_totals_entry [OF r(1)] have "y = (k, pn_id (NODE_BUILDERS k row ctx))"
      by (simp add: r(2) option_key_def nodeFilterKey_def)
    with row(1) show "y \<in> {k} \<times> (\<lambda>row. pn_id (NODE_BUILDERS k row ctx)) ` set ?rows" by blast
  next
    fix y assume "y \<in> {k} \<times> (\<lambda>row. pn_id (NODE_BUILDERS k row ctx)) ` set ?rows"
    then obtain row where row: "row \<in> set ?rows" "y = (k, pn_id (NODE_BUILDERS k row ctx))" by auto
    with keys obtain r where r: "(option_key k ctx row, r) \<in> set ?t" by force
    with option_totals_entry [OF r] row(2) show "y \<in> (\<lambda>x. (pn_kind (rank_node (snd x)), pn_id (rank_node (snd x)))) ` set ?t"
      by (force simp: option_key_def nodeFilterKey_def)
  qed
  finally show ?thesis .
qed

lemma node_options_ids:
  "(\<lambda>x. (no_kind x, no_value x)) ` set (buildNodeFilterOptions lc chartColors formatNumber rows metric role visible palette ctx sel) =
   (SIGMA k : set (resolveVisibleStages role visible).
      (\<lambda>row. pn_id (NODE_BUILDERS k row ctx)) `
        set (filterRowsByNodes rows (selectedNodeFiltersExceptKind sel k) (resolveVisibleStages role visible) ctx))"
  unfolding buildNodeFilterOptions_def Let_def Sigma_def
  by (simp add: image_UN stage_options_ids) auto

text \<open>
  the node filter offers exactly the nodes that can still be chosen: those of the visible
  columns that occur in a row which passes the selections of all the other columns.
\<close>

theorem node_options_offered:
  "set (map (\<lambda>x. (no_kind x, no_value x))
      (buildNodeFilterOptions lc chartColors formatNumber rows metric role visible palette ctx sel)) =
   (SIGMA k : set (resolveVisibleStages role visible).
      (\<lambda>row. pn_id (NODE_BUILDERS k row ctx)) `
        set (filterRowsByNodes rows (selectedNodeFiltersExceptKind sel k) (resolveVisibleStages role visible) ctx))"
  by (simp only: set_map node_options_ids)

definition sample_format :: "int \<Rightarrow> jstring" where
  "sample_format = int_str"

theorem node_option_counts_witness:
  "\<exists>x \<in> set (buildNodeFilterOptions code_unit_compare (\<lambda>_. []) sample_format sample_rows QuotaMetric UserRole None None None
      (Some [\<lparr>nf_kind = TokenKind, nf_id = js ''token:a''\<rparr>])).
     no_kind x = ModelKind \<and> no_value x = js ''model:m1'' \<and> no_valueRaw x = 5"
proof -
  let ?sel = "Some [\<lparr>nf_kind = TokenKind, nf_id = js ''token:a''\<rparr>]"
  let ?opts = "buildNodeFilterOptions code_unit_compare (\<lambda>_. []) sample_format sample_rows QuotaMetric UserRole None None None ?sel"
  let ?stages = "[TokenKind, GroupKind, ModelKind]"
  have rows: "filterRowsByNodes sample_rows (selectedNodeFiltersExceptKind ?sel ModelKind) ?stages None = [sample_row ''a'' ''m1'' 5]"
    unfolding filterRowsByNodes_filter selected_ids_except
    by (simp add: selected_ids_def sample_rows_def sample_row_def tokenNode_def Let_def numberValue_def str_or_def opt_str_def js_Cons)
  have "(\<lambda>x. (no_kind x, no_value x)) ` set ?opts = (SIGMA k : set ?stages. (\<lambda>row. pn_id (NODE_BUILDERS k row None)) `
      set (filterRowsByNodes sample_rows (selectedNodeFiltersExceptKind ?sel k) ?stages None))"
    unfolding node_options_ids by (simp add: resolveVisibleStages_def)
  moreover have "(ModelKind, js ''model:m1'') \<in> (SIGMA k : set ?stages. (\<lambda>row. pn_id (NODE_BUILDERS k row None)) `
      set (filterRowsByNodes sample_rows (selectedNodeFiltersExceptKind ?sel k) ?stages None))"
    using rows by (simp add: sample_row_def modelNode_def Let_def str_or_def opt_str_def js_Cons)
  ultimately have "(ModelKind, js ''model:m1'') \<in> (\<lambda>x. (no_kind x, no_value x)) ` set ?opts" by (simp only:)
  then obtain x where x: "x \<in> set ?opts" "no_kind x = ModelKind" "no_value x = js ''model:m1''"
    unfolding image_iff prod.inject by metis
  have "no_valueRaw x = summary_metric (buildSummary (filterRowsByNodes sample_rows
      (select_only ModelKind (js ''model:m1'') ?sel) (resolveVisibleStages UserRole None) None)) QuotaMetric"
    using node_option_counts [OF x(1) refl] x(2,3) by simp
  also have "\<dots> = 5"
    using rows by (simp add: filterRowsByNodes_select_only resolveVisibleStages_def)
      (simp add: sample_row_def modelNode_def Let_def str_or_def opt_str_def js_Cons summary_metric_def buildSummary_def
        rowMetrics_def numberValue_def)
  finally show ?thesis using x by blast
qed

definition user_key :: "FlowQuotaDataItem \<Rightarrow> jstring" where
  "user_key row = pn_id (userNode row)"

definition user_init :: "(jstring \<Rightarrow> jstring) \<Rightarrow> FlowQuotaDataItem \<Rightarrow> UserTotal" where
  "user_init color_of row =
     \<lparr>ut_label = pn_label (userNode row), ut_value = 0, ut_color = color_of (pn_id (userNode row))\<rparr>"

definition user_step :: "FlowMetric \<Rightarrow> FlowQuotaDataItem \<Rightarrow> UserTotal \<Rightarrow> UserTotal" where
  "user_step metric row u = u\<lparr>ut_value := ut_value u + metricValue (rowMetrics row) metric\<rparr>"

interpretation user_acc: accumulator user_key "user_init color_of" "user_step metric" ut_value
  "\<lambda>row. metricValue (rowMetrics row) metric" for color_of metric
  by unfold_locales (simp_all add: user_init_def user_step_def)

lemma foldl_add_user_total:
  "foldl (add_user_total metric color_of) m rows =
   foldl (accum user_key (user_init color_of) (user_step metric)) m (filter has_user rows)"
  by (induction rows arbitrary: m)
    (simp_all add: add_user_total_def accum_def user_key_def user_init_def user_step_def Let_def split: option.splits)

lemma user_option_origin:
  assumes "u \<in> set (buildUserFilterOptions lc chartColors formatNumber rows metric palette)"
  obtains color_of t where
    "(uo_value u, t) \<in> set (foldl (accum user_key (user_init color_of) (user_step metric)) [] (filter has_user rows))"
    "uo_valueRaw u = ut_value t"
  using assms by (auto simp: buildUserFilterOptions_def Let_def foldl_add_user_total intro: that)

text \<open>
  the number beside a user is what selecting the user gives. Where every row names its user
  by id or name, each option of the user filter shows the summary of the rows left when that
  user alone is selected.
\<close>

theorem user_option_counts:
  assumes "u \<in> set (buildUserFilterOptions lc chartColors formatNumber rows metric palette)" "list_all has_user rows"
  shows "uo_valueRaw u = summary_metric (buildSummary (filterRows rows (Some [uo_value u]))) metric"
proof -
  obtain color_of t where t: "(uo_value u, t) \<in> set (foldl (accum user_key (user_init color_of) (user_step metric)) [] (filter has_user rows))"
    "uo_valueRaw u = ut_value t"
    by (rule user_option_origin [OF assms(1)])
  have "filter has_user rows = rows" using assms(2) by (simp add: list_all_iff filter_id_conv)
  with user_acc.entry [OF t(1)] t(2) show ?thesis
    by (simp add: filterRows_def Let_def user_key_def summary_metric_sum uniq_def)
qed

theorem user_option_counts_witness:
  "\<exists>u \<in> set (buildUserFilterOptions code_unit_compare (\<lambda>_. []) sample_format [sample_row ''a'' ''m1'' 5, sample_row ''b'' ''m2'' 9]
      QuotaMetric None). uo_valueRaw u = 14"
proof -
  let ?rows = "[sample_row ''a'' ''m1'' 5, sample_row ''b'' ''m2'' 9]"
  let ?opts = "buildUserFilterOptions code_unit_compare (\<lambda>_. []) sample_format ?rows QuotaMetric None"
  have user: "pn_id (userNode (sample_row t m q)) = js ''user:7''" for t m q
    by (simp add: sample_row_def userNode_def numberValue_def Let_def int_str_def js_Cons nat_str.simps)
  have hu: "has_user (sample_row t m q)" for t m q
    by (simp add: has_user_def sample_row_def numberValue_def)
  obtain u where u: "u \<in> set ?opts" "uo_value u = js ''user:7''"
    by (auto simp: buildUserFilterOptions_def Let_def add_user_total_def hu user)
  have "uo_valueRaw u = summary_metric (buildSummary (filterRows ?rows (Some [uo_value u]))) QuotaMetric"
    by (rule user_option_counts [OF u(1)]) (simp add: hu)
  also have "\<dots> = 14"
    by (simp add: u(2) filterRows_def Let_def user uniq_def)
      (simp add: summary_metric_def buildSummary_def rowMetrics_def numberValue_def sample_row_def)
  finally show ?thesis using u(1) by blast
qed

section \<open>Clicks on the chart\<close>

lemma isFlowNodeKind_name [simp]: "isFlowNodeKind (JStr (kind_name k)) = Some k"
  by (cases k) (simp_all add: isFlowNodeKind_def FLOW_NODE_KINDS_def js_Cons)

lemma sankey_node_props:
  "js_prop (sankey_node n) (js ''key'') = JStr (n_id n)"
  "js_prop (sankey_node n) (js ''kind'') = JStr (kind_name (n_kind n))"
  "js_prop (sankey_node n) (js ''source'') = JUndef"
  "js_prop (sankey_node n) (js ''datum'') = JUndef"
  "is_object (sankey_node n)"
  by (simp_all add: sankey_node_def js_prop_def is_object_def js_Cons)

lemma sankey_link_props:
  "js_prop (sankey_link l i) (js ''source'') = JStr (l_source l)"
  "js_prop (sankey_link l i) (js ''target'') = JStr (l_target l)"
  "is_object (sankey_link l i)"
  by (simp_all add: sankey_link_def js_prop_def is_object_def js_Cons)

lemma wrapped_props:
  "js_prop (JObj [(js ''datum'', d)]) (js ''key'') = JUndef" "js_prop (JObj [(js ''datum'', d)]) (js ''kind'') = JUndef"
  "js_prop (JObj [(js ''datum'', d)]) (js ''source'') = JUndef" "js_prop (JObj [(js ''datum'', d)]) (js ''target'') = JUndef"
  "js_prop (JObj [(js ''datum'', d)]) (js ''datum'') = d" "js_prop (JObj [(js ''datum'', d)]) (js ''depth'') = JUndef"
  by (simp_all add: js_prop_def js_Cons)

lemma sankeyDatumSource_wrapped:
  "sankeyDatumSource (JObj [(js ''datum'', JObj kvs)]) = JObj kvs"
  "is_object d \<Longrightarrow> sankeyDatumSource (JObj [(js ''datum'', JArr (d # ds))]) = d"
  by (simp_all add: sankeyDatumSource_def wrapped_props recordValue_def Let_def js_numberValue_def to_number_def
      elem_at_def is_object_def)

lemma is_object_JObj: "is_object (JObj kvs)"
  by (simp add: is_object_def)

lemma sankey_node_source: "sankeyDatumSource (sankey_node n) = sankey_node n"
  by (simp add: sankeyDatumSource_def sankey_node_props recordValue_def is_object_def Let_def)

text \<open>
  a click on a drawn node selects that node. The filter read from a node's chart datum is
  the node's kind and id, also when the chart wraps the datum in an event object or in its list
  of ancestors, and a click on a link selects no node.
\<close>

theorem sankey_click_selects_node:
  "flowNodeFilterFromSankeyDatum num_string (sankey_node n) = Some \<lparr>nf_kind = n_kind n, nf_id = n_id n\<rparr> \<and>
   flowNodeFilterFromSankeyDatum num_string (JObj [(js ''datum'', sankey_node n)]) = Some \<lparr>nf_kind = n_kind n, nf_id = n_id n\<rparr> \<and>
   flowNodeFilterFromSankeyDatum num_string (JObj [(js ''datum'', JArr (sankey_node n # ds))]) = Some \<lparr>nf_kind = n_kind n, nf_id = n_id n\<rparr> \<and>
   flowNodeFilterFromSankeyDatum num_string (sankey_link l i) = None"
proof -
  have "sankeyDatumSource (JObj [(js ''datum'', sankey_node n)]) = sankey_node n"
    by (simp add: sankey_node_def sankeyDatumSource_wrapped)
  moreover have "sankeyDatumSource (JObj [(js ''datum'', JArr (sankey_node n # ds))]) = sankey_node n"
    by (rule sankeyDatumSource_wrapped) (simp add: sankey_node_props)
  ultimately show ?thesis
    by (simp add: flowNodeFilterFromSankeyDatum_def flowSankeyDatumValue_def sankeyDatumValue_def isSankeyLinkDatum_def
        recordValue_def sankey_node_props sankey_link_props wrapped_props sankey_node_source Let_def is_object_JObj)
qed

end
