(* ===== verification/Think_Tags.thy ===== *)
theory Think_Tags
  imports Js_Prelude
begin

text \<open>
  Separating a model's reasoning from its answer
  (\<open>features/playground/lib/message/message-reasoning-utils.ts\<close>): the scanner for
  \<open><think>\<close> sections, and the grammar of texts it recognises.
\<close>

record ParsedThinkTags =
  visibleContent :: jstring
  parsed_reasoning :: jstring
  hasUnclosedTag :: bool

definition THINK_OPEN :: jstring where
  "THINK_OPEN = js ''<think>''"

definition THINK_CLOSE :: jstring where
  "THINK_CLOSE = js ''</think>''"

lemma length_think_tags [simp]: "length THINK_OPEN = 7" "length THINK_CLOSE = 8"
  by (simp_all add: THINK_OPEN_def THINK_CLOSE_def)

function think_loop :: "jstring \<Rightarrow> nat \<Rightarrow> jstring list \<times> jstring list \<times> bool" where
  \<comment> \<open>the \<open>while\<close> loop from \<open>currentPos\<close> on: the visible parts, the reasoning parts and
     \<open>hasUnclosedTag\<close> it adds\<close>
  "think_loop content currentPos =
     (case index_of_from content THINK_OPEN currentPos of
        None \<Rightarrow> ((if currentPos < length content then [drop currentPos content] else []), [], False)
      | Some openPos \<Rightarrow>
          (let visible = (if openPos > currentPos then [slice content currentPos openPos] else []) in
           case index_of_from content THINK_CLOSE (openPos + 7) of
             None \<Rightarrow> (visible, [drop (openPos + 7) content], True)
           | Some closePos \<Rightarrow>
               (case think_loop content (closePos + 8) of
                  (vs, rs, u) \<Rightarrow> (visible @ vs, slice content (openPos + 7) closePos # rs, u))))"
  by pat_completeness auto

lemma think_loop_advances:
  assumes "index_of_from content THINK_OPEN pos = Some openPos"
    and "index_of_from content THINK_CLOSE (openPos + 7) = Some closePos"
  shows "pos \<le> openPos \<and> openPos + 7 \<le> closePos \<and> closePos + 8 \<le> length content"
proof -
  obtain i where i: "index_of (drop pos content) THINK_OPEN = Some i" "openPos = pos + i"
    using assms(1) by (auto simp: index_of_from_def)
  obtain j where j: "index_of (drop (openPos + 7) content) THINK_CLOSE = Some j" "closePos = openPos + 7 + j"
    using assms(2) by (auto simp: index_of_from_def)
  from index_of_Some [OF i(1)] index_of_Some [OF j(1)]
  have "i + 7 \<le> length content - pos" "j + 8 \<le> length content - (openPos + 7)" by simp_all
  then show ?thesis using i(2) j(2) by linarith
qed

termination think_loop
proof (relation "measure (\<lambda>(content, pos). length content - pos)")
  fix content pos openPos visible closePos
  assume "index_of_from content THINK_OPEN pos = Some openPos"
    "index_of_from content THINK_CLOSE (openPos + 7) = Some closePos"
  from think_loop_advances [OF this] have "pos < closePos + 8" "closePos + 8 \<le> length content" by linarith+
  then show "((content, closePos + 8), content, pos) \<in> measure (\<lambda>(content, pos). length content - pos)" by simp
qed simp

declare think_loop.simps [simp del]

definition parseThinkTags :: "jstring \<Rightarrow> ParsedThinkTags" where
  "parseThinkTags content =
     (if \<not> str_includes content THINK_OPEN
      then \<lparr>visibleContent = content, parsed_reasoning = [], hasUnclosedTag = False\<rparr>
      else
        (case think_loop content 0 of
           (visibleParts, reasoningParts, unclosed) \<Rightarrow>
             \<lparr>visibleContent = trim (join [] visibleParts),
              parsed_reasoning = trim (join [10, 10] reasoningParts),
              hasUnclosedTag = unclosed\<rparr>))"

lemmas think_eval [js_eval] = THINK_OPEN_def THINK_CLOSE_def think_loop.simps parseThinkTags_def

section \<open>The grammar of tagged texts\<close>

definition think_text :: "(jstring \<times> jstring) list \<Rightarrow> jstring \<Rightarrow> jstring option \<Rightarrow> jstring" where
  \<comment> \<open>visible and reasoning sections in turn, a visible rest, and possibly an unclosed section\<close>
  "think_text segs v u =
     concat (map (\<lambda>(w, r). w @ THINK_OPEN @ r @ THINK_CLOSE) segs) @ v @
     (case u of None \<Rightarrow> [] | Some r \<Rightarrow> THINK_OPEN @ r)"

definition wf_think :: "(jstring \<times> jstring) list \<Rightarrow> jstring \<Rightarrow> jstring option \<Rightarrow> bool" where
  "wf_think segs v u \<longleftrightarrow>
     list_all (\<lambda>(w, r). \<not> str_includes w THINK_OPEN \<and> \<not> str_includes r THINK_CLOSE) segs \<and>
     \<not> str_includes v THINK_OPEN \<and> (case u of None \<Rightarrow> True | Some r \<Rightarrow> \<not> str_includes r THINK_CLOSE)"

lemma index_of_unbordered:
  assumes "\<not> str_includes v (c # q)" "c \<notin> set q"
  shows "index_of (v @ (c # q) @ rest) (c # q) = Some (length v)"
  using assms(1)
proof (induction v)
  case (Cons x v)
  have "\<not> startsWith (x # v @ (c # q) @ rest) (c # q)"
  proof
    assume "startsWith (x # v @ (c # q) @ rest) (c # q)"
    then obtain t where t: "(x # v) @ (c # q) @ rest = (c # q) @ t" by (auto simp: startsWith_iff)
    show False
    proof (cases "length (c # q) \<le> length (x # v)")
      case True
      with t have "x # v = (c # q) @ drop (length (c # q)) (x # v)"
        by (metis append_eq_append_conv_if append_take_drop_id)
      with Cons.prems show False unfolding str_includes_iff by (metis append_Nil)
    next
      case False
      then have len: "length v < length q" by simp
      have "q ! length v = ((c # q) @ t) ! length (x # v)" using len by (simp add: nth_append)
      also have "\<dots> = ((x # v) @ (c # q) @ rest) ! length (x # v)" by (simp only: t)
      also have "\<dots> = c" by (simp add: nth_append)
      finally show False using len assms(2) nth_mem by metis
    qed
  qed
  moreover have "\<not> str_includes v (c # q)"
    using Cons.prems unfolding str_includes_iff by (metis append_Cons)
  ultimately show ?case using Cons.IH by simp
qed (simp add: startsWith_def)

lemma index_of_open: "\<not> str_includes v THINK_OPEN \<Longrightarrow> index_of (v @ THINK_OPEN @ rest) THINK_OPEN = Some (length v)"
  using index_of_unbordered [of v 60 "js ''think>''" rest] by (simp add: THINK_OPEN_def js_Cons)

lemma index_of_close: "\<not> str_includes v THINK_CLOSE \<Longrightarrow> index_of (v @ THINK_CLOSE @ rest) THINK_CLOSE = Some (length v)"
  using index_of_unbordered [of v 60 "js ''/think>''" rest] by (simp add: THINK_CLOSE_def js_Cons)

definition nonempty :: "jstring list \<Rightarrow> jstring list" where
  "nonempty = filter (\<lambda>v. v \<noteq> [])"

lemma join_empty_sep: "join [] vs = concat vs"
  by (induction "[] :: jstring" vs rule: join.induct) simp_all

lemma concat_nonempty [simp]: "concat (nonempty vs) = concat vs"
  by (induction vs) (auto simp: nonempty_def)

lemma think_loop_text:
  assumes "wf_think segs v u"
  shows "think_loop (pre @ think_text segs v u) (length pre) =
    (nonempty (map fst segs @ [v]), map snd segs @ (case u of None \<Rightarrow> [] | Some r \<Rightarrow> [r]), u \<noteq> None)"
  using assms
proof (induction segs arbitrary: pre)
  case Nil
  show ?case
  proof (cases u)
    case None
    then have "index_of v THINK_OPEN = None" using Nil by (simp add: wf_think_def str_includes_def)
    then show ?thesis
      using None by (subst think_loop.simps) (simp add: think_text_def index_of_from_def nonempty_def)
  next
    case (Some r)
    then have v: "\<not> str_includes v THINK_OPEN" and r: "index_of r THINK_CLOSE = None"
      using Nil by (simp_all add: wf_think_def str_includes_def)
    show ?thesis
      using Some r index_of_open [OF v, of r]
      by (subst think_loop.simps) (simp add: think_text_def index_of_from_def nonempty_def slice_def)
  qed
next
  case (Cons seg segs)
  obtain w r where seg: "seg = (w, r)" by (cases seg)
  let ?rest = "think_text segs v u"
  have w: "\<not> str_includes w THINK_OPEN" and r: "\<not> str_includes r THINK_CLOSE" and wf: "wf_think segs v u"
    using Cons.prems by (simp_all add: wf_think_def seg)
  have shape: "think_text (seg # segs) v u = w @ THINK_OPEN @ r @ THINK_CLOSE @ ?rest"
    by (simp add: think_text_def seg)
  have IH: "think_loop (pre @ w @ THINK_OPEN @ r @ THINK_CLOSE @ ?rest) (length pre + length w + 7 + length r + 8) =
      (nonempty (map fst segs @ [v]), map snd segs @ (case u of None \<Rightarrow> [] | Some r \<Rightarrow> [r]), u \<noteq> None)"
    using Cons.IH [OF wf, of "pre @ w @ THINK_OPEN @ r @ THINK_CLOSE"] by (simp add: add.assoc)
  let ?c = "pre @ w @ THINK_OPEN @ r @ THINK_CLOSE @ ?rest"
  have op: "index_of_from ?c THINK_OPEN (length pre) = Some (length pre + length w)"
    by (simp add: index_of_from_def index_of_open [OF w])
  have cl: "index_of_from ?c THINK_CLOSE (length pre + length w + 7) = Some (length pre + length w + 7 + length r)"
    by (simp add: index_of_from_def index_of_close [OF r] add.assoc)
  show ?case
    unfolding shape
    by (subst think_loop.simps)
      (simp only: op option.case Let_def cl IH prod.case, simp add: slice_def nonempty_def seg add.assoc)
qed

lemma think_text_includes: "str_includes (think_text segs v u) THINK_OPEN \<longleftrightarrow> segs \<noteq> [] \<or> u \<noteq> None"
  if "wf_think segs v u"
proof -
  have "str_includes (think_text segs v u) THINK_OPEN" if "segs \<noteq> []"
  proof -
    obtain w r segs' where "segs = (w, r) # segs'" using \<open>segs \<noteq> []\<close> by (cases segs) auto
    then have "think_text segs v u = w @ THINK_OPEN @ r @ THINK_CLOSE @ think_text segs' v u"
      by (simp add: think_text_def)
    then show ?thesis unfolding str_includes_iff by blast
  qed
  moreover have "str_includes (think_text [] v u) THINK_OPEN \<longleftrightarrow> u \<noteq> None"
  proof (cases u)
    case None
    then show ?thesis using that by (simp add: think_text_def wf_think_def)
  next
    case (Some r)
    then have "think_text [] v u = v @ THINK_OPEN @ r" by (simp add: think_text_def)
    then show ?thesis using Some unfolding str_includes_iff by blast
  qed
  ultimately show ?thesis by (cases "segs = []") auto
qed

text \<open>
  C32: the scanner reads tagged text as written. For a text made of visible and reasoning
  sections in turn, with or without a last section left open, the visible content is the
  concatenation of the visible sections and the reasoning the sections between the tags, one
  blank line apart, both trimmed; a text without tags is returned as it is.
\<close>

theorem parseThinkTags_sections:
  assumes "wf_think segs v u"
  shows "parseThinkTags (think_text segs v u) =
    (if segs = [] \<and> u = None then \<lparr>visibleContent = v, parsed_reasoning = [], hasUnclosedTag = False\<rparr>
     else \<lparr>visibleContent = trim (concat (map fst segs) @ v),
       parsed_reasoning = trim (join [10, 10] (map snd segs @ (case u of None \<Rightarrow> [] | Some r \<Rightarrow> [r]))),
       hasUnclosedTag = (u \<noteq> None)\<rparr>)"
proof (cases "segs = [] \<and> u = None")
  case True
  then show ?thesis using assms by (simp add: parseThinkTags_def think_text_def wf_think_def)
next
  case False
  then show ?thesis
    using think_text_includes [OF assms] think_loop_text [OF assms, of "[]"]
    by (auto simp: parseThinkTags_def join_empty_sep)
qed

theorem parseThinkTags_sections_witness:
  "wf_think [(js ''a'', js ''plan'')] (js '' b'') None \<and>
   parseThinkTags (js ''a<think>plan</think> b'') =
     \<lparr>visibleContent = js ''a b'', parsed_reasoning = js ''plan'', hasUnclosedTag = False\<rparr>"
proof -
  have wf: "wf_think [(js ''a'', js ''plan'')] (js '' b'') None"
    by (simp add: wf_think_def js_eval)
  from parseThinkTags_sections [OF wf] wf show ?thesis
    by (simp add: think_text_def THINK_OPEN_def THINK_CLOSE_def js_Cons trim_def is_space_def)
qed

lemma index_of_split:
  assumes "index_of s p = Some i" "c # q = p" "c \<notin> set q"
  shows "s = take i s @ p @ drop (i + length p) s \<and> \<not> str_includes (take i s) p"
proof -
  have dec: "s = take i s @ p @ drop (i + length p) s" by (rule index_of_decomp [OF assms(1)])
  have len: "length (take i s) = i" using index_of_Some [OF assms(1)] by simp
  have "\<not> str_includes (take i s) p"
  proof
    assume "str_includes (take i s) p"
    then obtain a b where ab: "take i s = a @ p @ b" by (auto simp: str_includes_iff)
    then have "length a < i" using len assms(2) by (cases p) auto
    moreover have "startsWith (drop (length a) s) p"
      using ab dec by (metis append.assoc append_eq_conv_conj startsWith_append)
    ultimately show False using index_of_first [OF assms(1)] by blast
  qed
  with dec show ?thesis by blast
qed

lemma think_tags_Cons:
  "60 # js ''think>'' = THINK_OPEN" "60 \<notin> set (js ''think>'')" "60 # js ''/think>'' = THINK_CLOSE" "60 \<notin> set (js ''/think>'')"
  by (simp_all add: THINK_OPEN_def THINK_CLOSE_def js_Cons)

lemmas index_of_open_split = index_of_split [OF _ think_tags_Cons(1,2), unfolded length_think_tags]
lemmas index_of_close_split = index_of_split [OF _ think_tags_Cons(3,4), unfolded length_think_tags]

text \<open>Every text is of the form the grammar describes.\<close>

lemma think_text_exists: "\<exists>segs v u. wf_think segs v u \<and> s = think_text segs v u"
proof (induction s rule: length_induct)
  case (1 s)
  show ?case
  proof (cases "index_of s THINK_OPEN")
    case None
    then have "wf_think [] s None \<and> s = think_text [] s None"
      by (simp add: wf_think_def think_text_def str_includes_def)
    then show ?thesis by blast
  next
    case (Some i)
    let ?w = "take i s" and ?t = "drop (i + 7) s"
    note w = index_of_open_split [OF Some]
    have t: "length ?t < length s" using index_of_Some [OF Some] by simp linarith
    show ?thesis
    proof (cases "index_of ?t THINK_CLOSE")
      case None
      then have "wf_think [] ?w (Some ?t) \<and> s = think_text [] ?w (Some ?t)"
        using w by (simp add: wf_think_def think_text_def str_includes_def)
      then show ?thesis by blast
    next
      case (Some j)
      let ?r = "take j ?t" and ?rest = "drop (j + 8) ?t"
      note r = index_of_close_split [OF Some]
      have "length ?rest < length s" using t by simp
      with "1.IH" obtain segs v u where IH: "wf_think segs v u" "?rest = think_text segs v u" by blast
      have "s = ?w @ THINK_OPEN @ ?r @ THINK_CLOSE @ ?rest" using w r by metis
      then have "wf_think ((?w, ?r) # segs) v u \<and> s = think_text ((?w, ?r) # segs) v u"
        using IH w r by (simp add: wf_think_def think_text_def)
      then show ?thesis by blast
    qed
  qed
qed

end
