(* ===== verification/Playground_Messages.thy ===== *)
theory Playground_Messages
  imports Think_Tags
begin

text \<open>
  The messages of the playground (\<open>features/playground\<close>): their data (\<open>types.ts\<close>,
  \<open>constants.ts\<close>), creation and access (\<open>lib/message/message-utils.ts\<close>), timing
  (\<open>message-timing-utils.ts\<close>), streaming (\<open>message-streaming-utils.ts\<close>), updates
  (\<open>message-update-utils.ts\<close>) and what the views derive from them
  (\<open>message-content-utils.ts\<close>, \<open>message-error-utils.ts\<close>, \<open>message-action-utils.ts\<close>,
  \<open>message-editor-utils.ts\<close>).

  \<open>Date.now()\<close> is a clock \<open>now\<close>: \<open>now i\<close> is what the \<open>i\<close>-th place of an operation
  that reads the clock gets, so nothing is assumed about how time passes. \<open>nanoid()\<close> is the sequence
  \<open>ids\<close> of its results in the same way, and \<open>tr\<close> is the translation function of the host.
  Times are integers in milliseconds.
\<close>

type_synonym clock = "nat \<Rightarrow> int"
type_synonym id_source = "nat \<Rightarrow> jstring"

section \<open>Data\<close>

datatype MessageRole = UserMsg | AssistantMsg | SystemMsg

datatype MessageStatus = LoadingStatus | StreamingStatus | CompleteStatus | ErrorStatus

record MessageVersion =
  v_id :: jstring
  v_content :: jstring

record Reasoning =
  r_content :: jstring
  r_duration :: int
  r_startedAt :: "int option"
  r_completedAt :: "int option"
  r_durationMs :: "int option"

record Message =
  msg_key :: jstring
  msg_from :: MessageRole
  versions :: "MessageVersion list"
  createdAt :: "int option"
  startedAt :: "int option"
  completedAt :: "int option"
  durationMs :: "int option"
  sources :: "(jstring \<times> jstring) list option"
  reasoning :: "Reasoning option"
  isReasoningStreaming :: "bool option"
  isReasoningComplete :: "bool option"
  isContentComplete :: "bool option"
  status :: "MessageStatus option"
  errorCode :: "jstring option option"
    \<comment> \<open>\<open>None\<close> is \<open>undefined\<close>, \<open>Some None\<close> is \<open>null\<close>\<close>

definition API_REQUEST_ERROR :: jstring where
  "API_REQUEST_ERROR = js ''Request error occurred''"

definition NETWORK_ERROR :: jstring where
  "NETWORK_ERROR = js ''Network connection failed or server not responding''"

definition PARSE_ERROR :: jstring where
  "PARSE_ERROR = js ''Error parsing response data''"

definition STREAM_START_ERROR :: jstring where
  "STREAM_START_ERROR = js ''Error establishing connection''"

definition CONNECTION_CLOSED :: jstring where
  "CONNECTION_CLOSED = js ''Connection closed''"

definition INTERRUPTED :: jstring where
  "INTERRUPTED = js ''Generation was interrupted''"

section \<open>Messages and their versions\<close>

definition createMessageVersion :: "jstring \<Rightarrow> jstring \<Rightarrow> MessageVersion" where
  "createMessageVersion nid content = \<lparr>v_id = nid, v_content = content\<rparr>"

definition getCurrentVersion :: "Message \<Rightarrow> MessageVersion" where
  "getCurrentVersion message =
     (case versions message of v # _ \<Rightarrow> v | [] \<Rightarrow> \<lparr>v_id = js ''default'', v_content = []\<rparr>)"

definition getMessageContent :: "Message \<Rightarrow> jstring" where
  "getMessageContent message = v_content (getCurrentVersion message)"

definition hasMessageContent :: "Message \<Rightarrow> bool" where
  "hasMessageContent message \<longleftrightarrow> trim (getMessageContent message) \<noteq> []"

definition updateCurrentVersionContent :: "Message \<Rightarrow> jstring \<Rightarrow> Message" where
  "updateCurrentVersionContent message content =
     (let currentVersion = getCurrentVersion message in
      message\<lparr>versions := [currentVersion\<lparr>v_content := content\<rparr>]\<rparr>)"

definition createUserMessage :: "id_source \<Rightarrow> jstring \<Rightarrow> int \<Rightarrow> Message" where
  "createUserMessage ids content created =
     \<lparr>msg_key = ids 0, msg_from = UserMsg, versions = [createMessageVersion (ids 1) content],
      createdAt = Some created, startedAt = None, completedAt = None, durationMs = None, sources = None,
      reasoning = None, isReasoningStreaming = None, isReasoningComplete = None, isContentComplete = None,
      status = None, errorCode = None\<rparr>"

definition createLoadingAssistantMessage :: "id_source \<Rightarrow> int \<Rightarrow> Message" where
  "createLoadingAssistantMessage ids started =
     \<lparr>msg_key = ids 0, msg_from = AssistantMsg, versions = [createMessageVersion (ids 1) []],
      createdAt = Some started, startedAt = Some started, completedAt = None, durationMs = None, sources = None,
      reasoning = None, isReasoningStreaming = Some False, isReasoningComplete = Some False,
      isContentComplete = Some False, status = Some LoadingStatus, errorCode = None\<rparr>"

datatype ContentPart = TextPart "jstring option" | ImagePart jstring

datatype MessageContent = TextContent jstring | PartsContent "ContentPart list"

record ChatCompletionMessage =
  cm_role :: MessageRole
  cm_content :: MessageContent

definition buildMessageContent :: "jstring \<Rightarrow> jstring list \<Rightarrow> MessageContent" where
  "buildMessageContent txt imageUrls =
     (let validImages = filter (\<lambda>url. trim url \<noteq> []) imageUrls in
      if length validImages = 0 then TextContent txt
      else PartsContent (TextPart (Some (str_or txt [])) # map (\<lambda>url. ImagePart (trim url)) validImages))"

fun getTextContent :: "MessageContent \<Rightarrow> jstring" where
  "getTextContent (TextContent content) = content"
| "getTextContent (PartsContent parts) =
     (case find (\<lambda>part. case part of TextPart _ \<Rightarrow> True | _ \<Rightarrow> False) parts of
        Some (TextPart t) \<Rightarrow> opt_str t
      | _ \<Rightarrow> [])"

definition formatMessageForAPI :: "Message \<Rightarrow> ChatCompletionMessage" where
  "formatMessageForAPI message =
     \<lparr>cm_role = msg_from message, cm_content = TextContent (v_content (getCurrentVersion message))\<rparr>"

definition isValidMessage :: "Message \<Rightarrow> bool" where
  "isValidMessage message =
     (if versions message = [] then False
      else if msg_from message = AssistantMsg \<and> \<not> hasMessageContent message then False
      else True)"

section \<open>Timing\<close>

definition completeAssistantTiming :: "int \<Rightarrow> Message \<Rightarrow> Message" where
  "completeAssistantTiming completed message =
     (if msg_from message \<noteq> AssistantMsg then message
      else
        (let started = (case startedAt message of Some s \<Rightarrow> s
               | None \<Rightarrow> (case createdAt message of Some c \<Rightarrow> c | None \<Rightarrow> completed)) in
         message\<lparr>startedAt := Some started, completedAt := Some completed,
           durationMs := Some (max 0 (completed - started))\<rparr>))"

definition startReasoningTiming :: "int \<Rightarrow> Message \<Rightarrow> Reasoning" where
  "startReasoningTiming started message =
     (case reasoning message of
        None \<Rightarrow> \<lparr>r_content = [], r_duration = 0, r_startedAt = Some started, r_completedAt = None, r_durationMs = None\<rparr>
      | Some r \<Rightarrow> r\<lparr>r_startedAt := Some (case r_startedAt r of Some s \<Rightarrow> s | None \<Rightarrow> started)\<rparr>)"

definition completeReasoningTiming :: "int \<Rightarrow> Message \<Rightarrow> Message" where
  "completeReasoningTiming completed message =
     (case reasoning message of
        None \<Rightarrow> message
      | Some r \<Rightarrow>
          if r_durationMs r \<noteq> None then message
          else
            (let started = (case r_startedAt r of Some s \<Rightarrow> s
                   | None \<Rightarrow> (case startedAt message of Some s \<Rightarrow> s | None \<Rightarrow> completed));
                 duration = max 0 (completed - started) in
             message\<lparr>reasoning := Some (r\<lparr>r_startedAt := Some started, r_completedAt := Some completed,
               r_durationMs := Some duration, r_duration := (duration + 999) div 1000\<rparr>)\<rparr>))"

section \<open>Streaming\<close>

definition processStreamingContent :: "clock \<Rightarrow> Message \<Rightarrow> jstring \<Rightarrow> Message" where
  \<comment> \<open>an absent \<open>contentChunk\<close> and an empty one have the same effect\<close>
  "processStreamingContent now message contentChunk =
     (let currentVersion = getCurrentVersion message;
          fullContent = v_content currentVersion @ contentChunk in
      if reasoning message = None \<and> \<not> str_includes fullContent THINK_OPEN then
        (updateCurrentVersionContent message fullContent)\<lparr>isReasoningStreaming := Some False\<rparr>
      else
        (let parsed = parseThinkTags fullContent;
             finalReasoning =
               (if parsed_reasoning parsed \<noteq> []
                then Some ((startReasoningTiming (now 0) message)\<lparr>r_content := parsed_reasoning parsed\<rparr>)
                else reasoning message) in
         (updateCurrentVersionContent message fullContent)
           \<lparr>reasoning := finalReasoning, isReasoningStreaming := Some (hasUnclosedTag parsed)\<rparr>))"

datatype StreamChunkType = ReasoningChunk | ContentChunk

definition getAppendableChunk :: "jstring \<Rightarrow> jstring \<Rightarrow> jstring" where
  "getAppendableChunk currentContent chunk =
     (if currentContent = [] \<or> \<not> startsWith chunk currentContent then chunk
      else drop (length currentContent) chunk)"

fun applyStreamingChunk :: "clock \<Rightarrow> Message \<Rightarrow> StreamChunkType \<Rightarrow> jstring \<Rightarrow> Message" where
  "applyStreamingChunk now message ReasoningChunk chunk =
     (if status message = Some ErrorStatus then message
      else
        (let r = startReasoningTiming (now 0) message;
             appendableChunk = getAppendableChunk (r_content r) chunk in
         message\<lparr>reasoning := Some (r\<lparr>r_content := r_content r @ appendableChunk\<rparr>),
           isReasoningStreaming := Some True, status := Some StreamingStatus\<rparr>))"
| "applyStreamingChunk now message ContentChunk chunk =
     (if status message = Some ErrorStatus then message
      else
        (let appendableChunk = getAppendableChunk (v_content (getCurrentVersion message)) chunk;
             contentMessage = processStreamingContent now message appendableChunk in
         (if isReasoningStreaming contentMessage = Some True then contentMessage
          else completeReasoningTiming (now 1) contentMessage)\<lparr>status := Some StreamingStatus\<rparr>))"

definition finalizeMessage :: "clock \<Rightarrow> Message \<Rightarrow> jstring option \<Rightarrow> Message" where
  "finalizeMessage now message apiReasoningContent =
     (let currentVersion = getCurrentVersion message;
          parsedThinkTags =
            (if str_includes (v_content currentVersion) THINK_OPEN
             then Some (parseThinkTags (v_content currentVersion)) else None);
          visible = (case parsedThinkTags of Some p \<Rightarrow> visibleContent p | None \<Rightarrow> v_content currentVersion);
          finalReasoning =
            str_or (opt_str apiReasoningContent)
              (str_or (case reasoning message of Some r \<Rightarrow> r_content r | None \<Rightarrow> [])
                (case parsedThinkTags of Some p \<Rightarrow> parsed_reasoning p | None \<Rightarrow> []));
          finalized =
            (updateCurrentVersionContent message visible)
              \<lparr>reasoning := (if finalReasoning \<noteq> []
                 then Some ((startReasoningTiming (now 0) message)\<lparr>r_content := finalReasoning\<rparr>) else None),
               isReasoningStreaming := Some False\<rparr> in
      completeReasoningTiming (now 1) finalized)"

definition completeAssistantMessage :: "clock \<Rightarrow> Message \<Rightarrow> Message" where
  "completeAssistantMessage now message =
     completeAssistantTiming (now 2) ((finalizeMessage now message None)\<lparr>status := Some CompleteStatus\<rparr>)"

definition isAssistantMessageFinal :: "Message \<Rightarrow> bool" where
  "isAssistantMessageFinal message \<longleftrightarrow>
     status message = Some CompleteStatus \<or> status message = Some ErrorStatus"

definition isAssistantMessagePending :: "Message \<Rightarrow> bool" where
  "isAssistantMessagePending message \<longleftrightarrow>
     status message = Some LoadingStatus \<or> status message = Some StreamingStatus"

definition isPendingAssistantMessage :: "Message \<Rightarrow> bool" where
  "isPendingAssistantMessage message \<longleftrightarrow>
     msg_from message = AssistantMsg \<and> isAssistantMessagePending message"

record ChatCompletionChoice =
  ch_content :: "jstring option"
  ch_reasoning_content :: "jstring option"

definition hasChatCompletionChoice :: "ChatCompletionChoice list \<Rightarrow> bool" where
  "hasChatCompletionChoice choices \<longleftrightarrow> choices \<noteq> []"

definition applyChatCompletionChoice :: "clock \<Rightarrow> Message \<Rightarrow> ChatCompletionChoice \<Rightarrow> Message" where
  "applyChatCompletionChoice now message choice =
     completeAssistantTiming (now 2)
       ((finalizeMessage now (updateCurrentVersionContent message (opt_str (ch_content choice)))
          (ch_reasoning_content choice))\<lparr>status := Some CompleteStatus\<rparr>)"

definition applyChatCompletionResponse :: "clock \<Rightarrow> Message \<Rightarrow> ChatCompletionChoice list \<Rightarrow> Message option" where
  "applyChatCompletionResponse now message choices =
     (case choices of [] \<Rightarrow> None | choice # _ \<Rightarrow> Some (applyChatCompletionChoice now message choice))"

section \<open>Updates of a conversation\<close>

definition updateLastAssistantMessage :: "Message list \<Rightarrow> (Message \<Rightarrow> Message) \<Rightarrow> Message list" where
  "updateLastAssistantMessage messages updater =
     (if messages = [] then messages
      else if msg_from (last messages) \<noteq> AssistantMsg then messages
      else butlast messages @ [updater (last messages)])"

definition error_message :: "int \<Rightarrow> jstring \<Rightarrow> jstring option \<Rightarrow> jstring \<Rightarrow> Message \<Rightarrow> Message" where
  \<comment> \<open>the updater of \<open>updateAssistantMessageWithError\<close>\<close>
  "error_message completed errorText code title message =
     completeAssistantTiming completed
       ((updateCurrentVersionContent message (title @ js '': '' @ errorText))
          \<lparr>status := Some ErrorStatus, isReasoningStreaming := Some False,
           errorCode := Some (if opt_str code = [] then None else code)\<rparr>)"

definition updateAssistantMessageWithError ::
  "int \<Rightarrow> Message list \<Rightarrow> jstring \<Rightarrow> jstring option \<Rightarrow> jstring \<Rightarrow> Message list" where
  "updateAssistantMessageWithError completed messages errorText code title =
     updateLastAssistantMessage messages (error_message completed errorText code title)"

fun last_index :: "('a \<Rightarrow> bool) \<Rightarrow> 'a list \<Rightarrow> nat option" where
  \<comment> \<open>the backwards loop of \<open>sanitizeMessagesOnLoad\<close>: the last index where \<open>P\<close> holds\<close>
  "last_index P [] = None"
| "last_index P (x # xs) =
     (case last_index P xs of Some i \<Rightarrow> Some (Suc i) | None \<Rightarrow> if P x then Some 0 else None)"

definition sanitize_message :: "(jstring \<Rightarrow> jstring) \<Rightarrow> clock \<Rightarrow> Message \<Rightarrow> Message" where
  "sanitize_message tr now message =
     (let finalized = finalizeMessage now message None;
          hasContent = hasMessageContent finalized;
          hasReasoning = (case reasoning finalized of Some r \<Rightarrow> trim (r_content r) \<noteq> [] | None \<Rightarrow> False) in
      if hasContent \<or> hasReasoning then
        completeAssistantTiming (now 2)
          (finalized\<lparr>status := Some CompleteStatus, isReasoningStreaming := Some False\<rparr>)
      else
        completeAssistantTiming (now 2)
          ((updateCurrentVersionContent finalized (tr API_REQUEST_ERROR @ js '': '' @ tr INTERRUPTED))
             \<lparr>status := Some ErrorStatus, isReasoningStreaming := Some False\<rparr>))"

definition sanitizeMessagesOnLoad :: "(jstring \<Rightarrow> jstring) \<Rightarrow> clock \<Rightarrow> Message list \<Rightarrow> Message list" where
  "sanitizeMessagesOnLoad tr now messages =
     (case last_index isPendingAssistantMessage messages of
        None \<Rightarrow> messages
      | Some targetIndex \<Rightarrow> messages[targetIndex := sanitize_message tr now (messages ! targetIndex)])"

section \<open>What the views show\<close>

record MessageContentState =
  cs_displayContent :: jstring
  cs_hasSources :: bool
  cs_isAssistant :: bool
  cs_showLoader :: bool
  cs_showMessageContent :: bool
  cs_sources :: "(jstring \<times> jstring) list"
  cs_reasoningContent :: "jstring option"
    \<comment> \<open>\<open>Some\<close> exactly when \<open>hasReasoning\<close>\<close>

definition shouldShowMessageLoader :: "Message \<Rightarrow> bool \<Rightarrow> jstring \<Rightarrow> bool" where
  "shouldShowMessageLoader message isAssistant versionContent \<longleftrightarrow>
     isAssistant \<and> isReasoningStreaming message \<noteq> Some True \<and>
     (status message = Some LoadingStatus \<or> status message = Some StreamingStatus \<and> versionContent = [])"

definition shouldShowMessageContent :: "Message \<Rightarrow> jstring \<Rightarrow> bool" where
  "shouldShowMessageContent message versionContent \<longleftrightarrow>
     (msg_from message = UserMsg \<or> isReasoningStreaming message \<noteq> Some True) \<and> length versionContent > 0"

definition getDisplayContent :: "Message \<Rightarrow> jstring \<Rightarrow> jstring" where
  "getDisplayContent message versionContent =
     (if msg_from message \<noteq> AssistantMsg then versionContent
      else if \<not> str_includes versionContent THINK_OPEN then versionContent
      else visibleContent (parseThinkTags versionContent))"

definition getMessageContentState :: "Message \<Rightarrow> jstring \<Rightarrow> MessageContentState" where
  "getMessageContentState message versionContent =
     (let isAssistant = (msg_from message = AssistantMsg);
          srcs = (case sources message of Some s \<Rightarrow> s | None \<Rightarrow> []);
          reasoningContent = (if isAssistant then map_option r_content (reasoning message) else None) in
      \<lparr>cs_displayContent = getDisplayContent message versionContent, cs_hasSources = (length srcs > 0),
       cs_isAssistant = isAssistant, cs_showLoader = shouldShowMessageLoader message isAssistant versionContent,
       cs_showMessageContent = shouldShowMessageContent message versionContent, cs_sources = srcs,
       cs_reasoningContent = (if opt_str reasoningContent \<noteq> [] then reasoningContent else None)\<rparr>)"

datatype ErrorKind = GenericError | ModelPriceError

record MessageErrorState =
  es_content :: jstring
  es_kind :: ErrorKind
  es_showSettingsLink :: bool

definition isAdminRole :: "int option \<Rightarrow> bool" where
  "isAdminRole role \<longleftrightarrow> (case role of None \<Rightarrow> False | Some r \<Rightarrow> r \<ge> 10)"

definition isErrorMessage :: "Message \<Rightarrow> bool" where
  "isErrorMessage message \<longleftrightarrow> status message = Some ErrorStatus"

definition getMessageErrorState :: "Message \<Rightarrow> bool \<Rightarrow> MessageErrorState option" where
  "getMessageErrorState message isAdmin =
     (if \<not> isErrorMessage message then None
      else
        (let content = str_or (getMessageContent message) (js ''An unknown error occurred'');
             isModelPriceError = (errorCode message = Some (Some (js ''model_price_error''))) in
         Some \<lparr>es_content = content, es_kind = (if isModelPriceError then ModelPriceError else GenericError),
           es_showSettingsLink = (isModelPriceError \<and> isAdmin)\<rparr>))"

record MessageActionState =
  as_content :: jstring
  as_hasContent :: bool
  as_isAssistant :: bool
  as_isLoading :: bool
  as_isUser :: bool

definition getMessageActionState :: "Message \<Rightarrow> MessageActionState" where
  "getMessageActionState message =
     \<lparr>as_content = getMessageContent message, as_hasContent = hasMessageContent message,
      as_isAssistant = (msg_from message = AssistantMsg),
      as_isLoading = (status message = Some LoadingStatus \<or> status message = Some StreamingStatus),
      as_isUser = (msg_from message = UserMsg)\<rparr>"

record MessageEditorState =
  ed_canSave :: bool
  ed_hasChanged :: bool
  ed_showSaveAndSubmit :: bool

definition getMessageEditorState :: "Message \<Rightarrow> jstring \<Rightarrow> jstring \<Rightarrow> MessageEditorState" where
  "getMessageEditorState message editText originalText =
     (let hasText = length (trim editText) > 0; hasChanged = (editText \<noteq> originalText) in
      \<lparr>ed_canSave = (hasText \<and> hasChanged), ed_hasChanged = hasChanged,
       ed_showSaveAndSubmit = (msg_from message = UserMsg)\<rparr>)"

lemmas message_eval [js_eval] =
  API_REQUEST_ERROR_def NETWORK_ERROR_def PARSE_ERROR_def STREAM_START_ERROR_def CONNECTION_CLOSED_def
  INTERRUPTED_def createMessageVersion_def getCurrentVersion_def getMessageContent_def
  hasMessageContent_def updateCurrentVersionContent_def createUserMessage_def
  createLoadingAssistantMessage_def formatMessageForAPI_def isValidMessage_def
  completeAssistantTiming_def startReasoningTiming_def completeReasoningTiming_def
  processStreamingContent_def getAppendableChunk_def finalizeMessage_def completeAssistantMessage_def
  isAssistantMessageFinal_def isAssistantMessagePending_def isPendingAssistantMessage_def
  applyChatCompletionChoice_def applyChatCompletionResponse_def updateLastAssistantMessage_def
  error_message_def updateAssistantMessageWithError_def sanitize_message_def sanitizeMessagesOnLoad_def

end
