(* ===== verification/Playground_Streaming.thy ===== *)
theory Playground_Streaming
  imports Playground_Messages
begin

text \<open>
  What a streamed answer amounts to: the text of the message after its chunks and after
  completion, for delta streams and for snapshot streams; the invariant of the recorded times;
  and the repair of messages left pending in storage.
\<close>

section \<open>Access after update\<close>

lemma getMessageContent_update [simp]: "getMessageContent (updateCurrentVersionContent m c) = c"
  by (simp add: getMessageContent_def getCurrentVersion_def updateCurrentVersionContent_def Let_def)

lemma update_keeps [simp]:
  "reasoning (updateCurrentVersionContent m c) = reasoning m" "status (updateCurrentVersionContent m c) = status m"
  "msg_from (updateCurrentVersionContent m c) = msg_from m" "msg_key (updateCurrentVersionContent m c) = msg_key m"
  "startedAt (updateCurrentVersionContent m c) = startedAt m" "createdAt (updateCurrentVersionContent m c) = createdAt m"
  "durationMs (updateCurrentVersionContent m c) = durationMs m" "errorCode (updateCurrentVersionContent m c) = errorCode m"
  by (simp_all add: updateCurrentVersionContent_def Let_def)

lemma getMessageContent_fields [simp]:
  "getMessageContent (m\<lparr>status := s\<rparr>) = getMessageContent m"
  "getMessageContent (m\<lparr>reasoning := r\<rparr>) = getMessageContent m"
  "getMessageContent (m\<lparr>isReasoningStreaming := b\<rparr>) = getMessageContent m"
  "getMessageContent (m\<lparr>errorCode := e\<rparr>) = getMessageContent m"
  by (simp_all add: getMessageContent_def getCurrentVersion_def)

lemma getMessageContent_timing [simp]:
  "getMessageContent (completeAssistantTiming t m) = getMessageContent m"
  "getMessageContent (completeReasoningTiming t m) = getMessageContent m"
  by (simp_all add: getMessageContent_def getCurrentVersion_def completeAssistantTiming_def
      completeReasoningTiming_def Let_def split: option.splits)

lemma timing_keeps [simp]:
  "status (completeAssistantTiming t m) = status m" "reasoning (completeAssistantTiming t m) = reasoning m"
  "msg_from (completeAssistantTiming t m) = msg_from m" "msg_key (completeAssistantTiming t m) = msg_key m"
  "status (completeReasoningTiming t m) = status m" "msg_from (completeReasoningTiming t m) = msg_from m"
  "msg_key (completeReasoningTiming t m) = msg_key m" "startedAt (completeReasoningTiming t m) = startedAt m"
  "createdAt (completeReasoningTiming t m) = createdAt m" "durationMs (completeReasoningTiming t m) = durationMs m"
  by (simp_all add: completeAssistantTiming_def completeReasoningTiming_def Let_def split: option.splits)

definition reasoning_text :: "Message \<Rightarrow> jstring option" where
  "reasoning_text m = map_option r_content (reasoning m)"

lemma reasoning_text_timing [simp]:
  "reasoning_text (completeAssistantTiming t m) = reasoning_text m"
  "reasoning_text (completeReasoningTiming t m) = reasoning_text m"
  "reasoning_text (m\<lparr>status := s\<rparr>) = reasoning_text m"
  by (simp_all add: reasoning_text_def completeReasoningTiming_def Let_def split: option.splits)

section \<open>The text of a stream\<close>

lemma content_processStreamingContent [simp]:
  "getMessageContent (processStreamingContent now m c) = getMessageContent m @ c"
  by (simp add: processStreamingContent_def Let_def getMessageContent_def [symmetric])

lemma status_processStreamingContent [simp]: "status (processStreamingContent now m c) = status m"
  by (simp add: processStreamingContent_def Let_def)

lemma content_applyStreamingChunk:
  assumes "status m \<noteq> Some ErrorStatus"
  shows "getMessageContent (applyStreamingChunk now m ContentChunk c) =
      getMessageContent m @ getAppendableChunk (getMessageContent m) c"
    and "status (applyStreamingChunk now m ContentChunk c) = Some StreamingStatus"
  using assms by (simp_all add: Let_def getMessageContent_def [symmetric])

definition stream_content :: "(clock \<times> jstring) list \<Rightarrow> Message \<Rightarrow> Message" where
  "stream_content cs m = foldl (\<lambda>m (now, c). applyStreamingChunk now m ContentChunk c) m cs"

fun delta_stream :: "jstring \<Rightarrow> jstring list \<Rightarrow> bool" where
  \<comment> \<open>chunks none of which repeats the whole text before it\<close>
  "delta_stream acc [] = True"
| "delta_stream acc (c # cs) \<longleftrightarrow> (acc = [] \<or> \<not> startsWith c acc) \<and> delta_stream (acc @ c) cs"

fun snapshot_stream :: "jstring \<Rightarrow> jstring list \<Rightarrow> bool" where
  \<comment> \<open>chunks each of which repeats the whole text before it\<close>
  "snapshot_stream acc [] = True"
| "snapshot_stream acc (c # cs) \<longleftrightarrow> startsWith c acc \<and> snapshot_stream c cs"

lemma append_drop_startsWith: "startsWith c acc \<Longrightarrow> acc @ drop (length acc) c = c"
  by (metis append_take_drop_id startsWith_def)

lemma content_delta_stream:
  assumes "status m \<noteq> Some ErrorStatus" "delta_stream (getMessageContent m) (map snd cs)"
  shows "getMessageContent (stream_content cs m) = getMessageContent m @ concat (map snd cs)"
  using assms
proof (induction cs arbitrary: m)
  case (Cons e cs)
  obtain now c where e: "e = (now, c)" by (cases e)
  have "getMessageContent (applyStreamingChunk now m ContentChunk c) = getMessageContent m @ c"
    using Cons.prems e by (simp add: content_applyStreamingChunk getAppendableChunk_def del: applyStreamingChunk.simps)
  moreover have "status (applyStreamingChunk now m ContentChunk c) \<noteq> Some ErrorStatus"
    using Cons.prems(1) by (simp add: content_applyStreamingChunk del: applyStreamingChunk.simps)
  ultimately show ?case
    using Cons.IH [of "applyStreamingChunk now m ContentChunk c"] Cons.prems(2) e
    by (simp add: stream_content_def del: applyStreamingChunk.simps)
qed (simp add: stream_content_def)

lemma content_snapshot_stream:
  assumes "status m \<noteq> Some ErrorStatus" "snapshot_stream (getMessageContent m) (map snd cs)"
  shows "getMessageContent (stream_content cs m) = (if cs = [] then getMessageContent m else snd (last cs))"
  using assms
proof (induction cs arbitrary: m)
  case (Cons e cs)
  obtain now c where e: "e = (now, c)" by (cases e)
  have "getMessageContent (applyStreamingChunk now m ContentChunk c) = c"
    using Cons.prems e
    by (simp add: content_applyStreamingChunk getAppendableChunk_def append_drop_startsWith del: applyStreamingChunk.simps)
  moreover have "status (applyStreamingChunk now m ContentChunk c) \<noteq> Some ErrorStatus"
    using Cons.prems(1) by (simp add: content_applyStreamingChunk del: applyStreamingChunk.simps)
  ultimately show ?case
    using Cons.IH [of "applyStreamingChunk now m ContentChunk c"] Cons.prems(2) e
    by (auto simp: stream_content_def simp del: applyStreamingChunk.simps)
qed (simp add: stream_content_def)

lemma reasoning_processStreamingContent:
  assumes "parsed_reasoning (parseThinkTags (getMessageContent m @ c)) \<noteq> []"
  shows "reasoning_text (processStreamingContent now m c) = Some (parsed_reasoning (parseThinkTags (getMessageContent m @ c)))"
proof -
  have "str_includes (getMessageContent m @ c) THINK_OPEN"
    using assms by (auto simp: parseThinkTags_def split: if_splits)
  then show ?thesis
    using assms by (simp add: processStreamingContent_def Let_def getMessageContent_def [symmetric] reasoning_text_def)
qed

lemma stream_content_Cons: "stream_content ((now, c) # cs) m = stream_content cs (applyStreamingChunk now m ContentChunk c)"
  by (simp add: stream_content_def)

lemma stream_content_snoc: "stream_content (cs @ [(now, c)]) m = applyStreamingChunk now (stream_content cs m) ContentChunk c"
  by (simp add: stream_content_def)

lemma status_stream: "status m \<noteq> Some ErrorStatus \<Longrightarrow> status (stream_content cs m) \<noteq> Some ErrorStatus"
proof (induction cs arbitrary: m)
  case (Cons e cs)
  obtain now c where e: "e = (now, c)" by (cases e)
  show ?case
    unfolding e stream_content_Cons by (rule Cons.IH) (simp only: content_applyStreamingChunk(2) [OF Cons.prems], simp)
qed (simp add: stream_content_def)

lemma reasoning_stream:
  assumes "status m \<noteq> Some ErrorStatus" "cs \<noteq> []"
    and "parsed_reasoning (parseThinkTags (getMessageContent (stream_content cs m))) \<noteq> []"
  shows "reasoning_text (stream_content cs m) = Some (parsed_reasoning (parseThinkTags (getMessageContent (stream_content cs m))))"
proof -
  obtain cs' now c where cs: "cs = cs' @ [(now, c)]" using assms(2) by (metis rev_exhaust surj_pair)
  let ?m = "stream_content cs' m"
  have st: "status ?m \<noteq> Some ErrorStatus" by (rule status_stream [OF assms(1)])
  have "parsed_reasoning (parseThinkTags (getMessageContent ?m @ getAppendableChunk (getMessageContent ?m) c)) \<noteq> []"
    using assms(3) unfolding cs stream_content_snoc by (simp only: content_applyStreamingChunk(1) [OF st] not_False_eq_True)
  from reasoning_processStreamingContent [OF this]
  show ?thesis
    unfolding cs stream_content_snoc content_applyStreamingChunk(1) [OF st] using st
    by (simp add: Let_def getMessageContent_def [symmetric])
qed

section \<open>Completion\<close>

lemma parseThinkTags_plain:
  "\<not> str_includes c THINK_OPEN \<Longrightarrow> parseThinkTags c = \<lparr>visibleContent = c, parsed_reasoning = [], hasUnclosedTag = False\<rparr>"
  by (simp add: parseThinkTags_def)

lemma finalizeMessage_eq:
  "finalizeMessage now m api =
   (let p = parseThinkTags (getMessageContent m);
        r = str_or (opt_str api) (str_or (opt_str (reasoning_text m)) (parsed_reasoning p)) in
    completeReasoningTiming (now 1)
      ((updateCurrentVersionContent m (visibleContent p))
         \<lparr>reasoning := (if r \<noteq> [] then Some ((startReasoningTiming (now 0) m)\<lparr>r_content := r\<rparr>) else None),
          isReasoningStreaming := Some False\<rparr>))"
proof -
  have "(case reasoning m of Some r \<Rightarrow> r_content r | None \<Rightarrow> []) = opt_str (reasoning_text m)"
    by (simp add: opt_str_def reasoning_text_def split: option.splits)
  then show ?thesis
    by (cases "str_includes (getMessageContent m) THINK_OPEN")
      (simp_all add: finalizeMessage_def Let_def getMessageContent_def [symmetric] parseThinkTags_plain)
qed

lemma reasoning_text_set [simp]: "reasoning_text (m\<lparr>reasoning := r, isReasoningStreaming := b\<rparr>) = map_option r_content r"
  by (simp add: reasoning_text_def)

lemma finalizeMessage_content:
  "getMessageContent (finalizeMessage now m api) = visibleContent (parseThinkTags (getMessageContent m))"
  by (simp add: finalizeMessage_eq Let_def)

lemma finalizeMessage_keeps [simp]:
  "status (finalizeMessage now m api) = status m" "msg_from (finalizeMessage now m api) = msg_from m"
  "msg_key (finalizeMessage now m api) = msg_key m"
  by (simp_all add: finalizeMessage_eq Let_def)

lemma finalizeMessage_reasoning:
  "reasoning_text (finalizeMessage now m api) =
   (let r = str_or (opt_str api) (str_or (opt_str (reasoning_text m)) (parsed_reasoning (parseThinkTags (getMessageContent m)))) in
    if r = [] then None else Some r)"
  by (simp add: finalizeMessage_eq Let_def)

text \<open>
  C29: streaming does not depend on how the answer is cut into chunks. If no chunk repeats the
  whole text before it, the completed message shows exactly the visible part of the joined
  chunks, is marked complete, and has the reasoning part of the joined chunks whenever that is
  not empty.
\<close>

theorem streamed_answer_is_joined_chunks:
  assumes "status m \<noteq> Some ErrorStatus" "getMessageContent m = []" "cs \<noteq> []" "delta_stream [] (map snd cs)"
    and "answer = parseThinkTags (concat (map snd cs))" "final = completeAssistantMessage now (stream_content cs m)"
  shows "getMessageContent final = visibleContent answer \<and> status final = Some CompleteStatus \<and>
    (parsed_reasoning answer \<noteq> [] \<longrightarrow> reasoning_text final = Some (parsed_reasoning answer))"
proof -
  have c: "getMessageContent (stream_content cs m) = concat (map snd cs)"
    using content_delta_stream [OF assms(1)] assms(2,4) by simp
  have "reasoning_text final = Some (parsed_reasoning answer)" if "parsed_reasoning answer \<noteq> []"
    using reasoning_stream [OF assms(1,3)] that assms(5)
    by (simp add: assms(6) completeAssistantMessage_def finalizeMessage_reasoning c opt_str_def str_or_def)
  then show ?thesis
    by (simp add: assms(5,6) completeAssistantMessage_def finalizeMessage_content c)
qed

definition sample_message :: Message where
  "sample_message = createLoadingAssistantMessage (\<lambda>i. js ''k'') 100"

theorem streamed_answer_is_joined_chunks_witness:
  "getMessageContent (completeAssistantMessage (\<lambda>i. 300)
     (stream_content [(\<lambda>i. 200, js ''<think>a''), (\<lambda>i. 250, js ''</think>b'')] sample_message)) = js ''b''"
proof -
  let ?cs = "[(\<lambda>i. 200, js ''<think>a''), (\<lambda>i. 250, js ''</think>b'')] :: (clock \<times> jstring) list"
  have m: "status sample_message \<noteq> Some ErrorStatus" "getMessageContent sample_message = []"
    by (simp_all add: sample_message_def createLoadingAssistantMessage_def getMessageContent_def getCurrentVersion_def
        createMessageVersion_def)
  have d: "delta_stream [] (map snd ?cs)" by (simp add: startsWith_def js_Cons)
  have wf: "wf_think [([], js ''a'')] (js ''b'') None" by (simp add: wf_think_def js_eval)
  have p: "visibleContent (parseThinkTags (concat (map snd ?cs))) = js ''b''"
    using think_loop_text [OF wf, of "[]"] think_text_includes [OF wf]
    by (simp add: parseThinkTags_def think_text_def THINK_OPEN_def THINK_CLOSE_def js_Cons join_empty_sep trim_def is_space_def)
  from streamed_answer_is_joined_chunks [OF m _ d refl refl, of "\<lambda>i. 300"] p show ?thesis by simp
qed

text \<open>
  a provider that sends the whole text so far with every chunk is supported: if every chunk
  repeats the text before it, the message shows the last chunk, with nothing doubled.
\<close>

theorem snapshot_stream_shows_last_chunk:
  assumes "status m \<noteq> Some ErrorStatus" "getMessageContent m = []" "cs \<noteq> []" "snapshot_stream [] (map snd cs)"
  shows "getMessageContent (stream_content cs m) = snd (last cs)"
  using content_snapshot_stream [OF assms(1)] assms(2-4) by simp

theorem snapshot_stream_shows_last_chunk_witness:
  "getMessageContent (stream_content [(\<lambda>i. 200, js ''He''), (\<lambda>i. 250, js ''Hello'')] sample_message) = js ''Hello''"
  using snapshot_stream_shows_last_chunk [of sample_message "[(\<lambda>i. 200, js ''He''), (\<lambda>i. 250, js ''Hello'')]"]
  by (simp add: sample_message_def createLoadingAssistantMessage_def getMessageContent_def getCurrentVersion_def
      createMessageVersion_def startsWith_def js_Cons)

text \<open>
  the two kinds of streams cannot be told apart on a repeated chunk, and the repetition is
  lost. An answer that begins with the same text twice, sent as two equal chunks, is shown with
  that text once.
\<close>

theorem repeated_first_chunk_is_lost:
  assumes "status m \<noteq> Some ErrorStatus" "getMessageContent m = []" "t \<noteq> []"
  shows "getMessageContent (stream_content [(now1, t), (now2, t)] m) = t \<and> t \<noteq> t @ t"
  using content_snapshot_stream [OF assms(1), of "[(now1, t), (now2, t)]"] assms(2,3)
  by (simp add: startsWith_def)

theorem repeated_first_chunk_is_lost_witness:
  "getMessageContent (stream_content [(\<lambda>i. 200, js ''ha''), (\<lambda>i. 250, js ''ha'')] sample_message) = js ''ha''"
  using repeated_first_chunk_is_lost [of sample_message "js ''ha''" "\<lambda>i. 200" "\<lambda>i. 250"]
  by (simp add: sample_message_def createLoadingAssistantMessage_def getMessageContent_def getCurrentVersion_def
      createMessageVersion_def)

section \<open>A closing tag cut by a chunk border\<close>

lemma think_close_prefix:
  assumes "THINK_CLOSE = p @ s" "s \<noteq> []"
  shows "\<not> str_includes p THINK_CLOSE" "trim p = p" "\<not> startsWith (s @ v) (THINK_OPEN @ p)"
proof -
  have len: "length p < length THINK_CLOSE" using assms by (metis length_append less_add_same_cancel1 length_greater_0_conv)
  then show "\<not> str_includes p THINK_CLOSE" by (auto simp: str_includes_iff)
  have "\<not> is_space c" if "c \<in> set THINK_CLOSE" for c
    using that by (auto simp: THINK_CLOSE_def js_Cons is_space_def)
  moreover have "set p \<subseteq> set THINK_CLOSE" unfolding assms(1) by simp
  ultimately show "trim p = p" by (intro trim_no_space) blast
  show "\<not> startsWith (s @ v) (THINK_OPEN @ p)"
  proof (cases "p = []")
    case True
    then have "s = THINK_CLOSE" using assms(1) by simp
    then show ?thesis by (simp add: startsWith_iff THINK_OPEN_def THINK_CLOSE_def js_Cons)
  next
    case False
    then obtain c p' where "p = c # p'" by (cases p) auto
    then have "js ''/think>'' = p' @ s" using assms(1) by (simp add: THINK_CLOSE_def js_Cons)
    then have "hd s \<in> set (js ''/think>'')" using assms(2) by simp
    then have "hd s \<noteq> 60" by (auto simp: js_Cons)
    then show ?thesis using assms(2) by (cases s) (auto simp: startsWith_iff THINK_OPEN_def js_Cons)
  qed
qed

text \<open>
  reasoning is kept stale when a chunk border falls into the closing tag of an empty
  reasoning section. For every way of cutting the tag, the message ends up showing the cut-off
  piece of the tag as its reasoning, although the joined text has no reasoning at all.
\<close>

theorem cut_closing_tag_becomes_reasoning:
  assumes "status m \<noteq> Some ErrorStatus" "getMessageContent m = []" "reasoning m = None"
    and "THINK_CLOSE = p @ s" "p \<noteq> []" "s \<noteq> []" "\<not> str_includes v THINK_OPEN"
    and "cs = [(now1, THINK_OPEN @ p), (now2, s @ v)]"
  shows "reasoning_text (completeAssistantMessage now3 (stream_content cs m)) = Some p \<and>
    parsed_reasoning (parseThinkTags (concat (map snd cs))) = []"
proof -
  note pre = think_close_prefix [OF assms(4,6)]
  let ?m1 = "applyStreamingChunk now1 m ContentChunk (THINK_OPEN @ p)"
  have wf1: "wf_think [] [] (Some p)" using pre(1) by (simp add: wf_think_def str_includes_iff THINK_OPEN_def js_Cons)
  have wf2: "wf_think [([], [])] v None"
    using assms(7) by (simp add: wf_think_def str_includes_iff THINK_OPEN_def THINK_CLOSE_def js_Cons)
  have t1: "THINK_OPEN @ p = think_text [] [] (Some p)" by (simp add: think_text_def)
  have t2: "THINK_OPEN @ p @ s @ v = think_text [([], [])] v None" by (simp add: think_text_def assms(4))
  have p1: "parsed_reasoning (parseThinkTags (THINK_OPEN @ p)) = p"
    using think_loop_text [OF wf1, of "[]"] think_text_includes [OF wf1] pre(2) unfolding t1 by (simp add: parseThinkTags_def)
  have p2: "parsed_reasoning (parseThinkTags (THINK_OPEN @ p @ s @ v)) = []"
    using think_loop_text [OF wf2, of "[]"] think_text_includes [OF wf2] unfolding t2 by (simp add: parseThinkTags_def)
  have c1: "getMessageContent ?m1 = THINK_OPEN @ p" and st: "status ?m1 \<noteq> Some ErrorStatus"
    using content_applyStreamingChunk [OF assms(1)] assms(2) by (simp_all add: getAppendableChunk_def del: applyStreamingChunk.simps)
  have r1: "reasoning_text ?m1 = Some p"
    using reasoning_stream [OF assms(1), of "[(now1, THINK_OPEN @ p)]"] assms(5) c1 p1
    by (simp add: stream_content_def del: applyStreamingChunk.simps)
  let ?m2 = "applyStreamingChunk now2 ?m1 ContentChunk (s @ v)"
  have c2: "getMessageContent ?m2 = THINK_OPEN @ p @ s @ v"
    using content_applyStreamingChunk(1) [OF st, of now2 "s @ v"] c1 pre(3) [of v]
    by (simp add: getAppendableChunk_def del: applyStreamingChunk.simps)
  have "reasoning_text (processStreamingContent now2 ?m1 (s @ v)) = reasoning_text ?m1"
    unfolding processStreamingContent_def Let_def getMessageContent_def [symmetric] c1 append_assoc p2
    by (simp add: reasoning_text_def)
  then have r2: "reasoning_text ?m2 = Some p"
    using st pre(3) [of v] c1 r1
    by (simp add: Let_def getMessageContent_def [symmetric] getAppendableChunk_def del: applyStreamingChunk.simps
        add: applyStreamingChunk.simps(2) [of now2])
  have "stream_content cs m = ?m2" by (simp add: assms(8) stream_content_def del: applyStreamingChunk.simps)
  then show ?thesis
    using assms(5) p2
    by (simp add: completeAssistantMessage_def finalizeMessage_reasoning r2 opt_str_def str_or_def assms(8)
        del: applyStreamingChunk.simps)
qed

definition cut_chunks :: "(clock \<times> jstring) list" where
  "cut_chunks = [(\<lambda>i. 200, THINK_OPEN @ js ''</th''), (\<lambda>i. 250, js ''ink>'' @ js ''hi'')]"

theorem cut_closing_tag_becomes_reasoning_witness:
  "reasoning_text (completeAssistantMessage (\<lambda>i. 300) (stream_content cut_chunks sample_message)) = Some (js ''</th'') \<and>
   parsed_reasoning (parseThinkTags (concat (map snd cut_chunks))) = []"
  by (rule cut_closing_tag_becomes_reasoning [OF _ _ _ _ _ _ _ cut_chunks_def])
    (simp_all add: sample_message_def createLoadingAssistantMessage_def getMessageContent_def getCurrentVersion_def
      createMessageVersion_def THINK_CLOSE_def THINK_OPEN_def str_includes_def js_Cons startsWith_def)

section \<open>Recorded times\<close>

definition duration_ok :: "int option \<Rightarrow> bool" where
  "duration_ok d \<longleftrightarrow> (case d of None \<Rightarrow> True | Some x \<Rightarrow> 0 \<le> x)"

definition reasoning_ok :: "Reasoning \<Rightarrow> bool" where
  \<comment> \<open>the seconds shown are the milliseconds rounded up\<close>
  "reasoning_ok r \<longleftrightarrow> duration_ok (r_durationMs r) \<and>
     (case r_durationMs r of None \<Rightarrow> True | Some d \<Rightarrow> d \<le> 1000 * r_duration r \<and> 1000 * r_duration r < d + 1000)"

definition timing_ok :: "Message \<Rightarrow> bool" where
  "timing_ok m \<longleftrightarrow> duration_ok (durationMs m) \<and> (case reasoning m of None \<Rightarrow> True | Some r \<Rightarrow> reasoning_ok r)"

lemma timing_ok_fields [simp]:
  "timing_ok (m\<lparr>status := s\<rparr>) = timing_ok m" "timing_ok (m\<lparr>isReasoningStreaming := b\<rparr>) = timing_ok m"
  "timing_ok (m\<lparr>errorCode := e\<rparr>) = timing_ok m" "timing_ok (updateCurrentVersionContent m c) = timing_ok m"
  by (simp_all add: timing_ok_def)

lemma timing_ok_reasoning: "timing_ok m \<Longrightarrow> reasoning_ok r \<Longrightarrow> timing_ok (m\<lparr>reasoning := Some r\<rparr>)"
  by (simp add: timing_ok_def)

lemma timing_ok_no_reasoning: "timing_ok m \<Longrightarrow> timing_ok (m\<lparr>reasoning := None\<rparr>)"
  by (simp add: timing_ok_def)

lemma reasoning_ok_content [simp]: "reasoning_ok (r\<lparr>r_content := c\<rparr>) = reasoning_ok r"
  by (cases "r_durationMs r") (simp_all add: reasoning_ok_def)

lemma reasoning_ok_start: "timing_ok m \<Longrightarrow> reasoning_ok (startReasoningTiming t m)"
  by (auto simp: timing_ok_def startReasoningTiming_def reasoning_ok_def duration_ok_def split: option.splits)

lemma ceil_seconds:
  assumes "0 \<le> (d::int)"
  shows "d \<le> 1000 * ((d + 999) div 1000)" "1000 * ((d + 999) div 1000) < d + 1000"
  using mult_div_mod_eq [of 1000 "d + 999"] pos_mod_bound [of 1000 "d + 999"] pos_mod_sign [of 1000 "d + 999"]
  by linarith+

lemma timing_ok_completeReasoning: "timing_ok m \<Longrightarrow> timing_ok (completeReasoningTiming t m)"
  by (auto simp: timing_ok_def completeReasoningTiming_def reasoning_ok_def duration_ok_def Let_def ceil_seconds
      split: option.splits)

lemma timing_ok_completeAssistant: "timing_ok m \<Longrightarrow> timing_ok (completeAssistantTiming t m)"
  by (auto simp: timing_ok_def completeAssistantTiming_def duration_ok_def Let_def)

lemma timing_ok_process: "timing_ok m \<Longrightarrow> timing_ok (processStreamingContent now m c)"
  by (simp add: processStreamingContent_def Let_def timing_ok_def reasoning_ok_start [unfolded timing_ok_def])

lemma timing_ok_finalize: "timing_ok m \<Longrightarrow> timing_ok (finalizeMessage now m api)"
  unfolding finalizeMessage_eq Let_def
  by (intro timing_ok_completeReasoning) (simp add: timing_ok_def reasoning_ok_start [unfolded timing_ok_def])

lemmas timing_ok_intros = timing_ok_completeAssistant timing_ok_completeReasoning timing_ok_process
  timing_ok_finalize timing_ok_reasoning timing_ok_no_reasoning

text \<open>
  recorded durations make sense whatever the clock does. Every operation on a message keeps
  the durations non-negative and the reasoning seconds equal to the milliseconds rounded up,
  even if the clock runs backwards between two readings.
\<close>

theorem message_timing_invariant:
  assumes "timing_ok m"
  shows "timing_ok (applyStreamingChunk now m kind chunk) \<and> timing_ok (completeAssistantMessage now m) \<and>
    timing_ok (applyChatCompletionChoice now m choice) \<and> timing_ok (error_message t err code title m) \<and>
    timing_ok (sanitize_message tr now m)"
proof (intro conjI)
  show "timing_ok (applyStreamingChunk now m kind chunk)"
    by (cases kind) (auto simp: Let_def assms timing_ok_completeReasoning timing_ok_process
        reasoning_ok_start timing_ok_reasoning)
qed (simp_all add: completeAssistantMessage_def applyChatCompletionChoice_def error_message_def sanitize_message_def Let_def
    timing_ok_completeAssistant timing_ok_finalize assms)

theorem message_timing_invariant_witness: "timing_ok (completeAssistantMessage (\<lambda>i. 50) sample_message)"
  using message_timing_invariant [of sample_message "\<lambda>i. 50" ContentChunk "[]" undefined 0 "[]" None "[]" id]
  by (simp add: sample_message_def createLoadingAssistantMessage_def timing_ok_def duration_ok_def)

end
