(* ===== verification/Js_Json.thy ===== *)
theory Js_Json
  imports Js_Value
begin

text \<open>
  \<open>JSON.parse\<close> and \<open>JSON.stringify\<close> of the language library, over the values of
  \<open>Js_Value\<close>, and the round trip between them that the components which store or edit JSON
  rely on. A parse that throws is \<open>None\<close>. Objects keep their properties in the order
  JavaScript enumerates them: index keys first, in numeric order, then the others as inserted.
\<close>

section \<open>Property order\<close>

definition is_index :: "jstring \<Rightarrow> bool" where
  "is_index k \<longleftrightarrow> k \<noteq> [] \<and> list_all is_digit k \<and> k = nat_str (digits_val k) \<and> digits_val k < 4294967295"

definition obj_set :: "(jstring \<times> jsval) list \<Rightarrow> jstring \<Rightarrow> jsval \<Rightarrow> (jstring \<times> jsval) list" where
  \<comment> \<open>\<open>o[k] = v\<close>\<close>
  "obj_set kvs k v =
     (if k \<in> fst ` set kvs then AList.update k v kvs
      else if is_index k then
        (let before = (\<lambda>p. is_index (fst p) \<and> digits_val (fst p) < digits_val k) in
         takeWhile before kvs @ [(k, v)] @ dropWhile before kvs)
      else kvs @ [(k, v)])"

section \<open>Parsing\<close>

definition is_json_space :: "code_unit \<Rightarrow> bool" where
  "is_json_space c \<longleftrightarrow> c = 32 \<or> c = 9 \<or> c = 10 \<or> c = 13"

definition skip_space :: "jstring \<Rightarrow> jstring" where
  "skip_space s = dropWhile is_json_space s"

definition hex_val :: "code_unit \<Rightarrow> nat option" where
  "hex_val c =
     (if 48 \<le> c \<and> c \<le> 57 then Some (c - 48)
      else if 97 \<le> c \<and> c \<le> 102 then Some (c - 87)
      else if 65 \<le> c \<and> c \<le> 70 then Some (c - 55) else None)"

definition hex4 :: "jstring \<Rightarrow> nat option" where
  "hex4 s =
     (if length s = 4 \<and> list_all (\<lambda>c. hex_val c \<noteq> None) s
      then Some (foldl (\<lambda>n c. 16 * n + the (hex_val c)) 0 s) else None)"

definition simple_escape :: "code_unit \<Rightarrow> code_unit option" where
  \<comment> \<open>the character after a backslash, other than \<open>u\<close>\<close>
  "simple_escape c =
     (if c = 34 \<or> c = 92 \<or> c = 47 then Some c
      else if c = 98 then Some 8 else if c = 102 then Some 12 else if c = 110 then Some 10
      else if c = 114 then Some 13 else if c = 116 then Some 9 else None)"

definition cons_fst :: "'a \<Rightarrow> 'a list \<times> 'b \<Rightarrow> 'a list \<times> 'b" where
  "cons_fst c p = (c # fst p, snd p)"

function parse_chars :: "jstring \<Rightarrow> (jstring \<times> jstring) option" where
  \<comment> \<open>the rest of a string literal after its opening quote\<close>
  "parse_chars [] = None"
| "parse_chars (c # r) =
     (if c = 34 then Some ([], r)
      else if c = 92 then
        (case r of [] \<Rightarrow> None
         | e # r' \<Rightarrow>
             if e = 117 then
               (case hex4 (take 4 r') of None \<Rightarrow> None
                | Some u \<Rightarrow> map_option (cons_fst u) (parse_chars (drop 4 r')))
             else
               (case simple_escape e of None \<Rightarrow> None
                | Some u \<Rightarrow> map_option (cons_fst u) (parse_chars r')))
      else if c < 32 then None
      else map_option (cons_fst c) (parse_chars r))"
  by pat_completeness auto
termination by (relation "measure length") auto

declare parse_chars.simps [simp del]

definition is_num_char :: "code_unit \<Rightarrow> bool" where
  "is_num_char c \<longleftrightarrow> is_digit c \<or> c = 45 \<or> c = 43 \<or> c = 46 \<or> c = 101 \<or> c = 69"

definition json_number :: "jstring \<Rightarrow> rat option" where
  \<comment> \<open>the JSON number grammar: no leading zeros, digits on both sides of a point\<close>
  "json_number s =
     (let neg = (case s of [] \<Rightarrow> False | c # _ \<Rightarrow> c = 45);
          body = (if neg then tl s else s);
          whole = takeWhile is_digit body; rest = dropWhile is_digit body;
          point = (case rest of [] \<Rightarrow> False | c # _ \<Rightarrow> c = 46);
          frac = (if point then takeWhile is_digit (tl rest) else []) in
      if whole = [] \<or> (hd whole = 48 \<and> length whole > 1) \<or> (point \<and> frac = []) then None
      else map_option (\<lambda>q. if neg then - q else q) (unsigned_decimal body))"

fun parse_value :: "nat \<Rightarrow> jstring \<Rightarrow> (jsval \<times> jstring) option"
and parse_elements :: "nat \<Rightarrow> jstring \<Rightarrow> (jsval list \<times> jstring) option"
and parse_members :: "nat \<Rightarrow> (jstring \<times> jsval) list \<Rightarrow> jstring \<Rightarrow> ((jstring \<times> jsval) list \<times> jstring) option" where
  \<comment> \<open>a value, the elements of an array up to its closing bracket, the members of an object;
     the number bounds the nesting, and the length of the text is enough of it\<close>
  "parse_value 0 s = None"
| "parse_value (Suc n) s =
     (case skip_space s of [] \<Rightarrow> None
      | c # r \<Rightarrow>
          if c = 34 then map_option (\<lambda>(t, r'). (JStr t, r')) (parse_chars r)
          else if c = 123 then
            (case skip_space r of [] \<Rightarrow> None
             | d # r' \<Rightarrow> if d = 125 then Some (JObj [], r')
                         else map_option (\<lambda>(kvs, t). (JObj kvs, t)) (parse_members n [] r))
          else if c = 91 then
            (case skip_space r of [] \<Rightarrow> None
             | d # r' \<Rightarrow> if d = 93 then Some (JArr [], r')
                         else map_option (\<lambda>(vs, t). (JArr vs, t)) (parse_elements n r))
          else if startsWith (c # r) (js ''true'') then Some (JBool True, drop 4 (c # r))
          else if startsWith (c # r) (js ''false'') then Some (JBool False, drop 5 (c # r))
          else if startsWith (c # r) (js ''null'') then Some (JNull, drop 4 (c # r))
          else map_option (\<lambda>q. (JNum q, dropWhile is_num_char (c # r))) (json_number (takeWhile is_num_char (c # r))))"
| "parse_elements 0 s = None"
| "parse_elements (Suc n) s =
     (case parse_value n s of None \<Rightarrow> None
      | Some (v, r) \<Rightarrow>
          (case skip_space r of [] \<Rightarrow> None
           | c # r' \<Rightarrow> if c = 44 then map_option (\<lambda>(vs, t). (v # vs, t)) (parse_elements n r')
                       else if c = 93 then Some ([v], r') else None))"
| "parse_members 0 kvs s = None"
| "parse_members (Suc n) kvs s =
     (case skip_space s of [] \<Rightarrow> None
      | c # r \<Rightarrow>
          if c \<noteq> 34 then None
          else (case parse_chars r of None \<Rightarrow> None
                | Some (k, r') \<Rightarrow>
                    (case skip_space r' of [] \<Rightarrow> None
                     | d # r'' \<Rightarrow>
                         if d \<noteq> 58 then None
                         else (case parse_value n r'' of None \<Rightarrow> None
                               | Some (v, t) \<Rightarrow>
                                   (case skip_space t of [] \<Rightarrow> None
                                    | e # t' \<Rightarrow> if e = 44 then parse_members n (obj_set kvs k v) t'
                                                else if e = 125 then Some (obj_set kvs k v, t') else None)))))"

definition json_parse :: "jstring \<Rightarrow> jsval option" where
  "json_parse s =
     (case parse_value (Suc (2 * length s)) s of
        Some (v, r) \<Rightarrow> if skip_space r = [] then Some v else None
      | None \<Rightarrow> None)"

section \<open>Printing\<close>

definition hex_digit_char :: "nat \<Rightarrow> code_unit" where
  "hex_digit_char n = (if n < 10 then 48 + n else 87 + n)"

definition unicode_escape :: "code_unit \<Rightarrow> jstring" where
  "unicode_escape c =
     [92, 117, hex_digit_char (c div 4096 mod 16), hex_digit_char (c div 256 mod 16),
      hex_digit_char (c div 16 mod 16), hex_digit_char (c mod 16)]"

definition high_surrogate :: "code_unit \<Rightarrow> bool" where
  "high_surrogate c \<longleftrightarrow> 55296 \<le> c \<and> c \<le> 56319"

definition low_surrogate :: "code_unit \<Rightarrow> bool" where
  "low_surrogate c \<longleftrightarrow> 56320 \<le> c \<and> c \<le> 57343"

definition quote_char :: "code_unit \<Rightarrow> jstring" where
  "quote_char c =
     (if c = 34 then [92, 34] else if c = 92 then [92, 92] else if c = 8 then [92, 98]
      else if c = 12 then [92, 102] else if c = 10 then [92, 110] else if c = 13 then [92, 114]
      else if c = 9 then [92, 116] else if c < 32 then unicode_escape c else [c])"

fun quote_chars :: "jstring \<Rightarrow> jstring" where
  \<comment> \<open>surrogate pairs are kept, lone surrogates are escaped\<close>
  "quote_chars [] = []"
| "quote_chars [c] = (if high_surrogate c \<or> low_surrogate c then unicode_escape c else quote_char c)"
| "quote_chars (c # d # cs) =
     (if high_surrogate c \<and> low_surrogate d then c # d # quote_chars cs
      else (if high_surrogate c \<or> low_surrogate c then unicode_escape c else quote_char c) @ quote_chars (d # cs))"

definition json_quote :: "jstring \<Rightarrow> jstring" where
  "json_quote s = 34 # quote_chars s @ [34]"

fun decimals :: "nat \<Rightarrow> rat \<Rightarrow> jstring" where
  \<comment> \<open>the digits of a fraction below 1, at most as many as given\<close>
  "decimals 0 q = []"
| "decimals (Suc n) q =
     (if q = 0 then [] else (let d = nat (floor (10 * q)) in (48 + d) # decimals n (10 * q - of_nat d)))"

definition num_str :: "rat \<Rightarrow> jstring" where
  \<comment> \<open>\<open>String(q)\<close> where JavaScript uses no exponent and the decimal expansion is short\<close>
  "num_str q =
     (let a = abs q; whole = floor a; frac = a - of_int whole in
      (if q < 0 then [45] else []) @ int_str whole @ (if frac = 0 then [] else 46 # decimals 20 frac))"

fun to_json :: "jsval \<Rightarrow> jstring" where
  "to_json JUndef = js ''null''"
| "to_json JNull = js ''null''"
| "to_json (JBool b) = (if b then js ''true'' else js ''false'')"
| "to_json (JNum q) = num_str q"
| "to_json (JStr s) = json_quote s"
| "to_json (JArr vs) = [91] @ join [44] (map to_json vs) @ [93]"
| "to_json (JObj kvs) =
     [123] @ join [44] (map (\<lambda>kv. json_quote (fst kv) @ [58] @ to_json (snd kv))
       (filter (\<lambda>kv. snd kv \<noteq> JUndef) kvs)) @ [125]"

definition json_stringify :: "jsval \<Rightarrow> jstring option" where
  "json_stringify v = (if v = JUndef then None else Some (to_json v))"

fun js_string :: "jsval \<Rightarrow> jstring" where
  \<comment> \<open>\<open>String(v)\<close>; an array joins its elements, \<open>null\<close> and \<open>undefined\<close> among them giving nothing\<close>
  "js_string JUndef = js ''undefined''"
| "js_string JNull = js ''null''"
| "js_string (JBool b) = (if b then js ''true'' else js ''false'')"
| "js_string (JNum q) = num_str q"
| "js_string (JStr s) = s"
| "js_string (JArr vs) = join [44] (map (\<lambda>v. if v = JNull \<or> v = JUndef then [] else js_string v) vs)"
| "js_string (JObj kvs) = js ''[object Object]''"

lemmas json_eval [js_eval] =
  is_index_def obj_set_def is_json_space_def skip_space_def hex_val_def hex4_def simple_escape_def
  cons_fst_def parse_chars.simps is_num_char_def json_number_def json_parse_def hex_digit_char_def
  unicode_escape_def high_surrogate_def low_surrogate_def quote_char_def json_quote_def num_str_def
  json_stringify_def

section \<open>Strings come back\<close>

lemma hex_val_digit: "n < 16 \<Longrightarrow> hex_val (hex_digit_char n) = Some n"
  by (auto simp: hex_val_def hex_digit_char_def)

lemma hex4_escape:
  assumes "c < 65536"
  shows "hex4 [hex_digit_char (c div 4096 mod 16), hex_digit_char (c div 256 mod 16),
    hex_digit_char (c div 16 mod 16), hex_digit_char (c mod 16)] = Some c"
proof -
  have e0: "c div 4096 mod 16 = c div 4096" using assms by simp
  have e1: "16 * (c div 4096) + c div 256 mod 16 = c div 256"
    using mult_div_mod_eq [of 16 "c div 256"] by (simp add: div_mult2_eq [symmetric])
  have e2: "16 * (c div 256) + c div 16 mod 16 = c div 16"
    using mult_div_mod_eq [of 16 "c div 16"] by (simp add: div_mult2_eq [symmetric])
  have e3: "16 * (c div 16) + c mod 16 = c"
    by (rule mult_div_mod_eq)
  have "16 * (16 * (16 * (c div 4096 mod 16) + c div 256 mod 16) + c div 16 mod 16) + c mod 16 = c"
    by (simp only: e0 e1 e2 e3)
  moreover have "c div 4096 < 16" using e0 by (metis mod_less_divisor zero_less_numeral)
  ultimately show ?thesis using e0 by (simp add: hex4_def hex_val_digit)
qed

lemma parse_unicode_escape:
  "c < 65536 \<Longrightarrow> parse_chars (unicode_escape c @ t) = map_option (cons_fst c) (parse_chars t)"
  using hex4_escape [of c] by (simp add: unicode_escape_def parse_chars.simps(2))

lemma parse_quote_char:
  "c < 65536 \<Longrightarrow> parse_chars (quote_char c @ t) = map_option (cons_fst c) (parse_chars t)"
  using parse_unicode_escape [of c t]
  by (auto simp: quote_char_def parse_chars.simps(2) simple_escape_def)

lemma parse_plain_char:
  "32 \<le> c \<Longrightarrow> c \<noteq> 34 \<Longrightarrow> c \<noteq> 92 \<Longrightarrow> parse_chars (c # t) = map_option (cons_fst c) (parse_chars t)"
  by (simp add: parse_chars.simps(2))

lemma parse_quote_chars:
  "list_all (\<lambda>c. c < 65536) s \<Longrightarrow> parse_chars (quote_chars s @ 34 # t) = Some (s, t)"
proof (induction s rule: quote_chars.induct)
  case 1
  show ?case by (simp add: parse_chars.simps(2))
next
  case (2 c)
  then show ?case
    by (simp add: parse_unicode_escape parse_quote_char parse_chars.simps(2) [of 34] cons_fst_def)
next
  case (3 c d cs)
  show ?case
  proof (cases "high_surrogate c \<and> low_surrogate d")
    case True
    then have "parse_chars (c # d # quote_chars cs @ 34 # t) = Some (c # d # cs, t)"
      using 3 by (simp add: parse_plain_char high_surrogate_def low_surrogate_def cons_fst_def)
    then show ?thesis using True by simp
  next
    case False
    with 3 have "parse_chars (quote_chars (d # cs) @ 34 # t) = Some (d # cs, t)" by simp
    then show ?thesis
      using False 3(3)
      by (cases "high_surrogate c \<or> low_surrogate c") (auto simp: parse_unicode_escape parse_quote_char cons_fst_def)
  qed
qed

section \<open>Integers come back\<close>

lemma num_str_int: "num_str (of_int n) = int_str n"
  by (simp add: num_str_def int_str_def Let_def)

lemma takeWhile_digits: "list_all is_digit ds \<Longrightarrow> takeWhile is_digit ds = ds" "list_all is_digit ds \<Longrightarrow> dropWhile is_digit ds = []"
  by (simp_all add: list_all_iff takeWhile_eq_all_conv dropWhile_eq_Nil_conv)

lemma nat_str_all_digits: "list_all is_digit (nat_str n)"
  by (simp add: list_all_iff nat_str_digits)

lemma hd_nat_str: "is_digit (hd (nat_str n))"
  by (rule nat_str_digits) (rule hd_in_set, simp)

lemma nat_str_no_leading_zero: "hd (nat_str n) = 48 \<Longrightarrow> length (nat_str n) = 1"
proof (induction n rule: nat_str.induct)
  case (1 n)
  show ?case
  proof (cases "n < 10")
    case True
    then show ?thesis by (simp add: nat_str.simps [of n])
  next
    case False
    then have eq: "nat_str n = nat_str (n div 10) @ [48 + n mod 10]" by (subst nat_str.simps) simp
    then have "hd (nat_str (n div 10)) = 48" using 1 by simp
    moreover have "length (nat_str (n div 10)) = 1" using 1(1) [OF False] calculation by simp
    ultimately have "nat_str (n div 10) = nat_str 0"
      by (cases "nat_str (n div 10)") (simp_all add: nat_str.simps [of 0])
    then have "n div 10 = 0" by (simp only: nat_str_inject)
    then show ?thesis using False by simp
  qed
qed

lemma digits_val_Nil [simp]: "digits_val [] = 0"
  by (simp add: digits_val_def)

lemma unsigned_decimal_nat: "unsigned_decimal (nat_str n) = Some (of_nat n)"
  by (simp add: unsigned_decimal_def takeWhile_digits nat_str_all_digits exponent_part_def pow10_def digits_rat_def Let_def)

lemma json_number_nat: "json_number (nat_str n) = Some (of_nat n)"
proof -
  have "is_digit (hd (nat_str n))" by (rule hd_nat_str)
  then have neg: "(case nat_str n of [] \<Rightarrow> False | c # _ \<Rightarrow> c = 45) = False"
    by (cases "nat_str n") (auto simp: is_digit_def)
  show ?thesis
    unfolding json_number_def neg Let_def using nat_str_no_leading_zero [of n]
    by (auto simp: takeWhile_digits nat_str_all_digits unsigned_decimal_nat)
qed

lemma json_number_int: "json_number (int_str n) = Some (of_int n)"
proof (cases "n < 0")
  case True
  have "json_number (45 # nat_str (nat (- n))) = map_option uminus (json_number (nat_str (nat (- n))))"
  proof -
    have "is_digit (hd (nat_str (nat (- n))))" by (rule hd_nat_str)
    then have neg: "(case nat_str (nat (- n)) of [] \<Rightarrow> False | c # _ \<Rightarrow> c = 45) = False"
      by (cases "nat_str (nat (- n))") (auto simp: is_digit_def)
    show ?thesis unfolding json_number_def neg Let_def by (simp add: takeWhile_digits nat_str_all_digits option.map_ident)
  qed
  then show ?thesis using True by (simp add: int_str_def json_number_nat)
qed (simp add: int_str_def json_number_nat)

lemma is_num_char_int_str: "list_all is_num_char (int_str n)"
  using nat_str_digits by (auto simp: int_str_def list_all_iff is_num_char_def)

lemma int_str_shape: "int_str n \<noteq> [] \<and> (hd (int_str n) = 45 \<or> is_digit (hd (int_str n)))"
  by (simp add: int_str_def hd_nat_str)

definition ends_number :: "jstring \<Rightarrow> bool" where
  "ends_number t \<longleftrightarrow> t = [] \<or> \<not> is_num_char (hd t)"

lemma takeWhile_ends:
  assumes "list_all is_num_char s" "ends_number t"
  shows "takeWhile is_num_char (s @ t) = s" "dropWhile is_num_char (s @ t) = t"
proof -
  have "takeWhile is_num_char (s @ t) = s @ takeWhile is_num_char t" "dropWhile is_num_char (s @ t) = dropWhile is_num_char t"
    using assms(1) by (auto simp: list_all_iff takeWhile_append dropWhile_append)
  moreover have "takeWhile is_num_char t = []" "dropWhile is_num_char t = t"
    using assms(2) by (cases t; simp add: ends_number_def)+
  ultimately show "takeWhile is_num_char (s @ t) = s" "dropWhile is_num_char (s @ t) = t" by simp_all
qed

section \<open>Decimal fractions come back\<close>

lemma digits_val_Cons: "digits_val (c # ds) = (c - 48) * 10 ^ length ds + digits_val ds"
proof -
  have "foldl (\<lambda>n c. 10 * n + (c - 48)) a ds = a * 10 ^ length ds + foldl (\<lambda>n c. 10 * n + (c - 48)) 0 ds" for a :: nat
  proof (induction ds arbitrary: a)
    case (Cons d ds)
    from Cons [of "10 * a + (d - 48)"] Cons [of "d - 48"] show ?case
      by (simp add: algebra_simps)
  qed simp
  from this [of "c - 48"] show ?thesis
    by (simp add: digits_val_def)
qed

definition short_decimal :: "nat \<Rightarrow> rat \<Rightarrow> bool" where
  \<comment> \<open>a decimal fraction with at most so many digits behind the point\<close>
  "short_decimal n q \<longleftrightarrow> of_int (floor (10 ^ n * q)) = 10 ^ n * q"

lemma short_decimalI: "10 ^ n * q = of_int k \<Longrightarrow> short_decimal n q"
  by (simp add: short_decimal_def)

lemma short_decimalD: "short_decimal n q \<Longrightarrow> \<exists>k. 10 ^ n * q = of_int k"
  by (metis short_decimal_def)

lemma short_decimal_int: "short_decimal n (of_int k)"
  by (rule short_decimalI [of _ _ "10 ^ n * k"]) simp

lemma decimals_correct:
  assumes "0 \<le> q" "q < 1" "short_decimal n q"
  shows "list_all is_digit (decimals n q) \<and> digits_rat (decimals n q) / 10 ^ length (decimals n q) = q \<and>
    (q \<noteq> 0 \<longrightarrow> decimals n q \<noteq> [])"
  using assms
proof (induction n arbitrary: q)
  case 0
  then obtain k where "q = of_int k"
    using short_decimalD [of 0 q] by auto
  then have "q = 0"
    using 0 by simp
  then show ?case
    by (simp add: digits_rat_def)
next
  case (Suc n)
  show ?case
  proof (cases "q = 0")
    case False
    define d where "d = nat (floor (10 * q))"
    have fl: "0 \<le> floor (10 * q)" "floor (10 * q) < 10"
      using Suc.prems(1,2) by (simp_all add: floor_less_iff)
    then have d: "d < 10" "of_nat d = (of_int (floor (10 * q)) :: rat)"
      unfolding d_def by (linarith, metis fl(1) of_nat_nat of_int_of_nat_eq)
    define r where "r = 10 * q - of_nat d"
    have r: "0 \<le> r" "r < 1"
      unfolding r_def d(2) by linarith+
    obtain k where k: "10 ^ Suc n * q = of_int k"
      using short_decimalD [OF Suc.prems(3)] by blast
    have "10 ^ n * r = 10 ^ Suc n * q - 10 ^ n * of_int (floor (10 * q))"
      by (simp add: r_def d(2) algebra_simps)
    also have "\<dots> = of_int (k - 10 ^ n * floor (10 * q))"
      unfolding k by simp
    finally have "10 ^ n * r = of_int (k - 10 ^ n * floor (10 * q))" .
    then have "short_decimal n r"
      by (rule short_decimalI)
    note IH = Suc.IH [OF r this]
    have eq: "decimals (Suc n) q = (48 + d) # decimals n r"
      using False by (simp add: d_def r_def Let_def)
    have "digits_rat (decimals (Suc n) q) / 10 ^ length (decimals (Suc n) q) =
        (of_nat d + digits_rat (decimals n r) / 10 ^ length (decimals n r)) / 10"
      unfolding eq by (simp add: digits_rat_def digits_val_Cons add_divide_distrib)
    also have "\<dots> = q"
      using IH by (simp add: r_def)
    finally show ?thesis
      using IH d(1) unfolding eq by (simp add: is_digit_def)
  qed (simp add: digits_rat_def)
qed

lemma short_fraction:
  assumes "short_decimal n q"
  shows "short_decimal n (abs q - of_int (floor (abs q)))"
proof -
  obtain k where "10 ^ n * q = of_int k"
    using short_decimalD [OF assms] by blast
  then have "10 ^ n * abs q = of_int (abs k)"
    by (metis abs_mult abs_of_nonneg of_int_abs zero_le_numeral zero_le_power)
  then have "10 ^ n * (abs q - of_int (floor (abs q))) = of_int (abs k - 10 ^ n * floor (abs q))"
    by (simp add: right_diff_distrib)
  then show ?thesis
    by (rule short_decimalI)
qed

lemma nat_str_point:
  assumes "list_all is_digit ds" "ds \<noteq> []"
  shows "json_number (nat_str n @ 46 # ds) = Some (of_nat n + digits_rat ds / 10 ^ length ds)"
proof -
  have tw: "takeWhile is_digit (nat_str n @ 46 # ds) = nat_str n" "dropWhile is_digit (nat_str n @ 46 # ds) = 46 # ds"
    using nat_str_all_digits [of n]
    by (auto simp: list_all_iff takeWhile_append dropWhile_append is_digit_def)
  have neg: "(case nat_str n @ 46 # ds of [] \<Rightarrow> False | c # _ \<Rightarrow> c = 45) = False"
    using hd_nat_str [of n] by (cases "nat_str n") (auto simp: is_digit_def)
  show ?thesis
    unfolding json_number_def neg Let_def unsigned_decimal_def
    using assms nat_str_no_leading_zero [of n]
    by (auto simp: tw takeWhile_digits exponent_part_def pow10_def digits_rat_def)
qed

lemma json_number_neg: "is_digit (hd s) \<Longrightarrow> s \<noteq> [] \<Longrightarrow> json_number (45 # s) = map_option uminus (json_number s)"
  unfolding json_number_def Let_def by (cases s) (auto simp: is_digit_def option.map_ident)

lemma int_str_nat: "0 \<le> n \<Longrightarrow> int_str n = nat_str (nat n)"
  by (simp add: int_str_def)

lemma json_number_num_str:
  assumes "short_decimal 20 q"
  shows "json_number (num_str q) = Some q"
proof -
  define a where "a = abs q"
  define n where "n = nat (floor a)"
  define f where "f = a - of_int (floor a)"
  have a: "0 \<le> a" by (simp add: a_def)
  have n: "int_str (floor a) = nat_str n" "of_nat n = (of_int (floor a) :: rat)"
    using a by (simp_all add: n_def int_str_nat)
  have f: "0 \<le> f" "f < 1"
    unfolding f_def by linarith+
  have "short_decimal 20 f"
    using short_fraction [OF assms] by (simp add: f_def a_def)
  note dc = decimals_correct [OF f this]
  have body: "json_number (nat_str n @ (if f = 0 then [] else 46 # decimals 20 f)) = Some a"
  proof (cases "f = 0")
    case True
    then show ?thesis
      using n(2) by (simp add: json_number_nat f_def)
  next
    case False
    then show ?thesis
      using dc nat_str_point [of "decimals 20 f" n] n(2) by (simp add: f_def)
  qed
  have eq: "num_str q = (if q < 0 then [45] else []) @ nat_str n @ (if f = 0 then [] else 46 # decimals 20 f)"
    unfolding num_str_def Let_def a_def [symmetric] f_def [symmetric] n(1) [symmetric] by simp
  have hd: "is_digit (hd (nat_str n @ (if f = 0 then [] else 46 # decimals 20 f)))"
    using hd_nat_str [of n] by (cases "nat_str n") simp_all
  show ?thesis
  proof (cases "q < 0")
    case True
    then show ?thesis
      using json_number_neg [OF hd] body by (simp add: eq a_def)
  next
    case False
    then show ?thesis
      using body by (simp add: eq a_def)
  qed
qed

lemma num_str_chars:
  assumes "short_decimal 20 q"
  shows "list_all is_num_char (num_str q)" "num_str q \<noteq> []" "hd (num_str q) = 45 \<or> is_digit (hd (num_str q))"
proof -
  define a where "a = abs q"
  define f where "f = a - of_int (floor a)"
  have f: "0 \<le> f" "f < 1"
    unfolding f_def by linarith+
  have "short_decimal 20 f"
    using short_fraction [OF assms] by (simp add: f_def a_def)
  then have "list_all is_digit (decimals 20 f)"
    using decimals_correct [OF f] by blast
  then have "list_all is_num_char (decimals 20 f)"
    by (auto simp: list_all_iff is_num_char_def)
  moreover have eq: "num_str q = (if q < 0 then [45] else []) @ int_str (floor a) @ (if f = 0 then [] else 46 # decimals 20 f)"
    unfolding num_str_def Let_def a_def [symmetric] f_def [symmetric] by simp
  ultimately show "list_all is_num_char (num_str q)"
    using is_num_char_int_str [of "floor a"] by (simp add: is_num_char_def)
  show "num_str q \<noteq> []" "hd (num_str q) = 45 \<or> is_digit (hd (num_str q))"
    using int_str_shape [of "floor a"] by (simp_all add: eq)
qed

section \<open>Values come back\<close>

definition obj_ordered :: "(jstring \<times> jsval) list \<Rightarrow> bool" where
  "obj_ordered kvs \<longleftrightarrow> foldl (\<lambda>acc kv. obj_set acc (fst kv) (snd kv)) [] kvs = kvs"

definition text_ok :: "jstring \<Rightarrow> bool" where
  "text_ok s \<longleftrightarrow> list_all (\<lambda>c. c < 65536) s"

fun json_ok :: "jsval \<Rightarrow> bool" where
  \<comment> \<open>values that survive: no \<open>undefined\<close>, decimal fractions, properties in enumeration order\<close>
  "json_ok JUndef = False"
| "json_ok JNull = True"
| "json_ok (JBool b) = True"
| "json_ok (JNum q) = short_decimal 20 q"
| "json_ok (JStr s) = text_ok s"
| "json_ok (JArr vs) = list_all json_ok vs"
| "json_ok (JObj kvs) = (obj_ordered kvs \<and> list_all (\<lambda>kv. text_ok (fst kv) \<and> json_ok (snd kv)) kvs)"

fun json_need :: "jsval \<Rightarrow> nat" where
  \<comment> \<open>the nesting bound a value's text needs\<close>
  "json_need (JArr vs) = 2 + sum_list (map (\<lambda>v. Suc (json_need v)) vs)"
| "json_need (JObj kvs) = 2 + sum_list (map (\<lambda>kv. Suc (json_need (snd kv))) kvs)"
| "json_need _ = 1"

definition starts_value :: "jstring \<Rightarrow> bool" where
  "starts_value s \<longleftrightarrow> s \<noteq> [] \<and> \<not> is_json_space (hd s) \<and> hd s \<noteq> 93 \<and> hd s \<noteq> 125"

lemma starts_value_to_json: "json_ok v \<Longrightarrow> starts_value (to_json v @ t)"
proof (cases v)
  case (JNum q)
  assume "json_ok v"
  then show ?thesis
    using num_str_chars [of q] JNum
    by (auto simp: starts_value_def is_json_space_def is_digit_def)
qed (auto simp: starts_value_def is_json_space_def json_quote_def js_Cons)

lemma skip_space_value: "starts_value s \<Longrightarrow> skip_space s = s"
  by (cases s) (simp_all add: starts_value_def skip_space_def)

lemma parse_value_scalar:
  "json_ok (JStr s) \<Longrightarrow> parse_value (Suc n) (to_json (JStr s) @ t) = Some (JStr s, t)"
  "parse_value (Suc n) (to_json (JBool b) @ t) = Some (JBool b, t)"
  "parse_value (Suc n) (to_json JNull @ t) = Some (JNull, t)"
  "ends_number t \<Longrightarrow> short_decimal 20 q \<Longrightarrow> parse_value (Suc n) (to_json (JNum q) @ t) = Some (JNum q, t)"
proof -
  show "json_ok (JStr s) \<Longrightarrow> parse_value (Suc n) (to_json (JStr s) @ t) = Some (JStr s, t)"
    using parse_quote_chars [of s t] by (simp add: json_quote_def skip_space_def is_json_space_def text_ok_def)
  show "parse_value (Suc n) (to_json (JBool b) @ t) = Some (JBool b, t)"
    by (cases b) (simp_all add: skip_space_def is_json_space_def js_Cons startsWith_def)
  show "parse_value (Suc n) (to_json JNull @ t) = Some (JNull, t)"
    by (simp add: skip_space_def is_json_space_def js_Cons startsWith_def)
  show "parse_value (Suc n) (to_json (JNum q) @ t) = Some (JNum q, t)" if t: "ends_number t" and q: "short_decimal 20 q"
  proof -
    obtain c r where cr: "num_str q = c # r" using num_str_chars(2) [OF q] by (cases "num_str q") auto
    have c: "c = 45 \<or> is_digit c" using num_str_chars(3) [OF q] cr by simp
    then have "\<not> is_json_space c" "c \<noteq> 34" "c \<noteq> 123" "c \<noteq> 91" "c \<noteq> 116" "c \<noteq> 102" "c \<noteq> 110"
      by (auto simp: is_json_space_def is_digit_def)
    moreover from this have "skip_space (c # r @ t) = c # r @ t" by (simp add: skip_space_def)
    moreover have "takeWhile is_num_char (c # r @ t) = c # r" "dropWhile is_num_char (c # r @ t) = t"
      using takeWhile_ends [OF num_str_chars(1) [OF q] t] cr by simp_all
    ultimately show ?thesis
      using json_number_num_str [OF q] cr
      by (simp add: startsWith_def js_Cons del: takeWhile.simps dropWhile.simps)
  qed
qed

text \<open>What has to hold of a value for its text to be read back in any context.\<close>

definition reads_back :: "jsval \<Rightarrow> bool" where
  "reads_back v \<longleftrightarrow> (\<forall>n t. json_need v \<le> n \<longrightarrow> ends_number t \<longrightarrow> parse_value n (to_json v @ t) = Some (v, t))"

lemma ends_number_punct [simp]: "ends_number (44 # t)" "ends_number (93 # t)" "ends_number (125 # t)"
  by (simp_all add: ends_number_def is_num_char_def is_digit_def)

lemma skip_punct [simp]: "skip_space (44 # t) = 44 # t" "skip_space (93 # t) = 93 # t" "skip_space (125 # t) = 125 # t"
  "skip_space (58 # t) = 58 # t" "skip_space (34 # t) = 34 # t"
  by (simp_all add: skip_space_def is_json_space_def)

lemma parse_elements_back:
  assumes "\<And>v. v \<in> set vs \<Longrightarrow> reads_back v" "vs \<noteq> []" "sum_list (map (\<lambda>v. Suc (json_need v)) vs) \<le> n"
  shows "parse_elements n (join [44] (map to_json vs) @ 93 # t) = Some (vs, t)"
  using assms
proof (induction vs arbitrary: n)
  case (Cons v vs)
  then obtain m where n: "n = Suc m" by (cases n) auto
  have v: "parse_value m (to_json v @ u) = Some (v, u)" if "ends_number u" for u
    using Cons.prems(1) [of v] Cons.prems(3) n that by (simp add: reads_back_def)
  show ?case
  proof (cases "vs = []")
    case True
    then show ?thesis using v [of "93 # t"] by (simp add: n)
  next
    case False
    have "parse_elements m (join [44] (map to_json vs) @ 93 # t) = Some (vs, t)"
      using Cons.prems n by (intro Cons.IH False) auto
    moreover have "join [44] (map to_json (v # vs)) @ 93 # t = to_json v @ 44 # join [44] (map to_json vs) @ 93 # t"
      using False by (cases vs) simp_all
    ultimately show ?thesis using v [of "44 # join [44] (map to_json vs) @ 93 # t"] by (simp add: n)
  qed
qed simp

definition member_text :: "jstring \<times> jsval \<Rightarrow> jstring" where
  "member_text kv = json_quote (fst kv) @ [58] @ to_json (snd kv)"

lemma parse_members_back:
  assumes "\<And>kv. kv \<in> set kvs \<Longrightarrow> reads_back (snd kv) \<and> text_ok (fst kv)" "kvs \<noteq> []"
    and "sum_list (map (\<lambda>kv. Suc (json_need (snd kv))) kvs) \<le> n"
  shows "parse_members n acc (join [44] (map member_text kvs) @ 125 # t) =
    Some (foldl (\<lambda>acc kv. obj_set acc (fst kv) (snd kv)) acc kvs, t)"
  using assms
proof (induction kvs arbitrary: n acc)
  case (Cons kv kvs)
  obtain k v where kv: "kv = (k, v)" by (cases kv)
  from Cons.prems obtain m where n: "n = Suc m" by (cases n) auto
  have v: "parse_value m (to_json v @ u) = Some (v, u)" if "ends_number u" for u
    using Cons.prems(1) [of kv] Cons.prems(3) n kv that by (simp add: reads_back_def)
  have k: "parse_chars (quote_chars k @ 34 # u) = Some (k, u)" for u
    using Cons.prems(1) [of kv] kv by (simp add: parse_quote_chars text_ok_def)
  have one: "parse_members (Suc m) acc (member_text kv @ u) =
      (case skip_space u of [] \<Rightarrow> None
       | e # t' \<Rightarrow> if e = 44 then parse_members m (obj_set acc k v) t' else if e = 125 then Some (obj_set acc k v, t') else None)"
    if "ends_number u" for u
    using k v [OF that] by (simp add: member_text_def kv json_quote_def)
  show ?case
  proof (cases "kvs = []")
    case True
    then show ?thesis using one [of "125 # t"] by (simp add: n kv del: parse_members.simps)
  next
    case False
    have "parse_members m (obj_set acc k v) (join [44] (map member_text kvs) @ 125 # t) =
        Some (foldl (\<lambda>acc kv. obj_set acc (fst kv) (snd kv)) (obj_set acc k v) kvs, t)"
      using Cons.prems n by (intro Cons.IH False) auto
    moreover have "join [44] (map member_text (kv # kvs)) @ 125 # t = member_text kv @ 44 # join [44] (map member_text kvs) @ 125 # t"
      using False by (cases kvs) simp_all
    ultimately show ?thesis
      using one [of "44 # join [44] (map member_text kvs) @ 125 # t"] by (simp add: n kv del: parse_members.simps)
  qed
qed simp

lemma json_ok_reads_back: "json_ok v \<Longrightarrow> reads_back v"
proof (induction v)
  case (JStr s)
  show ?case unfolding reads_back_def
  proof (intro allI impI)
    fix n t assume "json_need (JStr s) \<le> n"
    then obtain m where "n = Suc m" by (cases n) auto
    then show "parse_value n (to_json (JStr s) @ t) = Some (JStr s, t)"
      using parse_value_scalar(1) [OF JStr] by (simp only:)
  qed
next
  case (JBool b)
  show ?case unfolding reads_back_def
  proof (intro allI impI)
    fix n t assume "json_need (JBool b) \<le> n"
    then obtain m where "n = Suc m" by (cases n) auto
    then show "parse_value n (to_json (JBool b) @ t) = Some (JBool b, t)" by (simp only: parse_value_scalar)
  qed
next
  case JNull
  show ?case unfolding reads_back_def
  proof (intro allI impI)
    fix n t assume "json_need JNull \<le> n"
    then obtain m where "n = Suc m" by (cases n) auto
    then show "parse_value n (to_json JNull @ t) = Some (JNull, t)" by (simp only: parse_value_scalar)
  qed
next
  case (JNum q)
  then have q: "short_decimal 20 q" by simp
  show ?case unfolding reads_back_def
  proof (intro allI impI)
    fix n t assume "json_need (JNum q) \<le> n" "ends_number t"
    then obtain m where "n = Suc m" by (cases n) auto
    then show "parse_value n (to_json (JNum q) @ t) = Some (JNum q, t)"
      using parse_value_scalar(4) [OF \<open>ends_number t\<close> q] by (simp only:)
  qed
next
  case (JArr vs)
  show ?case unfolding reads_back_def
  proof (intro allI impI)
    fix n t assume n: "json_need (JArr vs) \<le> n" and "ends_number t"
    then obtain m where m: "n = Suc m" by (cases n) auto
    show "parse_value n (to_json (JArr vs) @ t) = Some (JArr vs, t)"
    proof (cases vs)
      case Nil
      then show ?thesis by (simp add: m skip_space_def is_json_space_def)
    next
      case (Cons v vs')
      have ok: "json_ok x" if "x \<in> set vs" for x using JArr.prems that by (simp add: list_all_iff)
      have "parse_elements m (join [44] (map to_json vs) @ 93 # t) = Some (vs, t)"
        using JArr ok n m by (intro parse_elements_back) (auto simp: Cons)
      moreover have "starts_value (join [44] (map to_json vs) @ 93 # t)"
        using starts_value_to_json [OF ok, of v] by (cases vs') (simp_all add: Cons)
      ultimately show ?thesis
        by (cases "join [44] (map to_json vs) @ 93 # t")
          (auto simp: m skip_space_def is_json_space_def starts_value_def)
    qed
  qed
next
  case (JObj kvs)
  have nn: "filter (\<lambda>kv. snd kv \<noteq> JUndef) kvs = kvs"
    using JObj.prems by (auto simp: filter_id_conv list_all_iff)
  have shape: "to_json (JObj kvs) = 123 # join [44] (map member_text kvs) @ [125]"
    by (simp add: nn member_text_def [abs_def])
  show ?case unfolding reads_back_def
  proof (intro allI impI)
    fix n t assume n: "json_need (JObj kvs) \<le> n" and "ends_number t"
    then obtain m where m: "n = Suc m" by (cases n) auto
    show "parse_value n (to_json (JObj kvs) @ t) = Some (JObj kvs, t)"
    proof (cases kvs)
      case Nil
      then show ?thesis by (simp add: m skip_space_def is_json_space_def)
    next
      case (Cons kv kvs')
      have "parse_members m [] (join [44] (map member_text kvs) @ 125 # t) = Some (kvs, t)"
        using parse_members_back [of kvs m "[]" t] JObj n m Cons
        by (auto simp: list_all_iff obj_ordered_def snds.simps)
      moreover obtain r where "join [44] (map member_text kvs) @ 125 # t = 34 # r"
        by (cases kvs') (simp_all add: Cons member_text_def json_quote_def)
      ultimately show ?thesis unfolding shape by (simp add: m skip_space_def is_json_space_def)
    qed
  qed
qed simp

lemma length_join: "length (join [c] xs) + 1 \<ge> sum_list (map (\<lambda>x. Suc (length x)) xs)"
proof (induction xs rule: induct_list012)
  case (3 x y zs)
  then show ?case by simp
qed simp_all

lemma need_list:
  assumes "\<And>x. x \<in> set xs \<Longrightarrow> f x \<le> 2 * length (g x)"
  shows "2 + sum_list (map (\<lambda>x. Suc (f x)) xs) \<le> 2 * (2 + length (join [c] (map g xs)))"
proof -
  have "sum_list (map (\<lambda>x. Suc (f x)) xs) \<le> sum_list (map (\<lambda>x. 2 * Suc (length (g x))) xs)"
    using assms by (intro sum_list_mono) (simp add: le_SucI)
  also have "\<dots> = 2 * sum_list (map (\<lambda>x. Suc (length (g x))) xs)"
    by (rule sum_list_const_mult)
  finally show ?thesis
    using length_join [of "map g xs" c] by (simp add: comp_def)
qed

lemma json_need_length: "json_ok v \<Longrightarrow> json_need v \<le> 2 * length (to_json v)"
proof (induction v)
  case (JArr vs)
  then show ?case using need_list [of vs json_need to_json 44] by (auto simp: list_all_iff)
next
  case (JObj kvs)
  have nn: "filter (\<lambda>kv. snd kv \<noteq> JUndef) kvs = kvs"
    using JObj.prems by (auto simp: filter_id_conv list_all_iff)
  have "json_need (snd kv) \<le> 2 * length (member_text kv)" if "kv \<in> set kvs" for kv
    using JObj that by (cases kv) (fastforce simp: member_text_def list_all_iff)
  from need_list [of kvs "\<lambda>kv. json_need (snd kv)" member_text 44, OF this] show ?case
    by (simp add: nn member_text_def [abs_def])
next
  case (JNum q)
  then show ?case using num_str_chars(2) [of q] by (cases "num_str q") auto
qed (simp_all add: json_quote_def js_Cons)

text \<open>The library's round trip, as the components below use it.\<close>

lemma json_round_trip:
  assumes "json_ok v"
  shows "json_parse (to_json v) = Some v"
proof -
  have "parse_value (Suc (2 * length (to_json v))) (to_json v @ []) = Some (v, [])"
    using json_ok_reads_back [OF assms, unfolded reads_back_def, rule_format] json_need_length [OF assms]
    by (metis ends_number_def le_SucI)
  then show ?thesis by (simp add: json_parse_def skip_space_def del: parse_value.simps)
qed

section \<open>The nesting bound is enough\<close>

lemma length_skip_space: "length (skip_space s) \<le> length s"
  by (simp add: skip_space_def length_dropWhile_le)

lemma skip_space_Cons: "skip_space s = c # r \<Longrightarrow> length r < length s"
  using length_skip_space [of s] by simp

lemma parse_chars_shorter: "parse_chars s = Some (t, r) \<Longrightarrow> length r < length s"
proof (induction s arbitrary: t r rule: length_induct)
  case (1 s)
  have less: "length y < length z" if "parse_chars z = Some (x, y)" "length z < length s" for x y z
    using 1(1) that by blast
  show ?case
  proof (cases s)
    case (Cons c s')
    with 1(2) show ?thesis
      by (auto simp: parse_chars.simps(2) cons_fst_def split: if_splits list.splits option.splits dest!: less)
  qed (use 1(2) in \<open>simp add: parse_chars.simps\<close>)
qed

lemma json_number_rest:
  assumes "json_number (takeWhile is_num_char s) = Some q"
  shows "length (dropWhile is_num_char s) < length s"
proof -
  have "takeWhile is_num_char s \<noteq> []" using assms by (intro notI) (simp add: json_number_def)
  then show ?thesis
    using arg_cong [OF takeWhile_dropWhile_id [of is_num_char s], of length] by (cases "takeWhile is_num_char s") simp_all
qed

lemma parse_shorter:
  "(parse_value n s = Some (v, r) \<longrightarrow> length r < length s) \<and>
   (parse_elements n s = Some (vs, r) \<longrightarrow> length r < length s) \<and>
   (parse_members n kvs s = Some (ms, r) \<longrightarrow> length r < length s)"
proof (induction n arbitrary: s v vs kvs ms r)
  case (Suc n)
  have v: "length r < length s" if "parse_value n s = Some (v, r)" for s v r using Suc that by blast
  have e: "length r < length s" if "parse_elements n s = Some (vs, r)" for s vs r using Suc that by blast
  have m: "length r < length s" if "parse_members n kvs s = Some (ms, r)" for s kvs ms r using Suc that by blast
  have "length r < length s" if "parse_value (Suc n) s = Some (v, r)"
  proof (cases "skip_space s")
    case (Cons c t)
    have num: "length (dropWhile is_num_char (c # t)) < length s"
      if "json_number (takeWhile is_num_char (c # t)) = Some q" for q
      using json_number_rest [OF that] length_skip_space [of s] Cons by simp
    from Cons show ?thesis using that skip_space_Cons [OF Cons]
      by (auto simp del: takeWhile.simps dropWhile.simps split: if_splits list.splits
          dest!: parse_chars_shorter skip_space_Cons m e num)
  qed (use that in simp)
  moreover have "length r < length s" if "parse_elements (Suc n) s = Some (vs, r)"
    using that by (auto split: if_splits list.splits option.splits dest!: v e skip_space_Cons)
  moreover have "length r < length s" if "parse_members (Suc n) kvs s = Some (ms, r)"
    using that by (auto split: if_splits list.splits option.splits dest!: v m skip_space_Cons parse_chars_shorter)
  ultimately show ?case by blast
qed simp

lemma parse_value_shorter: "parse_value n s = Some (v, r) \<Longrightarrow> length r < length s"
  using parse_shorter by blast

lemma parse_enough:
  "(2 * length s < n \<longrightarrow> 2 * length s < k \<longrightarrow> parse_value n s = parse_value k s) \<and>
   (2 * length s + 1 < n \<longrightarrow> 2 * length s + 1 < k \<longrightarrow> parse_elements n s = parse_elements k s) \<and>
   (2 * length s + 1 < n \<longrightarrow> 2 * length s + 1 < k \<longrightarrow> parse_members n kvs s = parse_members k kvs s)"
proof (induction n arbitrary: s k kvs)
  case (Suc n)
  show ?case
  proof (cases k)
    case (Suc l)
    have v: "parse_value n s = parse_value l s" if "2 * length s < n" "2 * length s < l" for s
      using Suc.IH [of s l] that by blast
    have e: "parse_elements n s = parse_elements l s" if "2 * length s + 1 < n" "2 * length s + 1 < l" for s
      using Suc.IH [of s l] that by blast
    have m: "parse_members n kvs s = parse_members l kvs s" if "2 * length s + 1 < n" "2 * length s + 1 < l" for s kvs
      using Suc.IH [of s l] that by blast
    have "parse_value (Suc n) s = parse_value (Suc l) s" if b: "2 * length s < Suc n" "2 * length s < Suc l"
    proof (cases "skip_space s")
      case (Cons c t)
      have "parse_elements n t = parse_elements l t" "parse_members n [] t = parse_members l [] t"
        using skip_space_Cons [OF Cons] b by (auto intro!: e m)
      then show ?thesis by (simp add: Cons cong: if_cong list.case_cong)
    qed simp
    moreover have "parse_elements (Suc n) s = parse_elements (Suc l) s"
      if b: "2 * length s + 1 < Suc n" "2 * length s + 1 < Suc l"
    proof -
      have "parse_value n s = parse_value l s" using b by (intro v) simp_all
      moreover have "parse_elements n t = parse_elements l t"
        if "parse_value l s = Some (x, y)" "skip_space y = c # t" for x y c t
        using parse_value_shorter [OF that(1)] skip_space_Cons [OF that(2)] b by (intro e) auto
      ultimately show ?thesis by (auto split: option.split list.split)
    qed
    moreover have "parse_members (Suc n) kvs s = parse_members (Suc l) kvs s"
      if b: "2 * length s + 1 < Suc n" "2 * length s + 1 < Suc l"
    proof -
      have "parse_value n z = parse_value l z"
        if "skip_space s = c # t" "parse_chars t = Some (x, y)" "skip_space y = d # z" for c t x y d z
        using skip_space_Cons [OF that(1)] parse_chars_shorter [OF that(2)] skip_space_Cons [OF that(3)] b
        by (intro v) auto
      moreover have "parse_members n kvs' w = parse_members l kvs' w"
        if "skip_space s = c # t" "parse_chars t = Some (x, y)" "skip_space y = d # z"
          "parse_value l z = Some (p, q)" "skip_space q = f # w" for kvs' c t x y d z p q f w
        using skip_space_Cons [OF that(1)] parse_chars_shorter [OF that(2)] skip_space_Cons [OF that(3)]
          parse_value_shorter [OF that(4)] skip_space_Cons [OF that(5)] b
        by (intro m) auto
      ultimately show ?thesis by (auto split: option.split list.split)
    qed
    ultimately show ?thesis using Suc by blast
  qed simp
qed simp

text \<open>Any larger bound gives the same parse: \<open>json_parse\<close> never fails for want of it.\<close>

lemma json_parse_bound:
  assumes "2 * length s < n"
  shows "json_parse s = (case parse_value n s of Some (v, r) \<Rightarrow> if skip_space r = [] then Some v else None | None \<Rightarrow> None)"
  using parse_enough [of s n "Suc (2 * length s)" "[]"] assms by (simp add: json_parse_def del: parse_value.simps)

end
