(* ===== verification/Playground_Chat.thy ===== *)
theory Playground_Chat
  imports Playground_Streaming Js_Json
begin

text \<open>
  A playground conversation as a state machine: the operations on the message list
  (\<open>lib/message/conversation-message-utils.ts\<close>), the request payload
  (\<open>lib/streaming/payload-builder.ts\<close>), the reading of server-sent events
  (\<open>lib/streaming/stream-utils.ts\<close>), the stream connection (\<open>hooks/use-stream-request.ts\<close>),
  the chat handler (\<open>hooks/use-chat-handler.ts\<close>) and the user's actions
  (\<open>hooks/use-playground-conversation.ts\<close>).

  The \<open>SSE\<close> objects of the \<open>sse.js\<close> package are numbered in the order they are created; what the
  package delivers is an event of the machine, and a closed source delivers nothing. Fields of
  a chunk that its type declares as strings are read as absent when they are not strings.
\<close>

section \<open>Conversation operations\<close>

definition appendUserMessagePair :: "id_source \<Rightarrow> int \<Rightarrow> Message list \<Rightarrow> jstring \<Rightarrow> Message list" where
  "appendUserMessagePair ids submittedAt messages content =
     messages @ [createUserMessage ids content submittedAt,
       createLoadingAssistantMessage (\<lambda>i. ids (2 + i)) submittedAt]"

definition createRegeneratedMessages :: "id_source \<Rightarrow> int \<Rightarrow> Message list \<Rightarrow> jstring \<Rightarrow> Message list option" where
  "createRegeneratedMessages ids now messages messageKey =
     (case find_index (\<lambda>message. msg_key message = messageKey) messages of
        None \<Rightarrow> None
      | Some messageIndex \<Rightarrow>
          if msg_from (messages ! messageIndex) = UserMsg
          then Some (take (messageIndex + 1) messages @ [createLoadingAssistantMessage ids now])
          else Some (take messageIndex messages @ [createLoadingAssistantMessage ids now]))"

definition removeMessageByKey :: "Message list \<Rightarrow> jstring \<Rightarrow> Message list" where
  "removeMessageByKey messages messageKey = filter (\<lambda>message. msg_key message \<noteq> messageKey) messages"

definition getPreviousUserMessage :: "Message list \<Rightarrow> nat \<Rightarrow> Message option" where
  "getPreviousUserMessage messages beforeIndex =
     map_option (\<lambda>i. messages ! i) (last_index (\<lambda>m. msg_from m = UserMsg) (take beforeIndex messages))"

definition edited_message :: "int \<Rightarrow> jstring \<Rightarrow> jstring \<Rightarrow> bool \<Rightarrow> Message \<Rightarrow> Message" where
  "edited_message submittedAt messageKey content shouldSubmit message =
     (if msg_key message = messageKey
      then (updateCurrentVersionContent message content)
        \<lparr>createdAt := (if shouldSubmit then Some submittedAt else createdAt message)\<rparr>
      else message)"

definition applyMessageEdit ::
  "id_source \<Rightarrow> int \<Rightarrow> Message list \<Rightarrow> jstring \<Rightarrow> jstring \<Rightarrow> bool \<Rightarrow> (Message list \<times> bool) option" where
  \<comment> \<open>the messages and \<open>shouldSend\<close>\<close>
  "applyMessageEdit ids submittedAt messages messageKey content shouldSubmit =
     (case find_index (\<lambda>message. msg_key message = messageKey) messages of
        None \<Rightarrow> None
      | Some messageIndex \<Rightarrow>
          (let updatedMessages = map (edited_message submittedAt messageKey content shouldSubmit) messages in
           if \<not> shouldSubmit \<or> msg_from (updatedMessages ! messageIndex) \<noteq> UserMsg
           then Some (updatedMessages, False)
           else Some (take (messageIndex + 1) updatedMessages @ [createLoadingAssistantMessage ids submittedAt], True)))"

definition getEditingMessageContent :: "Message list \<Rightarrow> jstring option \<Rightarrow> jstring" where
  "getEditingMessageContent messages editingKey =
     (if opt_str editingKey = [] then []
      else (case find (\<lambda>item. msg_key item = opt_str editingKey) messages of
              Some message \<Rightarrow> getMessageContent message | None \<Rightarrow> []))"

record ChatMessageRenderState =
  rs_alwaysShowActions :: bool
  rs_content :: jstring
  rs_isEditing :: bool

definition getChatMessageRenderState ::
  "Message list \<Rightarrow> Message \<Rightarrow> nat \<Rightarrow> jstring option \<Rightarrow> ChatMessageRenderState" where
  "getChatMessageRenderState messages message messageIndex editingKey =
     \<lparr>rs_alwaysShowActions = (messageIndex + 1 = length messages \<and> msg_from message = AssistantMsg),
      rs_content = getMessageContent message, rs_isEditing = (editingKey = Some (msg_key message))\<rparr>"

section \<open>The request payload\<close>

record PlaygroundConfig =
  cfg_model :: jstring
  cfg_group :: jstring
  cfg_temperature :: rat
  cfg_top_p :: rat
  cfg_max_tokens :: rat
  cfg_frequency_penalty :: rat
  cfg_presence_penalty :: rat
  cfg_seed :: "rat option"
  cfg_stream :: bool

record ParameterEnabled =
  pe_temperature :: bool
  pe_top_p :: bool
  pe_max_tokens :: bool
  pe_frequency_penalty :: bool
  pe_presence_penalty :: bool
  pe_seed :: bool

record ChatCompletionRequest =
  rq_model :: jstring
  rq_group :: jstring
  rq_messages :: "ChatCompletionMessage list"
  rq_stream :: bool
  rq_temperature :: "rat option"
  rq_top_p :: "rat option"
  rq_max_tokens :: "rat option"
  rq_frequency_penalty :: "rat option"
  rq_presence_penalty :: "rat option"
  rq_seed :: "rat option"

definition DEFAULT_GROUP :: jstring where
  "DEFAULT_GROUP = js ''default''"

definition DEFAULT_CONFIG :: PlaygroundConfig where
  "DEFAULT_CONFIG =
     \<lparr>cfg_model = js ''gpt-4o'', cfg_group = DEFAULT_GROUP, cfg_temperature = 7 / 10, cfg_top_p = 1,
      cfg_max_tokens = 4096, cfg_frequency_penalty = 0, cfg_presence_penalty = 0, cfg_seed = None, cfg_stream = True\<rparr>"

definition DEFAULT_PARAMETER_ENABLED :: ParameterEnabled where
  "DEFAULT_PARAMETER_ENABLED =
     \<lparr>pe_temperature = True, pe_top_p = True, pe_max_tokens = False, pe_frequency_penalty = True,
      pe_presence_penalty = True, pe_seed = False\<rparr>"

definition buildChatCompletionPayload ::
  "Message list \<Rightarrow> PlaygroundConfig \<Rightarrow> ParameterEnabled \<Rightarrow> ChatCompletionRequest" where
  "buildChatCompletionPayload messages config enabled =
     \<lparr>rq_model = cfg_model config, rq_group = cfg_group config,
      rq_messages = map formatMessageForAPI (filter isValidMessage messages), rq_stream = cfg_stream config,
      rq_temperature = (if pe_temperature enabled then Some (cfg_temperature config) else None),
      rq_top_p = (if pe_top_p enabled then Some (cfg_top_p config) else None),
      rq_max_tokens = (if pe_max_tokens enabled then Some (cfg_max_tokens config) else None),
      rq_frequency_penalty = (if pe_frequency_penalty enabled then Some (cfg_frequency_penalty config) else None),
      rq_presence_penalty = (if pe_presence_penalty enabled then Some (cfg_presence_penalty config) else None),
      rq_seed = (if pe_seed enabled \<and> cfg_seed config \<noteq> None then cfg_seed config else None)\<rparr>"

section \<open>Server-sent events\<close>

definition str_field :: "jsval \<Rightarrow> jstring \<Rightarrow> jstring" where
  \<comment> \<open>a field declared as an optional string, where an absent and an empty one act alike\<close>
  "str_field v key = (case js_prop v key of JStr s \<Rightarrow> s | _ \<Rightarrow> [])"

definition index0 :: "jsval \<Rightarrow> jsval" where
  \<comment> \<open>\<open>v?.[0]\<close>\<close>
  "index0 v = (case v of JArr (x # _) \<Rightarrow> x | JObj _ \<Rightarrow> js_prop v (js ''0'') | JStr (c # _) \<Rightarrow> JStr [c] | _ \<Rightarrow> JUndef)"

record ErrorDetails =
  ed_errorCode :: "jstring option"
  ed_errorMessage :: jstring

definition STREAM_DONE_MESSAGE :: jstring where
  "STREAM_DONE_MESSAGE = js ''[DONE]''"

definition STREAM_CLOSED_READY_STATE :: int where
  "STREAM_CLOSED_READY_STATE = 2"

definition nonempty_str :: "jstring \<Rightarrow> jstring option" where
  \<comment> \<open>\<open>s || undefined\<close>\<close>
  "nonempty_str s = (if s = [] then None else Some s)"

definition parseStreamErrorDetails :: "jstring option \<Rightarrow> ErrorDetails" where
  "parseStreamErrorDetails data =
     (let fallbackMessage = str_or (opt_str data) API_REQUEST_ERROR;
          fallback = \<lparr>ed_errorCode = None, ed_errorMessage = fallbackMessage\<rparr> in
      if opt_str data = [] then fallback
      else
        (case json_parse (opt_str data) of
           None \<Rightarrow> fallback
         | Some parsed \<Rightarrow>
             (let err = js_prop parsed (js ''error'') in
              if \<not> truthy err then fallback
              else \<lparr>ed_errorCode = nonempty_str (str_field err (js ''code'')),
                    ed_errorMessage = str_or (str_field err (js ''message'')) fallbackMessage\<rparr>)))"

definition parseStreamMessageUpdates :: "jstring \<Rightarrow> (StreamChunkType \<times> jstring) list option" where
  \<comment> \<open>\<open>None\<close> when \<open>JSON.parse\<close> throws or the chunk is \<open>null\<close>, whose \<open>choices\<close> cannot be read\<close>
  "parseStreamMessageUpdates data =
     (case json_parse data of
        None \<Rightarrow> None
      | Some chunk \<Rightarrow>
          if chunk = JNull then None
          else
            (let delta = js_prop (index0 (js_prop chunk (js ''choices''))) (js ''delta'') in
             if \<not> truthy delta then Some []
             else
               (let r = str_field delta (js ''reasoning_content''); c = str_field delta (js ''content'') in
                Some ((if r \<noteq> [] then [(ReasoningChunk, r)] else []) @ (if c \<noteq> [] then [(ContentChunk, c)] else [])))))"

definition isStreamDoneMessage :: "jstring \<Rightarrow> bool" where
  "isStreamDoneMessage data \<longleftrightarrow> data = STREAM_DONE_MESSAGE"

definition isStreamClosedReadyState :: "int option \<Rightarrow> bool" where
  "isStreamClosedReadyState readyState \<longleftrightarrow> readyState = Some STREAM_CLOSED_READY_STATE"

definition getStreamReadyStateError :: "int option \<Rightarrow> int option \<Rightarrow> jstring option" where
  "getStreamReadyStateError eventReadyState stat =
     (case (eventReadyState, stat) of
        (Some rs, Some st) \<Rightarrow>
          if rs \<ge> STREAM_CLOSED_READY_STATE \<and> st \<noteq> 200
          then Some (js ''HTTP '' @ int_str st @ js '': '' @ CONNECTION_CLOSED) else None
      | _ \<Rightarrow> None)"

definition parseRequestErrorDetails :: "jsval \<Rightarrow> ErrorDetails" where
  "parseRequestErrorDetails err =
     (let data = js_prop (js_prop err (js ''response'')) (js ''data'') in
      \<lparr>ed_errorCode = nonempty_str (str_field (js_prop data (js ''error'')) (js ''code'')),
       ed_errorMessage = str_or (str_field data (js ''message'')) (str_or (str_field err (js ''message'')) API_REQUEST_ERROR)\<rparr>)"

section \<open>The chat handler and the stream connection\<close>

record ChatState =
  messages :: "Message list"
  pendingContent :: jstring
  pendingReasoning :: jstring
    \<comment> \<open>\<open>pendingStreamChunksRef\<close>\<close>
  streamFlushTimer :: bool
  isRequesting :: bool
  requestId :: nat
  abortController :: "nat option"
    \<comment> \<open>the controller of the request with that number\<close>
  aborted :: "nat list"
  inFlight :: "nat list"
    \<comment> \<open>the non-streaming requests whose promise has not settled\<close>
  sseSource :: "nat option"
  nextSource :: nat
  closedSources :: "nat list"
  isStreamComplete :: bool
  isStreaming :: bool
  editingMessageKey :: "jstring option"
  sentPayloads :: "ChatCompletionRequest list"
    \<comment> \<open>what was sent to the server, the latest first\<close>

definition initial_chat :: "Message list \<Rightarrow> ChatState" where
  "initial_chat ms =
     \<lparr>messages = ms, pendingContent = [], pendingReasoning = [], streamFlushTimer = False, isRequesting = False,
      requestId = 0, abortController = None, aborted = [], inFlight = [], sseSource = None, nextSource = 0,
      closedSources = [], isStreamComplete = False, isStreaming = False, editingMessageKey = None, sentPayloads = []\<rparr>"

definition isGenerating :: "ChatState \<Rightarrow> bool" where
  "isGenerating s \<longleftrightarrow> isStreaming s \<or> isRequesting s"

definition mergePendingStreamChunk :: "jstring \<Rightarrow> jstring \<Rightarrow> jstring" where
  "mergePendingStreamChunk currentChunk nextChunk =
     (if currentChunk = [] \<or> \<not> startsWith nextChunk currentChunk then currentChunk @ nextChunk else nextChunk)"

definition flush_message :: "clock \<Rightarrow> jstring \<Rightarrow> jstring \<Rightarrow> Message \<Rightarrow> Message" where
  \<comment> \<open>the updater of \<open>flushStreamUpdates\<close>\<close>
  "flush_message now r c message =
     (let m1 = (if r \<noteq> [] then applyStreamingChunk now message ReasoningChunk r else message) in
      if c \<noteq> [] then applyStreamingChunk (\<lambda>i. now (2 + i)) m1 ContentChunk c else m1)"

definition flushStreamUpdates :: "clock \<Rightarrow> ChatState \<Rightarrow> ChatState" where
  "flushStreamUpdates now s0 =
     (let s = s0\<lparr>streamFlushTimer := False\<rparr> in
      if pendingReasoning s = [] \<and> pendingContent s = [] then s
      else
        s\<lparr>pendingContent := [], pendingReasoning := [],
          messages := updateLastAssistantMessage (messages s)
            (flush_message now (pendingReasoning s) (pendingContent s))\<rparr>)"

definition KNOWN_ERROR_MESSAGES :: "jstring list" where
  "KNOWN_ERROR_MESSAGES =
     [API_REQUEST_ERROR, NETWORK_ERROR, PARSE_ERROR, STREAM_START_ERROR, CONNECTION_CLOSED, INTERRUPTED]"

definition getDisplayError :: "(jstring \<Rightarrow> jstring) \<Rightarrow> jstring \<Rightarrow> jstring" where
  "getDisplayError tr err =
     (if err \<in> set KNOWN_ERROR_MESSAGES then tr err
      else if endsWith err (js '': '' @ CONNECTION_CLOSED)
      then take (length err - length CONNECTION_CLOSED) err @ tr CONNECTION_CLOSED
      else err)"

fun handleStreamUpdate :: "StreamChunkType \<Rightarrow> jstring \<Rightarrow> ChatState \<Rightarrow> ChatState" where
  "handleStreamUpdate ReasoningChunk chunk s =
     s\<lparr>pendingReasoning := mergePendingStreamChunk (pendingReasoning s) chunk, streamFlushTimer := True\<rparr>"
| "handleStreamUpdate ContentChunk chunk s =
     s\<lparr>pendingContent := mergePendingStreamChunk (pendingContent s) chunk, streamFlushTimer := True\<rparr>"

definition handleStreamComplete :: "clock \<Rightarrow> ChatState \<Rightarrow> ChatState" where
  "handleStreamComplete now s0 =
     (let s = flushStreamUpdates now s0 in
      s\<lparr>isRequesting := False,
        messages := updateLastAssistantMessage (messages s)
          (\<lambda>message. if isAssistantMessageFinal message then message
             else completeAssistantMessage (\<lambda>i. now (4 + i)) message)\<rparr>)"

definition handleStreamError ::
  "(jstring \<Rightarrow> jstring) \<Rightarrow> clock \<Rightarrow> jstring \<Rightarrow> jstring option \<Rightarrow> ChatState \<Rightarrow> ChatState" where
  "handleStreamError tr now err code s0 =
     (let s = flushStreamUpdates now s0 in
      s\<lparr>isRequesting := False,
        messages := updateAssistantMessageWithError (now 4) (messages s) (getDisplayError tr err) code
          (tr API_REQUEST_ERROR)\<rparr>)"

definition close_source :: "nat \<Rightarrow> ChatState \<Rightarrow> ChatState" where
  \<comment> \<open>\<open>source.close()\<close>\<close>
  "close_source source s = s\<lparr>closedSources := source # closedSources s\<rparr>"

definition closeActiveStream :: "nat option \<Rightarrow> ChatState \<Rightarrow> ChatState" where
  "closeActiveStream source s0 =
     (let streamSource = (case source of Some x \<Rightarrow> Some x | None \<Rightarrow> sseSource s0);
          s = (case streamSource of Some x \<Rightarrow> close_source x s0 | None \<Rightarrow> s0) in
      if source = None \<or> sseSource s = source then s\<lparr>sseSource := None, isStreaming := False\<rparr> else s)"

definition handleError ::
  "(jstring \<Rightarrow> jstring) \<Rightarrow> clock \<Rightarrow> nat \<Rightarrow> jstring \<Rightarrow> jstring option \<Rightarrow> ChatState \<Rightarrow> ChatState" where
  "handleError tr now source err code s =
     (if \<not> isStreamComplete s then closeActiveStream (Some source) (handleStreamError tr now err code s) else s)"

definition on_sse_message :: "(jstring \<Rightarrow> jstring) \<Rightarrow> clock \<Rightarrow> nat \<Rightarrow> jstring \<Rightarrow> ChatState \<Rightarrow> ChatState" where
  "on_sse_message tr now source data s =
     (if isStreamDoneMessage data
      then handleStreamComplete now (closeActiveStream (Some source) (s\<lparr>isStreamComplete := True\<rparr>))
      else
        (case parseStreamMessageUpdates data of
           None \<Rightarrow> handleError tr now source PARSE_ERROR None s
         | Some updates \<Rightarrow> fold (\<lambda>(t, chunk). handleStreamUpdate t chunk) updates s))"

definition on_sse_error ::
  "(jstring \<Rightarrow> jstring) \<Rightarrow> clock \<Rightarrow> nat \<Rightarrow> int option \<Rightarrow> jstring option \<Rightarrow> ChatState \<Rightarrow> ChatState" where
  "on_sse_error tr now source readyState data s =
     (if isStreamClosedReadyState readyState then s
      else (let d = parseStreamErrorDetails data in handleError tr now source (ed_errorMessage d) (ed_errorCode d) s))"

definition on_sse_readystatechange ::
  "(jstring \<Rightarrow> jstring) \<Rightarrow> clock \<Rightarrow> nat \<Rightarrow> int option \<Rightarrow> int option \<Rightarrow> ChatState \<Rightarrow> ChatState" where
  "on_sse_readystatechange tr now source readyState stat s =
     (case getStreamReadyStateError readyState stat of
        Some err \<Rightarrow> handleError tr now source err None s
      | None \<Rightarrow> s)"

definition sendStreamRequest ::
  "(jstring \<Rightarrow> jstring) \<Rightarrow> clock \<Rightarrow> bool \<Rightarrow> ChatCompletionRequest \<Rightarrow> ChatState \<Rightarrow> ChatState" where
  \<comment> \<open>\<open>starts\<close> says whether \<open>source.stream()\<close> returns; it throws otherwise\<close>
  "sendStreamRequest tr now starts payload s0 =
     (let s1 = (case sseSource s0 of Some old \<Rightarrow> close_source old s0 | None \<Rightarrow> s0);
          source = nextSource s1;
          s2 = s1\<lparr>nextSource := source + 1, sseSource := Some source, isStreamComplete := False, isStreaming := True,
                 sentPayloads := payload # sentPayloads s1\<rparr> in
      if starts then s2
      else closeActiveStream (Some source) (handleStreamError tr now STREAM_START_ERROR None s2))"

definition stopStream :: "ChatState \<Rightarrow> ChatState" where
  "stopStream = closeActiveStream None"

definition sendStreamingChat ::
  "(jstring \<Rightarrow> jstring) \<Rightarrow> clock \<Rightarrow> PlaygroundConfig \<Rightarrow> ParameterEnabled \<Rightarrow> bool \<Rightarrow> Message list \<Rightarrow> ChatState \<Rightarrow> ChatState" where
  "sendStreamingChat tr now config enabled starts ms s =
     sendStreamRequest tr now starts (buildChatCompletionPayload ms config enabled) (s\<lparr>isRequesting := True\<rparr>)"

definition sendNonStreamingChat ::
  "PlaygroundConfig \<Rightarrow> ParameterEnabled \<Rightarrow> Message list \<Rightarrow> ChatState \<Rightarrow> ChatState" where
  \<comment> \<open>up to the \<open>await\<close>; what follows it is \<open>settle_request\<close>\<close>
  "sendNonStreamingChat config enabled ms s =
     (let payload = buildChatCompletionPayload ms config enabled; req = requestId s + 1 in
      s\<lparr>requestId := req, abortController := Some req, isRequesting := True, inFlight := req # inFlight s,
        sentPayloads := payload # sentPayloads s\<rparr>)"

datatype Settled = Responded "ChatCompletionChoice list" | Rejected jsval

definition settle_request ::
  "(jstring \<Rightarrow> jstring) \<Rightarrow> clock \<Rightarrow> nat \<Rightarrow> Settled \<Rightarrow> ChatState \<Rightarrow> ChatState" where
  \<comment> \<open>the \<open>try\<close> after the \<open>await\<close>, the \<open>catch\<close> and the \<open>finally\<close> of \<open>sendNonStreamingChat\<close>\<close>
  "settle_request tr now req outcome s0 =
     (let s = s0\<lparr>inFlight := removeAll req (inFlight s0)\<rparr>;
          s1 =
            (if req \<in> set (aborted s) then s
             else
               (case outcome of
                  Responded response \<Rightarrow>
                    if \<not> hasChatCompletionChoice response then handleStreamError tr now API_REQUEST_ERROR None s
                    else
                      s\<lparr>messages := updateLastAssistantMessage (messages s)
                          (\<lambda>message. case applyChatCompletionResponse now message response of
                             Some updated \<Rightarrow> updated | None \<Rightarrow> message)\<rparr>
                | Rejected err \<Rightarrow>
                    (let d = parseRequestErrorDetails err in
                     handleStreamError tr now (ed_errorMessage d) (ed_errorCode d) s))) in
      if requestId s1 = req then s1\<lparr>abortController := None, isRequesting := False\<rparr> else s1)"

definition sendChat ::
  "(jstring \<Rightarrow> jstring) \<Rightarrow> clock \<Rightarrow> PlaygroundConfig \<Rightarrow> ParameterEnabled \<Rightarrow> bool \<Rightarrow> Message list \<Rightarrow> ChatState \<Rightarrow> ChatState" where
  "sendChat tr now config enabled starts ms s =
     (if cfg_stream config then sendStreamingChat tr now config enabled starts ms s
      else sendNonStreamingChat config enabled ms s)"

definition stopGeneration :: "clock \<Rightarrow> ChatState \<Rightarrow> ChatState" where
  "stopGeneration now s0 =
     (let s1 = flushStreamUpdates now (stopStream s0);
          s2 = (case abortController s1 of Some req \<Rightarrow> s1\<lparr>aborted := req # aborted s1\<rparr> | None \<Rightarrow> s1) in
      s2\<lparr>abortController := None, isRequesting := False,
         messages := updateLastAssistantMessage (messages s2)
           (\<lambda>message. if isAssistantMessagePending message
              then completeAssistantMessage (\<lambda>i. now (4 + i)) message else message)\<rparr>)"

end
