(* ===== verification/Machines.thy ===== *)
theory Machines
  imports Main
begin

text \<open>
  Guarded machines: the states an event-driven component can reach from a start state by the events its guards
  allow, each met in an environment of its own, and the proof rule the components use on them:
  an invariant kept by every allowed event holds of every reachable state.
\<close>

inductive reaches :: "('e \<Rightarrow> 's \<Rightarrow> bool) \<Rightarrow> ('env \<Rightarrow> 'e \<Rightarrow> 's \<Rightarrow> 's) \<Rightarrow> 's \<Rightarrow> 's \<Rightarrow> bool"
  for allowed step s0 where
  start: "reaches allowed step s0 s0"
| event: "reaches allowed step s0 s \<Longrightarrow> allowed e s \<Longrightarrow> reaches allowed step s0 (step env e s)"

lemma reaches_trans:
  assumes "reaches allowed step s0 s" and "reaches allowed step s t"
  shows "reaches allowed step s0 t"
  using assms(2,1) by induction (auto intro: reaches.event)

locale machine_invariant =
  fixes allowed :: "'e \<Rightarrow> 's \<Rightarrow> bool"
    and step :: "'env \<Rightarrow> 'e \<Rightarrow> 's \<Rightarrow> 's"
    and inv :: "'s \<Rightarrow> bool"
  assumes inv_step: "inv s \<Longrightarrow> allowed e s \<Longrightarrow> inv (step env e s)"
begin

lemma inv_reaches: "reaches allowed step s0 s \<Longrightarrow> inv s0 \<Longrightarrow> inv s"
  by (induction rule: reaches.induct) (auto intro: inv_step)

end

end
