(* ===== verification/Playground_Conversation.thy ===== *)
theory Playground_Conversation
  imports Playground_Chat Machines
begin

text \<open>
  The playground page as a machine: the user's actions (\<open>hooks/use-playground-conversation.ts\<close>),
  which of them the page offers while an answer is being generated
  (\<open>components/input\<close>, \<open>components/message\<close>, \<open>hooks/use-message-action-guard.ts\<close>), and the events of
  the connection. Every interleaving of them is a run, and the theorems are about all runs.
\<close>

section \<open>Input and option helpers\<close>

definition getSubmittableInputText :: "jstring option \<Rightarrow> bool \<Rightarrow> jstring option" where
  "getSubmittableInputText txt disabled =
     (if disabled \<or> trim (opt_str txt) = [] then None else txt)"

record InputControlState =
  ic_canSubmit :: bool
  ic_isSelectorDisabled :: bool
  ic_shouldShowStop :: bool

definition getInputControlState ::
  "bool \<Rightarrow> jstring list \<Rightarrow> bool \<Rightarrow> bool \<Rightarrow> bool \<Rightarrow> jstring list \<Rightarrow> jstring \<Rightarrow> InputControlState" where
  "getInputControlState disabled groups hasStopHandler generating isModelLoading models txt =
     (let hasModels = length models > 0 in
      \<lparr>ic_canSubmit = (\<not> disabled \<and> hasModels \<and> length (trim txt) > 0),
       ic_isSelectorDisabled = (disabled \<or> isModelLoading \<or> length groups = 0),
       ic_shouldShowStop = (generating \<and> hasStopHandler)\<rparr>)"

definition getModelFallback :: "jstring list \<Rightarrow> jstring \<Rightarrow> jstring option" where
  \<comment> \<open>a model option is its \<open>value\<close>\<close>
  "getModelFallback models currentModel =
     (let hasCurrentModel = list_ex (\<lambda>model. model = currentModel) models in
      if hasCurrentModel \<or> length models = 0 then None else Some (models ! 0))"

definition shouldClearModelForGroup :: "jstring list \<Rightarrow> jstring \<Rightarrow> bool" where
  "shouldClearModelForGroup models currentModel =
     (if currentModel = [] then False else \<not> list_ex (\<lambda>model. model = currentModel) models)"

definition getGroupFallback :: "jstring list \<Rightarrow> jstring \<Rightarrow> jstring option" where
  "getGroupFallback groups currentGroup =
     (let hasCurrentGroup = list_ex (\<lambda>group. group = currentGroup) groups in
      if hasCurrentGroup \<or> length groups = 0 then None
      else Some (case find (\<lambda>group. group = js ''default'') groups of Some g \<Rightarrow> g | None \<Rightarrow> groups ! 0))"

section \<open>The user's actions\<close>

record ChatEnv =
  \<comment> \<open>what an action or event meets outside the page's state\<close>
  env_tr :: "jstring \<Rightarrow> jstring"
  env_now :: clock
  env_ids :: id_source
  env_config :: PlaygroundConfig
  env_enabled :: ParameterEnabled
  env_starts :: bool
    \<comment> \<open>whether \<open>source.stream()\<close> returns\<close>

definition send_in :: "ChatEnv \<Rightarrow> Message list \<Rightarrow> ChatState \<Rightarrow> ChatState" where
  \<comment> \<open>\<open>updateMessages(ms); sendChat(ms)\<close>\<close>
  "send_in env ms s =
     sendChat (env_tr env) (\<lambda>i. env_now env (1 + i)) (env_config env) (env_enabled env) (env_starts env) ms
       (s\<lparr>messages := ms\<rparr>)"

definition handleSendMessage :: "ChatEnv \<Rightarrow> jstring \<Rightarrow> ChatState \<Rightarrow> ChatState" where
  "handleSendMessage env txt s =
     send_in env (appendUserMessagePair (env_ids env) (env_now env 0) (messages s) txt) s"

definition handleRegenerateMessage :: "ChatEnv \<Rightarrow> jstring \<Rightarrow> ChatState \<Rightarrow> ChatState" where
  "handleRegenerateMessage env key s =
     (case createRegeneratedMessages (env_ids env) (env_now env 0) (messages s) key of
        None \<Rightarrow> s
      | Some nextMessages \<Rightarrow> send_in env nextMessages s)"

definition applyEdit :: "ChatEnv \<Rightarrow> jstring \<Rightarrow> bool \<Rightarrow> ChatState \<Rightarrow> ChatState" where
  "applyEdit env newContent shouldSubmit s =
     (if opt_str (editingMessageKey s) = [] then s
      else
        (case applyMessageEdit (env_ids env) (env_now env 0) (messages s) (opt_str (editingMessageKey s)) newContent
                shouldSubmit of
           None \<Rightarrow> s
         | Some (ms, shouldSend) \<Rightarrow>
             (let s1 = s\<lparr>editingMessageKey := None\<rparr> in
              if shouldSend then send_in env ms s1 else s1\<lparr>messages := ms\<rparr>)))"

definition handleDeleteMessage :: "jstring \<Rightarrow> ChatState \<Rightarrow> ChatState" where
  "handleDeleteMessage key s = s\<lparr>messages := removeMessageByKey (messages s) key\<rparr>"

definition handleClearMessages :: "ChatState \<Rightarrow> ChatState" where
  "handleClearMessages s = s\<lparr>editingMessageKey := None, messages := []\<rparr>"

datatype ChatEvent =
    SendMessage jstring
  | RegenerateMessage jstring
  | EditMessage jstring
  | EditClosed
  | SaveEdit jstring bool
  | DeleteMessage jstring
  | ClearMessages
  | StopClicked
  | SseMessage nat jstring
  | SseError nat "int option" "jstring option"
  | SseReadyState nat "int option" "int option"
  | FlushTimer
  | RequestSettled nat Settled

fun chat_step :: "ChatEnv \<Rightarrow> ChatEvent \<Rightarrow> ChatState \<Rightarrow> ChatState" where
  "chat_step env (SendMessage txt) s = handleSendMessage env txt s"
| "chat_step env (RegenerateMessage key) s = handleRegenerateMessage env key s"
| "chat_step env (EditMessage key) s = s\<lparr>editingMessageKey := Some key\<rparr>"
| "chat_step env EditClosed s = s\<lparr>editingMessageKey := None\<rparr>"
| "chat_step env (SaveEdit newContent shouldSubmit) s = applyEdit env newContent shouldSubmit s"
| "chat_step env (DeleteMessage key) s = handleDeleteMessage key s"
| "chat_step env ClearMessages s = handleClearMessages s"
| "chat_step env StopClicked s = stopGeneration (env_now env) s"
| "chat_step env (SseMessage source data) s = on_sse_message (env_tr env) (env_now env) source data s"
| "chat_step env (SseError source readyState data) s =
     on_sse_error (env_tr env) (env_now env) source readyState data s"
| "chat_step env (SseReadyState source readyState stat) s =
     on_sse_readystatechange (env_tr env) (env_now env) source readyState stat s"
| "chat_step env FlushTimer s = flushStreamUpdates (env_now env) s"
| "chat_step env (RequestSettled req outcome) s = settle_request (env_tr env) (env_now env) req outcome s"

text \<open>
  What the page offers: the input box submits only what \<open>getSubmittableInputText\<close> lets through, the
  actions of a message and the clearing of the conversation are disabled while an answer is being generated,
  the stop button is there only then. The editor of a message is not among them: it saves whenever the text
  has changed. A source delivers messages until it is closed; its error and state events are
  allowed afterwards too.
\<close>

fun chat_allowed :: "ChatEvent \<Rightarrow> ChatState \<Rightarrow> bool" where
  "chat_allowed (SendMessage txt) s \<longleftrightarrow> getSubmittableInputText (Some txt) (isGenerating s) = Some txt"
| "chat_allowed (SaveEdit newContent shouldSubmit) s \<longleftrightarrow>
     trim newContent \<noteq> [] \<and> newContent \<noteq> getEditingMessageContent (messages s) (editingMessageKey s)"
| "chat_allowed EditClosed s \<longleftrightarrow> True"
| "chat_allowed StopClicked s \<longleftrightarrow> isGenerating s"
| "chat_allowed (SseMessage source data) s \<longleftrightarrow> source < nextSource s \<and> source \<notin> set (closedSources s)"
| "chat_allowed (SseError source readyState data) s \<longleftrightarrow> source < nextSource s"
| "chat_allowed (SseReadyState source readyState stat) s \<longleftrightarrow> source < nextSource s"
| "chat_allowed FlushTimer s \<longleftrightarrow> streamFlushTimer s"
| "chat_allowed (RequestSettled req outcome) s \<longleftrightarrow> req \<in> set (inFlight s)"
| "chat_allowed e s \<longleftrightarrow> \<not> isGenerating s"

definition chat_run :: "Message list \<Rightarrow> ChatState \<Rightarrow> bool" where
  \<comment> \<open>the states the page can be in after it was opened with the messages \<open>loaded\<close>\<close>
  "chat_run loaded s \<longleftrightarrow> reaches chat_allowed chat_step (initial_chat loaded) s"

end
