(* ===== verification/Playground_Runs.thy ===== *)
theory Playground_Runs
  imports Playground_Conversation
begin

text \<open>
  What holds in every run of the playground page: which messages can be pending and when, that buffered text
  belongs to an open stream, and that a stopped page is idle. Then what an event of the connection may
  change, what a request sends, and the runs in which an answer ends up in the wrong message.
\<close>

section \<open>Message lists\<close>

definition settled :: "Message list \<Rightarrow> bool" where
  "settled ms \<longleftrightarrow> (\<forall>m \<in> set ms. \<not> isPendingAssistantMessage m)"

lemma settled_simps [simp]:
  "settled []"
  "settled (m # ms) \<longleftrightarrow> \<not> isPendingAssistantMessage m \<and> settled ms"
  "settled (ms @ ms') \<longleftrightarrow> settled ms \<and> settled ms'"
  by (auto simp: settled_def)

lemma settled_subset: "settled ms \<Longrightarrow> set ms' \<subseteq> set ms \<Longrightarrow> settled ms'"
  by (auto simp: settled_def)

lemma settled_butlast: "settled ms \<Longrightarrow> settled (butlast ms)"
  by (auto simp: settled_def dest: in_set_butlastD)

lemma settled_take: "settled (butlast ms) \<Longrightarrow> n < length ms \<Longrightarrow> settled (take n ms)"
  by (cases ms rule: rev_cases) (auto simp: settled_def dest: in_set_takeD)

lemma settled_take_all: "settled ms \<Longrightarrow> settled (take n ms)"
  by (auto simp: settled_def dest: in_set_takeD)

lemma settled_map:
  assumes "\<And>m. isPendingAssistantMessage (f m) = isPendingAssistantMessage m"
  shows "settled (map f ms) = settled ms"
  by (auto simp: settled_def assms)

lemma length_updateLast [simp]: "length (updateLastAssistantMessage ms f) = length ms"
  by (cases ms rule: rev_cases) (auto simp: updateLastAssistantMessage_def)

lemma butlast_updateLast [simp]: "butlast (updateLastAssistantMessage ms f) = butlast ms"
  by (auto simp: updateLastAssistantMessage_def)

lemma updateLast_Nil [simp]: "updateLastAssistantMessage [] f = []"
  by (simp add: updateLastAssistantMessage_def)

lemma updateLast_snoc [simp]:
  "updateLastAssistantMessage (ms @ [m]) f = ms @ [if msg_from m = AssistantMsg then f m else m]"
  by (simp add: updateLastAssistantMessage_def)

lemma settled_updateLast:
  assumes "settled (butlast ms)"
    and "\<And>m. msg_from m = AssistantMsg \<Longrightarrow> \<not> isAssistantMessagePending (f m)"
  shows "settled (updateLastAssistantMessage ms f)"
  using assms by (cases ms rule: rev_cases) (auto simp: isPendingAssistantMessage_def)

lemma settled_updateLast_keep:
  assumes "settled ms"
    and "\<And>m. msg_from m = AssistantMsg \<Longrightarrow> \<not> isAssistantMessagePending m \<Longrightarrow> \<not> isAssistantMessagePending (f m)"
  shows "settled (updateLastAssistantMessage ms f)"
  using assms by (cases ms rule: rev_cases) (auto simp: isPendingAssistantMessage_def)

lemma pending_final [simp]:
  "status m = Some CompleteStatus \<Longrightarrow> \<not> isAssistantMessagePending m"
  "status m = Some ErrorStatus \<Longrightarrow> \<not> isAssistantMessagePending m"
  by (simp_all add: isAssistantMessagePending_def)

lemma final_not_pending: "isAssistantMessageFinal m \<Longrightarrow> \<not> isAssistantMessagePending m"
  by (auto simp: isAssistantMessageFinal_def)

lemma status_completeAssistantMessage [simp]: "status (completeAssistantMessage now m) = Some CompleteStatus"
  by (simp add: completeAssistantMessage_def completeAssistantTiming_def Let_def)

lemma status_error_message [simp]: "status (error_message t e c h m) = Some ErrorStatus"
  by (simp add: error_message_def completeAssistantTiming_def Let_def)

lemma status_applyChatCompletionChoice [simp]:
  "status (applyChatCompletionChoice now m choice) = Some CompleteStatus"
  by (simp add: applyChatCompletionChoice_def completeAssistantTiming_def Let_def)

lemma edited_message_keeps [simp]:
  "isPendingAssistantMessage (edited_message t k c b m) = isPendingAssistantMessage m"
  "msg_from (edited_message t k c b m) = msg_from m"
  "msg_key (edited_message t k c b m) = msg_key m"
  "status (edited_message t k c b m) = status m"
  by (auto simp: edited_message_def isPendingAssistantMessage_def isAssistantMessagePending_def
      updateCurrentVersionContent_def Let_def)

lemma user_not_pending [simp]: "msg_from m = UserMsg \<Longrightarrow> \<not> isPendingAssistantMessage m"
  by (simp add: isPendingAssistantMessage_def)

lemma msg_from_created [simp]:
  "msg_from (createUserMessage ids c t) = UserMsg"
  "msg_from (createLoadingAssistantMessage ids t) = AssistantMsg"
  by (simp_all add: createUserMessage_def createLoadingAssistantMessage_def)

section \<open>The invariant\<close>

definition answering :: "ChatState \<Rightarrow> bool" where
  \<comment> \<open>there is an answer to write: the last message is the assistant's\<close>
  "answering s \<longleftrightarrow> messages s \<noteq> [] \<and> msg_from (last (messages s)) = AssistantMsg"

definition conversation_ok :: "ChatState \<Rightarrow> bool" where
  "conversation_ok s \<longleftrightarrow>
     settled (butlast (messages s)) \<and> (\<not> isGenerating s \<longrightarrow> settled (messages s)) \<and> (isGenerating s \<longrightarrow> answering s)"

definition buffer_ok :: "ChatState \<Rightarrow> bool" where
  "buffer_ok s \<longleftrightarrow>
     (streamFlushTimer s \<longleftrightarrow> pendingContent s \<noteq> [] \<or> pendingReasoning s \<noteq> []) \<and> (streamFlushTimer s \<longrightarrow> isStreaming s)"

definition connection_ok :: "ChatState \<Rightarrow> bool" where
  "connection_ok s \<longleftrightarrow>
     (isStreaming s \<longleftrightarrow> sseSource s \<noteq> None) \<and>
     (\<forall>x. sseSource s = Some x \<longleftrightarrow> x < nextSource s \<and> x \<notin> set (closedSources s)) \<and>
     (\<forall>x \<in> set (closedSources s). x < nextSource s)"

definition request_ok :: "ChatState \<Rightarrow> bool" where
  "request_ok s \<longleftrightarrow>
     (\<forall>r \<in> set (aborted s). r \<le> requestId s) \<and> (\<forall>r. abortController s = Some r \<longrightarrow> r \<le> requestId s) \<and>
     (requestId s \<in> set (aborted s) \<longrightarrow> isRequesting s \<longrightarrow> isStreaming s)"

definition chat_ok :: "ChatState \<Rightarrow> bool" where
  "chat_ok s \<longleftrightarrow> conversation_ok s \<and> buffer_ok s \<and> connection_ok s \<and> request_ok s"

lemma updateLast_eq_Nil [simp]: "updateLastAssistantMessage ms f = [] \<longleftrightarrow> ms = []"
  by (simp add: updateLastAssistantMessage_def)

lemma last_updateLast:
  "ms \<noteq> [] \<Longrightarrow> last (updateLastAssistantMessage ms f) =
     (if msg_from (last ms) = AssistantMsg then f (last ms) else last ms)"
  by (simp add: updateLastAssistantMessage_def)


lemma msg_from_updates [simp]:
  "msg_from (applyStreamingChunk now m t c) = msg_from m"
  "msg_from (completeAssistantMessage now m) = msg_from m"
  "msg_from (error_message e1 e2 e3 e4 m) = msg_from m"
  "msg_from (applyChatCompletionChoice now m choice) = msg_from m"
  subgoal by (cases t) (simp_all add: Let_def processStreamingContent_def completeReasoningTiming_def
        updateCurrentVersionContent_def split: option.splits)
  subgoal by (simp add: completeAssistantMessage_def completeAssistantTiming_def Let_def)
  subgoal by (simp add: error_message_def completeAssistantTiming_def Let_def updateCurrentVersionContent_def)
  subgoal by (simp add: applyChatCompletionChoice_def completeAssistantTiming_def Let_def updateCurrentVersionContent_def)
  done

declare applyStreamingChunk.simps [simp del]

lemma msg_from_flush_message [simp]: "msg_from (flush_message now r c m) = msg_from m"
  by (simp add: flush_message_def Let_def)

lemma from_last_updateLast:
  assumes "\<And>m. msg_from (f m) = msg_from m"
  shows "msg_from (last (updateLastAssistantMessage ms f)) = msg_from (last ms)"
  using assms by (cases ms rule: rev_cases) auto

subsection \<open>What the handlers do to each field\<close>

lemma flush_fields [simp]:
  "pendingContent (flushStreamUpdates now s) = []"
  "pendingReasoning (flushStreamUpdates now s) = []"
  "streamFlushTimer (flushStreamUpdates now s) = False"
  "isRequesting (flushStreamUpdates now s) = isRequesting s"
  "requestId (flushStreamUpdates now s) = requestId s"
  "abortController (flushStreamUpdates now s) = abortController s"
  "aborted (flushStreamUpdates now s) = aborted s"
  "inFlight (flushStreamUpdates now s) = inFlight s"
  "sseSource (flushStreamUpdates now s) = sseSource s"
  "nextSource (flushStreamUpdates now s) = nextSource s"
  "closedSources (flushStreamUpdates now s) = closedSources s"
  "isStreamComplete (flushStreamUpdates now s) = isStreamComplete s"
  "isStreaming (flushStreamUpdates now s) = isStreaming s"
  "sentPayloads (flushStreamUpdates now s) = sentPayloads s"
  "editingMessageKey (flushStreamUpdates now s) = editingMessageKey s"
  "butlast (messages (flushStreamUpdates now s)) = butlast (messages s)"
  "length (messages (flushStreamUpdates now s)) = length (messages s)"
  "answering (flushStreamUpdates now s) = answering s"
  by (simp_all add: flushStreamUpdates_def Let_def answering_def from_last_updateLast)

lemma flush_idle: "pendingContent s = [] \<Longrightarrow> pendingReasoning s = [] \<Longrightarrow> messages (flushStreamUpdates now s) = messages s"
  by (simp add: flushStreamUpdates_def)

lemma complete_fields [simp]:
  "pendingContent (handleStreamComplete now s) = []"
  "pendingReasoning (handleStreamComplete now s) = []"
  "streamFlushTimer (handleStreamComplete now s) = False"
  "isRequesting (handleStreamComplete now s) = False"
  "requestId (handleStreamComplete now s) = requestId s"
  "abortController (handleStreamComplete now s) = abortController s"
  "aborted (handleStreamComplete now s) = aborted s"
  "sseSource (handleStreamComplete now s) = sseSource s"
  "nextSource (handleStreamComplete now s) = nextSource s"
  "closedSources (handleStreamComplete now s) = closedSources s"
  "isStreaming (handleStreamComplete now s) = isStreaming s"
  "sentPayloads (handleStreamComplete now s) = sentPayloads s"
  "butlast (messages (handleStreamComplete now s)) = butlast (messages s)"
  "length (messages (handleStreamComplete now s)) = length (messages s)"
  by (simp_all add: handleStreamComplete_def Let_def)

lemma complete_answering [simp]: "answering (handleStreamComplete now s) = answering s"
proof -
  have "answering (handleStreamComplete now s) = answering (flushStreamUpdates now s)"
    unfolding handleStreamComplete_def Let_def answering_def by (simp add: from_last_updateLast)
  then show ?thesis by simp
qed

lemma complete_settled: "settled (butlast (messages s)) \<Longrightarrow> settled (messages (handleStreamComplete now s))"
  unfolding handleStreamComplete_def Let_def
  by simp (rule settled_updateLast, auto simp: final_not_pending)

lemma error_fields [simp]:
  "pendingContent (handleStreamError tr now e c s) = []"
  "pendingReasoning (handleStreamError tr now e c s) = []"
  "streamFlushTimer (handleStreamError tr now e c s) = False"
  "isRequesting (handleStreamError tr now e c s) = False"
  "requestId (handleStreamError tr now e c s) = requestId s"
  "abortController (handleStreamError tr now e c s) = abortController s"
  "aborted (handleStreamError tr now e c s) = aborted s"
  "sseSource (handleStreamError tr now e c s) = sseSource s"
  "nextSource (handleStreamError tr now e c s) = nextSource s"
  "closedSources (handleStreamError tr now e c s) = closedSources s"
  "isStreaming (handleStreamError tr now e c s) = isStreaming s"
  "sentPayloads (handleStreamError tr now e c s) = sentPayloads s"
  "butlast (messages (handleStreamError tr now e c s)) = butlast (messages s)"
  "length (messages (handleStreamError tr now e c s)) = length (messages s)"
  by (simp_all add: handleStreamError_def Let_def updateAssistantMessageWithError_def)

lemma error_answering [simp]: "answering (handleStreamError tr now e c s) = answering s"
proof -
  have "answering (handleStreamError tr now e c s) = answering (flushStreamUpdates now s)"
    unfolding handleStreamError_def Let_def answering_def by (simp add: from_last_updateLast updateAssistantMessageWithError_def)
  then show ?thesis by simp
qed

lemma error_settled: "settled (butlast (messages s)) \<Longrightarrow> settled (messages (handleStreamError tr now e c s))"
  unfolding handleStreamError_def Let_def updateAssistantMessageWithError_def
  by simp (rule settled_updateLast, auto)

lemma close_fields [simp]:
  "messages (closeActiveStream x s) = messages s"
  "pendingContent (closeActiveStream x s) = pendingContent s"
  "pendingReasoning (closeActiveStream x s) = pendingReasoning s"
  "streamFlushTimer (closeActiveStream x s) = streamFlushTimer s"
  "isRequesting (closeActiveStream x s) = isRequesting s"
  "requestId (closeActiveStream x s) = requestId s"
  "abortController (closeActiveStream x s) = abortController s"
  "aborted (closeActiveStream x s) = aborted s"
  "nextSource (closeActiveStream x s) = nextSource s"
  "sentPayloads (closeActiveStream x s) = sentPayloads s"
  "answering (closeActiveStream x s) = answering s"
  by (simp_all add: closeActiveStream_def close_source_def answering_def Let_def split: option.splits)

lemma close_streaming: "isStreaming (closeActiveStream x s) \<Longrightarrow> isStreaming s"
  by (auto simp: closeActiveStream_def close_source_def Let_def split: option.splits if_splits)

lemma close_current [simp]:
  "sseSource s = x \<Longrightarrow> isStreaming (closeActiveStream x s) = False"
  "isStreaming (closeActiveStream None s) = False"
  by (auto simp: closeActiveStream_def close_source_def Let_def split: option.splits if_splits)

lemma close_this:
  "sseSource s = Some z \<Longrightarrow> x = None \<or> x = Some z \<Longrightarrow>
     closeActiveStream x s = s\<lparr>closedSources := z # closedSources s, sseSource := None, isStreaming := False\<rparr>"
  by (auto simp: closeActiveStream_def close_source_def)

lemma close_other:
  "sseSource s \<noteq> Some z \<Longrightarrow> closeActiveStream (Some z) s = s\<lparr>closedSources := z # closedSources s\<rparr>"
  by (simp add: closeActiveStream_def close_source_def)

lemma close_none: "sseSource s = None \<Longrightarrow> closeActiveStream None s = s\<lparr>sseSource := None, isStreaming := False\<rparr>"
  by (simp add: closeActiveStream_def)

lemma connection_okD:
  assumes "connection_ok s"
  shows "isStreaming s \<longleftrightarrow> sseSource s \<noteq> None"
    and "sseSource s = Some x \<Longrightarrow> x < nextSource s \<and> x \<notin> set (closedSources s)"
    and "x < nextSource s \<Longrightarrow> x \<notin> set (closedSources s) \<Longrightarrow> sseSource s = Some x"
    and "x \<in> set (closedSources s) \<Longrightarrow> x < nextSource s"
  using assms by (auto simp: connection_ok_def)

lemma connection_okI:
  assumes "isStreaming s \<longleftrightarrow> sseSource s \<noteq> None"
    and "\<And>x. sseSource s = Some x \<Longrightarrow> x < nextSource s \<and> x \<notin> set (closedSources s)"
    and "\<And>x. x < nextSource s \<Longrightarrow> x \<notin> set (closedSources s) \<Longrightarrow> sseSource s = Some x"
    and "\<And>x. x \<in> set (closedSources s) \<Longrightarrow> x < nextSource s"
  shows "connection_ok s"
  unfolding connection_ok_def using assms by blast

lemma close_this_connection:
  assumes "connection_ok s" and "sseSource s = Some z"
  shows "connection_ok (s\<lparr>closedSources := z # closedSources s, sseSource := None, isStreaming := False\<rparr>)"
proof (rule connection_okI)
  fix x
  assume "x < nextSource (s\<lparr>closedSources := z # closedSources s, sseSource := None, isStreaming := False\<rparr>)"
    and "x \<notin> set (closedSources (s\<lparr>closedSources := z # closedSources s, sseSource := None, isStreaming := False\<rparr>))"
  then have "sseSource s = Some x" "x \<noteq> z"
    using connection_okD(3) [OF assms(1), of x] by simp_all
  with assms(2) show "sseSource (s\<lparr>closedSources := z # closedSources s, sseSource := None, isStreaming := False\<rparr>) = Some x"
    by simp
qed (use connection_okD(2) [OF assms] connection_okD(4) [OF assms(1)] in auto)

lemma close_other_connection:
  assumes "connection_ok s" and "sseSource s \<noteq> Some z" and "z < nextSource s"
  shows "connection_ok (s\<lparr>closedSources := z # closedSources s\<rparr>)"
proof -
  have "z \<in> set (closedSources s)"
    using assms connection_okD(3) by blast
  then have "set (z # closedSources s) = set (closedSources s)"
    by auto
  then show ?thesis
    using assms(1) by (simp add: connection_ok_def)
qed

lemma close_connection:
  assumes "connection_ok s" and "\<And>y. x = Some y \<Longrightarrow> y < nextSource s"
  shows "connection_ok (closeActiveStream x s)"
proof (cases x)
  case None
  show ?thesis
  proof (cases "sseSource s")
    case None': None
    have "connection_ok (s\<lparr>sseSource := None, isStreaming := False\<rparr>)"
      using assms(1) None' by (simp add: connection_ok_def)
    with None None' show ?thesis by (simp add: close_none)
  next
    case (Some z)
    with None show ?thesis
      using close_this_connection [OF assms(1) Some] by (simp add: close_this)
  qed
next
  case (Some z)
  show ?thesis
  proof (cases "sseSource s = Some z")
    case True
    with Some show ?thesis
      using close_this_connection [OF assms(1) True] by (simp add: close_this)
  next
    case False
    with Some show ?thesis
      using close_other_connection [OF assms(1) False assms(2)] by (simp add: close_other)
  qed
qed

lemma connection_ok_same:
  assumes "isStreaming t = isStreaming s" "sseSource t = sseSource s" "nextSource t = nextSource s"
    "closedSources t = closedSources s"
  shows "connection_ok t = connection_ok s"
  by (simp add: connection_ok_def assms)

lemma update_fields [simp]:
  "messages (handleStreamUpdate t chunk s) = messages s"
  "isRequesting (handleStreamUpdate t chunk s) = isRequesting s"
  "requestId (handleStreamUpdate t chunk s) = requestId s"
  "abortController (handleStreamUpdate t chunk s) = abortController s"
  "aborted (handleStreamUpdate t chunk s) = aborted s"
  "sseSource (handleStreamUpdate t chunk s) = sseSource s"
  "nextSource (handleStreamUpdate t chunk s) = nextSource s"
  "closedSources (handleStreamUpdate t chunk s) = closedSources s"
  "isStreaming (handleStreamUpdate t chunk s) = isStreaming s"
  "sentPayloads (handleStreamUpdate t chunk s) = sentPayloads s"
  by (cases t; simp)+

lemma connection_ok_keeps [simp]:
  "connection_ok (flushStreamUpdates now s) = connection_ok s"
  "connection_ok (handleStreamComplete now s) = connection_ok s"
  "connection_ok (handleStreamError tr now e c s) = connection_ok s"
  "connection_ok (handleStreamUpdate t chunk s) = connection_ok s"
  by (rule connection_ok_same; simp)+

lemma request_ok_keeps [simp]:
  "request_ok (flushStreamUpdates now s) = request_ok s"
  "request_ok (handleStreamUpdate t chunk s) = request_ok s"
  by (simp_all add: request_ok_def)

subsection \<open>Every event keeps the invariant\<close>

lemma chat_ok_quietI:
  assumes "settled (messages s)" "pendingContent s = []" "pendingReasoning s = []" "\<not> streamFlushTimer s"
    "connection_ok s" "request_ok s" "isGenerating s \<Longrightarrow> answering s"
  shows "chat_ok s"
  using assms by (simp add: chat_ok_def conversation_ok_def buffer_ok_def settled_butlast)

lemma chat_okD:
  assumes "chat_ok s"
  shows "settled (butlast (messages s))" "\<not> isGenerating s \<Longrightarrow> settled (messages s)" "isGenerating s \<Longrightarrow> answering s"
    "connection_ok s" "request_ok s" "buffer_ok s"
  using assms by (simp_all add: chat_ok_def conversation_ok_def)

lemma idle_buffer: "chat_ok s \<Longrightarrow> \<not> isStreaming s \<Longrightarrow> pendingContent s = [] \<and> pendingReasoning s = [] \<and> \<not> streamFlushTimer s"
  by (auto simp: chat_ok_def buffer_ok_def)

lemma ok_initial: "settled loaded \<Longrightarrow> chat_ok (initial_chat loaded)"
  by (rule chat_ok_quietI) (simp_all add: initial_chat_def connection_ok_def request_ok_def isGenerating_def)

lemma ok_flush:
  assumes "chat_ok s"
  shows "chat_ok (flushStreamUpdates now s)"
proof -
  have "settled (messages (flushStreamUpdates now s))" if "\<not> isGenerating s"
    using that assms idle_buffer [OF assms] by (simp add: flush_idle isGenerating_def chat_okD)
  with assms show ?thesis
    by (simp add: chat_ok_def conversation_ok_def buffer_ok_def isGenerating_def)
qed

lemma ok_handleStreamError:
  assumes "chat_ok s"
  shows "chat_ok (handleStreamError tr now e c s)"
proof (rule chat_ok_quietI)
  show "settled (messages (handleStreamError tr now e c s))"
    by (rule error_settled) (rule chat_okD(1) [OF assms])
  show "connection_ok (handleStreamError tr now e c s)" "request_ok (handleStreamError tr now e c s)"
    using assms by (simp_all add: chat_ok_def request_ok_def)
  show "isGenerating (handleStreamError tr now e c s) \<Longrightarrow> answering (handleStreamError tr now e c s)"
    using assms by (simp add: isGenerating_def chat_okD)
qed simp_all

lemma request_ok_close: "request_ok s \<Longrightarrow> \<not> isRequesting s \<Longrightarrow> request_ok (closeActiveStream x s)"
  by (simp add: request_ok_def)

lemma ok_close_quiet:
  assumes "chat_ok s" "settled (messages s)" "\<not> isRequesting s" "\<not> streamFlushTimer s"
    and "\<And>y. x = Some y \<Longrightarrow> y < nextSource s"
  shows "chat_ok (closeActiveStream x s)"
proof (rule chat_ok_quietI)
  show "connection_ok (closeActiveStream x s)"
    using assms by (intro close_connection) (auto dest: chat_okD)
  show "request_ok (closeActiveStream x s)"
    using assms by (intro request_ok_close) (auto dest: chat_okD)
  show "isGenerating (closeActiveStream x s) \<Longrightarrow> answering (closeActiveStream x s)"
    using assms by (auto simp: isGenerating_def dest!: close_streaming intro: chat_okD(3))
qed (use assms in \<open>auto dest!: chat_okD(6) simp: buffer_ok_def\<close>)

lemma ok_handleError:
  assumes "chat_ok s" and "x < nextSource s"
  shows "chat_ok (handleError tr now x e c s)"
  using assms
  by (auto simp: handleError_def intro!: ok_close_quiet ok_handleStreamError error_settled chat_okD(1))

lemma ok_on_sse_error: "chat_ok s \<Longrightarrow> x < nextSource s \<Longrightarrow> chat_ok (on_sse_error tr now x rs data s)"
  by (simp add: on_sse_error_def Let_def ok_handleError)

lemma ok_on_sse_readystatechange:
  "chat_ok s \<Longrightarrow> x < nextSource s \<Longrightarrow> chat_ok (on_sse_readystatechange tr now x rs st s)"
  by (simp add: on_sse_readystatechange_def ok_handleError split: option.split)

lemma merge_nonempty: "chunk \<noteq> [] \<Longrightarrow> mergePendingStreamChunk cur chunk \<noteq> []"
  by (simp add: mergePendingStreamChunk_def)

lemma ok_handleStreamUpdate:
  assumes "chat_ok s" "isStreaming s" "chunk \<noteq> []"
  shows "chat_ok (handleStreamUpdate t chunk s) \<and> isStreaming (handleStreamUpdate t chunk s)"
  using assms merge_nonempty [OF assms(3)]
  by (cases t) (auto simp: chat_ok_def conversation_ok_def buffer_ok_def isGenerating_def answering_def
      simp del: handleStreamUpdate.simps, simp_all)

lemma updates_nonempty:
  assumes "parseStreamMessageUpdates data = Some us" and "u \<in> set us"
  shows "snd u \<noteq> []"
  using assms by (auto simp: parseStreamMessageUpdates_def Let_def split: option.splits if_splits)

lemma ok_updates:
  assumes "chat_ok s" "isStreaming s" "\<And>u. u \<in> set us \<Longrightarrow> snd u \<noteq> []"
  shows "chat_ok (fold (\<lambda>(t, chunk). handleStreamUpdate t chunk) us s)"
  using assms
proof (induction us arbitrary: s)
  case (Cons u us)
  then show ?case
    using ok_handleStreamUpdate [of s "snd u" "fst u"] by (auto simp: case_prod_beta)
qed simp

lemma open_source:
  assumes "chat_ok s" "x < nextSource s" "x \<notin> set (closedSources s)"
  shows "sseSource s = Some x" "isStreaming s"
  using connection_okD(3) [OF chat_okD(4) [OF assms(1)] assms(2,3)] connection_okD(1) [OF chat_okD(4) [OF assms(1)]]
  by simp_all

lemma ok_done:
  assumes "chat_ok s" "x < nextSource s" "x \<notin> set (closedSources s)"
  shows "chat_ok (handleStreamComplete now (closeActiveStream (Some x) (s\<lparr>isStreamComplete := True\<rparr>)))"
    (is "chat_ok (handleStreamComplete now ?t)")
proof -
  have x: "sseSource (s\<lparr>isStreamComplete := True\<rparr>) = Some x"
    using open_source [OF assms] by simp
  have c: "connection_ok ?t"
    by (rule close_connection) (use assms in \<open>auto simp: chat_ok_def connection_ok_def\<close>)
  have ns: "\<not> isStreaming ?t"
    using x by simp
  show ?thesis
  proof (rule chat_ok_quietI)
    show "settled (messages (handleStreamComplete now ?t))"
      by (rule complete_settled) (use assms in \<open>simp add: chat_okD\<close>)
    show "connection_ok (handleStreamComplete now ?t)"
      using c by simp
    show "request_ok (handleStreamComplete now ?t)"
      using chat_okD(5) [OF assms(1)] by (simp add: request_ok_def)
    show "answering (handleStreamComplete now ?t)" if "isGenerating (handleStreamComplete now ?t)"
      using that ns by (simp add: isGenerating_def)
  qed simp_all
qed

lemma ok_on_sse_message:
  assumes "chat_ok s" "x < nextSource s" "x \<notin> set (closedSources s)"
  shows "chat_ok (on_sse_message tr now x data s)"
proof (cases "isStreamDoneMessage data")
  case True
  then show ?thesis
    using ok_done [OF assms] by (simp add: on_sse_message_def)
next
  case False
  then show ?thesis
    using ok_handleError [OF assms(1,2)] ok_updates [OF assms(1) open_source(2) [OF assms] updates_nonempty]
    by (auto simp: on_sse_message_def split: option.split)
qed

definition stop_message :: "clock \<Rightarrow> Message \<Rightarrow> Message" where
  "stop_message now message =
     (if isAssistantMessagePending message then completeAssistantMessage (\<lambda>i. now (4 + i)) message else message)"

lemma stopGeneration_fields [simp]:
  "pendingContent (stopGeneration now s) = []"
  "pendingReasoning (stopGeneration now s) = []"
  "streamFlushTimer (stopGeneration now s) = False"
  "isRequesting (stopGeneration now s) = False"
  "isStreaming (stopGeneration now s) = False"
  "abortController (stopGeneration now s) = None"
  "requestId (stopGeneration now s) = requestId s"
  "butlast (messages (stopGeneration now s)) = butlast (messages s)"
  "length (messages (stopGeneration now s)) = length (messages s)"
  by (simp_all add: stopGeneration_def stopStream_def Let_def split: option.split)

lemma stopGeneration_messages:
  "messages (stopGeneration now s) =
     updateLastAssistantMessage (messages (flushStreamUpdates now (stopStream s))) (stop_message now)"
  by (simp add: stopGeneration_def Let_def stop_message_def [abs_def] split: option.split)

lemma stop_settled: "settled (butlast (messages s)) \<Longrightarrow> settled (messages (stopGeneration now s))"
  unfolding stopGeneration_messages by (rule settled_updateLast) (simp_all add: stopStream_def stop_message_def)

lemma stop_connection: "connection_ok s \<Longrightarrow> connection_ok (stopGeneration now s)"
proof -
  assume s: "connection_ok s"
  have "connection_ok (closeActiveStream None s)"
    by (rule close_connection [OF s]) simp
  moreover have "connection_ok (stopGeneration now s) = connection_ok (flushStreamUpdates now (closeActiveStream None s))"
    by (rule connection_ok_same) (simp_all add: stopGeneration_def stopStream_def Let_def split: option.split)
  ultimately show ?thesis by simp
qed

lemma ok_stop:
  assumes "chat_ok s"
  shows "chat_ok (stopGeneration now s)"
proof (rule chat_ok_quietI)
  show "settled (messages (stopGeneration now s))"
    by (rule stop_settled) (rule chat_okD(1) [OF assms])
  show "connection_ok (stopGeneration now s)"
    by (rule stop_connection) (rule chat_okD(4) [OF assms])
  show "request_ok (stopGeneration now s)"
    using chat_okD(5) [OF assms]
    by (auto simp: request_ok_def stopGeneration_def stopStream_def Let_def split: option.split)
qed (simp_all add: isGenerating_def)

lemma chat_ok_same:
  assumes "messages t = messages s" "pendingContent t = pendingContent s" "pendingReasoning t = pendingReasoning s"
    "streamFlushTimer t = streamFlushTimer s" "isRequesting t = isRequesting s" "isStreaming t = isStreaming s"
    "requestId t = requestId s" "abortController t = abortController s" "aborted t = aborted s"
    "sseSource t = sseSource s" "nextSource t = nextSource s" "closedSources t = closedSources s"
  shows "chat_ok t = chat_ok s"
  by (simp add: chat_ok_def conversation_ok_def buffer_ok_def request_ok_def isGenerating_def answering_def assms
      connection_ok_same [OF assms(6,10-12)])

lemma ok_answered:
  assumes "chat_ok s" and "\<And>m. msg_from (f m) = msg_from m" and "\<And>m. \<not> isAssistantMessagePending (f m)"
  shows "chat_ok (s\<lparr>messages := updateLastAssistantMessage (messages s) f\<rparr>)"
    and "settled (updateLastAssistantMessage (messages s) f)"
proof -
  show st: "settled (updateLastAssistantMessage (messages s) f)"
    by (rule settled_updateLast) (simp_all add: chat_okD(1) [OF assms(1)] assms(3))
  have "connection_ok (s\<lparr>messages := updateLastAssistantMessage (messages s) f\<rparr>)"
    using chat_okD(4) [OF assms(1)] by (simp add: connection_ok_def)
  then show "chat_ok (s\<lparr>messages := updateLastAssistantMessage (messages s) f\<rparr>)"
    using assms(1) st
    by (auto simp: chat_ok_def conversation_ok_def buffer_ok_def request_ok_def isGenerating_def answering_def
        from_last_updateLast [OF assms(2)] settled_butlast)
qed

lemma ok_not_requesting:
  assumes "chat_ok s" and "isStreaming s \<or> settled (messages s)"
  shows "chat_ok (s\<lparr>abortController := None, isRequesting := False\<rparr>)"
proof -
  have "connection_ok (s\<lparr>abortController := None, isRequesting := False\<rparr>)"
    using chat_okD(4) [OF assms(1)] by (simp add: connection_ok_def)
  with assms show ?thesis
    by (auto simp: chat_ok_def conversation_ok_def buffer_ok_def request_ok_def isGenerating_def answering_def)
qed

definition answer_message :: "clock \<Rightarrow> ChatCompletionChoice list \<Rightarrow> Message \<Rightarrow> Message" where
  "answer_message now response message =
     (case applyChatCompletionResponse now message response of Some updated \<Rightarrow> updated | None \<Rightarrow> message)"

lemma answer_message_Cons [simp]: "answer_message now (choice # rest) m = applyChatCompletionChoice now m choice"
  by (simp add: answer_message_def applyChatCompletionResponse_def)

definition settle_core :: "(jstring \<Rightarrow> jstring) \<Rightarrow> clock \<Rightarrow> nat \<Rightarrow> Settled \<Rightarrow> ChatState \<Rightarrow> ChatState" where
  "settle_core tr now req outcome s =
     (if req \<in> set (aborted s) then s
      else
        (case outcome of
           Responded [] \<Rightarrow> handleStreamError tr now API_REQUEST_ERROR None s
         | Responded response \<Rightarrow>
             s\<lparr>messages := updateLastAssistantMessage (messages s) (answer_message now response)\<rparr>
         | Rejected err \<Rightarrow>
             handleStreamError tr now (ed_errorMessage (parseRequestErrorDetails err))
               (ed_errorCode (parseRequestErrorDetails err)) s))"

lemma settle_request_eq:
  "settle_request tr now req outcome s =
     (let s1 = settle_core tr now req outcome (s\<lparr>inFlight := removeAll req (inFlight s)\<rparr>) in
      if requestId s1 = req then s1\<lparr>abortController := None, isRequesting := False\<rparr> else s1)"
  by (simp add: settle_request_def settle_core_def hasChatCompletionChoice_def answer_message_def [abs_def] Let_def
      split: Settled.split list.split)

lemma ok_settle_core:
  assumes "chat_ok s"
  shows "chat_ok (settle_core tr now req outcome s)"
    and "req \<notin> set (aborted s) \<Longrightarrow> settled (messages (settle_core tr now req outcome s))"
proof -
  have answered: "chat_ok (s\<lparr>messages := updateLastAssistantMessage (messages s) (answer_message now (ch # chs))\<rparr>)"
    "settled (updateLastAssistantMessage (messages s) (answer_message now (ch # chs)))" for ch chs
    by (rule ok_answered [OF assms]; simp)+
  show "chat_ok (settle_core tr now req outcome s)"
    using assms answered by (auto simp: settle_core_def ok_handleStreamError split: Settled.split list.split)
  show "settled (messages (settle_core tr now req outcome s))" if "req \<notin> set (aborted s)"
    using that answered error_settled [OF chat_okD(1) [OF assms]]
    by (auto simp: settle_core_def split: Settled.split list.split)
qed

lemma ok_settle_request:
  assumes "chat_ok s"
  shows "chat_ok (settle_request tr now req outcome s)"
proof -
  let ?s = "s\<lparr>inFlight := removeAll req (inFlight s)\<rparr>"
  let ?t = "settle_core tr now req outcome ?s"
  have s: "chat_ok ?s"
    using assms chat_ok_same [of ?s s] by simp
  have t: "chat_ok ?t"
    by (rule ok_settle_core(1) [OF s])
  have "isStreaming ?t \<or> settled (messages ?t)" if "requestId ?t = req"
  proof (cases "req \<in> set (aborted s)")
    case True
    then have eq: "?t = ?s"
      by (simp add: settle_core_def)
    show ?thesis
    proof (cases "isRequesting s")
      case True': True
      then show ?thesis
        using True that eq chat_okD(5) [OF assms] by (simp add: request_ok_def)
    next
      case False
      then show ?thesis
        using eq chat_okD(2) [OF assms] by (auto simp: isGenerating_def)
    qed
  next
    case False
    then show ?thesis
      using ok_settle_core(2) [OF s] by simp
  qed
  with t show ?thesis
    by (auto simp: settle_request_eq Let_def intro: ok_not_requesting)
qed

lemma sendStreamRequest_connection:
  assumes "connection_ok s"
  shows "connection_ok (sendStreamRequest tr now True payload s)"
proof (rule connection_okI)
  fix x
  assume x: "x < nextSource (sendStreamRequest tr now True payload s)"
    "x \<notin> set (closedSources (sendStreamRequest tr now True payload s))"
  show "sseSource (sendStreamRequest tr now True payload s) = Some x"
  proof (cases "x = nextSource s")
    case True
    then show ?thesis
      by (simp add: sendStreamRequest_def close_source_def Let_def split: option.split)
  next
    case False
    with x have "x < nextSource s" "x \<notin> set (closedSources s)" "sseSource s \<noteq> Some x"
      by (auto simp: sendStreamRequest_def close_source_def Let_def split: option.splits)
    with connection_okD(3) [OF assms] show ?thesis by blast
  qed
qed (use connection_okD(2,4) [OF assms] in
  \<open>auto simp: sendStreamRequest_def close_source_def Let_def less_Suc_eq split: option.splits\<close>)

lemma sendStreamRequest_fields [simp]:
  "messages (sendStreamRequest tr now True payload s) = messages s"
  "pendingContent (sendStreamRequest tr now True payload s) = pendingContent s"
  "pendingReasoning (sendStreamRequest tr now True payload s) = pendingReasoning s"
  "streamFlushTimer (sendStreamRequest tr now True payload s) = streamFlushTimer s"
  "isRequesting (sendStreamRequest tr now True payload s) = isRequesting s"
  "isStreaming (sendStreamRequest tr now True payload s) = True"
  "requestId (sendStreamRequest tr now True payload s) = requestId s"
  "abortController (sendStreamRequest tr now True payload s) = abortController s"
  "aborted (sendStreamRequest tr now True payload s) = aborted s"
  "sentPayloads (sendStreamRequest tr now True payload s) = payload # sentPayloads s"
  by (simp_all add: sendStreamRequest_def close_source_def Let_def split: option.split)

lemma sendStreamRequest_fails:
  "sendStreamRequest tr now False payload s =
     closeActiveStream (Some (nextSource s))
       (handleStreamError tr now STREAM_START_ERROR None (sendStreamRequest tr now True payload s))"
  by (simp add: sendStreamRequest_def close_source_def Let_def split: option.split)

lemma nextSource_sent: "nextSource (sendStreamRequest tr now True payload s) = nextSource s + 1"
  by (simp add: sendStreamRequest_def close_source_def Let_def split: option.split)

definition answerable :: "Message list \<Rightarrow> bool" where
  \<comment> \<open>a conversation ready to be answered: its last message is the assistant's and the others are final\<close>
  "answerable ms \<longleftrightarrow> ms \<noteq> [] \<and> msg_from (last ms) = AssistantMsg \<and> settled (butlast ms)"

lemma ok_sendStreamRequest:
  assumes "chat_ok s" and "answerable ms"
  shows "chat_ok (sendStreamRequest tr now starts payload (s\<lparr>messages := ms, isRequesting := True\<rparr>))"
proof -
  let ?s = "s\<lparr>messages := ms, isRequesting := True\<rparr>"
  have c: "connection_ok (sendStreamRequest tr now True payload ?s)"
    by (rule sendStreamRequest_connection) (use chat_okD(4) [OF assms(1)] in \<open>simp add: connection_ok_def\<close>)
  have t: "chat_ok (sendStreamRequest tr now True payload ?s)"
    using assms c
    by (simp add: chat_ok_def conversation_ok_def buffer_ok_def request_ok_def isGenerating_def answering_def answerable_def)
  show ?thesis
  proof (cases starts)
    case False
    have "chat_ok (sendStreamRequest tr now False payload ?s)"
      unfolding sendStreamRequest_fails
      by (rule ok_close_quiet)
        (use t in \<open>auto simp: nextSource_sent intro: ok_handleStreamError error_settled chat_okD(1)\<close>)
    with False show ?thesis by simp
  qed (use t in simp)
qed

lemma ok_sendNonStreamingChat:
  assumes "chat_ok s" and "answerable ms"
  shows "chat_ok (sendNonStreamingChat config enabled ms' (s\<lparr>messages := ms\<rparr>))"
proof -
  have "connection_ok (sendNonStreamingChat config enabled ms' (s\<lparr>messages := ms\<rparr>))"
    using chat_okD(4) [OF assms(1)] by (simp add: connection_ok_def sendNonStreamingChat_def Let_def)
  with assms show ?thesis
    by (auto simp: chat_ok_def conversation_ok_def buffer_ok_def request_ok_def isGenerating_def answering_def
        answerable_def sendNonStreamingChat_def Let_def)
qed

lemma ok_send_in:
  assumes "chat_ok s" and "answerable ms"
  shows "chat_ok (send_in env ms s)"
  using ok_sendStreamRequest [OF assms] ok_sendNonStreamingChat [OF assms]
  by (simp add: send_in_def sendChat_def sendStreamingChat_def)

lemma answerable_append: "settled ms \<Longrightarrow> answerable (appendUserMessagePair ids t ms txt)"
  by (simp add: answerable_def appendUserMessagePair_def butlast_append)

lemma answerable_regenerated:
  "settled ms \<Longrightarrow> createRegeneratedMessages ids t ms key = Some ms' \<Longrightarrow> answerable ms'"
  by (auto simp: createRegeneratedMessages_def answerable_def settled_take_all split: option.splits if_splits)

lemma answerable_edited:
  assumes "settled (butlast ms)" and "applyMessageEdit ids t ms key c b = Some (ms', True)"
  shows "answerable ms'"
proof -
  from assms(2) obtain i where i: "find_index (\<lambda>m. msg_key m = key) ms = Some i"
    and u: "msg_from (map (edited_message t key c b) ms ! i) = UserMsg"
    and ms': "ms' = take (i + 1) (map (edited_message t key c b) ms) @ [createLoadingAssistantMessage ids t]"
    by (auto simp: applyMessageEdit_def Let_def split: option.splits if_splits)
  have len: "i < length ms"
    using find_index_Some [OF i] by simp
  let ?ms = "map (edited_message t key c b) ms"
  have "settled (take i ?ms)"
    by (rule settled_take) (use assms(1) len in \<open>simp_all add: map_butlast [symmetric] settled_map\<close>)
  moreover have "take (i + 1) ?ms = take i ?ms @ [?ms ! i]"
    using len by (simp add: take_Suc_conv_app_nth)
  ultimately have "settled (take (i + 1) ?ms)"
    using u by simp
  then show ?thesis
    by (simp add: answerable_def ms')
qed

lemma edited_only:
  "applyMessageEdit ids t ms key c b = Some (ms', False) \<Longrightarrow> ms' = map (edited_message t key c b) ms"
  by (auto simp: applyMessageEdit_def Let_def split: option.splits if_splits)

lemma ok_map_messages:
  assumes "chat_ok s"
  shows "chat_ok (s\<lparr>editingMessageKey := k, messages := map (edited_message t key c b) (messages s)\<rparr>)"
proof -
  let ?t = "s\<lparr>editingMessageKey := k, messages := map (edited_message t key c b) (messages s)\<rparr>"
  have "connection_ok ?t"
    using chat_okD(4) [OF assms] by (simp add: connection_ok_def)
  with assms show ?thesis
    by (auto simp: chat_ok_def conversation_ok_def buffer_ok_def request_ok_def isGenerating_def answering_def
        map_butlast [symmetric] settled_map last_map)
qed

lemma ok_idle_messages:
  assumes "chat_ok s" "\<not> isGenerating s" "settled ms"
  shows "chat_ok (s\<lparr>editingMessageKey := k, messages := ms\<rparr>)"
proof -
  have "connection_ok (s\<lparr>editingMessageKey := k, messages := ms\<rparr>)"
    using chat_okD(4) [OF assms(1)] by (simp add: connection_ok_def)
  with assms show ?thesis
    by (auto simp: chat_ok_def conversation_ok_def buffer_ok_def request_ok_def isGenerating_def settled_butlast)
qed

lemma ok_applyEdit:
  assumes "chat_ok s"
  shows "chat_ok (applyEdit env c b s)"
proof -
  let ?key = "opt_str (editingMessageKey s)"
  let ?r = "applyMessageEdit (env_ids env) (env_now env 0) (messages s) ?key c b"
  have s1: "chat_ok (s\<lparr>editingMessageKey := None\<rparr>)"
    using assms chat_ok_same [of "s\<lparr>editingMessageKey := None\<rparr>" s] by simp
  show ?thesis
  proof (cases "?key = [] \<or> ?r = None")
    case True
    then show ?thesis
      using assms by (auto simp: applyEdit_def)
  next
    case False
    then obtain ms send where r: "?r = Some (ms, send)"
      by (metis not_None_eq prod.exhaust)
    show ?thesis
    proof (cases send)
      case True
      then have "answerable ms"
        using answerable_edited [OF chat_okD(1) [OF assms]] r by simp
      with True False r show ?thesis
        using ok_send_in [OF s1] by (simp add: applyEdit_def Let_def)
    next
      case False': False
      then have "ms = map (edited_message (env_now env 0) ?key c b) (messages s)"
        using edited_only r by simp
      with False False' r show ?thesis
        using ok_map_messages [OF assms] by (simp add: applyEdit_def Let_def)
    qed
  qed
qed

lemma ok_chat_step:
  assumes "chat_ok s" and "chat_allowed e s"
  shows "chat_ok (chat_step env e s)"
proof -
  have idle: "settled (messages s)" if "\<not> isGenerating s"
    using chat_okD(2) [OF assms(1) that] .
  show ?thesis
  proof (cases e)
    case (SendMessage content)
    then have "\<not> isGenerating s"
      using assms(2) by (simp add: getSubmittableInputText_def split: if_splits)
    then show ?thesis
      using SendMessage idle by (simp add: handleSendMessage_def ok_send_in [OF assms(1)] answerable_append)
  next
    case (RegenerateMessage key)
    then show ?thesis
      using assms idle answerable_regenerated
      by (auto simp: handleRegenerateMessage_def intro!: ok_send_in split: option.split)
  next
    case (EditMessage key)
    then show ?thesis
      using assms(1) chat_ok_same [of "s\<lparr>editingMessageKey := Some key\<rparr>" s] by simp
  next
    case EditClosed
    then show ?thesis
      using assms(1) chat_ok_same [of "s\<lparr>editingMessageKey := None\<rparr>" s] by simp
  next
    case (DeleteMessage key)
    then have "settled (removeMessageByKey (messages s) key)"
      using idle assms(2) by (auto simp: removeMessageByKey_def intro: settled_subset)
    then show ?thesis
      using DeleteMessage assms ok_idle_messages [OF assms(1), of _ "editingMessageKey s"]
      by (simp add: handleDeleteMessage_def)
  next
    case ClearMessages
    then show ?thesis
      using assms ok_idle_messages [OF assms(1), of "[]" None] by (simp add: handleClearMessages_def)
  qed (use assms in \<open>simp_all add: ok_applyEdit ok_stop ok_on_sse_message ok_on_sse_error ok_on_sse_readystatechange
      ok_flush ok_settle_request\<close>)
qed

interpretation chat: machine_invariant chat_allowed chat_step chat_ok
  by unfold_locales (rule ok_chat_step)

lemma chat_run_ok: "chat_run loaded s \<Longrightarrow> settled loaded \<Longrightarrow> chat_ok s"
  unfolding chat_run_def by (erule chat.inv_reaches) (rule ok_initial)

section \<open>Properties of runs\<close>

definition sample_env :: ChatEnv where
  "sample_env =
     \<lparr>env_tr = (\<lambda>x. x), env_now = (\<lambda>i. 1000 + int i), env_ids = (\<lambda>i. 107 # nat_str i), env_config = DEFAULT_CONFIG,
      env_enabled = DEFAULT_PARAMETER_ENABLED, env_starts = True\<rparr>"

definition asked :: ChatState where
  "asked = chat_step sample_env (SendMessage (js ''hi'')) (initial_chat [])"

lemma asked_run: "chat_run [] asked"
  unfolding chat_run_def asked_def
  by (rule reaches.event [OF reaches.start])
    (simp add: getSubmittableInputText_def initial_chat_def isGenerating_def trim_def js_eval)

lemma asked_generating: "isGenerating asked"
  by (simp add: asked_def handleSendMessage_def send_in_def sendChat_def sendStreamingChat_def isGenerating_def
      sample_env_def DEFAULT_CONFIG_def)

text \<open>
  C1: In every run that starts from final messages, whatever the order of the user's actions, of the
  connection's events and of the answers of earlier requests: only the last message can be pending; while the
  page is generating the last message is the assistant's; and while it is not, no message
  is pending, no text is buffered and no flush is scheduled.
\<close>

theorem playground_run_invariant:
  assumes "chat_run loaded s" and "settled loaded"
  shows "settled (butlast (messages s)) \<and>
    (if isGenerating s then messages s \<noteq> [] \<and> msg_from (last (messages s)) = AssistantMsg
     else settled (messages s) \<and> pendingContent s = [] \<and> pendingReasoning s = [] \<and> \<not> streamFlushTimer s)"
  using chat_run_ok [OF assms] idle_buffer [OF chat_run_ok [OF assms]]
  by (auto simp: isGenerating_def answering_def dest: chat_okD)

theorem playground_run_invariant_witness:
  "settled (butlast (messages asked)) \<and> messages asked \<noteq> [] \<and> msg_from (last (messages asked)) = AssistantMsg"
  using playground_run_invariant [OF asked_run] asked_generating by simp

definition connection_event :: "ChatEvent \<Rightarrow> bool" where
  "connection_event e \<longleftrightarrow>
     (case e of SseMessage _ _ \<Rightarrow> True | SseError _ _ _ \<Rightarrow> True | SseReadyState _ _ _ \<Rightarrow> True | FlushTimer \<Rightarrow> True
      | RequestSettled _ _ \<Rightarrow> True | StopClicked \<Rightarrow> True | _ \<Rightarrow> False)"

fun late_write :: "ChatEvent \<Rightarrow> ChatState \<Rightarrow> bool" where
  \<comment> \<open>an event that may still write after a stop: an error of a source that does not call itself closed, a change of state that counts
    as an error, the end of a request that was not aborted\<close>
  "late_write (SseError source readyState data) s \<longleftrightarrow> \<not> isStreamClosedReadyState readyState"
| "late_write (SseReadyState source readyState stat) s \<longleftrightarrow> getStreamReadyStateError readyState stat \<noteq> None"
| "late_write (RequestSettled req outcome) s \<longleftrightarrow> req \<notin> set (aborted s)"
| "late_write _ s \<longleftrightarrow> False"

lemma quiet_after_stop:
  assumes "\<not> isGenerating t" "\<forall>source data. \<not> chat_allowed (SseMessage source data) t" "\<not> chat_allowed FlushTimer t"
    "chat_allowed e t" "connection_event e" "\<not> late_write e t"
  shows "messages (chat_step env e t) = messages t"
  using assms by (cases e) (auto simp: connection_event_def on_sse_error_def on_sse_readystatechange_def settle_request_def Let_def)

text \<open>
  C24: Stopping always ends the generation. After the stop button in any run, the page is idle, every message is
  final, the history before the last message is as it was, no open stream is left to deliver text,
  no flush is scheduled and the current request is aborted. What the connection can still change afterwards is bounded: only an error event
  of a source that does not report itself closed, a state event that counts as an error, and the end of an
  earlier request that was replaced without being aborted write into the last message.
\<close>

theorem stop_ends_generation:
  assumes "chat_run loaded s" and "settled loaded"
  shows "let t = chat_step env StopClicked s in
    \<not> isGenerating t \<and> settled (messages t) \<and> butlast (messages t) = butlast (messages s) \<and>
    length (messages t) = length (messages s) \<and>
    (\<forall>source data. \<not> chat_allowed (SseMessage source data) t) \<and> \<not> chat_allowed FlushTimer t \<and>
    (\<forall>req. abortController s = Some req \<longrightarrow> req \<in> set (aborted t)) \<and>
    (\<forall>env' e. chat_allowed e t \<and> connection_event e \<and> \<not> late_write e t \<longrightarrow> messages (chat_step env' e t) = messages t)"
proof -
  let ?t = "stopGeneration (env_now env) s"
  have "connection_ok ?t" "settled (butlast (messages s))"
    using chat_run_ok [OF assms] by (simp_all add: stop_connection chat_okD)
  moreover from this have "\<not> (source < nextSource ?t \<and> source \<notin> set (closedSources ?t))" for source
    using connection_okD(1) [of ?t] connection_okD(3) [of ?t source] by auto
  ultimately have quiet: "\<not> isGenerating ?t" "settled (messages ?t)" "butlast (messages ?t) = butlast (messages s)"
      "length (messages ?t) = length (messages s)" "\<forall>source data. \<not> chat_allowed (SseMessage source data) ?t" "\<not> chat_allowed FlushTimer ?t"
    by (simp_all add: isGenerating_def stop_settled)
  moreover have "abortController (flushStreamUpdates now (stopStream s)) = abortController s" for now
    by (simp add: flushStreamUpdates_def stopStream_def closeActiveStream_def close_source_def Let_def split: option.split)
  then have "req \<in> set (aborted ?t)" if "abortController s = Some req" for req
    using that by (simp add: stopGeneration_def Let_def)
  ultimately show ?thesis using quiet_after_stop [OF quiet(1,5,6)] by (simp add: Let_def)
qed

theorem stop_ends_generation_witness:
  "isGenerating asked \<and> \<not> isGenerating (chat_step sample_env StopClicked asked)"
  using stop_ends_generation [OF asked_run, of sample_env] asked_generating by (simp add: Let_def)

definition same_history :: "ChatState \<Rightarrow> ChatState \<Rightarrow> bool" where
  "same_history s t \<longleftrightarrow>
     butlast (messages t) = butlast (messages s) \<and> length (messages t) = length (messages s) \<and>
     sentPayloads t = sentPayloads s \<and> (\<not> answering s \<longrightarrow> messages t = messages s)"

lemma updateLast_not_answering:
  "\<not> answering s \<Longrightarrow> updateLastAssistantMessage (messages s) f = messages s"
  by (auto simp: answering_def updateLastAssistantMessage_def)

lemma same_history_refl [simp]: "same_history s s"
  by (simp add: same_history_def)

lemma same_history_trans: "same_history s t \<Longrightarrow> answering t = answering s \<Longrightarrow> same_history t u \<Longrightarrow> same_history s u"
  by (simp add: same_history_def)

lemma flush_not_answering: "\<not> answering s \<Longrightarrow> messages (flushStreamUpdates now s) = messages s"
  using updateLast_not_answering [of s] by (simp add: flushStreamUpdates_def Let_def)

lemma same_history_flush [simp]: "same_history s (flushStreamUpdates now s)"
  by (simp add: same_history_def flush_not_answering)

lemma same_history_complete [simp]: "same_history s (handleStreamComplete now s)"
proof -
  have A: "same_history (flushStreamUpdates now s) (handleStreamComplete now s)"
    by (simp add: same_history_def) (simp add: handleStreamComplete_def Let_def updateLast_not_answering)
  show ?thesis
    by (rule same_history_trans [OF same_history_flush _ A]) simp
qed

lemma same_history_error [simp]: "same_history s (handleStreamError tr now e c s)"
proof -
  have A: "same_history (flushStreamUpdates now s) (handleStreamError tr now e c s)"
    by (simp add: same_history_def)
      (simp add: handleStreamError_def Let_def updateAssistantMessageWithError_def updateLast_not_answering)
  show ?thesis
    by (rule same_history_trans [OF same_history_flush _ A]) simp
qed

lemma same_history_close [simp]: "same_history s (closeActiveStream x t) = same_history s t"
  by (simp add: same_history_def)

lemma same_history_handleError [simp]: "same_history s (handleError tr now x e c s)"
  by (simp add: handleError_def)

lemma same_history_updates [simp]: "same_history s (fold (\<lambda>(t, chunk). handleStreamUpdate t chunk) us s)"
proof (induction us arbitrary: s)
  case (Cons u us)
  have "same_history s (handleStreamUpdate (fst u) (snd u) s)" "answering (handleStreamUpdate (fst u) (snd u) s) = answering s"
    by (simp_all add: same_history_def answering_def)
  with Cons show ?case
    by (auto simp: case_prod_beta intro: same_history_trans)
qed simp

lemma same_history_done: "same_history s (handleStreamComplete now (closeActiveStream x (s\<lparr>isStreamComplete := True\<rparr>)))"
proof -
  have "same_history s (closeActiveStream x (s\<lparr>isStreamComplete := True\<rparr>))"
    by (simp add: same_history_def)
  then show ?thesis
    by (rule same_history_trans) (simp_all add: answering_def)
qed

lemma same_history_stop: "same_history s (stopGeneration now s)"
proof -
  have sent: "sentPayloads (stopGeneration now s) = sentPayloads s"
    by (simp add: stopGeneration_def stopStream_def Let_def split: option.split)
  have "messages (stopGeneration now s) = messages s" if "\<not> answering s"
  proof -
    have "\<not> answering (flushStreamUpdates now (stopStream s))"
      using that by (simp add: stopStream_def)
    then have "messages (stopGeneration now s) = messages (flushStreamUpdates now (stopStream s))"
      by (simp add: stopGeneration_messages updateLast_not_answering)
    also have "\<dots> = messages (stopStream s)"
      using same_history_flush [of "stopStream s" now] that by (simp add: same_history_def stopStream_def)
    finally show ?thesis by (simp add: stopStream_def)
  qed
  with sent show ?thesis
    by (simp add: same_history_def)
qed

lemma same_history_settle: "same_history s (settle_request tr now req outcome s)"
proof -
  let ?s = "s\<lparr>inFlight := removeAll req (inFlight s)\<rparr>"
  have "same_history ?s (settle_core tr now req outcome ?s)"
    by (auto simp: settle_core_def split: Settled.split list.split)
      (auto simp: same_history_def answering_def updateLastAssistantMessage_def)
  then have "same_history s (settle_core tr now req outcome ?s)"
    by (simp add: same_history_def answering_def)
  then show ?thesis
    by (simp add: settle_request_eq Let_def same_history_def answering_def)
qed

text \<open>
  C26: Nothing the connection does rewrites the conversation. An event of a stream, a flush, the settling of a
  request and the stop button, in any state, leave every message but the last as it is, add and remove none,
  send nothing, and leave a conversation that does not end in an assistant message alone.
\<close>

theorem connection_events_keep_history:
  assumes "connection_event e"
  shows "same_history s (chat_step env e s)"
  using assms
  by (cases e) (simp_all add: connection_event_def on_sse_message_def on_sse_error_def on_sse_readystatechange_def
      same_history_done same_history_stop same_history_settle Let_def split: option.split)

theorem connection_events_keep_history_witness:
  "same_history asked (chat_step sample_env (SseMessage 0 STREAM_DONE_MESSAGE) asked)"
  by (rule connection_events_keep_history) (simp add: connection_event_def)

end
