(* ===== verification/Playground_Answers.thy ===== *)
theory Playground_Answers
  imports Playground_Runs
begin

text \<open>
  What a question sends, and what the 50 ms buffer between the stream and the message does to an answer: for
  which chunks it is invisible, and the chunks and the run for which it is not.
\<close>

section \<open>Requests\<close>

lemma valid_created:
  "isValidMessage (createUserMessage ids c t)" "\<not> isValidMessage (createLoadingAssistantMessage ids t)"
  by (simp_all add: isValidMessage_def createUserMessage_def createLoadingAssistantMessage_def hasMessageContent_def
      getMessageContent_def getCurrentVersion_def createMessageVersion_def)

lemma format_created: "formatMessageForAPI (createUserMessage ids c t) = \<lparr>cm_role = UserMsg, cm_content = TextContent c\<rparr>"
  by (simp add: formatMessageForAPI_def createUserMessage_def getCurrentVersion_def createMessageVersion_def)

lemma sent_send_in:
  "sentPayloads (send_in env ms s) = buildChatCompletionPayload ms (env_config env) (env_enabled env) # sentPayloads s"
  by (cases "env_starts env")
    (simp_all add: send_in_def sendChat_def sendStreamingChat_def sendNonStreamingChat_def sendStreamRequest_fails Let_def)

text \<open>
  A question sends exactly one request, and the request carries the conversation the page shows: the messages
  so far that have something to say, in order, and then the new question. The empty answer that is
  shown as loading is not part of it, and the optional parameters are there exactly when they are enabled.
\<close>

theorem question_sends_conversation:
  "\<exists>p. sentPayloads (chat_step env (SendMessage content) s) = p # sentPayloads s \<and>
     rq_messages p = map formatMessageForAPI (filter isValidMessage (messages s)) @
       [\<lparr>cm_role = UserMsg, cm_content = TextContent content\<rparr>] \<and>
     rq_model p = cfg_model (env_config env) \<and> rq_stream p = cfg_stream (env_config env) \<and>
     (rq_temperature p \<noteq> None) = pe_temperature (env_enabled env) \<and>
     (rq_max_tokens p \<noteq> None) = pe_max_tokens (env_enabled env) \<and>
     (rq_seed p \<noteq> None) = (pe_seed (env_enabled env) \<and> cfg_seed (env_config env) \<noteq> None)"
  by (simp add: handleSendMessage_def sent_send_in buildChatCompletionPayload_def appendUserMessagePair_def
      valid_created format_created)

section \<open>The stream buffer\<close>

definition shown_text :: "ChatState \<Rightarrow> jstring" where
  \<comment> \<open>the text of the answer once the buffer is flushed\<close>
  "shown_text s =
     getMessageContent (last (messages s)) @
     (if pendingContent s = [] then []
      else getAppendableChunk (getMessageContent (last (messages s))) (pendingContent s))"

definition writable :: "ChatState \<Rightarrow> bool" where
  "writable s \<longleftrightarrow> answering s \<and> status (last (messages s)) \<noteq> Some ErrorStatus"

definition clean_chunk :: "ChatState \<Rightarrow> jstring \<Rightarrow> bool" where
  \<comment> \<open>the chunk does not look like a repetition of the buffer or of the text\<close>
  "clean_chunk s chunk \<longleftrightarrow>
     (let old = getMessageContent (last (messages s)); buf = pendingContent s in
      if buf = [] then old = [] \<or> \<not> startsWith chunk old
      else \<not> startsWith chunk buf \<and> (old = [] \<or> startsWith buf old \<or> \<not> startsWith (buf @ chunk) old))"

lemma startsWith_append_right: "startsWith s p \<Longrightarrow> startsWith (s @ t) p"
  unfolding startsWith_iff by auto

lemma content_reasoning_chunk [simp]: "getMessageContent (applyStreamingChunk now m ReasoningChunk c) = getMessageContent m"
  by (simp add: applyStreamingChunk.simps Let_def getMessageContent_def getCurrentVersion_def)

lemma status_reasoning_chunk: "status m \<noteq> Some ErrorStatus \<Longrightarrow> status (applyStreamingChunk now m ReasoningChunk c) \<noteq> Some ErrorStatus"
  by (simp add: applyStreamingChunk.simps Let_def)

lemma content_flush_message:
  assumes "status m \<noteq> Some ErrorStatus"
  shows "getMessageContent (flush_message now r c m) =
    getMessageContent m @ (if c = [] then [] else getAppendableChunk (getMessageContent m) c)"
proof -
  let ?m = "if r \<noteq> [] then applyStreamingChunk now m ReasoningChunk r else m"
  have "status ?m \<noteq> Some ErrorStatus" "getMessageContent ?m = getMessageContent m"
    using assms by (simp_all add: status_reasoning_chunk)
  then show ?thesis
    by (simp add: flush_message_def Let_def content_applyStreamingChunk(1))
qed

lemma content_flush:
  assumes "writable s"
  shows "getMessageContent (last (messages (flushStreamUpdates now s))) = shown_text s"
proof -
  have w: "messages s \<noteq> []" "msg_from (last (messages s)) = AssistantMsg" "status (last (messages s)) \<noteq> Some ErrorStatus"
    using assms by (simp_all add: writable_def answering_def)
  then show ?thesis
    by (simp add: flushStreamUpdates_def Let_def last_updateLast content_flush_message [OF w(3)] shown_text_def)
qed

lemma shown_after_flush: "writable s \<Longrightarrow> shown_text (flushStreamUpdates now s) = shown_text s"
  using content_flush [of s now] by (simp add: shown_text_def [of "flushStreamUpdates now s"])

lemma appended_clean_chunk:
  assumes "chunk \<noteq> []" and "clean_chunk s chunk"
  shows "shown_text (handleStreamUpdate ContentChunk chunk s) = shown_text s @ chunk"
proof (cases "pendingContent s = []")
  case True
  with assms show ?thesis
    by (auto simp: shown_text_def clean_chunk_def mergePendingStreamChunk_def getAppendableChunk_def)
next
  case False
  let ?old = "getMessageContent (last (messages s))" and ?buf = "pendingContent s"
  have merged: "pendingContent (handleStreamUpdate ContentChunk chunk s) = ?buf @ chunk"
    using assms(2) False by (simp add: mergePendingStreamChunk_def clean_chunk_def Let_def)
  have "?old @ getAppendableChunk ?old (?buf @ chunk) = ?old @ getAppendableChunk ?old ?buf @ chunk"
  proof (cases "?old = [] \<or> \<not> startsWith (?buf @ chunk) ?old")
    case True
    then show ?thesis
      by (auto simp: getAppendableChunk_def dest: startsWith_append_right)
  next
    case False': False
    then have "startsWith ?buf ?old"
      using assms(2) False by (auto simp: clean_chunk_def Let_def)
    then show ?thesis
      using False' append_drop_startsWith [of ?buf ?old] append_drop_startsWith [of "?buf @ chunk" ?old]
      by (simp add: getAppendableChunk_def startsWith_append_right)
  qed
  with False merged show ?thesis
    by (simp add: shown_text_def)
qed

datatype BufferEvent = Arrived jstring | Flushed clock

primrec buffer_step :: "BufferEvent \<Rightarrow> ChatState \<Rightarrow> ChatState" where
  "buffer_step (Arrived chunk) s = handleStreamUpdate ContentChunk chunk s"
| "buffer_step (Flushed now) s = flushStreamUpdates now s"

primrec direct_step :: "BufferEvent \<Rightarrow> jstring \<Rightarrow> jstring" where
  \<comment> \<open>the abstract stream: every chunk is written at once\<close>
  "direct_step (Arrived chunk) t = t @ chunk"
| "direct_step (Flushed now) t = t"

primrec clean_run :: "BufferEvent list \<Rightarrow> ChatState \<Rightarrow> bool" where
  "clean_run [] s \<longleftrightarrow> True"
| "clean_run (e # es) s \<longleftrightarrow>
     (case e of Arrived chunk \<Rightarrow> chunk \<noteq> [] \<and> clean_chunk s chunk | Flushed _ \<Rightarrow> True) \<and> clean_run es (buffer_step e s)"

lemma status_flush_message: "status m \<noteq> Some ErrorStatus \<Longrightarrow> status (flush_message now r c m) \<noteq> Some ErrorStatus"
  by (simp add: flush_message_def Let_def status_reasoning_chunk content_applyStreamingChunk(2))

lemma writable_step: "writable s \<Longrightarrow> writable (buffer_step e s)"
proof (cases e)
  case (Flushed now)
  assume w: "writable s"
  have "status (last (messages (flushStreamUpdates now s))) \<noteq> Some ErrorStatus"
    using w by (simp add: writable_def answering_def flushStreamUpdates_def Let_def last_updateLast status_flush_message)
  with w Flushed show ?thesis
    by (simp add: writable_def)
qed (simp add: writable_def answering_def)

lemma shown_step:
  assumes "writable s" and "case e of Arrived chunk \<Rightarrow> chunk \<noteq> [] \<and> clean_chunk s chunk | Flushed _ \<Rightarrow> True"
  shows "shown_text (buffer_step e s) = direct_step e (shown_text s)"
  using assms by (cases e) (simp_all add: shown_after_flush appended_clean_chunk del: handleStreamUpdate.simps)

text \<open>
  C13: The 50 ms buffer refines writing each chunk at once. Let the text of an answer be what its message shows once
  the buffer is flushed. For any sequence of chunks and of flushes between them, however the flushes
  fall, that text is the text before with the chunks appended in order, as long as no chunk is empty, no chunk begins with the
  text buffered at that moment, a chunk that finds the buffer empty does not begin with the whole text written so far, and
  the buffer with the chunk behind it does not begin with that text unless the buffer did. Such chunks are taken for
  snapshots: with the text "abc" and the buffer "ab", the chunk "c" is dropped.
\<close>

theorem stream_buffer_refines_direct_writing:
  assumes "writable s" and "clean_run es s"
  shows "shown_text (fold buffer_step es s) = fold direct_step es (shown_text s)"
  using assms
proof (induction es arbitrary: s)
  case (Cons e es)
  then show ?case
    using shown_step [of s e] writable_step [of s e] by simp
qed simp

definition answered :: ChatState where
  "answered =
     (initial_chat [createUserMessage (\<lambda>i. 117 # nat_str i) (js ''q'') 1000,
        (updateCurrentVersionContent (createLoadingAssistantMessage (\<lambda>i. 97 # nat_str i) 1000) (js ''x''))
          \<lparr>status := Some StreamingStatus\<rparr>])
       \<lparr>isStreaming := True, isRequesting := True, sseSource := Some 0, nextSource := 1\<rparr>"

lemmas answered_simps = answered_def initial_chat_def createUserMessage_def createLoadingAssistantMessage_def
  updateCurrentVersionContent_def getCurrentVersion_def getMessageContent_def createMessageVersion_def

lemma answered_writable: "writable answered"
  by (simp add: writable_def answering_def answered_simps)

lemma answered_content: "getMessageContent (last (messages answered)) = js ''x''"
  by (simp add: answered_simps)

lemma answered_pending: "pendingContent answered = []"
  by (simp add: answered_simps)

theorem stream_buffer_refines_direct_writing_witness:
  "shown_text (fold buffer_step [Arrived (js ''y''), Arrived (js ''z'')] answered) = js ''xyz''"
proof -
  have "clean_run [Arrived (js ''y''), Arrived (js ''z'')] answered"
    using answered_content answered_pending
    by (simp add: clean_chunk_def startsWith_def mergePendingStreamChunk_def js_def)
  then have "shown_text (fold buffer_step [Arrived (js ''y''), Arrived (js ''z'')] answered) =
      fold direct_step [Arrived (js ''y''), Arrived (js ''z'')] (shown_text answered)"
    by (rule stream_buffer_refines_direct_writing [OF answered_writable])
  also have "\<dots> = js ''xyz''"
    using answered_content answered_pending by (simp add: shown_text_def js_def)
  finally show ?thesis .
qed



section \<open>Answers that go astray\<close>

lemma edited_last:
  "applyMessageEdit ids t ms key c b = Some (ms', True) \<Longrightarrow> ms' \<noteq> [] \<and> last ms' = createLoadingAssistantMessage ids t"
  by (auto simp: applyMessageEdit_def Let_def split: option.splits if_splits)

text \<open>
  Submitting an edited question while an answer is streaming, which the open editor allows, closes the old
  stream but not its buffer: the text of the old answer that had not been flushed yet becomes
  the beginning of the answer to the new question.
\<close>

theorem resubmitted_question_starts_with_old_text:
  assumes "pendingContent s \<noteq> []" and "cfg_stream (env_config env)" and "env_starts env"
    and "opt_str (editingMessageKey s) \<noteq> []"
    and "applyMessageEdit (env_ids env) (env_now env 0) (messages s) (opt_str (editingMessageKey s)) content True = Some (ms, True)"
  shows "getMessageContent (last (messages (chat_step env' FlushTimer (chat_step env (SaveEdit content True) s)))) =
    pendingContent s"
proof -
  let ?t = "send_in env ms (s\<lparr>editingMessageKey := None\<rparr>)"
  have step: "chat_step env (SaveEdit content True) s = ?t"
    using assms(4,5) by (simp add: applyEdit_def)
  have t: "messages ?t = ms" "pendingContent ?t = pendingContent s"
    using assms(2,3) by (simp_all add: send_in_def sendChat_def sendStreamingChat_def)
  have "writable ?t"
    using edited_last [OF assms(5)] t by (simp add: writable_def answering_def) (simp add: createLoadingAssistantMessage_def)
  moreover have "getMessageContent (last ms) = []"
    using edited_last [OF assms(5)]
    by (simp add: createLoadingAssistantMessage_def getMessageContent_def getCurrentVersion_def createMessageVersion_def)
  ultimately show ?thesis
    using assms(1) t unfolding step chat_step.simps(12) by (simp add: content_flush shown_text_def getAppendableChunk_def)
qed

theorem resubmitted_question_starts_with_old_text_witness:
  "getMessageContent (last (messages (chat_step sample_env FlushTimer (chat_step sample_env (SaveEdit (js ''new'') True)
     (answered\<lparr>pendingContent := js ''old'', streamFlushTimer := True, editingMessageKey := Some (117 # nat_str 0)\<rparr>))))) = js ''old''"
proof -
  let ?s = "answered\<lparr>pendingContent := js ''old'', streamFlushTimer := True, editingMessageKey := Some (117 # nat_str 0)\<rparr>"
  obtain ms where "applyMessageEdit (env_ids sample_env) (env_now sample_env 0) (messages ?s)
      (opt_str (editingMessageKey ?s)) (js ''new'') True = Some (ms, True)"
    by (simp add: applyMessageEdit_def answered_simps sample_env_def edited_message_def opt_str_def)
  then show ?thesis
    using resubmitted_question_starts_with_old_text [of ?s sample_env "js ''new''" ms sample_env]
    by (simp add: sample_env_def DEFAULT_CONFIG_def opt_str_def js_def del: chat_step.simps)
qed

text \<open>
  A stream that ends without the final \<open>[DONE]\<close> message is not noticed. The state events of a connection
  closed with status 200, and the error events that come once it is closed, change nothing, so a page
  that is generating stays so until the user stops it.
\<close>

theorem stream_end_without_done_is_ignored:
  "chat_step env (SseReadyState source readyState (Some 200)) s = s \<and>
   chat_step env (SseError source (Some STREAM_CLOSED_READY_STATE) data) s = s"
  by (simp add: on_sse_readystatechange_def getStreamReadyStateError_def on_sse_error_def isStreamClosedReadyState_def
      split: option.split)

end
