(* ===== verification/Playground_Storage.thy ===== *)
theory Playground_Storage
  imports Playground_Chat "HOL-Library.Monad_Syntax"
begin

text \<open>
  The browser storage of the playground: the schema of what is stored (\<open>lib/storage/storage-schema.ts\<close>), reading,
  repairing and trimming a stored conversation and writing it back (\<open>lib/storage/storage.ts\<close>), the configuration
  beside it, and the initial state of the page (\<open>lib/state/playground-state-utils.ts\<close>).

  \<open>localStorage\<close> is a map from keys to texts; \<open>fits\<close> says which texts the browser accepts, since
  \<open>setItem\<close> throws when its quota is exceeded. The schemas are objects of the \<open>zod\<close> package: what the
  operations use of them, their \<open>parse\<close> functions, is an argument \<open>z\<close> of the operations, with
  \<open>None\<close> for the exception \<open>parse\<close> throws. The functions of the section on schemas follow the
  documented meaning of the \<open>zod\<close> combinators that \<open>storage-schema.ts\<close> writes; they are the instance
  with which the assumptions on \<open>z\<close> are met. The times in a message are integers, which is all
  the page ever stores.
\<close>

type_synonym local_storage = "jstring \<rightharpoonup> jstring"

section \<open>Schemas\<close>

definition STORAGE_VERSION :: int where
  "STORAGE_VERSION = 1"

definition MAX_STORED_MESSAGES :: nat where
  "MAX_STORED_MESSAGES = 100"

definition MAX_STORED_MESSAGES_BYTES :: nat where
  "MAX_STORED_MESSAGES_BYTES = 1024 * 1024"

definition MAX_LOADED_MESSAGES_CHARS :: nat where
  "MAX_LOADED_MESSAGES_CHARS = 120000"

definition MAX_LOADED_MESSAGE_CHARS :: nat where
  "MAX_LOADED_MESSAGE_CHARS = 40000"

fun z_string :: "jsval \<Rightarrow> jstring option" where
  "z_string (JStr s) = Some s"
| "z_string _ = None"

fun z_number :: "jsval \<Rightarrow> rat option" where
  "z_number (JNum q) = Some q"
| "z_number _ = None"

definition z_int :: "jsval \<Rightarrow> int option" where
  "z_int v = map_option floor (z_number v)"

fun z_boolean :: "jsval \<Rightarrow> bool option" where
  "z_boolean (JBool b) = Some b"
| "z_boolean _ = None"

definition z_optional :: "(jsval \<Rightarrow> 'a option) \<Rightarrow> jsval \<Rightarrow> 'a option option" where
  \<comment> \<open>\<open>Some None\<close> is an accepted \<open>undefined\<close>\<close>
  "z_optional p v = (if v = JUndef then Some None else map_option Some (p v))"

definition z_nullable :: "(jsval \<Rightarrow> 'a option) \<Rightarrow> jsval \<Rightarrow> 'a option option" where
  "z_nullable p v = (if v = JNull then Some None else map_option Some (p v))"

fun z_all :: "(jsval \<Rightarrow> 'a option) \<Rightarrow> jsval list \<Rightarrow> 'a list option" where
  "z_all p [] = Some []"
| "z_all p (v # vs) =
     (case p v of None \<Rightarrow> None | Some x \<Rightarrow> map_option (\<lambda>xs. x # xs) (z_all p vs))"

fun z_array :: "(jsval \<Rightarrow> 'a option) \<Rightarrow> jsval \<Rightarrow> 'a list option" where
  "z_array p (JArr vs) = z_all p vs"
| "z_array p _ = None"

fun z_object :: "jsval \<Rightarrow> (jstring \<times> jsval) list option" where
  "z_object (JObj kvs) = Some kvs"
| "z_object _ = None"

definition z_enum :: "(jstring \<times> 'a) list \<Rightarrow> jsval \<Rightarrow> 'a option" where
  "z_enum names v = Option.bind (z_string v) (map_of names)"

definition role_names :: "(jstring \<times> MessageRole) list" where
  "role_names = [(js ''user'', UserMsg), (js ''assistant'', AssistantMsg), (js ''system'', SystemMsg)]"

definition status_names :: "(jstring \<times> MessageStatus) list" where
  "status_names =
     [(js ''loading'', LoadingStatus), (js ''streaming'', StreamingStatus), (js ''complete'', CompleteStatus),
      (js ''error'', ErrorStatus)]"

definition messageRoleSchema :: "jsval \<Rightarrow> MessageRole option" where
  "messageRoleSchema = z_enum role_names"

definition messageStatusSchema :: "jsval \<Rightarrow> MessageStatus option" where
  "messageStatusSchema = z_enum status_names"

definition messageVersionSchema :: "jsval \<Rightarrow> MessageVersion option" where
  "messageVersionSchema v =
     do {
       _ \<leftarrow> z_object v;
       i \<leftarrow> z_string (js_prop v (js ''id''));
       c \<leftarrow> z_string (js_prop v (js ''content''));
       Some \<lparr>v_id = i, v_content = c\<rparr>
     }"

definition sourceSchema :: "jsval \<Rightarrow> (jstring \<times> jstring) option" where
  "sourceSchema v =
     do {
       _ \<leftarrow> z_object v;
       h \<leftarrow> z_string (js_prop v (js ''href''));
       t \<leftarrow> z_string (js_prop v (js ''title''));
       Some (h, t)
     }"

definition reasoningSchema :: "jsval \<Rightarrow> Reasoning option" where
  "reasoningSchema v =
     do {
       _ \<leftarrow> z_object v;
       c \<leftarrow> z_string (js_prop v (js ''content''));
       d \<leftarrow> z_int (js_prop v (js ''duration''));
       st \<leftarrow> z_optional z_int (js_prop v (js ''startedAt''));
       cp \<leftarrow> z_optional z_int (js_prop v (js ''completedAt''));
       dm \<leftarrow> z_optional z_int (js_prop v (js ''durationMs''));
       Some \<lparr>r_content = c, r_duration = d, r_startedAt = st, r_completedAt = cp, r_durationMs = dm\<rparr>
     }"

definition messageSchema :: "jsval \<Rightarrow> Message option" where
  "messageSchema v =
     do {
       _ \<leftarrow> z_object v;
       k \<leftarrow> z_string (js_prop v (js ''key''));
       f \<leftarrow> messageRoleSchema (js_prop v (js ''from''));
       vs \<leftarrow> z_array messageVersionSchema (js_prop v (js ''versions''));
       (if vs = [] then None else Some ());
       ca \<leftarrow> z_optional z_int (js_prop v (js ''createdAt''));
       sa \<leftarrow> z_optional z_int (js_prop v (js ''startedAt''));
       cp \<leftarrow> z_optional z_int (js_prop v (js ''completedAt''));
       dm \<leftarrow> z_optional z_int (js_prop v (js ''durationMs''));
       so \<leftarrow> z_optional (z_array sourceSchema) (js_prop v (js ''sources''));
       r \<leftarrow> z_optional reasoningSchema (js_prop v (js ''reasoning''));
       rs \<leftarrow> z_optional z_boolean (js_prop v (js ''isReasoningStreaming''));
       rc \<leftarrow> z_optional z_boolean (js_prop v (js ''isReasoningComplete''));
       cc \<leftarrow> z_optional z_boolean (js_prop v (js ''isContentComplete''));
       st \<leftarrow> z_optional messageStatusSchema (js_prop v (js ''status''));
       ec \<leftarrow> z_optional (z_nullable z_string) (js_prop v (js ''errorCode''));
       Some \<lparr>msg_key = k, msg_from = f, versions = vs, createdAt = ca, startedAt = sa, completedAt = cp,
         durationMs = dm, sources = so, reasoning = r, isReasoningStreaming = rs, isReasoningComplete = rc,
         isContentComplete = cc, status = st, errorCode = ec\<rparr>
     }"

definition messagesSchema :: "jsval \<Rightarrow> Message list option" where
  "messagesSchema = z_array messageSchema"

record PartialConfig =
  \<comment> \<open>\<open>Partial<PlaygroundConfig>\<close>\<close>
  pc_model :: "jstring option"
  pc_group :: "jstring option"
  pc_temperature :: "rat option"
  pc_top_p :: "rat option"
  pc_max_tokens :: "rat option"
  pc_frequency_penalty :: "rat option"
  pc_presence_penalty :: "rat option"
  pc_seed :: "rat option option"
  pc_stream :: "bool option"

record PartialEnabled =
  pp_temperature :: "bool option"
  pp_top_p :: "bool option"
  pp_max_tokens :: "bool option"
  pp_frequency_penalty :: "bool option"
  pp_presence_penalty :: "bool option"
  pp_seed :: "bool option"

definition playgroundConfigSchema :: "jsval \<Rightarrow> PartialConfig option" where
  "playgroundConfigSchema v =
     do {
       _ \<leftarrow> z_object v;
       m \<leftarrow> z_optional z_string (js_prop v (js ''model''));
       g \<leftarrow> z_optional z_string (js_prop v (js ''group''));
       t \<leftarrow> z_optional z_number (js_prop v (js ''temperature''));
       p \<leftarrow> z_optional z_number (js_prop v (js ''top_p''));
       mt \<leftarrow> z_optional z_number (js_prop v (js ''max_tokens''));
       fp \<leftarrow> z_optional z_number (js_prop v (js ''frequency_penalty''));
       pp \<leftarrow> z_optional z_number (js_prop v (js ''presence_penalty''));
       s \<leftarrow> z_optional (z_nullable z_number) (js_prop v (js ''seed''));
       b \<leftarrow> z_optional z_boolean (js_prop v (js ''stream''));
       Some \<lparr>pc_model = m, pc_group = g, pc_temperature = t, pc_top_p = p, pc_max_tokens = mt,
         pc_frequency_penalty = fp, pc_presence_penalty = pp, pc_seed = s, pc_stream = b\<rparr>
     }"

definition parameterEnabledSchema :: "jsval \<Rightarrow> PartialEnabled option" where
  "parameterEnabledSchema v =
     do {
       _ \<leftarrow> z_object v;
       t \<leftarrow> z_optional z_boolean (js_prop v (js ''temperature''));
       p \<leftarrow> z_optional z_boolean (js_prop v (js ''top_p''));
       mt \<leftarrow> z_optional z_boolean (js_prop v (js ''max_tokens''));
       fp \<leftarrow> z_optional z_boolean (js_prop v (js ''frequency_penalty''));
       pp \<leftarrow> z_optional z_boolean (js_prop v (js ''presence_penalty''));
       s \<leftarrow> z_optional z_boolean (js_prop v (js ''seed''));
       Some \<lparr>pp_temperature = t, pp_top_p = p, pp_max_tokens = mt, pp_frequency_penalty = fp,
         pp_presence_penalty = pp, pp_seed = s\<rparr>
     }"

record StorageSchemas =
  messagesParse :: "jsval \<Rightarrow> Message list option"
  configParse :: "jsval \<Rightarrow> PartialConfig option"
  enabledParse :: "jsval \<Rightarrow> PartialEnabled option"

definition documented_schemas :: StorageSchemas where
  "documented_schemas =
     \<lparr>messagesParse = messagesSchema, configParse = playgroundConfigSchema, enabledParse = parameterEnabledSchema\<rparr>"

section \<open>Messages as values\<close>

text \<open>
  The object a message is, with the properties that are not \<open>undefined\<close> in the order of the schema, which is
  the order \<open>parse\<close> builds it in.
\<close>

definition present :: "string \<Rightarrow> ('a \<Rightarrow> jsval) \<Rightarrow> 'a option \<Rightarrow> (jstring \<times> jsval) list" where
  "present key f x = (case x of None \<Rightarrow> [] | Some y \<Rightarrow> [(js key, f y)])"

definition int_value :: "int \<Rightarrow> jsval" where
  "int_value n = JNum (of_int n)"

definition role_name :: "MessageRole \<Rightarrow> jstring" where
  "role_name r = (case r of UserMsg \<Rightarrow> js ''user'' | AssistantMsg \<Rightarrow> js ''assistant'' | SystemMsg \<Rightarrow> js ''system'')"

definition status_name :: "MessageStatus \<Rightarrow> jstring" where
  "status_name s =
     (case s of LoadingStatus \<Rightarrow> js ''loading'' | StreamingStatus \<Rightarrow> js ''streaming''
      | CompleteStatus \<Rightarrow> js ''complete'' | ErrorStatus \<Rightarrow> js ''error'')"

definition version_value :: "MessageVersion \<Rightarrow> jsval" where
  "version_value v = JObj [(js ''id'', JStr (v_id v)), (js ''content'', JStr (v_content v))]"

definition source_value :: "jstring \<times> jstring \<Rightarrow> jsval" where
  "source_value s = JObj [(js ''href'', JStr (fst s)), (js ''title'', JStr (snd s))]"

definition reasoning_value :: "Reasoning \<Rightarrow> jsval" where
  "reasoning_value r =
     JObj ([(js ''content'', JStr (r_content r)), (js ''duration'', int_value (r_duration r))] @
       present ''startedAt'' int_value (r_startedAt r) @ present ''completedAt'' int_value (r_completedAt r) @
       present ''durationMs'' int_value (r_durationMs r))"

definition message_fields :: "Message \<Rightarrow> (jstring \<times> jsval) list" where
  "message_fields m =
     [(js ''key'', JStr (msg_key m)), (js ''from'', JStr (role_name (msg_from m))),
      (js ''versions'', JArr (map version_value (versions m)))] @
     present ''createdAt'' int_value (createdAt m) @ present ''startedAt'' int_value (startedAt m) @
     present ''completedAt'' int_value (completedAt m) @ present ''durationMs'' int_value (durationMs m) @
     present ''sources'' (\<lambda>ss. JArr (map source_value ss)) (sources m) @
     present ''reasoning'' reasoning_value (reasoning m) @
     present ''isReasoningStreaming'' JBool (isReasoningStreaming m) @
     present ''isReasoningComplete'' JBool (isReasoningComplete m) @
     present ''isContentComplete'' JBool (isContentComplete m) @
     present ''status'' (\<lambda>s. JStr (status_name s)) (status m) @
     present ''errorCode'' (\<lambda>e. case e of None \<Rightarrow> JNull | Some c \<Rightarrow> JStr c) (errorCode m)"

definition messages_value :: "Message list \<Rightarrow> jsval" where
  "messages_value ms = JArr (map (\<lambda>m. JObj (message_fields m)) ms)"

section \<open>Reading and writing\<close>

definition CONFIG_KEY :: jstring where
  "CONFIG_KEY = js ''playground_config''"

definition MESSAGES_KEY :: jstring where
  "MESSAGES_KEY = js ''playground_messages''"

definition PARAMETER_ENABLED_KEY :: jstring where
  "PARAMETER_ENABLED_KEY = js ''playground_parameter_enabled''"

definition readStoredValue :: "local_storage \<Rightarrow> jstring \<Rightarrow> jsval option" where
  \<comment> \<open>\<open>None\<close> when \<open>JSON.parse\<close> throws\<close>
  "readStoredValue st key = (let saved = opt_str (st key) in if saved = [] then Some JNull else json_parse saved)"

definition readStoredMessagesValue :: "local_storage \<Rightarrow> jsval option \<times> local_storage" where
  "readStoredMessagesValue st =
     (let saved = opt_str (st MESSAGES_KEY) in
      if saved = [] then (Some JNull, st)
      else if length saved > MAX_STORED_MESSAGES_BYTES then (Some JNull, st(MESSAGES_KEY := None))
      else (json_parse saved, st))"

definition has_prop :: "jsval \<Rightarrow> jstring \<Rightarrow> bool" where
  \<comment> \<open>\<open>key in value\<close>\<close>
  "has_prop v key = (case v of JObj kvs \<Rightarrow> key \<in> fst ` set kvs | _ \<Rightarrow> False)"

definition unwrapStoredValue :: "jsval \<Rightarrow> jsval" where
  "unwrapStoredValue value =
     (if \<not> truthy value \<or> \<not> is_object value then value
      else if has_prop value (js ''version'') \<and> has_prop value (js ''data'') then js_prop value (js ''data'')
      else value)"

definition envelope :: "jsval \<Rightarrow> jsval" where
  "envelope data = JObj [(js ''version'', int_value STORAGE_VERSION), (js ''data'', data)]"

definition writeStoredValue :: "(jstring \<Rightarrow> bool) \<Rightarrow> jstring \<Rightarrow> jsval \<Rightarrow> local_storage \<Rightarrow> local_storage" where
  "writeStoredValue fits key data st =
     (let txt = to_json (envelope data) in if fits txt then st(key \<mapsto> txt) else st)"

definition trimMessages :: "Message list \<Rightarrow> Message list" where
  "trimMessages ms = (if length ms \<le> MAX_STORED_MESSAGES then ms else slice_last ms MAX_STORED_MESSAGES)"

definition getMessageSize :: "Message \<Rightarrow> nat" where
  "getMessageSize message =
     sum_list (map (\<lambda>version. length (v_content version)) (versions message)) +
     (case reasoning message of Some r \<Rightarrow> length (r_content r) | None \<Rightarrow> 0)"

definition TRUNCATED_CONTENT_SUFFIX :: jstring where
  "TRUNCATED_CONTENT_SUFFIX = [10, 10] @ js ''[...]''"

definition truncateText :: "jstring \<Rightarrow> nat \<Rightarrow> jstring" where
  "truncateText txt maxLength =
     (if length txt \<le> maxLength then txt
      else if maxLength \<le> length TRUNCATED_CONTENT_SUFFIX then take maxLength txt
      else take (maxLength - length TRUNCATED_CONTENT_SUFFIX) txt @ TRUNCATED_CONTENT_SUFFIX)"

section \<open>Repeated sections\<close>

definition MIN_PREFIX_COLLAPSE_LENGTH :: nat where
  "MIN_PREFIX_COLLAPSE_LENGTH = 2000"

definition MIN_REPEATED_SECTION_COUNT :: nat where
  "MIN_REPEATED_SECTION_COUNT = 3"

definition is_line_end :: "code_unit \<Rightarrow> bool" where
  "is_line_end c \<longleftrightarrow> c = 10 \<or> c = 13 \<or> c = 8232 \<or> c = 8233"

definition section_match :: "jstring \<Rightarrow> nat option" where
  \<comment> \<open>the length of the match of \<open>SECTION_HEADING_LINE_PATTERN\<close> at the beginning of a line; when only white
    space follows the point, the last \<open>\s+\<close> gives back what \<open>.+\<close> needs\<close>
  "section_match s =
     (let h = takeWhile (\<lambda>c. c = 35) s; s1 = drop (length h) s;
          w1 = takeWhile is_space s1; s2 = drop (length w1) s1;
          d = takeWhile is_digit s2; s3 = drop (length d) s2;
          s4 = drop 1 s3; w2 = takeWhile is_space s4; s5 = drop (length w2) s4;
          n = length h + length w1 + length d + 1 in
      if length h < 2 \<or> length h > 6 \<or> w1 = [] \<or> d = [] \<or> take 1 s3 \<noteq> [46] \<or> w2 = [] then None
      else if s5 \<noteq> [] then Some (n + length w2 + length (takeWhile (\<lambda>c. \<not> is_line_end c) s5))
      else
        (case last_index (\<lambda>c. \<not> is_line_end c) w2 of
           Some j \<Rightarrow> if j = 0 then None else Some (n + j + 1)
         | None \<Rightarrow> None))"

record SectionOccurrence =
  so_heading :: jstring
  so_index :: nat

function section_scan :: "nat \<Rightarrow> bool \<Rightarrow> jstring \<Rightarrow> SectionOccurrence list" where
  \<comment> \<open>\<open>matchAll\<close> from a position, which may be the beginning of a line\<close>
  "section_scan pos line_start [] = []"
| "section_scan pos line_start (c # cs) =
     (case (if line_start then section_match (c # cs) else None) of
        Some n \<Rightarrow> \<lparr>so_heading = take n (c # cs), so_index = pos\<rparr> # section_scan (pos + n) False (drop (n - 1) cs)
      | None \<Rightarrow> section_scan (pos + 1) (is_line_end c) cs)"
  by pat_completeness auto
termination
  by (relation "measure (\<lambda>(_, _, s). length s)") auto

definition getSectionOccurrences :: "jstring \<Rightarrow> SectionOccurrence list" where
  "getSectionOccurrences txt = section_scan 0 True txt"

definition getHeadingCounts :: "SectionOccurrence list \<Rightarrow> (jstring \<times> nat) list" where
  "getHeadingCounts occurrences =
     foldl (\<lambda>counts occurrence. AList.update (so_heading occurrence)
       ((case map_of counts (so_heading occurrence) of Some n \<Rightarrow> n | None \<Rightarrow> 0) + 1) counts) [] occurrences"

fun last_repeated :: "(jstring \<times> nat) list \<Rightarrow> jstring list \<Rightarrow> SectionOccurrence list \<Rightarrow> nat list" where
  \<comment> \<open>the backwards loop, on the reversed occurrences\<close>
  "last_repeated counts seen [] = []"
| "last_repeated counts seen (occurrence # rest) =
     (let count = (case map_of counts (so_heading occurrence) of Some n \<Rightarrow> n | None \<Rightarrow> 0) in
      if count < MIN_REPEATED_SECTION_COUNT \<or> so_heading occurrence \<in> set seen then last_repeated counts seen rest
      else so_index occurrence # last_repeated counts (so_heading occurrence # seen) rest)"

definition findLastRepeatedSectionRunStart :: "jstring \<Rightarrow> nat option" where
  \<comment> \<open>\<open>None\<close> for \<open>-1\<close>\<close>
  "findLastRepeatedSectionRunStart txt =
     (let occurrences = getSectionOccurrences txt; headingCounts = getHeadingCounts occurrences;
          lastRepeatedIndexes = last_repeated headingCounts [] (rev occurrences) in
      if lastRepeatedIndexes = [] then None else Some (Min (set lastRepeatedIndexes)))"

definition collapseRepeatedSectionSnapshots :: "jstring \<Rightarrow> jstring" where
  "collapseRepeatedSectionSnapshots txt =
     (if length txt < MIN_PREFIX_COLLAPSE_LENGTH then txt
      else (case findLastRepeatedSectionRunStart txt of None \<Rightarrow> txt | Some i \<Rightarrow> drop i txt))"

section \<open>Loading and saving a conversation\<close>

definition load_version :: "MessageVersion \<Rightarrow> MessageVersion" where
  "load_version version =
     version\<lparr>v_content := truncateText (collapseRepeatedSectionSnapshots (v_content version)) MAX_LOADED_MESSAGE_CHARS\<rparr>"

definition normalizeStoredMessageForLoad :: "clock \<Rightarrow> Message \<Rightarrow> Message" where
  \<comment> \<open>where nothing changes, the source keeps the object, which is the same message\<close>
  "normalizeStoredMessageForLoad now message =
     (let normalized =
            message\<lparr>versions := map load_version (versions message),
              reasoning := map_option (\<lambda>r. r\<lparr>r_content := truncateText (r_content r) MAX_LOADED_MESSAGE_CHARS\<rparr>)
                (reasoning message)\<rparr>;
          hasContent = hasMessageContent normalized;
          hasReasoning = (case reasoning normalized of Some r \<Rightarrow> trim (r_content r) \<noteq> [] | None \<Rightarrow> False) in
      if \<not> isAssistantMessagePending normalized then normalized
      else if \<not> hasContent \<and> \<not> hasReasoning then normalized
      else
        (let completed =
               (case completedAt normalized of Some t \<Rightarrow> t
                | None \<Rightarrow> (case Option.bind (reasoning normalized) r_completedAt of Some t \<Rightarrow> t
                | None \<Rightarrow> (case startedAt normalized of Some t \<Rightarrow> t
                | None \<Rightarrow> (case createdAt normalized of Some t \<Rightarrow> t | None \<Rightarrow> now 2)))) in
         completeAssistantTiming completed
           ((finalizeMessage now normalized None)\<lparr>status := Some CompleteStatus, isReasoningStreaming := Some False\<rparr>)))"

fun trim_loop :: "nat \<Rightarrow> Message list \<Rightarrow> Message list \<Rightarrow> Message list" where
  \<comment> \<open>the backwards loop of \<open>trimMessagesByContentSize\<close>, on the reversed messages\<close>
  "trim_loop totalSize [] result = result"
| "trim_loop totalSize (message # rest) result =
     (if length result > 0 \<and> totalSize + getMessageSize message > MAX_LOADED_MESSAGES_CHARS then result
      else trim_loop (totalSize + getMessageSize message) rest (result @ [message]))"

definition trimMessagesByContentSize :: "Message list \<Rightarrow> Message list" where
  "trimMessagesByContentSize ms = rev (trim_loop 0 (rev ms) [])"

definition saveMessages :: "StorageSchemas \<Rightarrow> (jstring \<Rightarrow> bool) \<Rightarrow> Message list \<Rightarrow> local_storage \<Rightarrow> local_storage" where
  "saveMessages z fits ms st =
     (case messagesParse z (messages_value (trimMessages ms)) of
        None \<Rightarrow> st
      | Some parsed \<Rightarrow> writeStoredValue fits MESSAGES_KEY (messages_value parsed) st)"

definition restore_messages :: "(jstring \<Rightarrow> jstring) \<Rightarrow> clock \<Rightarrow> Message list \<Rightarrow> Message list" where
  \<comment> \<open>what \<open>loadMessages\<close> makes of the parsed messages\<close>
  "restore_messages tr now parsed =
     sanitizeMessagesOnLoad tr (\<lambda>i. now (3 * length parsed + i))
       (trimMessagesByContentSize (trimMessages
         (map (\<lambda>(k, m). normalizeStoredMessageForLoad (\<lambda>i. now (3 * k + i)) m) (List.enumerate 0 parsed))))"

definition loadMessages ::
  "StorageSchemas \<Rightarrow> (jstring \<Rightarrow> jstring) \<Rightarrow> clock \<Rightarrow> (jstring \<Rightarrow> bool) \<Rightarrow> local_storage \<Rightarrow> Message list option \<times> local_storage" where
  \<comment> \<open>the list \<open>trimMessagesByContentSize\<close> returns is always a new one, so the result is always saved\<close>
  "loadMessages z tr now fits st =
     (case readStoredMessagesValue st of
        (None, st1) \<Rightarrow> (None, st1)
      | (Some saved, st1) \<Rightarrow>
          if \<not> truthy saved then (None, st1)
          else
            (case messagesParse z (unwrapStoredValue saved) of
               None \<Rightarrow> (None, st1)
             | Some parsed \<Rightarrow>
                 (let sanitized = restore_messages tr now parsed in (Some sanitized, saveMessages z fits sanitized st1))))"

definition clearPlaygroundData :: "local_storage \<Rightarrow> local_storage" where
  "clearPlaygroundData st = st(CONFIG_KEY := None, PARAMETER_ENABLED_KEY := None, MESSAGES_KEY := None)"

definition getInitialMessages ::
  "StorageSchemas \<Rightarrow> (jstring \<Rightarrow> jstring) \<Rightarrow> clock \<Rightarrow> (jstring \<Rightarrow> bool) \<Rightarrow> local_storage \<Rightarrow> Message list \<times> local_storage" where
  "getInitialMessages z tr now fits st =
     (case loadMessages z tr now fits st of (None, st1) \<Rightarrow> ([], st1) | (Some ms, st1) \<Rightarrow> (ms, st1))"

section \<open>The configuration\<close>

definition empty_config :: PartialConfig where
  "empty_config =
     \<lparr>pc_model = None, pc_group = None, pc_temperature = None, pc_top_p = None, pc_max_tokens = None,
      pc_frequency_penalty = None, pc_presence_penalty = None, pc_seed = None, pc_stream = None\<rparr>"

definition empty_enabled :: PartialEnabled where
  "empty_enabled =
     \<lparr>pp_temperature = None, pp_top_p = None, pp_max_tokens = None, pp_frequency_penalty = None,
      pp_presence_penalty = None, pp_seed = None\<rparr>"

definition config_fields :: "PartialConfig \<Rightarrow> (jstring \<times> jsval) list" where
  "config_fields c =
     (present ''model'' JStr (pc_model c) @ present ''group'' JStr (pc_group c) @
       present ''temperature'' JNum (pc_temperature c) @ present ''top_p'' JNum (pc_top_p c) @
       present ''max_tokens'' JNum (pc_max_tokens c) @ present ''frequency_penalty'' JNum (pc_frequency_penalty c) @
       present ''presence_penalty'' JNum (pc_presence_penalty c) @
       present ''seed'' (\<lambda>s. case s of None \<Rightarrow> JNull | Some q \<Rightarrow> JNum q) (pc_seed c) @
       present ''stream'' JBool (pc_stream c))"

definition config_value :: "PartialConfig \<Rightarrow> jsval" where
  "config_value c = JObj (config_fields c)"

definition enabled_fields :: "PartialEnabled \<Rightarrow> (jstring \<times> jsval) list" where
  "enabled_fields e =
     (present ''temperature'' JBool (pp_temperature e) @ present ''top_p'' JBool (pp_top_p e) @
       present ''max_tokens'' JBool (pp_max_tokens e) @ present ''frequency_penalty'' JBool (pp_frequency_penalty e) @
       present ''presence_penalty'' JBool (pp_presence_penalty e) @ present ''seed'' JBool (pp_seed e))"

definition enabled_value :: "PartialEnabled \<Rightarrow> jsval" where
  "enabled_value e = JObj (enabled_fields e)"

definition load_with :: "(jsval \<Rightarrow> 'a option) \<Rightarrow> 'a \<Rightarrow> local_storage \<Rightarrow> jstring \<Rightarrow> 'a" where
  \<comment> \<open>the body \<open>loadConfig\<close> and \<open>loadParameterEnabled\<close> share\<close>
  "load_with schema dflt st key =
     (case readStoredValue st key of
        None \<Rightarrow> dflt
      | Some saved \<Rightarrow>
          if \<not> truthy saved then dflt
          else (case schema (unwrapStoredValue saved) of Some x \<Rightarrow> x | None \<Rightarrow> dflt))"

definition loadConfig :: "StorageSchemas \<Rightarrow> local_storage \<Rightarrow> PartialConfig" where
  "loadConfig z st = load_with (configParse z) empty_config st CONFIG_KEY"

definition loadParameterEnabled :: "StorageSchemas \<Rightarrow> local_storage \<Rightarrow> PartialEnabled" where
  "loadParameterEnabled z st = load_with (enabledParse z) empty_enabled st PARAMETER_ENABLED_KEY"

definition saveConfig :: "StorageSchemas \<Rightarrow> (jstring \<Rightarrow> bool) \<Rightarrow> PartialConfig \<Rightarrow> local_storage \<Rightarrow> local_storage" where
  "saveConfig z fits config st =
     (case configParse z (config_value config) of
        None \<Rightarrow> st | Some parsed \<Rightarrow> writeStoredValue fits CONFIG_KEY (config_value parsed) st)"

definition saveParameterEnabled :: "StorageSchemas \<Rightarrow> (jstring \<Rightarrow> bool) \<Rightarrow> PartialEnabled \<Rightarrow> local_storage \<Rightarrow> local_storage" where
  "saveParameterEnabled z fits enabled st =
     (case enabledParse z (enabled_value enabled) of
        None \<Rightarrow> st | Some parsed \<Rightarrow> writeStoredValue fits PARAMETER_ENABLED_KEY (enabled_value parsed) st)"

definition opt_default :: "'a option \<Rightarrow> 'a \<Rightarrow> 'a" where
  "opt_default x d = (case x of Some y \<Rightarrow> y | None \<Rightarrow> d)"

definition getInitialPlaygroundConfig :: "StorageSchemas \<Rightarrow> local_storage \<Rightarrow> PlaygroundConfig" where
  "getInitialPlaygroundConfig z st =
     (let c = loadConfig z st; d = DEFAULT_CONFIG in
      \<lparr>cfg_model = opt_default (pc_model c) (cfg_model d), cfg_group = opt_default (pc_group c) (cfg_group d),
       cfg_temperature = opt_default (pc_temperature c) (cfg_temperature d),
       cfg_top_p = opt_default (pc_top_p c) (cfg_top_p d),
       cfg_max_tokens = opt_default (pc_max_tokens c) (cfg_max_tokens d),
       cfg_frequency_penalty = opt_default (pc_frequency_penalty c) (cfg_frequency_penalty d),
       cfg_presence_penalty = opt_default (pc_presence_penalty c) (cfg_presence_penalty d),
       cfg_seed = opt_default (pc_seed c) (cfg_seed d), cfg_stream = opt_default (pc_stream c) (cfg_stream d)\<rparr>)"

definition getInitialParameterEnabled :: "StorageSchemas \<Rightarrow> local_storage \<Rightarrow> ParameterEnabled" where
  "getInitialParameterEnabled z st =
     (let e = loadParameterEnabled z st; d = DEFAULT_PARAMETER_ENABLED in
      \<lparr>pe_temperature = opt_default (pp_temperature e) (pe_temperature d),
       pe_top_p = opt_default (pp_top_p e) (pe_top_p d), pe_max_tokens = opt_default (pp_max_tokens e) (pe_max_tokens d),
       pe_frequency_penalty = opt_default (pp_frequency_penalty e) (pe_frequency_penalty d),
       pe_presence_penalty = opt_default (pp_presence_penalty e) (pe_presence_penalty d),
       pe_seed = opt_default (pp_seed e) (pe_seed d)\<rparr>)"

end
