(* ===== verification/Playground_Reload.thy ===== *)
theory Playground_Reload
  imports Playground_Storage Playground_Runs
begin

text \<open>
  What a reload of the page gives back: the schemas read the values they describe, a stored value comes back
  through its text, a restored conversation is a bounded end of the stored one with nothing pending,
  and the conversations for which the limits lose what was saved.
\<close>

section \<open>Schemas read what they describe\<close>

lemma js_eq_iff [simp]: "js a = js b \<longleftrightarrow> a = b"
  unfolding js_def by (rule inj_map_eq_map) (simp add: inj_on_def)

lemma map_of_present [simp]:
  "map_of (present k f x @ rest) (js key) =
     (if k = key then (case x of Some y \<Rightarrow> Some (f y) | None \<Rightarrow> map_of rest (js key)) else map_of rest (js key))"
  "map_of (present k f x) (js key) = (if k = key then map_option f x else None)"
  by (auto simp: present_def split: option.split)

definition opt_value :: "('a \<Rightarrow> jsval) \<Rightarrow> 'a option \<Rightarrow> jsval" where
  "opt_value f x = (case x of Some y \<Rightarrow> f y | None \<Rightarrow> JUndef)"

lemma prop_present:
  "k \<noteq> key \<Longrightarrow> js_prop (JObj (present k f x @ rest)) (js key) = js_prop (JObj rest) (js key)"
  "map_of rest (js key) = None \<Longrightarrow> js_prop (JObj (present key f x @ rest)) (js key) = opt_value f x"
  "js_prop (JObj (present k f x)) (js key) = (if k = key then opt_value f x else JUndef)"
  "js_prop (JObj ((js k, v) # rest)) (js key) = (if key = k then v else js_prop (JObj rest) (js key))"
  by (auto simp: js_prop_def opt_value_def present_def split: option.split)

lemma z_optional_value:
  assumes "\<And>y. x = Some y \<Longrightarrow> p (f y) = Some y \<and> f y \<noteq> JUndef"
  shows "z_optional p (opt_value f x) = Some x"
  using assms by (cases x) (auto simp: z_optional_def opt_value_def)

lemma z_int_value [simp]: "z_int (int_value n) = Some n" "int_value n \<noteq> JUndef"
  by (simp_all add: z_int_def int_value_def)

lemma z_all_map: "(\<And>x. x \<in> set xs \<Longrightarrow> p (f x) = Some x) \<Longrightarrow> z_all p (map f xs) = Some xs"
  by (induction xs) auto

lemma role_schema [simp]: "messageRoleSchema (JStr (role_name r)) = Some r"
  by (cases r) (simp_all add: messageRoleSchema_def z_enum_def role_names_def role_name_def)

lemma status_schema [simp]: "messageStatusSchema (JStr (status_name s)) = Some s"
  by (cases s) (simp_all add: messageStatusSchema_def z_enum_def status_names_def status_name_def)

lemma version_schema [simp]: "messageVersionSchema (version_value v) = Some v"
  by (simp add: messageVersionSchema_def version_value_def js_prop_def)

lemma source_schema [simp]: "sourceSchema (source_value s) = Some s"
  by (simp add: sourceSchema_def source_value_def js_prop_def)

lemma reasoning_schema [simp]: "reasoningSchema (reasoning_value r) = Some r" "reasoning_value r \<noteq> JUndef"
  by (simp_all add: reasoningSchema_def reasoning_value_def prop_present z_optional_value del: map_of_append)

lemma error_code_schema:
  "z_optional (z_nullable z_string) (opt_value (\<lambda>e. case e of None \<Rightarrow> JNull | Some c \<Rightarrow> JStr c) x) = Some x"
  by (rule z_optional_value) (auto simp: z_nullable_def split: option.split)

lemma sources_schema:
  "z_optional (z_array sourceSchema) (opt_value (\<lambda>ss. JArr (map source_value ss)) x) = Some x"
  by (rule z_optional_value) (simp add: z_all_map)

lemma message_schema:
  assumes "versions m \<noteq> []"
  shows "messageSchema (JObj (message_fields m)) = Some m"
  using assms
  by (simp add: messageSchema_def message_fields_def prop_present z_all_map z_optional_value error_code_schema
      sources_schema del: map_of_append)

lemma messages_schema: "(\<And>m. m \<in> set ms \<Longrightarrow> versions m \<noteq> []) \<Longrightarrow> messagesSchema (messages_value ms) = Some ms"
  by (simp add: messagesSchema_def messages_value_def z_all_map message_schema)

section \<open>Stored values come back\<close>

lemma obj_ordered_snoc:
  assumes "distinct (map fst kvs)" "\<And>k. k \<in> fst ` set kvs \<Longrightarrow> \<not> is_index k"
  shows "foldl (\<lambda>acc kv. obj_set acc (fst kv) (snd kv)) [] kvs = kvs"
  using assms
proof (induction kvs rule: rev_induct)
  case (snoc kv kvs)
  then show ?case
    by (auto simp: obj_set_def)
qed simp

lemma obj_ordered_names:
  "distinct (map fst kvs) \<Longrightarrow> \<forall>k \<in> fst ` set kvs. \<not> is_index k \<Longrightarrow> obj_ordered kvs"
  unfolding obj_ordered_def by (rule obj_ordered_snoc) auto

lemma name_not_index: "\<not> is_digit (hd k) \<Longrightarrow> \<not> is_index k"
  by (cases k) (auto simp: is_index_def)

lemma fst_present [simp]:
  "js key \<in> fst ` set (present k f x) \<longleftrightarrow> k = key \<and> x \<noteq> None"
  "distinct (map fst (present k f x))"
  "fst ` set (present k f x) \<subseteq> {js k}"
  by (auto simp: present_def split: option.split)

definition fields_of :: "string list \<Rightarrow> (jstring \<times> jsval) list \<Rightarrow> bool" where
  \<comment> \<open>properties with these names, each at most once\<close>
  "fields_of ks kvs \<longleftrightarrow> distinct (map fst kvs) \<and> fst ` set kvs \<subseteq> js ` set ks"

lemma fields_of_intros:
  "fields_of [] []"
  "fields_of [k] (present k f x)"
  "k \<notin> set ks \<Longrightarrow> fields_of ks rest \<Longrightarrow> fields_of (k # ks) (present k f x @ rest)"
  "k \<notin> set ks \<Longrightarrow> fields_of ks rest \<Longrightarrow> fields_of (k # ks) ((js k, v) # rest)"
  by (auto simp: fields_of_def present_def split: option.split)

lemma fields_ordered:
  assumes "fields_of ks kvs" and "list_all (\<lambda>k. \<not> is_digit (hd (js k))) ks"
  shows "obj_ordered kvs"
proof (rule obj_ordered_names)
  show "distinct (map fst kvs)"
    using assms(1) by (simp add: fields_of_def)
  show "\<forall>k \<in> fst ` set kvs. \<not> is_index k"
  proof
    fix k
    assume "k \<in> fst ` set kvs"
    then obtain n where "n \<in> set ks" "k = js n"
      using assms(1) unfolding fields_of_def by blast
    then show "\<not> is_index k"
      using assms(2) by (simp add: list_all_iff name_not_index)
  qed
qed

lemma all_present [simp]: "list_all P (present k f x) \<longleftrightarrow> pred_option (\<lambda>y. P (js k, f y)) x"
  by (simp add: present_def split: option.split)

lemma pred_option_True [simp]: "pred_option (\<lambda>_. True) x"
  by (cases x) simp_all

lemma json_ok_nullable [simp]:
  "json_ok (case x of None \<Rightarrow> JNull | Some q \<Rightarrow> JNum q) = pred_option (short_decimal 20) x"
  "json_ok (case y of None \<Rightarrow> JNull | Some t \<Rightarrow> JStr t) = pred_option text_ok y"
  by (simp_all split: option.split)

lemma text_ok_js [simp]: "text_ok (js s)"
proof -
  have "of_char c < (65536 :: nat)" for c :: char
  proof -
    have "(of_char c :: nat) mod 256 < 256"
      by (rule mod_less_divisor) simp
    then show ?thesis
      using of_char_mod_256 [of c, where 'a = nat] by linarith
  qed
  then show ?thesis by (simp add: text_ok_def js_def list_all_iff)
qed

lemma json_ok_int [simp]: "json_ok (int_value n)"
  by (simp add: int_value_def short_decimal_int)

lemma envelope_simps [simp]:
  "json_ok (envelope v) = json_ok v" "truthy (envelope v)" "unwrapStoredValue (envelope v) = v" "to_json (envelope v) \<noteq> []"
proof -
  have "obj_ordered [(js ''version'', int_value STORAGE_VERSION), (js ''data'', v)]"
    by (rule obj_ordered_names) (simp_all add: name_not_index is_digit_def js_Cons)
  then show "json_ok (envelope v) = json_ok v"
    by (simp add: envelope_def)
  show "truthy (envelope v)" "unwrapStoredValue (envelope v) = v" "to_json (envelope v) \<noteq> []"
    by (simp_all add: envelope_def truthy_def unwrapStoredValue_def is_object_def has_prop_def js_prop_def)
qed

locale stored_codec =
  fixes enc :: "'a \<Rightarrow> jsval"
    and schema :: "jsval \<Rightarrow> 'a option"
    and good :: "'a \<Rightarrow> bool"
  assumes schema_enc: "good x \<Longrightarrow> schema (enc x) = Some x"
    and enc_ok: "good x \<Longrightarrow> json_ok (enc x)"
begin

lemma text_read: "good x \<Longrightarrow> json_parse (to_json (envelope (enc x))) = Some (envelope (enc x))"
  by (rule json_round_trip) (simp add: enc_ok)

lemma load_written:
  assumes "good x" and "fits (to_json (envelope (enc x)))"
  shows "load_with schema d (writeStoredValue fits key (enc x) st) key = x"
  using assms by (simp add: load_with_def readStoredValue_def writeStoredValue_def opt_str_def text_read schema_enc Let_def)

end

definition config_ok :: "PartialConfig \<Rightarrow> bool" where
  \<comment> \<open>UTF-16 texts and numbers with at most twenty decimals\<close>
  "config_ok c \<longleftrightarrow>
     pred_option text_ok (pc_model c) \<and> pred_option text_ok (pc_group c) \<and>
     pred_option (short_decimal 20) (pc_temperature c) \<and> pred_option (short_decimal 20) (pc_top_p c) \<and>
     pred_option (short_decimal 20) (pc_max_tokens c) \<and> pred_option (short_decimal 20) (pc_frequency_penalty c) \<and>
     pred_option (short_decimal 20) (pc_presence_penalty c) \<and> pred_option (pred_option (short_decimal 20)) (pc_seed c)"

lemma seed_schema:
  "z_optional (z_nullable z_number) (opt_value (\<lambda>s. case s of None \<Rightarrow> JNull | Some q \<Rightarrow> JNum q) x) = Some x"
  by (rule z_optional_value) (auto simp: z_nullable_def split: option.split)

lemma config_schema: "playgroundConfigSchema (config_value c) = Some c"
  by (simp add: playgroundConfigSchema_def config_value_def config_fields_def prop_present z_optional_value seed_schema del: map_of_append)

lemma enabled_schema: "parameterEnabledSchema (enabled_value e) = Some e"
  by (simp add: parameterEnabledSchema_def enabled_value_def enabled_fields_def prop_present z_optional_value del: map_of_append)

lemma config_json_ok:
  assumes "config_ok c"
  shows "json_ok (config_value c)"
proof -
  have "fields_of [''model'', ''group'', ''temperature'', ''top_p'', ''max_tokens'', ''frequency_penalty'',
      ''presence_penalty'', ''seed'', ''stream''] (config_fields c)"
    unfolding config_fields_def by (intro fields_of_intros; simp)
  then have "obj_ordered (config_fields c)"
    by (rule fields_ordered) (simp add: is_digit_def js_Cons)
  moreover have "list_all (\<lambda>kv. text_ok (fst kv) \<and> json_ok (snd kv)) (config_fields c)"
    using assms unfolding config_fields_def config_ok_def by simp
  ultimately show ?thesis
    by (simp add: config_value_def)
qed

lemma enabled_json_ok: "json_ok (enabled_value e)"
proof -
  have "fields_of [''temperature'', ''top_p'', ''max_tokens'', ''frequency_penalty'', ''presence_penalty'', ''seed'']
      (enabled_fields e)"
    unfolding enabled_fields_def by (intro fields_of_intros; simp)
  then have "obj_ordered (enabled_fields e)"
    by (rule fields_ordered) (simp add: is_digit_def js_Cons)
  moreover have "list_all (\<lambda>kv. text_ok (fst kv) \<and> json_ok (snd kv)) (enabled_fields e)"
    unfolding enabled_fields_def by simp
  ultimately show ?thesis
    by (simp add: enabled_value_def)
qed

definition message_texts_ok :: "Message \<Rightarrow> bool" where
  "message_texts_ok m \<longleftrightarrow>
     text_ok (msg_key m) \<and> list_all (\<lambda>v. text_ok (v_id v) \<and> text_ok (v_content v)) (versions m) \<and>
     pred_option (list_all (\<lambda>s. text_ok (fst s) \<and> text_ok (snd s))) (sources m) \<and>
     pred_option (\<lambda>r. text_ok (r_content r)) (reasoning m) \<and> pred_option (pred_option text_ok) (errorCode m)"

definition storable :: "Message \<Rightarrow> bool" where
  \<comment> \<open>what the schema accepts and JSON keeps\<close>
  "storable m \<longleftrightarrow> versions m \<noteq> [] \<and> message_texts_ok m"

lemma version_json_ok: "text_ok (v_id v) \<Longrightarrow> text_ok (v_content v) \<Longrightarrow> json_ok (version_value v)"
proof -
  assume "text_ok (v_id v)" "text_ok (v_content v)"
  moreover have "obj_ordered [(js ''id'', JStr (v_id v)), (js ''content'', JStr (v_content v))]"
    by (rule obj_ordered_names) (simp_all add: name_not_index is_digit_def js_Cons)
  ultimately show ?thesis
    by (simp add: version_value_def)
qed

lemma source_json_ok: "text_ok (fst s) \<Longrightarrow> text_ok (snd s) \<Longrightarrow> json_ok (source_value s)"
proof -
  assume "text_ok (fst s)" "text_ok (snd s)"
  moreover have "obj_ordered [(js ''href'', JStr (fst s)), (js ''title'', JStr (snd s))]"
    by (rule obj_ordered_names) (simp_all add: name_not_index is_digit_def js_Cons)
  ultimately show ?thesis
    by (simp add: source_value_def)
qed

lemma reasoning_json_ok: "text_ok (r_content r) \<Longrightarrow> json_ok (reasoning_value r)"
proof -
  assume t: "text_ok (r_content r)"
  have "fields_of [''content'', ''duration'', ''startedAt'', ''completedAt'', ''durationMs'']
      ([(js ''content'', JStr (r_content r)), (js ''duration'', int_value (r_duration r))] @
       present ''startedAt'' int_value (r_startedAt r) @ present ''completedAt'' int_value (r_completedAt r) @
       present ''durationMs'' int_value (r_durationMs r))"
    unfolding append_Cons append_Nil by (intro fields_of_intros; simp)
  moreover have "list_all (\<lambda>k. \<not> is_digit (hd (js k))) [''content'', ''duration'', ''startedAt'', ''completedAt'', ''durationMs'']"
    by (simp add: is_digit_def js_Cons)
  ultimately show ?thesis
    using t fields_ordered by (simp add: reasoning_value_def)
qed

lemma message_json_ok:
  assumes "message_texts_ok m"
  shows "json_ok (JObj (message_fields m))"
proof -
  have "fields_of [''key'', ''from'', ''versions'', ''createdAt'', ''startedAt'', ''completedAt'', ''durationMs'',
      ''sources'', ''reasoning'', ''isReasoningStreaming'', ''isReasoningComplete'', ''isContentComplete'', ''status'',
      ''errorCode''] (message_fields m)"
    unfolding message_fields_def append_Cons append_Nil by (intro fields_of_intros; simp)
  then have "obj_ordered (message_fields m)"
    by (rule fields_ordered) (simp add: is_digit_def js_Cons)
  moreover have "text_ok (role_name (msg_from m))" "text_ok (status_name st)" for st
    by (simp_all add: role_name_def status_name_def split: MessageRole.split MessageStatus.split)
  moreover have "list_all json_ok (map version_value (versions m))"
    using assms by (auto simp: message_texts_ok_def list_all_iff intro: version_json_ok)
  moreover have "pred_option (\<lambda>ss. list_all json_ok (map source_value ss)) (sources m)"
    using assms by (cases "sources m") (auto simp: message_texts_ok_def list_all_iff intro: source_json_ok)
  moreover have "pred_option (\<lambda>r. json_ok (reasoning_value r)) (reasoning m)"
    using assms by (cases "reasoning m") (auto simp: message_texts_ok_def intro: reasoning_json_ok)
  ultimately show ?thesis
    using assms unfolding message_fields_def message_texts_ok_def by simp
qed

interpretation config: stored_codec config_value playgroundConfigSchema config_ok
  by unfold_locales (rule config_schema, rule config_json_ok)

interpretation enabled: stored_codec enabled_value parameterEnabledSchema "\<lambda>_. True"
  by unfold_locales (rule enabled_schema, rule enabled_json_ok)

lemma messages_json_ok: "list_all storable ms \<Longrightarrow> json_ok (messages_value ms)"
  using message_json_ok by (simp add: list_all_iff storable_def messages_value_def del: json_ok.simps(7))

interpretation conversation: stored_codec messages_value messagesSchema "list_all storable"
  by unfold_locales (auto simp: list_all_iff storable_def intro: messages_schema messages_json_ok [unfolded list_all_iff storable_def])

text \<open>
  What the operations rely on of the schemas: each accepts the values it describes and returns them as they are.
\<close>

definition schemas_accept :: "StorageSchemas \<Rightarrow> bool" where
  "schemas_accept z \<longleftrightarrow>
     (\<forall>ms. list_all storable ms \<longrightarrow> messagesParse z (messages_value ms) = Some ms) \<and>
     (\<forall>c. config_ok c \<longrightarrow> configParse z (config_value c) = Some c) \<and>
     (\<forall>e. enabledParse z (enabled_value e) = Some e)"

lemma documented_schemas_accept: "schemas_accept documented_schemas"
  by (simp add: schemas_accept_def documented_schemas_def conversation.schema_enc config_schema enabled_schema)

lemma schemas_codecs:
  assumes "schemas_accept z"
  shows "stored_codec messages_value (messagesParse z) (list_all storable)"
    and "stored_codec config_value (configParse z) config_ok"
    and "stored_codec enabled_value (enabledParse z) (\<lambda>_. True)"
  using assms
  by (unfold_locales, simp_all add: schemas_accept_def messages_json_ok config_json_ok enabled_json_ok)

text \<open>
  The stored settings come back. For texts of UTF-16 units and numbers of at most twenty decimals, what
  \<open>loadConfig\<close> and \<open>loadParameterEnabled\<close> read after \<open>saveConfig\<close> and \<open>saveParameterEnabled\<close> wrote it is exactly
  what was saved, absent and \<open>null\<close> settings included, if the browser took the text; saving one does
  not disturb the other.
\<close>

theorem stored_settings_come_back:
  assumes "schemas_accept z" and "config_ok c" and "fits (to_json (envelope (config_value c)))" and "fits (to_json (envelope (enabled_value e)))"
  shows "let st' = saveParameterEnabled z fits e (saveConfig z fits c st) in
    loadConfig z st' = c \<and> loadParameterEnabled z st' = e \<and> st' MESSAGES_KEY = st MESSAGES_KEY"
proof -
  have keys: "CONFIG_KEY \<noteq> PARAMETER_ENABLED_KEY" "MESSAGES_KEY \<noteq> PARAMETER_ENABLED_KEY" "MESSAGES_KEY \<noteq> CONFIG_KEY"
    by (simp_all add: CONFIG_KEY_def PARAMETER_ENABLED_KEY_def MESSAGES_KEY_def)
  have other: "load_with sc d (writeStoredValue fits k v st0) k' = load_with sc d st0 k'" if "k' \<noteq> k"
    for sc :: "jsval \<Rightarrow> 'b option" and d k v st0 k'
    using that by (simp add: load_with_def readStoredValue_def writeStoredValue_def Let_def)
  show ?thesis
    using stored_codec.load_written [OF schemas_codecs(2) [OF assms(1)], of c fits empty_config CONFIG_KEY st, OF assms(2,3)]
      stored_codec.load_written [OF schemas_codecs(3) [OF assms(1)], of fits e empty_enabled PARAMETER_ENABLED_KEY, OF TrueI assms(4)]
      keys assms(1,2)
    by (simp add: loadConfig_def loadParameterEnabled_def saveConfig_def saveParameterEnabled_def schemas_accept_def
        other Let_def) (simp add: writeStoredValue_def Let_def)
qed

theorem stored_settings_come_back_witness:
  "loadConfig documented_schemas (saveParameterEnabled documented_schemas (\<lambda>_. True) empty_enabled (saveConfig documented_schemas (\<lambda>_. True)
     (empty_config\<lparr>pc_model := Some (js ''gpt-4o''), pc_temperature := Some (7 / 10), pc_seed := Some None\<rparr>) Map.empty)) =
   empty_config\<lparr>pc_model := Some (js ''gpt-4o''), pc_temperature := Some (7 / 10), pc_seed := Some None\<rparr>"
proof -
  have "config_ok (empty_config\<lparr>pc_model := Some (js ''gpt-4o''), pc_temperature := Some (7 / 10), pc_seed := Some None\<rparr>)"
    by (simp add: config_ok_def empty_config_def short_decimal_def)
  then show ?thesis
    using stored_settings_come_back [OF documented_schemas_accept, of _ "\<lambda>_. True" empty_enabled Map.empty]
    by (simp add: Let_def)
qed

section \<open>Trimming\<close>

definition total_size :: "Message list \<Rightarrow> nat" where
  "total_size ms = sum_list (map getMessageSize ms)"

lemma total_size_append [simp]: "total_size (xs @ ys) = total_size xs + total_size ys" "total_size [] = 0"
  "total_size (rev xs) = total_size xs"
  by (simp_all add: total_size_def rev_map [symmetric] sum_list_rev)

lemma trim_loop_prefix:
  assumes "t = total_size res" and "length res \<le> 1 \<or> t \<le> MAX_LOADED_MESSAGES_CHARS"
  shows "\<exists>k \<le> length ms. trim_loop t ms res = res @ take k ms \<and>
    (length (res @ take k ms) \<le> 1 \<or> total_size (res @ take k ms) \<le> MAX_LOADED_MESSAGES_CHARS) \<and>
    (k < length ms \<longrightarrow> res @ take k ms \<noteq> [] \<and> total_size (res @ take k ms) + getMessageSize (ms ! k) > MAX_LOADED_MESSAGES_CHARS)"
  using assms
proof (induction ms arbitrary: t res)
  case (Cons m ms)
  show ?case
  proof (cases "length res > 0 \<and> t + getMessageSize m > MAX_LOADED_MESSAGES_CHARS")
    case True
    then show ?thesis
      using Cons.prems by (intro exI [of _ 0]) auto
  next
    case False
    have t: "t + getMessageSize m = total_size (res @ [m])"
      using Cons.prems(1) by (simp add: total_size_def)
    have "length (res @ [m]) \<le> 1 \<or> t + getMessageSize m \<le> MAX_LOADED_MESSAGES_CHARS"
      using False by auto
    from Cons.IH [OF t this] obtain k where k: "k \<le> length ms"
      "trim_loop (t + getMessageSize m) ms (res @ [m]) = (res @ [m]) @ take k ms"
      "length ((res @ [m]) @ take k ms) \<le> 1 \<or> total_size ((res @ [m]) @ take k ms) \<le> MAX_LOADED_MESSAGES_CHARS"
      "k < length ms \<longrightarrow> (res @ [m]) @ take k ms \<noteq> [] \<and>
        total_size ((res @ [m]) @ take k ms) + getMessageSize (ms ! k) > MAX_LOADED_MESSAGES_CHARS"
      by blast
    show ?thesis
    proof (intro exI [of _ "Suc k"] conjI)
      show "trim_loop t (m # ms) res = res @ take (Suc k) (m # ms)"
        using False k(2) by auto
    qed (use k in auto)
  qed
qed auto

lemma trimmed_end:
  "\<exists>k \<le> length ms. trimMessagesByContentSize ms = drop k ms \<and>
     (length (drop k ms) \<le> 1 \<or> total_size (drop k ms) \<le> MAX_LOADED_MESSAGES_CHARS) \<and>
     (k > 0 \<longrightarrow> drop k ms \<noteq> [] \<and> total_size (drop k ms) + getMessageSize (ms ! (k - 1)) > MAX_LOADED_MESSAGES_CHARS)"
proof -
  obtain j where j: "j \<le> length ms" "trim_loop 0 (rev ms) [] = take j (rev ms)"
    "length (take j (rev ms)) \<le> 1 \<or> total_size (take j (rev ms)) \<le> MAX_LOADED_MESSAGES_CHARS"
    "j < length ms \<longrightarrow> take j (rev ms) \<noteq> [] \<and> total_size (take j (rev ms)) + getMessageSize (rev ms ! j) > MAX_LOADED_MESSAGES_CHARS"
    using trim_loop_prefix [of 0 "[]" "rev ms"] by auto
  have tk: "take j (rev ms) = rev (drop (length ms - j) ms)"
    by (simp add: take_rev)
  have nth: "rev ms ! j = ms ! (length ms - j - 1)" if "j < length ms"
    using that by (simp add: rev_nth)
  show ?thesis
    using j tk nth by (intro exI [of _ "length ms - j"]) (auto simp: trimMessagesByContentSize_def)
qed

definition normalized_messages :: "clock \<Rightarrow> Message list \<Rightarrow> Message list" where
  "normalized_messages now parsed =
     map (\<lambda>(k, m). normalizeStoredMessageForLoad (\<lambda>i. now (3 * k + i)) m) (List.enumerate 0 parsed)"

lemma length_normalized [simp]: "length (normalized_messages now parsed) = length parsed"
  by (simp add: normalized_messages_def)

lemma restore_kept:
  "\<exists>k \<le> length parsed. trimMessagesByContentSize (trimMessages (normalized_messages now parsed)) =
      drop k (normalized_messages now parsed) \<and>
    (let kept = drop k (normalized_messages now parsed) in
     length kept \<le> MAX_STORED_MESSAGES \<and> (length kept \<le> 1 \<or> total_size kept \<le> MAX_LOADED_MESSAGES_CHARS) \<and>
     (k > 0 \<longrightarrow> kept \<noteq> [] \<and> (length kept = MAX_STORED_MESSAGES \<or>
       total_size kept + getMessageSize (normalized_messages now parsed ! (k - 1)) > MAX_LOADED_MESSAGES_CHARS)))"
proof -
  let ?ms = "normalized_messages now parsed"
  define d where "d = length ?ms - min (length ?ms) MAX_STORED_MESSAGES"
  have tr: "trimMessages ?ms = drop d ?ms"
    by (simp add: trimMessages_def slice_last_def d_def)
  obtain k where k: "k \<le> length (drop d ?ms)" "trimMessagesByContentSize (drop d ?ms) = drop k (drop d ?ms)"
    "length (drop k (drop d ?ms)) \<le> 1 \<or> total_size (drop k (drop d ?ms)) \<le> MAX_LOADED_MESSAGES_CHARS"
    "k > 0 \<longrightarrow> drop k (drop d ?ms) \<noteq> [] \<and>
      total_size (drop k (drop d ?ms)) + getMessageSize (drop d ?ms ! (k - 1)) > MAX_LOADED_MESSAGES_CHARS"
    using trimmed_end [of "drop d ?ms"] by blast
  have nth: "drop d ?ms ! (k - 1) = ?ms ! (k + d - 1)" if "k > 0"
    using that k(1) by (simp add: nth_drop add.commute)
  have len: "length (drop d ?ms) = min (length ?ms) MAX_STORED_MESSAGES" "d \<le> length parsed"
    by (simp_all add: d_def)
  have full: "k = 0 \<Longrightarrow> d > 0 \<Longrightarrow> length (drop (k + d) ?ms) = MAX_STORED_MESSAGES \<and> drop (k + d) ?ms \<noteq> []"
    by (auto simp: d_def MAX_STORED_MESSAGES_def)
  show ?thesis
    using k nth len full unfolding tr by (intro exI [of _ "k + d"]) (auto simp: Let_def)
qed

section \<open>What is restored\<close>

lemma restore_messages_eq:
  "restore_messages tr now parsed =
     sanitizeMessagesOnLoad tr (\<lambda>i. now (3 * length parsed + i))
       (trimMessagesByContentSize (trimMessages (normalized_messages now parsed)))"
  by (simp add: restore_messages_def normalized_messages_def)

text \<open>
  C27: What a reload shows is a bounded end of what was stored. The restored conversation is made from the last
  messages, each normalized; there are at most 100 of them, and together they have at most
  120000 characters unless there is only one. Nothing is dropped without need: there are 100, or the next
  older message would not have fitted. The repair of an interrupted answer then keeps their number.
\<close>

theorem restored_conversation_is_bounded_end:
  "\<exists>k \<le> length parsed. let kept = drop k (normalized_messages now parsed) in
     restore_messages tr now parsed = sanitizeMessagesOnLoad tr (\<lambda>i. now (3 * length parsed + i)) kept \<and>
     length (restore_messages tr now parsed) = length kept \<and> length kept \<le> 100 \<and>
     (length kept \<le> 1 \<or> total_size kept \<le> 120000) \<and>
     (k = 0 \<or> length kept = 100 \<or> total_size kept + getMessageSize (normalized_messages now parsed ! (k - 1)) > 120000)"
proof -
  obtain k where k: "k \<le> length parsed"
    "trimMessagesByContentSize (trimMessages (normalized_messages now parsed)) = drop k (normalized_messages now parsed)"
    "let kept = drop k (normalized_messages now parsed) in
     length kept \<le> MAX_STORED_MESSAGES \<and> (length kept \<le> 1 \<or> total_size kept \<le> MAX_LOADED_MESSAGES_CHARS) \<and>
     (k > 0 \<longrightarrow> kept \<noteq> [] \<and> (length kept = MAX_STORED_MESSAGES \<or>
       total_size kept + getMessageSize (normalized_messages now parsed ! (k - 1)) > MAX_LOADED_MESSAGES_CHARS))"
    using restore_kept by blast
  have len: "length (sanitizeMessagesOnLoad tr c ms) = length ms" for c ms
    by (simp add: sanitizeMessagesOnLoad_def split: option.split)
  show ?thesis
    using k unfolding Let_def MAX_STORED_MESSAGES_def MAX_LOADED_MESSAGES_CHARS_def
    by (intro exI [of _ k]) (auto simp: restore_messages_eq len)
qed

lemma last_index_Some:
  "last_index P xs = Some i \<Longrightarrow> i < length xs \<and> P (xs ! i) \<and> (\<forall>j. i < j \<and> j < length xs \<longrightarrow> \<not> P (xs ! j))"
proof (induction xs arbitrary: i)
  case (Cons x xs)
  show ?case
  proof (cases "last_index P xs")
    case None
    with Cons.prems have i: "i = 0" "P x"
      by (simp_all split: if_splits)
    have "\<not> P y" if "y \<in> set xs" for y
      using None that by (induction xs) (auto split: option.splits if_splits)
    then show ?thesis
      using i by (auto simp: nth_Cons split: nat.splits)
  next
    case (Some j)
    then have "i = Suc j"
      using Cons.prems by simp
    then show ?thesis
      using Cons.IH [OF Some] by (auto simp: nth_Cons less_Suc_eq_0_disj split: nat.splits)
  qed
qed simp

lemma last_index_None: "last_index P xs = None \<longleftrightarrow> (\<forall>x \<in> set xs. \<not> P x)"
  by (induction xs) (auto split: option.splits)

lemma status_sanitize_message: "\<not> isAssistantMessagePending (sanitize_message tr now m)"
  by (simp add: sanitize_message_def Let_def isAssistantMessagePending_def completeAssistantTiming_def)

lemma settled_sanitized:
  assumes "settled (butlast ms)"
  shows "settled (sanitizeMessagesOnLoad tr now ms)"
proof (cases "last_index isPendingAssistantMessage ms")
  case None
  moreover from None have "\<forall>m \<in> set ms. \<not> isPendingAssistantMessage m"
    by (simp only: last_index_None)
  ultimately show ?thesis
    by (simp add: sanitizeMessagesOnLoad_def settled_def)
next
  case (Some i)
  have i: "i < length ms" "isPendingAssistantMessage (ms ! i)"
    using last_index_Some [OF Some] by simp_all
  have "i = length ms - 1"
  proof (rule ccontr)
    assume "i \<noteq> length ms - 1"
    then have "ms ! i \<in> set (butlast ms)"
      using i(1) by (metis One_nat_def Suc_pred length_butlast length_greater_0_conv less_SucE list.size(3) not_less_zero nth_butlast nth_mem)
    with assms i(2) show False
      by (simp add: settled_def)
  qed
  then have "sanitizeMessagesOnLoad tr now ms = butlast ms @ [sanitize_message tr now (ms ! i)]"
    using i Some by (cases ms rule: rev_cases) (simp_all add: sanitizeMessagesOnLoad_def)
  then show ?thesis
    using assms status_sanitize_message by (simp add: isPendingAssistantMessage_def)
qed

lemma pending_normalized: "isPendingAssistantMessage (normalizeStoredMessageForLoad now m) \<Longrightarrow> isPendingAssistantMessage m"
  by (auto simp: normalizeStoredMessageForLoad_def Let_def isPendingAssistantMessage_def isAssistantMessagePending_def
      completeAssistantTiming_def split: if_splits)

lemma settled_normalized:
  assumes "settled (butlast ms)"
  shows "settled (butlast (normalized_messages now ms))"
proof -
  have eq: "butlast (normalized_messages now ms) =
      map (\<lambda>(k, m). normalizeStoredMessageForLoad (\<lambda>i. now (3 * k + i)) m) (List.enumerate 0 (butlast ms))"
    by (cases ms rule: rev_cases) (simp_all add: normalized_messages_def enumerate_append_eq)
  show ?thesis
    unfolding settled_def eq using assms pending_normalized
    by (fastforce simp: settled_def in_set_enumerate_eq)
qed

lemma settled_restored:
  assumes "settled (butlast ms)"
  shows "settled (restore_messages tr now ms)"
proof -
  obtain k where k: "trimMessagesByContentSize (trimMessages (normalized_messages now ms)) = drop k (normalized_messages now ms)"
    using restore_kept by blast
  have "settled (butlast (drop k (normalized_messages now ms)))"
    using settled_normalized [OF assms, of now]
    by (auto simp: butlast_drop intro: settled_subset dest: in_set_dropD)
  then show ?thesis
    unfolding restore_messages_eq k by (rule settled_sanitized)
qed

section \<open>Save and load\<close>

definition stored_text :: "Message list \<Rightarrow> jstring" where
  "stored_text ms = to_json (envelope (messages_value ms))"

lemma storable_trimmed: "list_all storable ms \<Longrightarrow> list_all storable (trimMessages ms)"
  by (auto simp: trimMessages_def slice_last_def list_all_iff dest: in_set_dropD)

lemma saved_text:
  assumes "schemas_accept z" "list_all storable ms" "fits (stored_text (trimMessages ms))"
  shows "saveMessages z fits ms st = st(MESSAGES_KEY \<mapsto> stored_text (trimMessages ms))"
  using assms storable_trimmed [OF assms(2)]
  by (simp add: schemas_accept_def saveMessages_def writeStoredValue_def stored_text_def Let_def)

lemma load_saved:
  assumes "schemas_accept z" "list_all storable ms" "fits (stored_text (trimMessages ms))"
    and "length (stored_text (trimMessages ms)) \<le> MAX_STORED_MESSAGES_BYTES"
  shows "fst (loadMessages z tr now fits (saveMessages z fits ms st)) = Some (restore_messages tr now (trimMessages ms))"
proof -
  let ?t = "stored_text (trimMessages ms)"
  have "?t \<noteq> []"
    by (simp add: stored_text_def)
  moreover have "json_parse ?t = Some (envelope (messages_value (trimMessages ms)))"
    unfolding stored_text_def by (rule conversation.text_read) (rule storable_trimmed [OF assms(2)])
  ultimately show ?thesis
    using assms(1,4) storable_trimmed [OF assms(2)]
    by (simp add: schemas_accept_def loadMessages_def readStoredMessagesValue_def saved_text [where fits = fits, OF assms(1-3)] opt_str_def Let_def)
qed

lemma settled_trimmed: "settled (butlast ms) \<Longrightarrow> settled (butlast (trimMessages ms))"
  by (auto simp: trimMessages_def slice_last_def butlast_drop intro: settled_subset dest: in_set_dropD)

text \<open>
  C12: A page closed at any moment opens again with nothing pending. Whatever state a run of the page is in, also in
  the middle of an answer, saving its messages and loading them gives at most 100 messages, none
  of which is loading or streaming, provided the stored text is within the limit of one megabyte and
  the browser takes it.
\<close>

theorem reload_leaves_nothing_pending:
  assumes "schemas_accept z" and "chat_run loaded s" and "settled loaded" and "list_all storable (messages s)"
    and "fits (stored_text (trimMessages (messages s)))"
    and "length (stored_text (trimMessages (messages s))) \<le> MAX_STORED_MESSAGES_BYTES"
  shows "\<exists>ms. fst (loadMessages z tr now fits (saveMessages z fits (messages s) st)) = Some ms \<and>
    settled ms \<and> length ms \<le> 100"
proof -
  have "settled (butlast (trimMessages (messages s)))"
    using chat_okD(1) [OF chat_run_ok [OF assms(2,3)]] by (rule settled_trimmed)
  then have "settled (restore_messages tr now (trimMessages (messages s)))"
    by (rule settled_restored)
  moreover have "length (sanitizeMessagesOnLoad tr c ms) = length ms" for c ms
    by (simp add: sanitizeMessagesOnLoad_def split: option.split)
  then have "length (restore_messages tr now (trimMessages (messages s))) \<le> 100"
    using restore_kept [of "trimMessages (messages s)" now]
    by (auto simp: restore_messages_eq MAX_STORED_MESSAGES_def Let_def)
  ultimately show ?thesis
    using load_saved [where fits = fits, OF assms(1,4-6)] by blast
qed

lemma asked_messages:
  "messages asked =
     [createUserMessage (\<lambda>i. 107 # nat_str i) (js ''hi'') 1000,
      createLoadingAssistantMessage (\<lambda>i. 107 # nat_str (2 + i)) 1000]"
  by (simp add: asked_def handleSendMessage_def send_in_def sendChat_def sendStreamingChat_def sample_env_def
      DEFAULT_CONFIG_def appendUserMessagePair_def initial_chat_def)

lemma text_ok_nat_str [simp]: "text_ok (nat_str n)"
  using nat_str_digits [of _ n] by (fastforce simp: text_ok_def list_all_iff is_digit_def)

lemma text_ok_Cons [simp]: "text_ok (c # s) \<longleftrightarrow> c < 65536 \<and> text_ok s" "text_ok []"
  by (simp_all add: text_ok_def)

lemma asked_storable: "list_all storable (messages asked)"
  by (simp add: asked_messages createUserMessage_def createLoadingAssistantMessage_def createMessageVersion_def
      storable_def message_texts_ok_def)

lemma int_value_json [simp]: "to_json (int_value n) = int_str n"
  by (simp add: int_value_def num_str_int)

lemma small_numbers:
  "nat_str 0 = [48]" "nat_str (Suc 0) = [49]" "nat_str 2 = [50]" "nat_str 3 = [51]"
  "int_str 1000 = [49, 48, 48, 48]" "int_str 1 = [49]"
  by (simp_all add: int_str_def nat_str.simps)

definition plain_text :: "jstring \<Rightarrow> bool" where
  "plain_text s \<longleftrightarrow> list_all (\<lambda>c. 32 \<le> c \<and> c < 127 \<and> c \<noteq> 34 \<and> c \<noteq> 92) s"

lemma quote_plain: "plain_text s \<Longrightarrow> quote_chars s = s"
  unfolding plain_text_def
  by (induction s rule: quote_chars.induct) (auto simp: quote_char_def simple_escape_def high_surrogate_def low_surrogate_def)

lemma length_quote_plain: "plain_text s \<Longrightarrow> length (json_quote s) = length s + 2"
  by (simp add: json_quote_def quote_plain)

lemma asked_text: "length (stored_text (trimMessages (messages asked))) \<le> MAX_STORED_MESSAGES_BYTES"
  unfolding asked_messages stored_text_def trimMessages_def MAX_STORED_MESSAGES_def MAX_STORED_MESSAGES_BYTES_def
    envelope_def messages_value_def STORAGE_VERSION_def createUserMessage_def createLoadingAssistantMessage_def
    createMessageVersion_def message_fields_def present_def
  by (simp add: version_value_def role_name_def status_name_def length_quote_plain plain_text_def js_Cons small_numbers)

theorem reload_leaves_nothing_pending_witness:
  "\<exists>ms. fst (loadMessages documented_schemas (\<lambda>x. x) (\<lambda>i. 2000) (\<lambda>_. True) (saveMessages documented_schemas (\<lambda>_. True) (messages asked) Map.empty)) = Some ms \<and>
     settled ms \<and> length ms \<le> 100"
  by (rule reload_leaves_nothing_pending [OF documented_schemas_accept asked_run _ asked_storable _ asked_text]) simp_all

definition fits_limits :: "Message list \<Rightarrow> bool" where
  \<comment> \<open>a conversation that loading leaves as it is\<close>
  "fits_limits ms \<longleftrightarrow>
     length ms \<le> MAX_STORED_MESSAGES \<and> total_size ms \<le> MAX_LOADED_MESSAGES_CHARS \<and>
     list_all (\<lambda>m. list_all (\<lambda>v. length (v_content v) < MIN_PREFIX_COLLAPSE_LENGTH) (versions m) \<and>
       pred_option (\<lambda>r. length (r_content r) \<le> MAX_LOADED_MESSAGE_CHARS) (reasoning m)) ms"

lemma truncate_short: "length s \<le> n \<Longrightarrow> truncateText s n = s"
  by (simp add: truncateText_def)

lemma load_version_short: "length (v_content v) < MIN_PREFIX_COLLAPSE_LENGTH \<Longrightarrow> load_version v = v"
  by (simp add: load_version_def collapseRepeatedSectionSnapshots_def truncate_short MIN_PREFIX_COLLAPSE_LENGTH_def
      MAX_LOADED_MESSAGE_CHARS_def)

lemma normalize_short:
  assumes "list_all (\<lambda>v. length (v_content v) < MIN_PREFIX_COLLAPSE_LENGTH) (versions m)"
    and "pred_option (\<lambda>r. length (r_content r) \<le> MAX_LOADED_MESSAGE_CHARS) (reasoning m)"
    and "\<not> isAssistantMessagePending m"
  shows "normalizeStoredMessageForLoad now m = m"
proof -
  have v: "map load_version (versions m) = versions m"
    using assms(1) by (simp add: list_all_iff load_version_short map_idI)
  have r: "map_option (\<lambda>r. r\<lparr>r_content := truncateText (r_content r) MAX_LOADED_MESSAGE_CHARS\<rparr>) (reasoning m) = reasoning m"
    using assms(2) by (cases "reasoning m") (simp_all add: truncate_short)
  show ?thesis
    unfolding normalizeStoredMessageForLoad_def v r using assms(3) by simp
qed

lemma normalized_short:
  assumes "fits_limits ms" and "list_all (\<lambda>m. \<not> isAssistantMessagePending m) ms"
  shows "normalized_messages now ms = ms"
proof -
  have "normalizeStoredMessageForLoad c m = m" if "m \<in> set ms" for c m
    using assms that by (intro normalize_short) (auto simp: fits_limits_def list_all_iff)
  then have "map (\<lambda>(k, m). normalizeStoredMessageForLoad (\<lambda>i. now (3 * k + i)) m) (List.enumerate 0 ms) =
      map snd (List.enumerate 0 ms)"
    by (intro map_cong) (auto simp: in_set_enumerate_eq)
  then show ?thesis
    by (simp add: normalized_messages_def)
qed

lemma total_size_split: "total_size (drop k ms) + total_size (take k ms) = total_size ms"
  by (metis add.commute append_take_drop_id total_size_append(1))

lemma trim_small:
  assumes "total_size ms \<le> MAX_LOADED_MESSAGES_CHARS"
  shows "trimMessagesByContentSize ms = ms"
proof -
  obtain k where k: "k \<le> length ms" "trimMessagesByContentSize ms = drop k ms"
    "k > 0 \<longrightarrow> total_size (drop k ms) + getMessageSize (ms ! (k - 1)) > MAX_LOADED_MESSAGES_CHARS"
    using trimmed_end [of ms] by blast
  have "k = 0"
  proof (rule ccontr)
    assume "k \<noteq> 0"
    then have "take k ms = take (k - 1) ms @ [ms ! (k - 1)]"
      using k(1) by (metis Suc_pred' less_eq_Suc_le not_gr_zero take_Suc_conv_app_nth)
    then have "getMessageSize (ms ! (k - 1)) \<le> total_size (take k ms)"
      by (simp add: total_size_def)
    then show False
      using k(3) \<open>k \<noteq> 0\<close> assms total_size_split [of k ms] by simp
  qed
  with k(2) show ?thesis by simp
qed


definition sample_conversation :: "Message list" where
  "sample_conversation =
     [createUserMessage (\<lambda>i. 107 # nat_str i) (js ''hi'') 1000,
      (createLoadingAssistantMessage (\<lambda>i. 107 # nat_str (2 + i)) 1000)\<lparr>status := Some CompleteStatus\<rparr>]"

lemma sample_conversation_ok:
  "list_all storable sample_conversation" "fits_limits sample_conversation"
  "list_all (\<lambda>m. \<not> isAssistantMessagePending m) sample_conversation"
  by (simp_all add: sample_conversation_def createUserMessage_def createLoadingAssistantMessage_def createMessageVersion_def
      storable_def message_texts_ok_def fits_limits_def MAX_STORED_MESSAGES_def MAX_LOADED_MESSAGES_CHARS_def
      total_size_def getMessageSize_def MIN_PREFIX_COLLAPSE_LENGTH_def isAssistantMessagePending_def js_def)

lemma sample_conversation_text: "length (stored_text sample_conversation) \<le> MAX_STORED_MESSAGES_BYTES"
  unfolding sample_conversation_def stored_text_def MAX_STORED_MESSAGES_BYTES_def
    envelope_def messages_value_def STORAGE_VERSION_def createUserMessage_def createLoadingAssistantMessage_def
    createMessageVersion_def message_fields_def present_def
  by (simp add: version_value_def role_name_def status_name_def length_quote_plain plain_text_def js_Cons small_numbers)


text \<open>
  C40: Above the limit the conversation is lost. Saving does not look at the length of the text, loading does: a
  conversation of at most 100 messages whose text is longer than one megabyte is written, and the next
  load removes it from the storage and shows nothing.
\<close>

theorem oversized_conversation_is_lost:
  assumes "schemas_accept z" and "list_all storable ms" and "fits (stored_text (trimMessages ms))"
    and "length (stored_text (trimMessages ms)) > MAX_STORED_MESSAGES_BYTES"
  shows "(saveMessages z fits ms st) MESSAGES_KEY = Some (stored_text (trimMessages ms)) \<and>
    loadMessages z tr now fits (saveMessages z fits ms st) = (None, st(MESSAGES_KEY := None))"
proof -
  have "stored_text (trimMessages ms) \<noteq> []"
    by (simp add: stored_text_def)
  then show ?thesis
    using assms(4) saved_text [where fits = fits, OF assms(1-3)]
    by (simp add: loadMessages_def readStoredMessagesValue_def opt_str_def truthy_def Let_def)
qed

definition long_text :: jstring where
  "long_text = replicate 1100000 97"

lemma long_text: "length long_text = 1100000" "plain_text long_text" "text_ok long_text"
  unfolding long_text_def plain_text_def text_ok_def list_all_iff by (simp_all only: length_replicate set_replicate_conv_if) auto

definition long_conversation :: "Message list" where
  "long_conversation = [createUserMessage (\<lambda>i. 107 # nat_str i) long_text 1000]"

lemma long_conversation_text: "length (stored_text (trimMessages long_conversation)) > MAX_STORED_MESSAGES_BYTES"
  unfolding long_conversation_def stored_text_def trimMessages_def MAX_STORED_MESSAGES_def MAX_STORED_MESSAGES_BYTES_def
    envelope_def messages_value_def STORAGE_VERSION_def createUserMessage_def createMessageVersion_def
    message_fields_def present_def
  by (simp add: version_value_def role_name_def length_quote_plain long_text)

theorem oversized_conversation_is_lost_witness:
  "loadMessages documented_schemas (\<lambda>x. x) (\<lambda>i. 2000) (\<lambda>_. True) (saveMessages documented_schemas (\<lambda>_. True) long_conversation Map.empty) = (None, Map.empty)"
proof -
  have "list_all storable long_conversation"
    by (simp add: long_conversation_def createUserMessage_def createMessageVersion_def storable_def message_texts_ok_def
        long_text)
  then show ?thesis
    using oversized_conversation_is_lost [OF documented_schemas_accept _ _ long_conversation_text, of "\<lambda>_. True"] by simp
qed

end
