(* ===== verification/Playground_State.thy ===== *)
theory Playground_State
  imports Playground_Reload Machines
begin

text \<open>
  The state hook of the playground page (\<open>hooks/use-playground-state.ts\<close>): the messages and the settings it
  holds, the delayed loading, and the saving that waits until the conversation has been quiet for half
  a second or the page is left.
\<close>

record PlaygroundHook =
  hook_config :: PlaygroundConfig
  hook_enabled :: ParameterEnabled
  hook_messages :: "Message list"
  isLoadingMessages :: bool
  messagesSaveTimer :: bool
  latestMessages :: "Message list"
  hasLoadedMessages :: bool
  hook_storage :: local_storage

definition usePlaygroundState :: "StorageSchemas \<Rightarrow> local_storage \<Rightarrow> PlaygroundHook" where
  \<comment> \<open>the state of the first render\<close>
  "usePlaygroundState z st =
     \<lparr>hook_config = getInitialPlaygroundConfig z st, hook_enabled = getInitialParameterEnabled z st, hook_messages = [],
      isLoadingMessages = True, messagesSaveTimer = False, latestMessages = [], hasLoadedMessages = False,
      hook_storage = st\<rparr>"

definition persistMessages :: "Message list \<Rightarrow> PlaygroundHook \<Rightarrow> PlaygroundHook" where
  "persistMessages messagesToSave s0 =
     (let s = s0\<lparr>latestMessages := messagesToSave\<rparr> in
      if \<not> hasLoadedMessages s then s else s\<lparr>messagesSaveTimer := True\<rparr>)"

definition save_timer_fired :: "StorageSchemas \<Rightarrow> (jstring \<Rightarrow> bool) \<Rightarrow> PlaygroundHook \<Rightarrow> PlaygroundHook" where
  "save_timer_fired z fits s =
     s\<lparr>messagesSaveTimer := False, hook_storage := saveMessages z fits (latestMessages s) (hook_storage s)\<rparr>"

definition messages_loaded :: "StorageSchemas \<Rightarrow> (jstring \<Rightarrow> jstring) \<Rightarrow> clock \<Rightarrow> (jstring \<Rightarrow> bool) \<Rightarrow> PlaygroundHook \<Rightarrow> PlaygroundHook" where
  \<comment> \<open>the effect that loads the conversation after the first render\<close>
  "messages_loaded z tr now fits s =
     (let (found, st) = loadMessages z tr now fits (hook_storage s); loadedMessages = opt_default found [] in
      s\<lparr>hook_storage := st, latestMessages := loadedMessages, hasLoadedMessages := True,
        hook_messages := loadedMessages, isLoadingMessages := False\<rparr>)"

definition unmounted :: "StorageSchemas \<Rightarrow> (jstring \<Rightarrow> bool) \<Rightarrow> PlaygroundHook \<Rightarrow> PlaygroundHook" where
  \<comment> \<open>the cleanup when the page is left\<close>
  "unmounted z fits s =
     (if messagesSaveTimer s
      then s\<lparr>hook_storage := saveMessages z fits (latestMessages s) (hook_storage s)\<rparr> else s)"

definition partial_config :: "PlaygroundConfig \<Rightarrow> PartialConfig" where
  "partial_config c =
     \<lparr>pc_model = Some (cfg_model c), pc_group = Some (cfg_group c), pc_temperature = Some (cfg_temperature c),
      pc_top_p = Some (cfg_top_p c), pc_max_tokens = Some (cfg_max_tokens c),
      pc_frequency_penalty = Some (cfg_frequency_penalty c), pc_presence_penalty = Some (cfg_presence_penalty c),
      pc_seed = Some (cfg_seed c), pc_stream = Some (cfg_stream c)\<rparr>"

definition partial_enabled :: "ParameterEnabled \<Rightarrow> PartialEnabled" where
  "partial_enabled e =
     \<lparr>pp_temperature = Some (pe_temperature e), pp_top_p = Some (pe_top_p e), pp_max_tokens = Some (pe_max_tokens e),
      pp_frequency_penalty = Some (pe_frequency_penalty e), pp_presence_penalty = Some (pe_presence_penalty e),
      pp_seed = Some (pe_seed e)\<rparr>"

definition updateConfig :: "StorageSchemas \<Rightarrow> (jstring \<Rightarrow> bool) \<Rightarrow> (PlaygroundConfig \<Rightarrow> PlaygroundConfig) \<Rightarrow> PlaygroundHook \<Rightarrow> PlaygroundHook" where
  \<comment> \<open>the setting of one key is the function that changes it\<close>
  "updateConfig z fits setting s =
     (let updated = setting (hook_config s) in
      s\<lparr>hook_config := updated, hook_storage := saveConfig z fits (partial_config updated) (hook_storage s)\<rparr>)"

definition updateParameterEnabled ::
  "StorageSchemas \<Rightarrow> (jstring \<Rightarrow> bool) \<Rightarrow> (ParameterEnabled \<Rightarrow> ParameterEnabled) \<Rightarrow> PlaygroundHook \<Rightarrow> PlaygroundHook" where
  "updateParameterEnabled z fits setting s =
     (let updated = setting (hook_enabled s) in
      s\<lparr>hook_enabled := updated, hook_storage := saveParameterEnabled z fits (partial_enabled updated) (hook_storage s)\<rparr>)"

definition updateMessages :: "(Message list \<Rightarrow> Message list) \<Rightarrow> PlaygroundHook \<Rightarrow> PlaygroundHook" where
  \<comment> \<open>a list given as updater is the constant function, as in \<open>applyMessageStateUpdate\<close>\<close>
  "updateMessages updater s =
     (let newMessages = updater (hook_messages s) in (persistMessages newMessages s)\<lparr>hook_messages := newMessages\<rparr>)"

definition clearMessages :: "PlaygroundHook \<Rightarrow> PlaygroundHook" where
  "clearMessages = updateMessages (\<lambda>_. [])"

definition resetConfig :: "StorageSchemas \<Rightarrow> (jstring \<Rightarrow> bool) \<Rightarrow> PlaygroundHook \<Rightarrow> PlaygroundHook" where
  "resetConfig z fits s =
     s\<lparr>hook_config := DEFAULT_CONFIG, hook_enabled := DEFAULT_PARAMETER_ENABLED,
       hook_storage := saveParameterEnabled z fits (partial_enabled DEFAULT_PARAMETER_ENABLED)
         (saveConfig z fits (partial_config DEFAULT_CONFIG) (hook_storage s))\<rparr>"

section \<open>The hook as a machine\<close>

datatype HookEvent =
    MessagesUpdated "Message list \<Rightarrow> Message list"
  | ConfigUpdated "PlaygroundConfig \<Rightarrow> PlaygroundConfig"
  | EnabledUpdated "ParameterEnabled \<Rightarrow> ParameterEnabled"
  | ConfigReset
  | SaveTimerFired

fun hook_step :: "StorageSchemas \<Rightarrow> (jstring \<Rightarrow> bool) \<Rightarrow> unit \<Rightarrow> HookEvent \<Rightarrow> PlaygroundHook \<Rightarrow> PlaygroundHook" where
  "hook_step z fits _ (MessagesUpdated updater) s = updateMessages updater s"
| "hook_step z fits _ (ConfigUpdated setting) s = updateConfig z fits setting s"
| "hook_step z fits _ (EnabledUpdated setting) s = updateParameterEnabled z fits setting s"
| "hook_step z fits _ ConfigReset s = resetConfig z fits s"
| "hook_step z fits _ SaveTimerFired s = save_timer_fired z fits s"

fun hook_allowed :: "HookEvent \<Rightarrow> PlaygroundHook \<Rightarrow> bool" where
  "hook_allowed SaveTimerFired s \<longleftrightarrow> messagesSaveTimer s"
| "hook_allowed _ s \<longleftrightarrow> True"

definition saved_in :: "StorageSchemas \<Rightarrow> (jstring \<Rightarrow> bool) \<Rightarrow> Message list \<Rightarrow> local_storage \<Rightarrow> bool" where
  \<comment> \<open>saving these messages would change nothing\<close>
  "saved_in z fits ms st \<longleftrightarrow> saveMessages z fits ms st = st"

definition hook_ok :: "StorageSchemas \<Rightarrow> (jstring \<Rightarrow> bool) \<Rightarrow> PlaygroundHook \<Rightarrow> bool" where
  "hook_ok z fits s \<longleftrightarrow>
     hasLoadedMessages s \<and> latestMessages s = hook_messages s \<and>
     (messagesSaveTimer s \<or> saved_in z fits (hook_messages s) (hook_storage s))"

lemma save_idempotent [simp]: "saveMessages z fits ms (saveMessages z fits ms st) = saveMessages z fits ms st"
  by (simp add: saveMessages_def writeStoredValue_def Let_def split: option.split)

lemma storage_keys: "CONFIG_KEY \<noteq> MESSAGES_KEY" "PARAMETER_ENABLED_KEY \<noteq> MESSAGES_KEY"
  by (simp_all add: CONFIG_KEY_def PARAMETER_ENABLED_KEY_def MESSAGES_KEY_def)

lemma saved_in_iff:
  "saved_in z fits ms st \<longleftrightarrow>
     (case messagesParse z (messages_value (trimMessages ms)) of
        None \<Rightarrow> True
      | Some parsed \<Rightarrow> fits (stored_text parsed) \<longrightarrow> st MESSAGES_KEY = Some (stored_text parsed))"
  by (auto simp: saved_in_def saveMessages_def writeStoredValue_def stored_text_def Let_def fun_upd_idem_iff
      split: option.split)

lemma save_other:
  assumes "key \<noteq> MESSAGES_KEY" and "saved_in z fits ms st"
  shows "saved_in z fits ms (writeStoredValue fits key v st)"
  using assms by (auto simp: saved_in_iff writeStoredValue_def Let_def split: option.splits)

lemma saved_in_settings:
  assumes "saved_in z fits ms st"
  shows "saved_in z fits ms (saveConfig z fits c st)" "saved_in z fits ms (saveParameterEnabled z fits e st)"
  using save_other [OF storage_keys(1) assms] save_other [OF storage_keys(2) assms]
  by (simp_all add: saveConfig_def saveParameterEnabled_def assms split: option.split)

lemma ok_hook_step:
  assumes "hook_ok z fits s"
  shows "hook_ok z fits (hook_step z fits u e s)"
proof (cases e)
  case SaveTimerFired
  then show ?thesis
    using assms by (simp add: hook_ok_def save_timer_fired_def saved_in_def)
next
  case (MessagesUpdated f)
  then show ?thesis
    using assms by (simp add: hook_ok_def updateMessages_def persistMessages_def Let_def)
qed (use assms in \<open>auto simp: hook_ok_def updateConfig_def updateParameterEnabled_def resetConfig_def Let_def
    intro: saved_in_settings\<close>)

interpretation hook: machine_invariant hook_allowed "hook_step z fits" "hook_ok z fits" for z fits
  by unfold_locales (rule ok_hook_step)

text \<open>
  Nothing is lost when the page is left. After the conversation has been loaded and changed once, and then any
  further changes of messages and settings with the save timer firing or not between them, leaving the
  page leaves in the storage what saving the shown conversation writes: saving it again would
  change nothing.
\<close>

theorem leaving_the_page_saves_conversation:
  assumes "reaches hook_allowed (hook_step z fits) (updateMessages updater (messages_loaded z tr now fits s)) t"
  shows "saved_in z fits (hook_messages t) (hook_storage (unmounted z fits t))"
proof -
  have "hook_ok z fits (updateMessages updater (messages_loaded z tr now fits s))"
    by (simp add: hook_ok_def updateMessages_def persistMessages_def messages_loaded_def Let_def case_prod_beta)
  from hook.inv_reaches [OF assms this] show ?thesis
    by (auto simp: hook_ok_def unmounted_def saved_in_def)
qed

theorem leaving_the_page_saves_conversation_witness:
  "saved_in documented_schemas (\<lambda>_. True) sample_conversation
     (hook_storage (unmounted documented_schemas (\<lambda>_. True) (updateMessages (\<lambda>_. sample_conversation)
       (messages_loaded documented_schemas (\<lambda>x. x) (\<lambda>i. 0) (\<lambda>_. True) (usePlaygroundState documented_schemas Map.empty)))))"
  using leaving_the_page_saves_conversation [OF reaches.start, of documented_schemas "\<lambda>_. True" "\<lambda>_. sample_conversation" "\<lambda>x. x" "\<lambda>i. 0"
      "usePlaygroundState documented_schemas Map.empty"]
  by (simp add: updateMessages_def persistMessages_def messages_loaded_def Let_def case_prod_beta)

end
