(* ===== verification/Channel_Mappings.thy ===== *)
theory Channel_Mappings
  imports Js_Json
begin

text \<open>
  The checks a channel passes before it is submitted: the model mapping
  (\<open>features/channels/lib/model-mapping-validation.ts\<close>), the status code mapping
  (\<open>features/channels/lib/status-code-risk-guard.ts\<close>) and the submit handler that composes them
  (\<open>onSubmit\<close> of \<open>components/drawers/channel-mutate-drawer.tsx\<close>). The user's answers to the two
  confirmation dialogs are arguments of the handler; a message shown instead of a submission is an outcome.
\<close>

section \<open>Model mapping\<close>

definition parseModelsString :: "jstring \<Rightarrow> jstring list" where
  "parseModelsString modelsStr =
     (if modelsStr \<noteq> [] then filter (\<lambda>m. m \<noteq> []) (map trim (split_on 44 modelsStr)) else [])"

definition formatModelsArray :: "jstring list \<Rightarrow> jstring" where
  "formatModelsArray models = join [44] (uniq models)"

definition normalizeModelName :: "jstring \<Rightarrow> jstring" where
  "normalizeModelName model = trim model"

definition parsed_object :: "jstring \<Rightarrow> (jstring \<times> jsval) list option" where
  \<comment> \<open>\<open>JSON.parse\<close> followed by the test for an object that is not an array\<close>
  "parsed_object s = (case json_parse s of Some (JObj kvs) \<Rightarrow> Some kvs | _ \<Rightarrow> None)"

definition extractMappingSourceModels :: "jstring \<Rightarrow> jstring list" where
  "extractMappingSourceModels modelMapping =
     (let trimmed = trim modelMapping in
      if trimmed = [] then []
      else (case parsed_object trimmed of None \<Rightarrow> []
            | Some kvs \<Rightarrow> uniq (filter (\<lambda>k. k \<noteq> []) (map (\<lambda>kv. trim (fst kv)) kvs))))"

definition target_name :: "jsval \<Rightarrow> jstring option" where
  "target_name v = (case v of JStr s \<Rightarrow> (if trim s \<noteq> [] then Some (trim s) else None) | _ \<Rightarrow> None)"

definition extractRedirectModels :: "jstring \<Rightarrow> jstring list" where
  "extractRedirectModels modelMapping =
     (let trimmed = trim modelMapping in
      if trimmed = [] then []
      else (case parsed_object trimmed of None \<Rightarrow> []
            | Some kvs \<Rightarrow> uniq (List.map_filter (\<lambda>kv. target_name (snd kv)) kvs)))"

definition hasModelConfigChanged :: "jstring list \<Rightarrow> jstring \<Rightarrow> jstring list \<Rightarrow> jstring \<Rightarrow> bool" where
  "hasModelConfigChanged currentModels currentModelMapping initialModels initialModelMapping =
     (if initialModels = [] \<and> initialModelMapping = [] then True
      else if currentModels \<noteq> initialModels then True
      else trim currentModelMapping \<noteq> trim initialModelMapping)"

definition findMissingModelsInMapping :: "jstring \<Rightarrow> jstring list \<Rightarrow> jstring list" where
  "findMissingModelsInMapping modelMapping currentModels =
     (if modelMapping = [] \<or> trim modelMapping = [] then []
      else (case parsed_object modelMapping of None \<Rightarrow> []
            | Some kvs \<Rightarrow>
                uniq (filter (\<lambda>k. k \<noteq> [] \<and> k \<notin> set (map normalizeModelName currentModels))
                  (map (\<lambda>kv. normalizeModelName (fst kv)) kvs))))"

datatype MappingError = NotJson | NotObject | NotStrings

definition is_str :: "jsval \<Rightarrow> bool" where
  "is_str v = (case v of JStr _ \<Rightarrow> True | _ \<Rightarrow> False)"

definition validateModelMappingJson :: "jstring \<Rightarrow> MappingError option" where
  \<comment> \<open>\<open>None\<close> is \<open>valid: true\<close>\<close>
  "validateModelMappingJson modelMapping =
     (if modelMapping = [] \<or> trim modelMapping = [] then None
      else (case json_parse modelMapping of None \<Rightarrow> Some NotJson
            | Some (JObj kvs) \<Rightarrow> if list_ex (\<lambda>kv. \<not> is_str (snd kv)) kvs then Some NotStrings else None
            | Some _ \<Rightarrow> Some NotObject))"

definition findExposedTargetModels :: "jstring \<Rightarrow> jstring list \<Rightarrow> jstring list" where
  "findExposedTargetModels modelMapping currentModels =
     (let redirectModels = extractRedirectModels modelMapping in
      if redirectModels = [] then []
      else filter (\<lambda>model. normalizeModelName model \<in> set (map normalizeModelName currentModels)) redirectModels)"

record ModelSets =
  normalizedCurrentModels :: "jstring list"
  normalizedRedirectModels :: "jstring list"
  classificationSet :: "jstring list"
  redirectOnlySet :: "jstring list"

definition categorizeModelsWithRedirect :: "jstring list \<Rightarrow> jstring list \<Rightarrow> ModelSets" where
  \<comment> \<open>a \<open>Set\<close> is the list of its elements in insertion order\<close>
  "categorizeModelsWithRedirect currentModels redirectModels =
     (let cur = uniq (filter (\<lambda>m. m \<noteq> []) (map normalizeModelName currentModels));
          red = uniq (filter (\<lambda>m. m \<noteq> []) (map normalizeModelName redirectModels)) in
      \<lparr>normalizedCurrentModels = cur, normalizedRedirectModels = red, classificationSet = uniq (cur @ red),
       redirectOnlySet = filter (\<lambda>m. m \<notin> set cur) red\<rparr>)"

section \<open>Status code mapping\<close>

definition NON_REDIRECTABLE_STATUS_CODES :: "nat list" where
  "NON_REDIRECTABLE_STATUS_CODES = [504, 524]"

definition code_pattern :: "jstring \<Rightarrow> bool" where
  \<comment> \<open>\<open>/^[1-5]\d{2}$/\<close>\<close>
  "code_pattern s = (case s of [a, b, c] \<Rightarrow> 49 \<le> a \<and> a \<le> 53 \<and> is_digit b \<and> is_digit c | _ \<Rightarrow> False)"

definition parseStatusCodeKey :: "jstring \<Rightarrow> nat option" where
  "parseStatusCodeKey rawKey = (let normalized = trim rawKey in
     if \<not> code_pattern normalized then None else Some (digits_val normalized))"

definition parseStatusCodeMappingTarget :: "jsval \<Rightarrow> nat option" where
  "parseStatusCodeMappingTarget rawValue =
     (case rawValue of
        JNum q \<Rightarrow> if q = of_int (floor q) \<and> 100 \<le> q \<and> q \<le> 599 then Some (nat (floor q)) else None
      | JStr s \<Rightarrow>
          (let normalized = trim s in
           if \<not> code_pattern normalized then None
           else (let code = digits_val normalized in if 100 \<le> code \<and> code \<le> 599 then Some code else None))
      | _ \<Rightarrow> None)"

definition collectInvalidStatusCodeEntries :: "jstring \<Rightarrow> jstring list" where
  "collectInvalidStatusCodeEntries statusCodeMappingStr =
     (if trim statusCodeMappingStr = [] then []
      else (case parsed_object statusCodeMappingStr of None \<Rightarrow> []
            | Some kvs \<Rightarrow>
                map (\<lambda>kv. fst kv @ [32, 8594, 32] @ js_string (snd kv))
                  (filter (\<lambda>kv. parseStatusCodeKey (fst kv) = None \<or> parseStatusCodeMappingTarget (snd kv) = None) kvs)))"

definition risky_entry :: "jstring \<times> jsval \<Rightarrow> jstring option" where
  "risky_entry kv =
     (case (parseStatusCodeKey (fst kv), parseStatusCodeMappingTarget (snd kv)) of
        (Some fromCode, Some toCode) \<Rightarrow>
          if fromCode \<notin> set NON_REDIRECTABLE_STATUS_CODES then None
          else if fromCode = toCode then None
          else Some (nat_str fromCode @ js '' -> '' @ nat_str toCode)
      | _ \<Rightarrow> None)"

definition collectDisallowedStatusCodeRedirects :: "jstring \<Rightarrow> jstring list" where
  "collectDisallowedStatusCodeRedirects statusCodeMappingStr =
     (if trim statusCodeMappingStr = [] then []
      else (case parsed_object statusCodeMappingStr of None \<Rightarrow> []
            | Some kvs \<Rightarrow> js_sort code_unit_compare (uniq (List.map_filter risky_entry kvs))))"

definition collectNewDisallowedStatusCodeRedirects :: "jstring \<Rightarrow> jstring \<Rightarrow> jstring list" where
  "collectNewDisallowedStatusCodeRedirects originalStr currentStr =
     (let currentRisky = collectDisallowedStatusCodeRedirects currentStr in
      if currentRisky = [] then []
      else filter (\<lambda>mapping. mapping \<notin> set (collectDisallowedStatusCodeRedirects originalStr)) currentRisky)"

section \<open>Submitting\<close>

definition SENSITIVE_FORM_FIELDS :: "jstring list" where
  "SENSITIVE_FORM_FIELDS = map js
     [''type'', ''base_url'', ''key'', ''openai_organization'', ''other'', ''key_mode'', ''param_override'',
      ''header_override'', ''settings'', ''setting'', ''advanced_custom'', ''is_enterprise_account'',
      ''vertex_key_type'', ''aws_key_type'', ''azure_responses_version'', ''force_format'',
      ''thinking_to_content'', ''proxy'', ''pass_through_body_enabled'', ''system_prompt'',
      ''system_prompt_override'', ''allow_service_tier'', ''disable_store'', ''allow_safety_identifier'',
      ''allow_include_obfuscation'', ''allow_inference_geo'', ''allow_speed'', ''claude_beta_query'',
      ''disable_task_polling_sleep'', ''upstream_model_update_check_enabled'',
      ''upstream_model_update_auto_sync_enabled'', ''upstream_model_update_ignored_models'']"

record ChannelFormValues =
  \<comment> \<open>the fields the handler reads; the others are submitted as they are\<close>
  form_key :: jstring
  form_models :: jstring
  form_model_mapping :: "jstring option"
  form_status_code_mapping :: "jstring option"

record DrawerState =
  isEditing :: bool
  sensitiveLocked :: bool
  dirtyFields :: "jstring list"
  initialModels :: "jstring list"
  initialModelMapping :: jstring
  initialStatusCodeMapping :: jstring

datatype MissingModelsAction = CancelSubmit | SubmitAnyway | AddModels

datatype SubmitOutcome =
    RequiredKey
  | NoPermission
  | InvalidStatusEntries "jstring list"
  | RiskDeclined
  | InvalidMapping MappingError
  | MissingCancelled
  | Submitted ChannelFormValues

definition submit_models ::
  "(jstring list \<Rightarrow> MissingModelsAction) \<Rightarrow> DrawerState \<Rightarrow> ChannelFormValues \<Rightarrow> SubmitOutcome" where
  \<comment> \<open>the handler from the check of the model mapping on\<close>
  "submit_models confirmMissing d data =
     (let modelMappingValue = opt_str (form_model_mapping data);
          hasModelMapping = (trim modelMappingValue \<noteq> []);
          normalizedModels = parseModelsString (form_models data) in
      case (if hasModelMapping then validateModelMappingJson modelMappingValue else None) of
        Some err \<Rightarrow> InvalidMapping err
      | None \<Rightarrow>
          if \<not> hasModelMapping then Submitted data
          else
            (let missingModels = findMissingModelsInMapping modelMappingValue normalizedModels in
             if missingModels \<noteq> [] \<and>
               hasModelConfigChanged normalizedModels modelMappingValue (initialModels d) (initialModelMapping d)
             then
               (case confirmMissing missingModels of
                  CancelSubmit \<Rightarrow> MissingCancelled
                | AddModels \<Rightarrow>
                    Submitted (data\<lparr>form_models := formatModelsArray (uniq (normalizedModels @ missingModels))\<rparr>)
                | SubmitAnyway \<Rightarrow> Submitted data)
             else Submitted data))"

definition onSubmit ::
  "(jstring list \<Rightarrow> bool) \<Rightarrow> (jstring list \<Rightarrow> MissingModelsAction) \<Rightarrow> DrawerState \<Rightarrow> ChannelFormValues \<Rightarrow> SubmitOutcome" where
  "onSubmit confirmRisk confirmMissing d data =
     (let statusMapping = opt_str (form_status_code_mapping data) in
      if \<not> isEditing d \<and> trim (form_key data) = [] then RequiredKey
      else if sensitiveLocked d \<and> list_ex (\<lambda>field. field \<in> set (dirtyFields d)) SENSITIVE_FORM_FIELDS then NoPermission
      else if trim statusMapping \<noteq> [] \<and> collectInvalidStatusCodeEntries statusMapping \<noteq> []
      then InvalidStatusEntries (collectInvalidStatusCodeEntries statusMapping)
      else if trim statusMapping \<noteq> [] \<and>
        (let riskyRedirects = collectNewDisallowedStatusCodeRedirects (initialStatusCodeMapping d) statusMapping in
         riskyRedirects \<noteq> [] \<and> \<not> confirmRisk riskyRedirects)
      then RiskDeclined
      else submit_models confirmMissing d data)"

lemmas channel_eval [js_eval] =
  parseModelsString_def formatModelsArray_def normalizeModelName_def parsed_object_def
  extractMappingSourceModels_def target_name_def extractRedirectModels_def hasModelConfigChanged_def
  findMissingModelsInMapping_def is_str_def validateModelMappingJson_def findExposedTargetModels_def
  categorizeModelsWithRedirect_def NON_REDIRECTABLE_STATUS_CODES_def code_pattern_def parseStatusCodeKey_def
  parseStatusCodeMappingTarget_def collectInvalidStatusCodeEntries_def risky_entry_def
  collectDisallowedStatusCodeRedirects_def collectNewDisallowedStatusCodeRedirects_def
  SENSITIVE_FORM_FIELDS_def submit_models_def onSubmit_def

section \<open>Lists of models\<close>

lemma split_on_append: "split_on c (a @ c # b) = split_on c a @ split_on c b"
  by (induction a) (auto split: list.splits)

lemma in_split_on_join: "x \<in> set xs \<Longrightarrow> c \<notin> set x \<Longrightarrow> x \<in> set (split_on c (join [c] xs))"
proof (induction xs rule: induct_list012)
  case (3 y z zs)
  then show ?case by (auto simp: split_on_append split_on_plain)
qed (auto simp: split_on_plain)

lemma in_parseModels_format:
  assumes "x \<in> set xs" "44 \<notin> set x" "trim x = x" "x \<noteq> []"
  shows "x \<in> set (parseModelsString (formatModelsArray xs))"
proof -
  have x: "x \<in> set (split_on 44 (formatModelsArray xs))"
    unfolding formatModelsArray_def by (rule in_split_on_join) (use assms in simp_all)
  then have "formatModelsArray xs \<noteq> []" using assms(4) by (intro notI) simp
  moreover have "x \<in> trim ` set (split_on 44 (formatModelsArray xs))"
    using image_eqI [where f = trim, OF assms(3) [symmetric] x] .
  ultimately show ?thesis using assms(4) by (simp add: parseModelsString_def)
qed

lemma parseModels_elem:
  assumes "m \<in> set (parseModelsString s)"
  shows "m \<noteq> [] \<and> trim m = m \<and> 44 \<notin> set m"
  using assms set_trim split_on_no_sep
  by (fastforce simp: parseModelsString_def split: if_splits)

lemma findMissing_elem:
  assumes "m \<in> set (findMissingModelsInMapping mapping models)"
  shows "m \<noteq> [] \<and> trim m = m"
  using assms by (auto simp: findMissingModelsInMapping_def normalizeModelName_def split: if_splits option.splits)

lemma in_findMissing:
  assumes "trim mapping \<noteq> []" "parsed_object mapping = Some kvs" "kv \<in> set kvs" "trim (fst kv) \<noteq> []"
    and "\<And>m. m \<in> set models \<Longrightarrow> trim m = m"
  shows "trim (fst kv) \<in> set (findMissingModelsInMapping mapping models) \<or> trim (fst kv) \<in> set models"
proof -
  have "mapping \<noteq> []" using assms(1) by (intro notI) simp
  moreover have "normalizeModelName ` set models = set models"
    using assms(5) by (force simp: normalizeModelName_def)
  ultimately show ?thesis using assms(1-4)
    by (auto simp: findMissingModelsInMapping_def normalizeModelName_def)
qed

lemma validate_None:
  assumes "validateModelMappingJson mapping = None" "trim mapping \<noteq> []"
  shows "\<exists>kvs. parsed_object mapping = Some kvs \<and> list_all (\<lambda>kv. is_str (snd kv)) kvs"
proof -
  have "mapping \<noteq> []" using assms(2) by (intro notI) simp
  with assms show ?thesis
    by (auto simp: validateModelMappingJson_def parsed_object_def list_ex_iff list_all_iff
        split: option.splits jsval.splits if_splits)
qed

section \<open>Redirects\<close>

definition redirect_label :: "nat \<times> nat \<Rightarrow> jstring" where
  "redirect_label r = nat_str (fst r) @ js '' -> '' @ nat_str (snd r)"

definition risky_redirects :: "jstring \<Rightarrow> (nat \<times> nat) set" where
  \<comment> \<open>the redirects of 504 and 524 to another code that a mapping text holds\<close>
  "risky_redirects s =
     {(f, t). (f = 504 \<or> f = 524) \<and> f \<noteq> t \<and> trim s \<noteq> [] \<and>
        (\<exists>kvs k v. parsed_object s = Some kvs \<and> (k, v) \<in> set kvs \<and>
           parseStatusCodeKey k = Some f \<and> parseStatusCodeMappingTarget v = Some t)}"

lemma redirect_label_inject: "redirect_label r = redirect_label q \<Longrightarrow> r = q"
proof -
  have front: "takeWhile is_digit (redirect_label p) = nat_str (fst p)" for p
    unfolding redirect_label_def
    by (simp add: takeWhile_append nat_str_digits js_def) (simp add: is_digit_def)
  have second: "drop (length (nat_str (fst p)) + 4) (redirect_label p) = nat_str (snd p)" for p
    by (simp add: redirect_label_def js_def)
  assume eq: "redirect_label r = redirect_label q"
  have "nat_str (fst r) = nat_str (fst q)" using front [of r] front [of q] eq by simp
  moreover from this have "nat_str (snd r) = nat_str (snd q)" using second [of r] second [of q] eq by simp
  ultimately show "r = q" by (simp add: prod_eq_iff)
qed

lemma risky_entry_Some:
  "risky_entry kv = Some l \<longleftrightarrow>
     (\<exists>f t. parseStatusCodeKey (fst kv) = Some f \<and> parseStatusCodeMappingTarget (snd kv) = Some t \<and>
        (f = 504 \<or> f = 524) \<and> f \<noteq> t \<and> l = redirect_label (f, t))"
  by (auto simp: risky_entry_def NON_REDIRECTABLE_STATUS_CODES_def redirect_label_def split: option.splits)

lemma set_collectDisallowed:
  "set (collectDisallowedStatusCodeRedirects s) = redirect_label ` risky_redirects s"
proof (intro equalityI subsetI)
  fix l assume "l \<in> set (collectDisallowedStatusCodeRedirects s)"
  then obtain kvs kv where kvs: "trim s \<noteq> []" "parsed_object s = Some kvs" "kv \<in> set kvs" and "risky_entry kv = Some l"
    by (cases "parsed_object s") (auto simp: collectDisallowedStatusCodeRedirects_def in_map_filter split: if_splits)
  then obtain f t where r: "parseStatusCodeKey (fst kv) = Some f" "parseStatusCodeMappingTarget (snd kv) = Some t"
    "f = 504 \<or> f = 524" "f \<noteq> t" and l: "l = redirect_label (f, t)"
    by (auto simp: risky_entry_Some)
  have "(fst kv, snd kv) \<in> set kvs" using kvs(3) by simp
  then have "(f, t) \<in> risky_redirects s" using kvs(1,2) r unfolding risky_redirects_def by blast
  with l show "l \<in> redirect_label ` risky_redirects s" by simp
next
  fix l assume "l \<in> redirect_label ` risky_redirects s"
  then obtain f t kvs k v where l: "l = redirect_label (f, t)" and kvs: "parsed_object s = Some kvs" "(k, v) \<in> set kvs"
    and r: "f = 504 \<or> f = 524" "f \<noteq> t" "trim s \<noteq> []"
      "parseStatusCodeKey k = Some f" "parseStatusCodeMappingTarget v = Some t"
    by (auto simp: risky_redirects_def)
  then have "risky_entry (k, v) = Some l" by (simp add: risky_entry_Some)
  with kvs r(3) show "l \<in> set (collectDisallowedStatusCodeRedirects s)"
    by (auto simp: collectDisallowedStatusCodeRedirects_def in_map_filter)
qed

lemma sorted_collectDisallowed:
  "sorted_wrt (\<lambda>a b. code_unit_compare a b \<le> 0) (collectDisallowedStatusCodeRedirects s)"
  "distinct (collectDisallowedStatusCodeRedirects s)"
  using comparator.sorted_js_sort [OF cuc.comparator_label [of "\<lambda>x. x"]]
  by (simp_all add: collectDisallowedStatusCodeRedirects_def split: option.splits)

lemma collectNew_filter:
  "collectNewDisallowedStatusCodeRedirects orig cur =
     filter (\<lambda>m. m \<notin> set (collectDisallowedStatusCodeRedirects orig)) (collectDisallowedStatusCodeRedirects cur)"
  by (simp add: collectNewDisallowedStatusCodeRedirects_def Let_def)

text \<open>
  C33: The user is asked about exactly the redirects of 504 and 524 to another status code that the edited
  mapping holds and the mapping at the opening of the drawer did not; each is listed once, in order.
\<close>

theorem new_risky_redirects_exact:
  "set (collectNewDisallowedStatusCodeRedirects orig cur) = redirect_label ` (risky_redirects cur - risky_redirects orig) \<and>
   distinct (collectNewDisallowedStatusCodeRedirects orig cur) \<and>
   sorted_wrt (\<lambda>a b. code_unit_compare a b \<le> 0) (collectNewDisallowedStatusCodeRedirects orig cur)"
proof (intro conjI)
  have "inj redirect_label" by (auto intro: injI redirect_label_inject)
  then show "set (collectNewDisallowedStatusCodeRedirects orig cur) =
      redirect_label ` (risky_redirects cur - risky_redirects orig)"
    by (auto simp: collectNew_filter set_collectDisallowed image_set_diff)
qed (simp_all add: collectNew_filter sorted_collectDisallowed sorted_wrt_filter)

section \<open>What is submitted\<close>

lemma risky_redirects_subset:
  assumes "collectNewDisallowedStatusCodeRedirects orig cur = []"
  shows "risky_redirects cur \<subseteq> risky_redirects orig"
proof
  fix r assume "r \<in> risky_redirects cur"
  then have "redirect_label r \<in> redirect_label ` risky_redirects orig"
    using assms by (auto simp: collectNew_filter filter_empty_conv set_collectDisallowed)
  then show "r \<in> risky_redirects orig" using redirect_label_inject by blast
qed

lemma onSubmit_Submitted:
  assumes "onSubmit confirmRisk confirmMissing d data = Submitted out"
  shows "submit_models confirmMissing d data = Submitted out"
    and "trim (opt_str (form_status_code_mapping data)) \<noteq> [] \<Longrightarrow>
      collectInvalidStatusCodeEntries (opt_str (form_status_code_mapping data)) = []"
    and "trim (opt_str (form_status_code_mapping data)) \<noteq> [] \<Longrightarrow>
      collectNewDisallowedStatusCodeRedirects (initialStatusCodeMapping d) (opt_str (form_status_code_mapping data)) = [] \<or>
      confirmRisk (collectNewDisallowedStatusCodeRedirects (initialStatusCodeMapping d) (opt_str (form_status_code_mapping data)))"
    and "isEditing d \<or> trim (form_key data) \<noteq> []"
    and "sensitiveLocked d \<Longrightarrow> set (dirtyFields d) \<inter> set SENSITIVE_FORM_FIELDS = {}"
  using assms by (auto simp: onSubmit_def Let_def list_ex_iff split: if_splits)

lemma submit_models_cases:
  assumes "submit_models confirmMissing d data = Submitted out"
  defines "mapping \<equiv> opt_str (form_model_mapping data)" and "ms \<equiv> parseModelsString (form_models data)"
  defines "missing \<equiv> findMissingModelsInMapping mapping ms"
  shows "trim mapping \<noteq> [] \<Longrightarrow> validateModelMappingJson mapping = None"
    and "out = data \<and> (trim mapping = [] \<or> missing = [] \<or>
           \<not> hasModelConfigChanged ms mapping (initialModels d) (initialModelMapping d) \<or>
           confirmMissing missing = SubmitAnyway) \<or>
         out = data\<lparr>form_models := formatModelsArray (uniq (ms @ missing))\<rparr>"
  using assms(1) unfolding submit_models_def Let_def mapping_def ms_def missing_def
  by (auto split: if_splits option.splits MissingModelsAction.splits)

lemma submitted_models:
  assumes "submit_models confirmMissing d data = Submitted out"
  shows "set (parseModelsString (form_models data)) \<subseteq> set (parseModelsString (form_models out))"
  using submit_models_cases(2) [OF assms]
  by (auto intro!: in_parseModels_format dest: parseModels_elem)

lemma submitted_sources:
  assumes "submit_models confirmMissing d data = Submitted out"
  defines "mapping \<equiv> opt_str (form_model_mapping data)" and "ms \<equiv> parseModelsString (form_models data)"
  assumes "hasModelConfigChanged ms mapping (initialModels d) (initialModelMapping d)"
    and "confirmMissing (findMissingModelsInMapping mapping ms) \<noteq> SubmitAnyway"
    and "trim mapping \<noteq> []" "parsed_object mapping = Some kvs" "kv \<in> set kvs"
    and "trim (fst kv) \<noteq> []" "44 \<notin> set (fst kv)"
  shows "trim (fst kv) \<in> set (parseModelsString (form_models out))"
proof -
  let ?k = "trim (fst kv)" and ?missing = "findMissingModelsInMapping mapping ms"
  have k: "?k \<in> set ?missing \<or> ?k \<in> set ms"
    by (rule in_findMissing [OF assms(6-9)]) (simp add: ms_def parseModels_elem)
  have "44 \<notin> set ?k" using assms(10) set_trim by blast
  moreover have "out = data \<and> ?missing = [] \<or> out = data\<lparr>form_models := formatModelsArray (uniq (ms @ ?missing))\<rparr>"
    using submit_models_cases(2) [OF assms(1)] assms(4-6) unfolding mapping_def ms_def by blast
  ultimately show ?thesis using k assms(9)
    by (auto simp: ms_def intro!: in_parseModels_format)
qed


definition sample_drawer :: DrawerState where
  "sample_drawer = \<lparr>isEditing = False, sensitiveLocked = False, dirtyFields = [], initialModels = [],
     initialModelMapping = [], initialStatusCodeMapping = []\<rparr>"

definition sample_channel :: ChannelFormValues where
  "sample_channel = \<lparr>form_key = js ''k'', form_models = js ''c'',
     form_model_mapping = Some (to_json (JObj [(js ''a'', JStr (js ''b''))])),
     form_status_code_mapping = Some (to_json (JObj [(js ''504'', JStr (js ''500''))]))\<rparr>"

lemma sample_codes: "parsed_object (to_json (JObj [(js ''504'', JStr (js ''500''))])) = Some [(js ''504'', JStr (js ''500''))]"
  unfolding parsed_object_def by (subst json_round_trip) (simp_all add: obj_ordered_def text_ok_def js_eval)

lemma sample_mapping: "parsed_object (to_json (JObj [(js ''a'', JStr (js ''b''))])) = Some [(js ''a'', JStr (js ''b''))]"
  unfolding parsed_object_def by (subst json_round_trip) (simp_all add: obj_ordered_def text_ok_def js_eval)

lemma sample_json: "json_parse (to_json (JObj [(js ''a'', JStr (js ''b''))])) = Some (JObj [(js ''a'', JStr (js ''b''))])"
  by (rule json_round_trip) (simp_all add: obj_ordered_def text_ok_def js_eval)

lemma sample_texts:
  "trim (to_json (JObj [(js ''a'', JStr (js ''b''))])) \<noteq> []" "to_json (JObj [(js ''a'', JStr (js ''b''))]) \<noteq> []"
  "trim (to_json (JObj [(js ''504'', JStr (js ''500''))])) \<noteq> []"
  by (simp_all add: js_eval)

lemma sample_checks:
  "collectInvalidStatusCodeEntries (to_json (JObj [(js ''504'', JStr (js ''500''))])) = []"
  "collectNewDisallowedStatusCodeRedirects [] (to_json (JObj [(js ''504'', JStr (js ''500''))])) = [js ''504 -> 500'']"
  "validateModelMappingJson (to_json (JObj [(js ''a'', JStr (js ''b''))])) = None"
  "findMissingModelsInMapping (to_json (JObj [(js ''a'', JStr (js ''b''))])) [js ''c''] = [js ''a'']"
  subgoal by (simp add: collectInvalidStatusCodeEntries_def sample_codes sample_texts del: to_json.simps) (simp add: js_eval)
  subgoal by (simp add: collectNew_filter collectDisallowedStatusCodeRedirects_def sample_codes sample_texts
        del: to_json.simps)
      (simp add: js_eval List.map_filter_def nat_str.simps)
  subgoal by (simp add: validateModelMappingJson_def sample_json sample_texts is_str_def del: to_json.simps)
  subgoal by (simp add: findMissingModelsInMapping_def sample_mapping sample_texts del: to_json.simps) (simp add: js_eval)
  done

lemma sample_submit:
  "onSubmit (\<lambda>_. True) (\<lambda>_. AddModels) sample_drawer sample_channel = Submitted (sample_channel\<lparr>form_models := js ''c,a''\<rparr>)"
proof -
  have "parseModelsString (js ''c'') = [js ''c'']" "trim (js ''k'') \<noteq> []"
    "formatModelsArray (uniq [js ''c'', js ''a'']) = js ''c,a''"
    by (simp_all add: js_eval)
  then show ?thesis
    by (simp add: onSubmit_def submit_models_def sample_drawer_def sample_channel_def opt_str_def sample_texts
        sample_checks hasModelConfigChanged_def del: to_json.simps)
qed


end
