(* ===== verification/Js_Expr.thy ===== *)
theory Js_Expr
  imports Js_Json
begin

text \<open>
  The expressions of the language that billing expressions consist of, as \<open>new Function\<close> compiles them: numbers,
  names, strings, sums, products, comparisons, \<open>&&\<close>, the conditional operator and calls. A text outside this
  fragment has no tokens or no parse here, and nothing is said about it.
\<close>

section \<open>Tokens\<close>

datatype token = TNum rat | TName jstring | TStr jstring | TOp jstring

definition is_name_start :: "code_unit \<Rightarrow> bool" where
  "is_name_start c \<longleftrightarrow> 97 \<le> c \<and> c \<le> 122 \<or> 65 \<le> c \<and> c \<le> 90 \<or> c = 95"

definition is_name_char :: "code_unit \<Rightarrow> bool" where
  "is_name_char c \<longleftrightarrow> is_name_start c \<or> is_digit c"

definition is_decimal_char :: "code_unit \<Rightarrow> bool" where
  "is_decimal_char c \<longleftrightarrow> is_digit c \<or> c = 46"

definition two_char_ops :: "jstring list" where
  "two_char_ops = map js [''&&'', ''<='', ''>='']"

definition one_char_ops :: jstring where
  "one_char_ops = js ''+*<>?:(),''"

definition number_token :: "jstring \<Rightarrow> token option" where
  \<comment> \<open>a decimal literal without a leading zero that no name follows\<close>
  "number_token s =
     (let t = takeWhile is_decimal_char s; r = dropWhile is_decimal_char s in
      if (1 < length t \<and> t ! 0 = 48 \<and> is_digit (t ! 1)) \<or> (r \<noteq> [] \<and> is_name_char (hd r)) then None
      else map_option TNum (unsigned_decimal t))"

definition plain_string_char :: "code_unit \<Rightarrow> bool" where
  "plain_string_char c \<longleftrightarrow> c \<noteq> 34 \<and> c \<noteq> 92 \<and> c \<noteq> 10 \<and> c \<noteq> 13"

function tokens_of :: "jstring \<Rightarrow> token list option" where
  "tokens_of [] = Some []"
| "tokens_of (c # s) =
     (if is_space c then tokens_of s
      else if is_decimal_char c then
        (case number_token (c # s) of None \<Rightarrow> None
         | Some t \<Rightarrow> map_option ((#) t) (tokens_of (dropWhile is_decimal_char s)))
      else if is_name_start c then
        map_option ((#) (TName (c # takeWhile is_name_char s))) (tokens_of (dropWhile is_name_char s))
      else if c = 34 then
        (case dropWhile plain_string_char s of
           d # r \<Rightarrow> if d = 34 then map_option ((#) (TStr (takeWhile plain_string_char s))) (tokens_of r) else None
         | [] \<Rightarrow> None)
      else
        (case s of
           d # r \<Rightarrow>
             if [c, d] \<in> set two_char_ops then map_option ((#) (TOp [c, d])) (tokens_of r)
             else if c \<in> set one_char_ops then map_option ((#) (TOp [c])) (tokens_of s) else None
         | [] \<Rightarrow> if c \<in> set one_char_ops then Some [TOp [c]] else None))"
  by pat_completeness auto
termination
proof (relation "measure length", goal_cases)
  case (5 c s d r)
  have "length (dropWhile plain_string_char s) \<le> length s" by (rule length_dropWhile_le)
  with 5 show ?case by simp
qed (auto simp: less_Suc_eq_le length_dropWhile_le)

declare tokens_of.simps(2) [simp del]

section \<open>Parsing\<close>

datatype jexpr =
    ENum rat
  | EName jstring
  | EStr jstring
  | EAdd jexpr jexpr
  | EMul jexpr jexpr
  | ECompare jstring jexpr jexpr
  | EAnd jexpr jexpr
  | ECond jexpr jexpr jexpr
  | ECall jstring "jexpr list"

definition op_is :: "token list \<Rightarrow> string \<Rightarrow> bool" where
  "op_is ts f = (case ts of TOp l # _ \<Rightarrow> l = js f | _ \<Rightarrow> False)"

definition compare_token :: "token list \<Rightarrow> jstring option" where
  "compare_token ts =
     (case ts of TOp l # _ \<Rightarrow> if l \<in> set (map js [''<'', ''<='', ''>'', ''>='']) then Some l else None | _ \<Rightarrow> None)"

type_synonym 'a parsed = "('a \<times> token list) option"
type_synonym 'a parser = "token list \<Rightarrow> 'a parsed"

fun p_chain :: "string \<Rightarrow> (jexpr \<Rightarrow> jexpr \<Rightarrow> jexpr) \<Rightarrow> jexpr parser \<Rightarrow> nat \<Rightarrow> jexpr \<Rightarrow> jexpr parser" where
  \<comment> \<open>the further operands of a left-associative operator\<close>
  "p_chain l f p 0 a ts = Some (a, ts)"
| "p_chain l f p (Suc n) a ts =
     (if op_is ts l then (case p (tl ts) of None \<Rightarrow> None | Some (b, r) \<Rightarrow> p_chain l f p n (f a b) r)
      else Some (a, ts))"

definition p_left :: "string \<Rightarrow> (jexpr \<Rightarrow> jexpr \<Rightarrow> jexpr) \<Rightarrow> jexpr parser \<Rightarrow> jexpr parser" where
  "p_left l f p ts = (case p ts of None \<Rightarrow> None | Some (a, r) \<Rightarrow> p_chain l f p (length r) a r)"

fun p_args :: "jexpr parser \<Rightarrow> nat \<Rightarrow> jexpr list parser" where
  \<comment> \<open>the arguments of a call and the closing parenthesis\<close>
  "p_args p 0 ts = None"
| "p_args p (Suc n) ts =
     (case p ts of None \<Rightarrow> None
      | Some (e, r) \<Rightarrow>
          if op_is r '','' then map_option (\<lambda>(es, r'). (e # es, r')) (p_args p n (tl r))
          else if op_is r '')'' then Some ([e], tl r) else None)"

definition p_prim :: "jexpr parser \<Rightarrow> jexpr parser" where
  "p_prim p ts =
     (case ts of
        [] \<Rightarrow> None
      | TNum q # r \<Rightarrow> Some (ENum q, r)
      | TStr s # r \<Rightarrow> Some (EStr s, r)
      | TName f # r \<Rightarrow>
          if op_is r ''('' then map_option (\<lambda>(es, r'). (ECall f es, r')) (p_args p (length r) (tl r)) else Some (EName f, r)
      | TOp l # r \<Rightarrow>
          if l = js ''('' then
            (case p r of None \<Rightarrow> None
             | Some (e, r') \<Rightarrow> if op_is r' '')'' then Some (e, tl r') else None)
          else None)"

definition p_add :: "jexpr parser \<Rightarrow> jexpr parser" where
  "p_add p = p_left ''+'' EAdd (p_left ''*'' EMul (p_prim p))"

definition p_compare :: "jexpr parser \<Rightarrow> jexpr parser" where
  \<comment> \<open>one comparison; a chain of them is outside the fragment\<close>
  "p_compare p ts =
     (case p_add p ts of None \<Rightarrow> None
      | Some (a, r) \<Rightarrow>
          (case compare_token r of None \<Rightarrow> Some (a, r)
           | Some l \<Rightarrow> map_option (\<lambda>(b, r'). (ECompare l a b, r')) (p_add p (tl r))))"

definition p_and :: "jexpr parser \<Rightarrow> jexpr parser" where
  "p_and p = p_left ''&&'' EAnd (p_compare p)"

fun p_cond :: "nat \<Rightarrow> jexpr parser" where
  \<comment> \<open>the number bounds the nesting\<close>
  "p_cond 0 ts = None"
| "p_cond (Suc n) ts =
     (case p_and (p_cond n) ts of None \<Rightarrow> None
      | Some (a, r) \<Rightarrow>
          if op_is r ''?'' then
            (case p_cond n (tl r) of None \<Rightarrow> None
             | Some (b, r') \<Rightarrow>
                 if op_is r' '':'' then map_option (\<lambda>(c, r''). (ECond a b c, r'')) (p_cond n (tl r')) else None)
          else Some (a, r))"

definition parse_expr :: "jstring \<Rightarrow> jexpr option" where
  \<comment> \<open>a nested expression is shorter, so the number of tokens bounds the nesting\<close>
  "parse_expr s =
     (case tokens_of s of None \<Rightarrow> None
      | Some ts \<Rightarrow>
          (case p_cond (Suc (length ts)) ts of
             Some (e, []) \<Rightarrow> Some e
           | _ \<Rightarrow> None))"

section \<open>Evaluation\<close>

definition compare_values :: "jstring \<Rightarrow> jsval \<Rightarrow> jsval \<Rightarrow> jsval option" where
  "compare_values l a b =
     (case (a, b) of
        (JNum x, JNum y) \<Rightarrow>
          if l = js ''<'' then Some (JBool (x < y))
          else if l = js ''<='' then Some (JBool (x \<le> y))
          else if l = js ''>'' then Some (JBool (y < x)) else Some (JBool (y \<le> x))
      | _ \<Rightarrow> None)"

definition num_op :: "(rat \<Rightarrow> rat \<Rightarrow> rat) \<Rightarrow> jsval \<Rightarrow> jsval \<Rightarrow> jsval option" where
  "num_op f a b = (case (a, b) of (JNum x, JNum y) \<Rightarrow> Some (JNum (f x y)) | _ \<Rightarrow> None)"

type_synonym 'st call = "jstring \<Rightarrow> jsval list \<Rightarrow> 'st \<Rightarrow> (jsval \<times> 'st) option"

fun eval_expr :: "(jstring \<Rightarrow> jsval option) \<Rightarrow> 'st call \<Rightarrow> jexpr \<Rightarrow> 'st \<Rightarrow> (jsval \<times> 'st) option"
and eval_list :: "(jstring \<Rightarrow> jsval option) \<Rightarrow> 'st call \<Rightarrow> jexpr list \<Rightarrow> 'st \<Rightarrow> (jsval list \<times> 'st) option" where
  \<comment> \<open>\<open>call\<close> is what the functions in scope do; an operand of another type than the fragment's is \<open>None\<close>\<close>
  "eval_expr env call (ENum q) st = Some (JNum q, st)"
| "eval_expr env call (EStr s) st = Some (JStr s, st)"
| "eval_expr env call (EName x) st = map_option (\<lambda>v. (v, st)) (env x)"
| "eval_expr env call (EAdd a b) st =
     (case eval_expr env call a st of None \<Rightarrow> None
      | Some (v, st1) \<Rightarrow>
          (case eval_expr env call b st1 of None \<Rightarrow> None
           | Some (w, st2) \<Rightarrow> map_option (\<lambda>u. (u, st2)) (num_op (+) v w)))"
| "eval_expr env call (EMul a b) st =
     (case eval_expr env call a st of None \<Rightarrow> None
      | Some (v, st1) \<Rightarrow>
          (case eval_expr env call b st1 of None \<Rightarrow> None
           | Some (w, st2) \<Rightarrow> map_option (\<lambda>u. (u, st2)) (num_op (*) v w)))"
| "eval_expr env call (ECompare l a b) st =
     (case eval_expr env call a st of None \<Rightarrow> None
      | Some (v, st1) \<Rightarrow>
          (case eval_expr env call b st1 of None \<Rightarrow> None
           | Some (w, st2) \<Rightarrow> map_option (\<lambda>u. (u, st2)) (compare_values l v w)))"
| "eval_expr env call (EAnd a b) st =
     (case eval_expr env call a st of None \<Rightarrow> None
      | Some (v, st1) \<Rightarrow> if truthy v then eval_expr env call b st1 else Some (v, st1))"
| "eval_expr env call (ECond a b c) st =
     (case eval_expr env call a st of None \<Rightarrow> None
      | Some (v, st1) \<Rightarrow> if truthy v then eval_expr env call b st1 else eval_expr env call c st1)"
| "eval_expr env call (ECall f es) st =
     (case eval_list env call es st of None \<Rightarrow> None | Some (vs, st1) \<Rightarrow> call f vs st1)"
| "eval_list env call [] st = Some ([], st)"
| "eval_list env call (e # es) st =
     (case eval_expr env call e st of None \<Rightarrow> None
      | Some (v, st1) \<Rightarrow> map_option (\<lambda>(vs, st2). (v # vs, st2)) (eval_list env call es st1))"

end
