(* ===== verification/Js_Regex.thy ===== *)
theory Js_Regex
  imports Js_Prelude
begin

text \<open>
  The regular expressions of the language, as far as the client uses them: literals, character classes,
  sequences, ordered alternatives, greedy repetition, optional parts, capturing groups, back references and the
  end of the input. A match is a backtracking search, so the matcher gives all ways to match in the
  order in which the search tries them and \<open>exec\<close> takes the first.
\<close>

section \<open>Matching\<close>

datatype regex =
    RLit jstring
  | RSet "code_unit \<Rightarrow> bool"
  | RSeq regex regex
  | RAlt regex regex
  | RStar regex
  | ROpt regex
  | RGroup nat regex
  | RBack nat
  | REnd

type_synonym captures = "(nat \<times> jstring) list"
type_synonym rstate = "jstring \<times> captures"

fun repeat_greedy :: "nat \<Rightarrow> (rstate \<Rightarrow> rstate list) \<Rightarrow> rstate \<Rightarrow> rstate list" where
  \<comment> \<open>an iteration that consumes nothing ends the repetition, so the length of the input bounds the iterations\<close>
  "repeat_greedy 0 f s = [s]"
| "repeat_greedy (Suc n) f s =
     List.bind (filter (\<lambda>t. length (fst t) < length (fst s)) (f s)) (repeat_greedy n f) @ [s]"

primrec rmatch :: "regex \<Rightarrow> rstate \<Rightarrow> rstate list" where
  "rmatch (RLit l) s = (if startsWith (fst s) l then [(drop (length l) (fst s), snd s)] else [])"
| "rmatch (RSet P) s = (case fst s of [] \<Rightarrow> [] | c # r \<Rightarrow> if P c then [(r, snd s)] else [])"
| "rmatch (RSeq r q) s = List.bind (rmatch r s) (rmatch q)"
| "rmatch (RAlt r q) s = rmatch r s @ rmatch q s"
| "rmatch (RStar r) s = repeat_greedy (length (fst s)) (rmatch r) s"
| "rmatch (ROpt r) s = rmatch r s @ [s]"
| "rmatch (RGroup n r) s =
     map (\<lambda>t. (fst t, (n, take (length (fst s) - length (fst t)) (fst s)) # snd t)) (rmatch r s)"
| "rmatch (RBack n) s =
     (case map_of (snd s) n of None \<Rightarrow> [s]
      | Some l \<Rightarrow> if startsWith (fst s) l then [(drop (length l) (fst s), snd s)] else [])"
| "rmatch REnd s = (if fst s = [] then [s] else [])"

fun rseq :: "regex list \<Rightarrow> regex" where
  "rseq [] = RLit []"
| "rseq [r] = r"
| "rseq (r # rs) = RSeq r (rseq rs)"

fun ralt :: "regex list \<Rightarrow> regex" where
  "ralt [] = RSet (\<lambda>_. False)"
| "ralt [r] = r"
| "ralt (r # rs) = RAlt r (ralt rs)"

definition rplus :: "regex \<Rightarrow> regex" where
  "rplus r = RSeq r (RStar r)"

definition match_at :: "regex \<Rightarrow> jstring \<Rightarrow> rstate option" where
  \<comment> \<open>a match that starts at the start of the text: what is left of the text, and the captures\<close>
  "match_at r s = (case rmatch r (s, []) of [] \<Rightarrow> None | t # _ \<Rightarrow> Some t)"

definition match_start :: "regex \<Rightarrow> jstring \<Rightarrow> captures option" where
  \<comment> \<open>\<open>s.match(/^r/)\<close>\<close>
  "match_start r s = map_option snd (match_at r s)"

definition cap :: "captures \<Rightarrow> nat \<Rightarrow> jstring" where
  \<comment> \<open>\<open>m[n]\<close> of a group that took part in the match\<close>
  "cap m n = (case map_of m n of None \<Rightarrow> [] | Some t \<Rightarrow> t)"

fun find_match :: "regex \<Rightarrow> jstring \<Rightarrow> rstate option" where
  \<comment> \<open>the leftmost match\<close>
  "find_match r [] = match_at r []"
| "find_match r (c # s) = (case match_at r (c # s) of Some t \<Rightarrow> Some t | None \<Rightarrow> find_match r s)"

definition re_space :: regex where "re_space = RSet is_space"

definition dot :: "code_unit \<Rightarrow> bool" where
  \<comment> \<open>\<open>.\<close> without the \<open>s\<close> flag\<close>
  "dot c \<longleftrightarrow> c \<noteq> 10 \<and> c \<noteq> 13 \<and> c \<noteq> 8232 \<and> c \<noteq> 8233"

section \<open>Lemmas\<close>

lemma bind_append [simp]: "List.bind (xs @ ys) f = List.bind xs f @ List.bind ys f"
  by (induction xs) simp_all

lemma bind_single [simp]: "List.bind [x] f = f x"
  by simp

lemma bind_assoc: "List.bind (List.bind xs f) g = List.bind xs (\<lambda>x. List.bind (f x) g)"
  by (induction xs) simp_all

lemma bind_Nil: "(\<And>x. x \<in> set xs \<Longrightarrow> f x = []) \<Longrightarrow> List.bind xs f = []"
  by (induction xs) simp_all

lemma rseq_Cons: "rs \<noteq> [] \<Longrightarrow> rseq (r # rs) = RSeq r (rseq rs)"
  by (cases rs) simp_all

lemma ralt_Cons: "rs \<noteq> [] \<Longrightarrow> ralt (r # rs) = RAlt r (ralt rs)"
  by (cases rs) simp_all

lemma startsWith_Cons [simp]: "startsWith (c # s) (d # l) \<longleftrightarrow> c = d \<and> startsWith s l"
  by (simp add: startsWith_def)

lemma startsWith_Nil_Cons [simp]: "\<not> startsWith [] (d # l)"
  by (simp add: startsWith_def)

text \<open>A repeated class takes a run of its characters, the longest first.\<close>

lemma repeat_class:
  "length s \<le> n \<Longrightarrow> repeat_greedy n (rmatch (RSet P)) (s, c) =
     map (\<lambda>k. (drop k s, c)) (rev [0..<Suc (length (takeWhile P s))])"
proof (induction n arbitrary: s)
  case (Suc n)
  show ?case
  proof (cases s)
    case (Cons x r)
    show ?thesis
    proof (cases "P x")
      case True
      have "rev [0..<Suc (Suc m)] = map Suc (rev [0..<Suc m]) @ [0]" for m
        by (simp add: rev_map [symmetric] map_Suc_upt upt_conv_Cons del: upt_Suc)
      then show ?thesis using Suc.IH [of r] Suc.prems True Cons by (simp add: comp_def del: upt_Suc)
    qed (simp add: Cons)
  qed simp
qed simp

lemma star_class:
  "rmatch (RStar (RSet P)) (s, c) = map (\<lambda>k. (drop k s, c)) (rev [0..<Suc (length (takeWhile P s))])"
  by (simp add: repeat_class del: upt_Suc)

text \<open>
  What follows a run decides how much of it is taken: if it fails inside the run, the whole run is.
\<close>

lemma bind_run:
  assumes "\<And>k. k < n \<Longrightarrow> f k = []"
  shows "List.bind (rev [0..<Suc n]) f = f n"
proof -
  have "List.bind (rev [0..<n]) f = []" by (rule bind_Nil) (use assms in simp)
  then show ?thesis by simp
qed

lemma star_run:
  assumes "\<And>k. k < length (takeWhile P s) \<Longrightarrow> f (drop k s, c) = []"
  shows "List.bind (rmatch (RStar (RSet P)) (s, c)) f = f (dropWhile P s, c)"
proof -
  have "List.bind (map g xs) f = List.bind xs (\<lambda>x. f (g x))" for g :: "nat \<Rightarrow> rstate" and xs
    by (induction xs) simp_all
  then show ?thesis using assms
    by (simp add: star_class bind_run dropWhile_eq_drop del: upt_Suc rmatch.simps)
qed

lemma plus_run:
  assumes "\<And>k. 0 < k \<Longrightarrow> k < length (takeWhile P s) \<Longrightarrow> f (drop k s, c) = []"
  shows "List.bind (rmatch (rplus (RSet P)) (s, c)) f = (if takeWhile P s = [] then [] else f (dropWhile P s, c))"
proof (cases s)
  case (Cons x r)
  show ?thesis
  proof (cases "P x")
    case True
    have "List.bind (rmatch (RStar (RSet P)) (r, c)) f = f (dropWhile P r, c)"
      by (rule star_run) (use assms [of "Suc _"] True Cons in simp)
    with True Cons show ?thesis by (simp add: rplus_def)
  qed (simp add: Cons rplus_def)
qed (simp add: rplus_def)

lemma bind_group:
  "List.bind (rmatch (RGroup n r) s) f =
     List.bind (rmatch r s) (\<lambda>t. f (fst t, (n, take (length (fst s) - length (fst t)) (fst s)) # snd t))"
proof -
  have "List.bind (map g xs) f = List.bind xs (\<lambda>x. f (g x))" for g :: "rstate \<Rightarrow> rstate" and xs
    by (induction xs) simp_all
  then show ?thesis by simp
qed

lemma length_drop_take: "k \<le> length s \<Longrightarrow> take (length s - length (drop k s)) s = take k s"
  by simp

lemma group_plus_run:
  assumes "\<And>k d. 0 < k \<Longrightarrow> k < length (takeWhile P s) \<Longrightarrow> f (drop k s, d) = []"
  shows "List.bind (rmatch (RGroup n (rplus (RSet P))) (s, c)) f =
    (if takeWhile P s = [] then [] else f (dropWhile P s, (n, takeWhile P s) # c))"
proof -
  have "take (length s - length (dropWhile P s)) s = takeWhile P s"
    by (metis append_eq_conv_conj length_append takeWhile_dropWhile_id add_diff_cancel_right')
  then show ?thesis
    unfolding bind_group using assms by (subst plus_run) simp_all
qed

lemma group_star_run:
  assumes "\<And>k d. k < length (takeWhile P s) \<Longrightarrow> f (drop k s, d) = []"
  shows "List.bind (rmatch (RGroup n (RStar (RSet P))) (s, c)) f = f (dropWhile P s, (n, takeWhile P s) # c)"
proof -
  have "take (length s - length (dropWhile P s)) s = takeWhile P s"
    by (metis append_eq_conv_conj length_append takeWhile_dropWhile_id add_diff_cancel_right')
  then show ?thesis
    unfolding bind_group using assms by (subst star_run) simp_all
qed

lemma drop_run:
  assumes "k < length (takeWhile P s)"
  obtains x r where "drop k s = x # r" "P x"
proof -
  have "k < length s" using assms length_takeWhile_le [of P s] by linarith
  then have "drop k s = s ! k # drop (Suc k) s" by (simp add: Cons_nth_drop_Suc)
  moreover have "P (s ! k)" using assms set_takeWhileD nth_mem [OF assms] by (fastforce simp: takeWhile_nth)
  ultimately show ?thesis using that by blast
qed

lemma rlit_Cons: "rmatch (RLit (d # l)) (c # r, m) = (if c = d then rmatch (RLit l) (r, m) else [])"
  by simp

lemma rlit_empty: "rmatch (RLit (d # l)) ([], m) = []"
  by simp

lemma rlit_Nil: "rmatch (RLit []) s = [s]"
  by simp

lemma rlit_append: "rmatch (RLit l) (l @ s, m) = [(s, m)]"
  by simp

section \<open>The first match\<close>

text \<open>
  A text written by the client is matched without backtracking: every part takes its first choice. Then it is
  enough to follow the first match through the expression.
\<close>

definition first :: "regex \<Rightarrow> rstate \<Rightarrow> rstate \<Rightarrow> bool" where
  "first r s t \<longleftrightarrow> (\<exists>ts. rmatch r s = t # ts)"

lemma first_match_at: "first r (s, []) t \<Longrightarrow> match_at r s = Some t"
  by (auto simp: first_def match_at_def)

lemma first_lit: "first (RLit l) (l @ s, m) (s, m)"
  by (simp add: first_def startsWith_def)

lemma first_seq: "first r s t \<Longrightarrow> first q t u \<Longrightarrow> first (RSeq r q) s u"
  by (auto simp: first_def)

lemma first_rseq: "first r s t \<Longrightarrow> first (rseq rs) t u \<Longrightarrow> first (rseq (r # rs)) s u"
  by (cases rs) (auto simp: first_def startsWith_def)

lemma first_rseq_Nil: "first (rseq []) s s"
  by (simp add: first_def startsWith_def)

lemma first_opt: "first r s t \<Longrightarrow> first (ROpt r) s t"
  by (auto simp: first_def)

lemma first_opt_skip: "rmatch r s = [] \<Longrightarrow> first (ROpt r) s s"
  by (simp add: first_def)

lemma first_group:
  "first r s t \<Longrightarrow> first (RGroup n r) s (fst t, (n, take (length (fst s) - length (fst t)) (fst s)) # snd t)"
  by (auto simp: first_def)

lemma first_star_set: "first (RStar (RSet P)) (s, m) (dropWhile P s, m)"
  unfolding first_def star_class by (auto simp: dropWhile_eq_drop)

lemma first_plus_set:
  assumes "s \<noteq> []" "P (hd s)"
  shows "first (rplus (RSet P)) (s, m) (dropWhile P s, m)"
  using assms first_star_set [of P "tl s" m] unfolding rplus_def
  by (cases s) (auto intro!: first_seq simp: first_def)

lemma first_star_stop: "rmatch r s = [] \<Longrightarrow> first (RStar r) s s"
  by (cases "length (fst s)") (simp_all add: first_def)

lemma repeat_first:
  assumes "first r s t" "length (fst t) < length (fst s)" "\<exists>ts. repeat_greedy n (rmatch r) t = u # ts"
  shows "\<exists>ts. repeat_greedy (Suc n) (rmatch r) s = u # ts"
  using assms by (auto simp: first_def)

end
