(* ===== verification/Billing_Rules.thy ===== *)
theory Billing_Rules
  imports Js_Regex Js_Json
begin

text \<open>
  The request rules of a billing expression (\<open>features/pricing/lib/billing-expr.ts\<close>): conditional multipliers such
  as \<open>(hour("UTC") >= 22 ? 0.5 : 1)\<close>. The visual editor builds their text from groups of conditions and parses it
  back; a stored expression is split into its base and its rules. A parser gives \<open>Null\<close> where the source
  returns \<open>null\<close> and \<open>Thrown\<close> where \<open>JSON.parse\<close> throws and nothing catches it.
\<close>

section \<open>Data\<close>

datatype 'a attempt = Thrown | Null | Got 'a

definition SOURCE_PARAM :: jstring where "SOURCE_PARAM = js ''param''"
definition SOURCE_HEADER :: jstring where "SOURCE_HEADER = js ''header''"
definition SOURCE_TIME :: jstring where "SOURCE_TIME = js ''time''"

definition MATCH_EQ :: jstring where "MATCH_EQ = js ''eq''"
definition MATCH_CONTAINS :: jstring where "MATCH_CONTAINS = js ''contains''"
definition MATCH_GT :: jstring where "MATCH_GT = js ''gt''"
definition MATCH_GTE :: jstring where "MATCH_GTE = js ''gte''"
definition MATCH_LT :: jstring where "MATCH_LT = js ''lt''"
definition MATCH_LTE :: jstring where "MATCH_LTE = js ''lte''"
definition MATCH_EXISTS :: jstring where "MATCH_EXISTS = js ''exists''"
definition MATCH_RANGE :: jstring where "MATCH_RANGE = js ''range''"

definition TIME_FUNCS :: "jstring list" where
  "TIME_FUNCS = map js [''hour'', ''minute'', ''weekday'', ''month'', ''day'']"

record ParamHeaderCondition =
  ph_source :: jstring
  ph_path :: jstring
  ph_mode :: jstring
  ph_value :: jstring

record TimeCondition =
  t_timeFunc :: jstring
  t_timezone :: jstring
  t_mode :: jstring
  t_value :: jstring
  t_rangeStart :: jstring
  t_rangeEnd :: jstring

datatype RequestCondition = TimeC TimeCondition | PHC ParamHeaderCondition

record RequestRuleGroup =
  rg_conditions :: "RequestCondition list"
  rg_multiplier :: jstring

section \<open>Splitting at the top level\<close>

definition paren_step :: "code_unit \<Rightarrow> int \<Rightarrow> int" where
  "paren_step c depth = (if c = 40 then depth + 1 else if c = 41 then depth - 1 else depth)"

function split_top :: "jstring \<Rightarrow> int \<Rightarrow> jstring \<Rightarrow> jstring \<Rightarrow> jstring list" where
  \<comment> \<open>the loop of both splitting functions: the depth, the part so far and what is left\<close>
  "split_top sep depth part [] = [part]"
| "split_top sep depth part (c # r) =
     (let depth' = paren_step c depth in
      if depth' = 0 \<and> startsWith (c # r) sep then part # split_top sep depth' [] (drop (length sep - 1) r)
      else split_top sep depth' (part @ [c]) r)"
  by pat_completeness auto
termination by (relation "measure (\<lambda>(_, _, _, s). length s)") auto

definition splitTopLevelMultiply :: "jstring \<Rightarrow> jstring list" where
  "splitTopLevelMultiply expr = filter (\<lambda>p. p \<noteq> []) (map trim (split_top (js '' * '') 0 [] expr))"

definition splitTopLevelAnd :: "jstring \<Rightarrow> jstring list" where
  "splitTopLevelAnd expr = filter (\<lambda>p. p \<noteq> []) (map trim (split_top (js '' && '') 0 [] expr))"

section \<open>Regular expressions\<close>

definition not_quote :: "code_unit \<Rightarrow> bool" where
  "not_quote c \<longleftrightarrow> c \<noteq> 34"

definition re_text :: "nat \<Rightarrow> regex" where
  \<comment> \<open>\<open>([^"]+)\<close>\<close>
  "re_text n = RGroup n (rplus (RSet not_quote))"

definition re_number :: "nat \<Rightarrow> regex" where
  \<comment> \<open>\<open>([\d.eE+-]+)\<close>\<close>
  "re_number n = RGroup n (rplus (RSet is_num_char))"

definition re_quoted :: regex where
  \<comment> \<open>\<open>"(?:[^"\\]|\\.)*"\<close>\<close>
  "re_quoted = rseq [RLit [34],
     RStar (RAlt (RSet (\<lambda>c. c \<noteq> 34 \<and> c \<noteq> 92)) (RSeq (RLit [92]) (RSet dot))), RLit [34]]"

definition NUMERIC_LITERAL_REGEX :: regex where
  "NUMERIC_LITERAL_REGEX = rseq
     [ROpt (RLit [45]),
      RAlt (rseq [rplus (RSet is_digit), ROpt (RLit [46]), RStar (RSet is_digit)])
        (RSeq (RLit [46]) (rplus (RSet is_digit))),
      ROpt (rseq [RSet (\<lambda>c. c = 101 \<or> c = 69), ROpt (RSet (\<lambda>c. c = 43 \<or> c = 45)), rplus (RSet is_digit)]),
      REnd]"

definition is_numeric_literal :: "jstring \<Rightarrow> bool" where
  "is_numeric_literal s \<longleftrightarrow> match_start NUMERIC_LITERAL_REGEX s \<noteq> None"

definition re_time_func :: regex where
  \<comment> \<open>\<open>(hour|minute|weekday|month|day)\<close>\<close>
  "re_time_func = RGroup 1 (ralt (map RLit TIME_FUNCS))"

definition re_time_range :: "regex list" where
  \<comment> \<open>\<open>(f)\("([^"]+)"\) >= (n) \|\| \1\("\2"\) < (n)\<close>\<close>
  \<open>re_time_range =
     [re_time_func, RLit (js ''("''), re_text 2, RLit (js ''") >= ''), re_number 3, RLit (js '' || ''),
      RBack 1, RLit (js ''("''), RBack 2, RLit (js ''") < ''), re_number 4]\<close>

definition re_time_compare :: regex where
  \<open>re_time_compare = rseq
     [re_time_func, RLit (js ''("''), re_text 2, RLit (js ''") ''),
      RGroup 3 (ralt (map RLit [js ''=='', js ''>='', js ''<''])), RLit [32], re_number 4, REnd]\<close>

definition re_header_exists :: regex where
  \<open>re_header_exists = rseq [RLit (js ''header("''), re_text 1, RLit (js ''") != ""''), REnd]\<close>

definition re_param_exists :: regex where
  \<open>re_param_exists = rseq [RLit (js ''param("''), re_text 1, RLit (js ''") != nil''), REnd]\<close>

definition re_header_contains :: regex where
  \<open>re_header_contains = rseq
     [RLit (js ''has(header("''), re_text 1, RLit (js ''"), ''), RGroup 2 re_quoted, RLit (js '')''), REnd]\<close>

definition re_param_contains :: regex where
  \<open>re_param_contains = rseq
     [RLit (js ''param("''), re_text 1, RLit (js ''") != nil && has(param("''), re_text 2, RLit (js ''"), ''),
      RGroup 3 re_quoted, RLit (js '')''), REnd]\<close>

definition re_param_compare :: regex where
  \<open>re_param_compare = rseq
     [RLit (js ''param("''), re_text 1, RLit (js ''") != nil && param("''), re_text 2, RLit (js ''") ''),
      RGroup 3 (ralt (map RLit [js ''>'', js ''>='', js ''<'', js ''<=''])), RLit [32], re_number 4, REnd]\<close>

definition re_equals :: regex where
  \<open>re_equals = rseq
     [RGroup 1 (ralt [RLit (js ''param''), RLit (js ''header'')]), RLit (js ''("''), re_text 2,
      RLit (js ''") == ''), RGroup 3 (rplus (RSet dot)), REnd]\<close>

definition re_factor :: regex where
  \<comment> \<open>\<open>/^\((.+) \? ([\d.eE+-]+) : 1\)$/s\<close>\<close>
  "re_factor = rseq
     [RLit (js ''(''), RGroup 1 (rplus (RSet (\<lambda>_. True))), RLit (js '' ? ''), re_number 2, RLit (js '' : 1)''), REnd]"

section \<open>Parsing\<close>

definition parseExprLiteral :: "jstring \<Rightarrow> jsval" where
  "parseExprLiteral raw =
     (let literal = trim raw in
      if literal = js ''true'' \<or> literal = js ''false'' then JStr literal
      else if is_numeric_literal literal then JStr literal
      else (case json_parse literal of Some v \<Rightarrow> v | None \<Rightarrow> JNull))"

definition range_condition :: "captures \<Rightarrow> RequestCondition" where
  "range_condition m = TimeC \<lparr>t_timeFunc = cap m 1, t_timezone = cap m 2, t_mode = MATCH_RANGE, t_value = [],
     t_rangeStart = cap m 3, t_rangeEnd = cap m 4\<rparr>"

definition time_mode :: "jstring \<Rightarrow> jstring" where
  "time_mode op = (if op = js ''=='' then MATCH_EQ else if op = js ''>='' then MATCH_GTE
     else if op = js ''<'' then MATCH_LT else MATCH_EQ)"

definition tryParseTimeCondition :: "jstring \<Rightarrow> RequestCondition option" where
  "tryParseTimeCondition expr =
     (case match_start (rseq (re_time_range @ [REnd])) expr of
        Some m \<Rightarrow> Some (range_condition m)
      | None \<Rightarrow>
     (case match_start (rseq (RLit (js ''('') # re_time_range @ [RLit (js '')''), REnd])) expr of
        Some m \<Rightarrow> Some (range_condition m)
      | None \<Rightarrow>
     (case match_start re_time_compare expr of
        Some m \<Rightarrow> Some (TimeC \<lparr>t_timeFunc = cap m 1, t_timezone = cap m 2,
          t_mode = time_mode (cap m 3),
          t_value = cap m 4, t_rangeStart = [], t_rangeEnd = []\<rparr>)
      | None \<Rightarrow> None)))"

definition compare_mode :: "jstring \<Rightarrow> jstring" where
  "compare_mode op = (if op = js ''>'' then MATCH_GT else if op = js ''>='' then MATCH_GTE
     else if op = js ''<'' then MATCH_LT else MATCH_LTE)"

definition contains_condition :: "jstring \<Rightarrow> jstring \<Rightarrow> jstring \<Rightarrow> RequestCondition attempt" where
  \<comment> \<open>\<open>value: JSON.parse(literal) as string\<close>, of a quoted literal\<close>
  "contains_condition source path literal =
     (case json_parse literal of
        None \<Rightarrow> Thrown
      | Some v \<Rightarrow> Got (PHC \<lparr>ph_source = source, ph_path = path, ph_mode = MATCH_CONTAINS, ph_value = js_string v\<rparr>))"

definition parse_equals :: "jstring \<Rightarrow> RequestCondition attempt" where
  "parse_equals expr =
     (case match_start re_equals expr of
        None \<Rightarrow> Null
      | Some m \<Rightarrow>
          (let parsedValue = parseExprLiteral (cap m 3) in
           if parsedValue = JNull then Null
           else Got (PHC \<lparr>ph_source = cap m 1, ph_path = cap m 2, ph_mode = MATCH_EQ,
             ph_value = js_string parsedValue\<rparr>)))"

definition parse_param_pair :: "jstring \<Rightarrow> RequestCondition attempt" where
  \<comment> \<open>the conditions on a parameter that begin with a test for \<open>nil\<close>, then equality\<close>
  "parse_param_pair expr =
     (case match_start re_param_contains expr of
        Some m \<Rightarrow> if cap m 1 = cap m 2 then contains_condition SOURCE_PARAM (cap m 1) (cap m 3) else
          (case match_start re_param_compare expr of
             Some m \<Rightarrow> if cap m 1 = cap m 2 then Got (PHC \<lparr>ph_source = SOURCE_PARAM, ph_path = cap m 1,
               ph_mode = compare_mode (cap m 3), ph_value = cap m 4\<rparr>) else parse_equals expr
           | None \<Rightarrow> parse_equals expr)
      | None \<Rightarrow>
          (case match_start re_param_compare expr of
             Some m \<Rightarrow> if cap m 1 = cap m 2 then Got (PHC \<lparr>ph_source = SOURCE_PARAM, ph_path = cap m 1,
               ph_mode = compare_mode (cap m 3), ph_value = cap m 4\<rparr>) else parse_equals expr
           | None \<Rightarrow> parse_equals expr))"

definition tryParseRequestCondition :: "jstring \<Rightarrow> RequestCondition attempt" where
  "tryParseRequestCondition expr =
     (case tryParseTimeCondition expr of
        Some tc \<Rightarrow> Got tc
      | None \<Rightarrow>
     (case match_start re_header_exists expr of
        Some m \<Rightarrow> Got (PHC \<lparr>ph_source = SOURCE_HEADER, ph_path = cap m 1, ph_mode = MATCH_EXISTS, ph_value = []\<rparr>)
      | None \<Rightarrow>
     (case match_start re_param_exists expr of
        Some m \<Rightarrow> Got (PHC \<lparr>ph_source = SOURCE_PARAM, ph_path = cap m 1, ph_mode = MATCH_EXISTS, ph_value = []\<rparr>)
      | None \<Rightarrow>
     (case match_start re_header_contains expr of
        Some m \<Rightarrow> contains_condition SOURCE_HEADER (cap m 1) (cap m 2)
      | None \<Rightarrow> parse_param_pair expr))))"

fun parse_all :: "('a \<Rightarrow> 'b attempt) \<Rightarrow> 'a list \<Rightarrow> 'b list attempt" where
  \<comment> \<open>the loops that return \<open>null\<close> at the first part that does not parse\<close>
  "parse_all f [] = Got []"
| "parse_all f (x # xs) =
     (case f x of Thrown \<Rightarrow> Thrown | Null \<Rightarrow> Null
      | Got y \<Rightarrow> (case parse_all f xs of Thrown \<Rightarrow> Thrown | Null \<Rightarrow> Null | Got ys \<Rightarrow> Got (y # ys)))"

definition tryParseRuleGroupFactor :: "jstring \<Rightarrow> RequestRuleGroup attempt" where
  "tryParseRuleGroupFactor part =
     (case match_start re_factor part of
        None \<Rightarrow> Null
      | Some m \<Rightarrow>
          (case parse_all (\<lambda>ap. tryParseRequestCondition (trim ap)) (splitTopLevelAnd (cap m 1)) of
             Thrown \<Rightarrow> Thrown
           | Null \<Rightarrow> Null
           | Got conds \<Rightarrow> if conds = [] then Null else Got \<lparr>rg_conditions = conds, rg_multiplier = cap m 2\<rparr>))"

definition tryParseRequestRuleExpr :: "jstring \<Rightarrow> RequestRuleGroup list attempt" where
  "tryParseRequestRuleExpr expr =
     (let trimmed = trim expr in
      if trimmed = [] then Got [] else parse_all tryParseRuleGroupFactor (splitTopLevelMultiply trimmed))"

section \<open>Splitting and combining a billing expression\<close>

fun scan_parens :: "int \<Rightarrow> jstring \<Rightarrow> bool" where
  "scan_parens depth [] \<longleftrightarrow> depth = 0"
| "scan_parens depth (c # r) \<longleftrightarrow>
     (let depth' = paren_step c depth in if depth' = 0 \<and> r \<noteq> [] then False else scan_parens depth' r)"

definition hasFullOuterParens :: "jstring \<Rightarrow> bool" where
  "hasFullOuterParens expr \<longleftrightarrow>
     (if \<not> startsWith expr (js ''('') \<or> \<not> endsWith expr (js '')'') then False else scan_parens 0 expr)"

lemma length_trim: "length (trim s) \<le> length s"
  by (metis (no_types) length_dropWhile_le length_rev order_trans trim_def)

lemma hasFullOuterParens_shorter:
  assumes "hasFullOuterParens e"
  shows "length (trim (butlast (tl e))) < length e"
proof -
  have "e \<noteq> []" using assms by (auto simp: hasFullOuterParens_def startsWith_def js_def)
  then show ?thesis using length_trim [of "butlast (tl e)"] by (cases e) auto
qed

function unwrap_loop :: "jstring \<Rightarrow> jstring" where
  "unwrap_loop current =
     (if hasFullOuterParens current then unwrap_loop (trim (butlast (tl current))) else current)"
  by pat_completeness auto
termination by (relation "measure length") (simp_all add: hasFullOuterParens_shorter)

declare unwrap_loop.simps [simp del]

definition unwrapOuterParens :: "jstring \<Rightarrow> jstring" where
  "unwrapOuterParens expr = unwrap_loop (trim expr)"

record SplitExpr =
  billingExpr :: jstring
  requestRuleExpr :: jstring

definition is_rule_part :: "jstring \<Rightarrow> bool attempt" where
  "is_rule_part part =
     (case tryParseRequestRuleExpr part of Thrown \<Rightarrow> Thrown | Null \<Rightarrow> Got False | Got gs \<Rightarrow> Got (gs \<noteq> []))"

definition splitBillingExprAndRequestRules :: "jstring \<Rightarrow> SplitExpr attempt" where
  "splitBillingExprAndRequestRules expr =
     (let trimmed = trim expr; whole = Got \<lparr>billingExpr = trimmed, requestRuleExpr = []\<rparr> in
      if trimmed = [] then Got \<lparr>billingExpr = [], requestRuleExpr = []\<rparr>
      else
        (let parts = splitTopLevelMultiply trimmed in
         if length parts \<le> 1 then whole
         else
           (case parse_all is_rule_part parts of
              Thrown \<Rightarrow> Thrown
            | Null \<Rightarrow> Null
            | Got marks \<Rightarrow>
                (let ruleParts = map fst (filter snd (zip parts marks));
                     baseParts = map fst (filter (\<lambda>pm. \<not> snd pm) (zip parts marks)) in
                 if length ruleParts = 0 \<or> length baseParts \<noteq> 1 then whole
                 else Got \<lparr>billingExpr = unwrapOuterParens (baseParts ! 0),
                   requestRuleExpr = join (js '' * '') ruleParts\<rparr>))))"

definition combineBillingExpr :: "jstring \<Rightarrow> jstring \<Rightarrow> jstring" where
  "combineBillingExpr baseExpr ruleExpr =
     (let base = trim baseExpr; rules = trim ruleExpr in
      if base = [] then []
      else if rules = [] then base
      else js ''('' @ base @ js '') * '' @ rules)"

section \<open>Building\<close>

definition createEmptyCondition :: ParamHeaderCondition where
  "createEmptyCondition = \<lparr>ph_source = SOURCE_PARAM, ph_path = [], ph_mode = MATCH_EQ, ph_value = []\<rparr>"

definition createEmptyTimeCondition :: TimeCondition where
  "createEmptyTimeCondition = \<lparr>t_timeFunc = js ''hour'', t_timezone = js ''Asia/Shanghai'', t_mode = MATCH_GTE,
     t_value = [], t_rangeStart = [], t_rangeEnd = []\<rparr>"

definition createEmptyRuleGroup :: RequestRuleGroup where
  "createEmptyRuleGroup = \<lparr>rg_conditions = [PHC createEmptyCondition], rg_multiplier = []\<rparr>"

definition createEmptyTimeRuleGroup :: RequestRuleGroup where
  "createEmptyTimeRuleGroup = \<lparr>rg_conditions = [TimeC createEmptyTimeCondition], rg_multiplier = []\<rparr>"

definition getRequestRuleMatchOptions :: "jstring \<Rightarrow> (jstring \<times> jstring) list" where
  \<comment> \<open>value and label key\<close>
  "getRequestRuleMatchOptions source =
     (if source = SOURCE_TIME then
        [(MATCH_EQ, js ''Equals''), (MATCH_GTE, js ''Greater than or equal''), (MATCH_LT, js ''Less than''),
         (MATCH_RANGE, js ''Overnight range'')]
      else
        (let base = [(MATCH_EQ, js ''Equals''), (MATCH_CONTAINS, js ''Contains''), (MATCH_EXISTS, js ''Exists'')] in
         if source = SOURCE_HEADER then base
         else base @ [(MATCH_GT, js ''Greater than''), (MATCH_GTE, js ''Greater than or equal''),
           (MATCH_LT, js ''Less than''), (MATCH_LTE, js ''Less than or equal'')]))"

definition isTimeFunc :: "jstring \<Rightarrow> bool" where
  "isTimeFunc value \<longleftrightarrow> value \<in> set TIME_FUNCS"

definition normalize_time :: "TimeCondition \<Rightarrow> TimeCondition" where
  "normalize_time cond =
     \<lparr>t_timeFunc = (if isTimeFunc (t_timeFunc cond) then t_timeFunc cond else js ''hour''),
      t_timezone = str_or (t_timezone cond) (js ''Asia/Shanghai''),
      t_mode = (if t_mode cond \<in> fst ` set (getRequestRuleMatchOptions SOURCE_TIME) then t_mode cond else MATCH_GTE),
      t_value = t_value cond, t_rangeStart = t_rangeStart cond, t_rangeEnd = t_rangeEnd cond\<rparr>"

definition normalize_param_header :: "ParamHeaderCondition \<Rightarrow> ParamHeaderCondition" where
  "normalize_param_header cond =
     (let source = (if ph_source cond = SOURCE_HEADER then SOURCE_HEADER else SOURCE_PARAM) in
      \<lparr>ph_source = source, ph_path = ph_path cond,
       ph_mode = (if ph_mode cond \<in> fst ` set (getRequestRuleMatchOptions source) then ph_mode cond else MATCH_EQ),
       ph_value = ph_value cond\<rparr>)"

definition normalizeCondition :: "RequestCondition \<Rightarrow> RequestCondition" where
  \<comment> \<open>on conditions with all their fields, as the builders pass them\<close>
  "normalizeCondition cond =
     (case cond of TimeC c \<Rightarrow> TimeC (normalize_time c) | PHC c \<Rightarrow> PHC (normalize_param_header c))"

definition buildExprLiteral :: "jstring \<Rightarrow> jstring \<Rightarrow> jstring" where
  "buildExprLiteral mode value =
     (let literal = trim value in
      if mode = MATCH_CONTAINS then json_quote literal
      else if literal = js ''true'' \<or> literal = js ''false'' then literal
      else if is_numeric_literal literal then literal
      else json_quote literal)"

definition buildTimeConditionExpr :: "TimeCondition \<Rightarrow> jstring" where
  "buildTimeConditionExpr cond =
     (let n = normalize_time cond; fn = t_timeFunc n @ js ''('' @ json_quote (t_timezone n) @ js '')'' in
      if t_mode n = MATCH_RANGE then
        (let s = trim (t_rangeStart n); e = trim (t_rangeEnd n) in
         if \<not> is_numeric_literal s \<or> \<not> is_numeric_literal e then []
         else fn @ js '' >= '' @ s @ js '' || '' @ fn @ js '' < '' @ e)
      else
        (let v = trim (t_value n) in
         if \<not> is_numeric_literal v then []
         else fn @ [32] @ (if t_mode n = MATCH_GTE then js ''>='' else if t_mode n = MATCH_LT then js ''<''
           else js ''=='') @ [32] @ v))"

definition compare_op :: "jstring \<Rightarrow> jstring" where
  "compare_op mode = (if mode = MATCH_GT then js ''>'' else if mode = MATCH_GTE then js ''>=''
     else if mode = MATCH_LT then js ''<'' else js ''<='')"

definition buildRequestConditionExpr :: "RequestCondition \<Rightarrow> jstring" where
  "buildRequestConditionExpr cond =
     (case cond of
        TimeC c \<Rightarrow> buildTimeConditionExpr c
      | PHC c \<Rightarrow>
          (let n = normalize_param_header c; path = trim (ph_path n); header = (ph_source n = SOURCE_HEADER) in
           if path = [] then []
           else
             (let sourceExpr = (if header then js ''header('' else js ''param('') @ json_quote path @ js '')'' in
              if ph_mode n = MATCH_EXISTS then
                (if header then sourceExpr @ js '' != '' @ [34, 34] else sourceExpr @ js '' != nil'')
              else if ph_mode n = MATCH_CONTAINS then
                (let test = js ''has('' @ sourceExpr @ js '', '' @ buildExprLiteral (ph_mode n) (ph_value n) @ js '')'' in
                 if header then test else sourceExpr @ js '' != nil && '' @ test)
              else if ph_mode n \<in> {MATCH_GT, MATCH_GTE, MATCH_LT, MATCH_LTE} then
                (let numText = trim (ph_value n) in
                 if \<not> is_numeric_literal numText then []
                 else sourceExpr @ js '' != nil && '' @ sourceExpr @ [32] @ compare_op (ph_mode n) @ [32] @ numText)
              else sourceExpr @ js '' == '' @ buildExprLiteral (ph_mode n) (ph_value n))))"

definition buildRuleGroupFactor :: "RequestRuleGroup \<Rightarrow> jstring" where
  "buildRuleGroupFactor g =
     (let multiplier = trim (rg_multiplier g) in
      if \<not> is_numeric_literal multiplier then []
      else
        (let condExprs = filter (\<lambda>e. e \<noteq> []) (map buildRequestConditionExpr (rg_conditions g)) in
         if condExprs = [] then []
         else
           (let combined = (if length condExprs = 1 then condExprs ! 0
              else join (js '' && '')
                (map (\<lambda>e. if str_includes e (js '' || '') then js ''('' @ e @ js '')'' else e) condExprs)) in
            js ''('' @ combined @ js '' ? '' @ multiplier @ js '' : 1)'')))"

definition buildRequestRuleExpr :: "RequestRuleGroup list \<Rightarrow> jstring" where
  "buildRequestRuleExpr groups = join (js '' * '') (filter (\<lambda>e. e \<noteq> []) (map buildRuleGroupFactor groups))"

end
