(* ===== verification/Tier_Expr.thy ===== *)
theory Tier_Expr
  imports Js_Expr Billing_Rules
begin

text \<open>
  The tiers of the visual price editor and their billing expression
  (\<open>features/pricing/lib/tier-expr.ts\<close>, with the registry of variables of \<open>billing-expr.ts\<close>): normalising a
  configuration, writing it as an expression, reading it back, and the estimate \<open>evalExprLocally\<close> makes of an expression.
\<close>

section \<open>Variables\<close>

record BillingVar =
  bv_key :: jstring
  bv_field :: "jstring option"
  bv_tierField :: "jstring option"
  bv_label :: jstring
  bv_shortLabel :: jstring
  bv_side :: jstring
  bv_isBase :: bool
  bv_isConditionOnly :: bool
  bv_group :: "jstring option"

definition billing_var :: "string \<Rightarrow> string \<Rightarrow> string \<Rightarrow> string \<Rightarrow> string \<Rightarrow> string \<Rightarrow> string \<Rightarrow> BillingVar" where
  \<comment> \<open>an entry with a price and a group\<close>
  "billing_var key field tierField label short side grp =
     \<lparr>bv_key = js key, bv_field = Some (js field), bv_tierField = Some (js tierField), bv_label = js label,
      bv_shortLabel = js short, bv_side = js side, bv_isBase = False, bv_isConditionOnly = False,
      bv_group = Some (js grp)\<rparr>"

definition BILLING_VARS :: "BillingVar list" where
  "BILLING_VARS =
     [(billing_var ''p'' ''inputPrice'' ''input_unit_cost'' ''Input price'' ''Input'' ''input'' '''')
        \<lparr>bv_isBase := True, bv_group := None\<rparr>,
      (billing_var ''c'' ''outputPrice'' ''output_unit_cost'' ''Completion price'' ''Output'' ''output'' '''')
        \<lparr>bv_isBase := True, bv_group := None\<rparr>,
      \<lparr>bv_key = js ''len'', bv_field = None, bv_tierField = None, bv_label = js ''Input length'',
       bv_shortLabel = js ''Length'', bv_side = js ''condition'', bv_isBase = False, bv_isConditionOnly = True,
       bv_group = None\<rparr>,
      billing_var ''cr'' ''cacheReadPrice'' ''cache_read_unit_cost'' ''Cache read price'' ''Cache Read'' ''input'' ''cache'',
      billing_var ''cc'' ''cacheCreatePrice'' ''cache_create_unit_cost'' ''Cache create price'' ''Cache Write'' ''input'' ''cache'',
      billing_var ''cc1h'' ''cacheCreate1hPrice'' ''cache_create_1h_unit_cost'' ''Cache create (1h) price'' ''Cache Write (1h)'' ''input'' ''cache'',
      billing_var ''img'' ''imagePrice'' ''image_unit_cost'' ''Image input price'' ''Image In'' ''input'' ''media'',
      billing_var ''img_o'' ''imageOutputPrice'' ''image_output_unit_cost'' ''Image output price'' ''Image Out'' ''output'' ''media'',
      billing_var ''ai'' ''audioInputPrice'' ''audio_input_unit_cost'' ''Audio input price'' ''Audio In'' ''input'' ''media'',
      billing_var ''ao'' ''audioOutputPrice'' ''audio_output_unit_cost'' ''Audio output price'' ''Audio Out'' ''output'' ''media'']"

definition BILLING_EXTRA_VARS :: "BillingVar list" where
  "BILLING_EXTRA_VARS = filter (\<lambda>v. \<not> bv_isBase v \<and> \<not> bv_isConditionOnly v) BILLING_VARS"

definition BILLING_CACHE_VAR_MAP :: "(jstring \<times> jstring) list" where
  \<comment> \<open>pairs of \<open>field\<close> and \<open>exprVar\<close>\<close>
  "BILLING_CACHE_VAR_MAP = map (\<lambda>v. (opt_str (bv_tierField v), bv_key v)) BILLING_EXTRA_VARS"

section \<open>Tiers\<close>

definition CACHE_MODE_TIMED :: jstring where "CACHE_MODE_TIMED = js ''timed''"
definition CACHE_MODE_GENERIC :: jstring where "CACHE_MODE_GENERIC = js ''generic''"

record TierConditionInput =
  tc_var :: jstring
  tc_op :: jstring
  tc_value :: jsval

datatype cost = NoCost | NaNCost | Cost rat
  \<comment> \<open>a field of type number that may be absent\<close>

record VisualTier =
  \<comment> \<open>a possibly partial tier; the optional prices are found by the name of their field\<close>
  vt_label :: "jstring option"
  vt_conditions :: "TierConditionInput list option"
  vt_input_unit_cost :: cost
  vt_output_unit_cost :: cost
  vt_cache_mode :: "jstring option"
  vt_extra :: "jstring \<Rightarrow> cost"

type_synonym VisualConfig = "VisualTier list"

definition cost_number :: "cost \<Rightarrow> rat" where
  \<comment> \<open>\<open>Number(x) || 0\<close>\<close>
  "cost_number x = (case x of Cost q \<Rightarrow> q | _ \<Rightarrow> 0)"

definition getTierCacheMode :: "VisualTier \<Rightarrow> jstring" where
  "getTierCacheMode tier =
     (if vt_cache_mode tier = Some CACHE_MODE_TIMED then CACHE_MODE_TIMED
      else if vt_cache_mode tier = Some CACHE_MODE_GENERIC then CACHE_MODE_GENERIC
      else if 0 < cost_number (vt_extra tier (js ''cache_create_1h_unit_cost'')) then CACHE_MODE_TIMED
      else CACHE_MODE_GENERIC)"

definition extra_fields :: "jstring list" where
  "extra_fields = map js [''cache_read_unit_cost'', ''cache_create_unit_cost'', ''cache_create_1h_unit_cost'',
     ''image_unit_cost'', ''image_output_unit_cost'', ''audio_input_unit_cost'', ''audio_output_unit_cost'']"

definition normalizeVisualTier :: "VisualTier \<Rightarrow> VisualTier" where
  "normalizeVisualTier tier =
     \<lparr>vt_label = Some (opt_str (vt_label tier)),
      vt_conditions = Some (case vt_conditions tier of None \<Rightarrow> [] | Some cs \<Rightarrow> cs),
      vt_input_unit_cost = (if vt_input_unit_cost tier = NoCost then Cost 0 else vt_input_unit_cost tier),
      vt_output_unit_cost = (if vt_output_unit_cost tier = NoCost then Cost 0 else vt_output_unit_cost tier),
      vt_cache_mode = Some (case vt_cache_mode tier of None \<Rightarrow> getTierCacheMode tier | Some mode \<Rightarrow> mode),
      vt_extra = (\<lambda>f. if f \<in> set extra_fields then Cost (cost_number (vt_extra tier f)) else vt_extra tier f)\<rparr>"

definition createDefaultVisualConfig :: VisualConfig where
  "createDefaultVisualConfig =
     [normalizeVisualTier \<lparr>vt_label = Some (js ''base''), vt_conditions = Some [], vt_input_unit_cost = Cost 0,
        vt_output_unit_cost = Cost 0, vt_cache_mode = Some CACHE_MODE_GENERIC, vt_extra = (\<lambda>_. NoCost)\<rparr>]"

definition normalizeVisualConfig :: "VisualConfig option \<Rightarrow> VisualConfig" where
  "normalizeVisualConfig config =
     (case config of
        None \<Rightarrow> createDefaultVisualConfig
      | Some tiers \<Rightarrow> if tiers = [] then createDefaultVisualConfig else map normalizeVisualTier tiers)"

section \<open>The expression of a configuration\<close>

definition condition_filled :: "TierConditionInput \<Rightarrow> bool" where
  "condition_filled c \<longleftrightarrow>
     tc_var c \<noteq> [] \<and> tc_op c \<noteq> [] \<and> tc_value c \<notin> {JNull, JUndef} \<and> tc_value c \<noteq> JStr []"

definition condition_text :: "TierConditionInput \<Rightarrow> jstring" where
  "condition_text c = tc_var c @ [32] @ tc_op c @ [32] @ js_string (tc_value c)"

definition buildConditionStr :: "TierConditionInput list \<Rightarrow> jstring" where
  "buildConditionStr conditions = join (js '' && '') (map condition_text (filter condition_filled conditions))"

definition term_text :: "jstring \<Rightarrow> rat \<Rightarrow> jstring" where
  "term_text v q = v @ js '' * '' @ num_str q"

definition body_terms :: "VisualTier \<Rightarrow> (jstring \<times> rat) list" where
  "body_terms tier =
     [(js ''p'', cost_number (vt_input_unit_cost tier)), (js ''c'', cost_number (vt_output_unit_cost tier))] @
     filter (\<lambda>(_, v). v \<noteq> 0) (map (\<lambda>(field, exprVar). (exprVar, cost_number (vt_extra tier field))) BILLING_CACHE_VAR_MAP)"

definition buildTierBodyExpr :: "VisualTier \<Rightarrow> jstring" where
  "buildTierBodyExpr tier = join (js '' + '') (map (\<lambda>(v, q). term_text v q) (body_terms tier))"

definition tier_call :: "jstring \<Rightarrow> VisualTier \<Rightarrow> jstring" where
  "tier_call label tier = js ''tier('' @ [34] @ label @ [34] @ js '', '' @ buildTierBodyExpr tier @ js '')''"

definition tier_conditions :: "VisualTier \<Rightarrow> TierConditionInput list" where
  \<comment> \<open>\<open>!conditions\<close> counts as no condition\<close>
  "tier_conditions tier = (case vt_conditions tier of None \<Rightarrow> [] | Some cs \<Rightarrow> cs)"

definition tier_part :: "nat \<Rightarrow> nat \<Rightarrow> VisualTier \<Rightarrow> jstring" where
  \<comment> \<open>the part of tier \<open>i\<close> of \<open>n\<close>\<close>
  "tier_part n i tier =
     (let body = tier_call (str_or (opt_str (vt_label tier)) (js ''tier_'' @ nat_str (i + 1))) tier;
          cond = buildConditionStr (tier_conditions tier) in
      if i + 1 < n \<and> cond \<noteq> [] then cond @ js '' ? '' @ body else body)"

definition generateExprFromVisualConfig :: "VisualConfig option \<Rightarrow> jstring" where
  "generateExprFromVisualConfig config =
     (case config of
        None \<Rightarrow> js ''p * 0 + c * 0''
      | Some tiers \<Rightarrow>
          if tiers = [] then js ''p * 0 + c * 0''
          else if length tiers = 1 then
            (let tier = tiers ! 0;
                 body = tier_call (str_or (opt_str (vt_label tier)) (js ''default'')) tier;
                 cond = buildConditionStr (tier_conditions tier) in
             if cond \<noteq> [] then cond @ js '' ? '' @ body @ js '' : p * 0 + c * 0'' else body)
          else join (js '' : '') (map (\<lambda>(i, tier). tier_part (length tiers) i tier) (enumerate 0 tiers)))"

section \<open>Reading an expression\<close>

definition re_ws :: regex where "re_ws = RStar re_space"

definition re_version :: regex where
  \<comment> \<open>\<open>/^v\d+:([\s\S]*)$/\<close>\<close>
  "re_version = rseq [RLit (js ''v''), rplus (RSet is_digit), RLit (js '':''), RGroup 1 (RStar (RSet (\<lambda>_. True))), REnd]"

definition re_term :: "jstring \<Rightarrow> nat \<Rightarrow> regex" where
  "re_term v n = rseq [RLit v, re_ws, RLit (js ''*''), re_ws, re_number n]"

definition re_optional :: "jstring \<times> nat \<Rightarrow> regex" where
  "re_optional vn = ROpt (rseq [re_ws, RLit (js ''+''), re_ws, re_term (fst vn) (snd vn)])"

definition optCacheStr :: "nat \<Rightarrow> regex list" where
  \<comment> \<open>the optional prices; the first has group \<open>n\<close>\<close>
  "optCacheStr n = map re_optional (zip (map snd BILLING_CACHE_VAR_MAP) [n..<n + length BILLING_CACHE_VAR_MAP])"

definition bodyPat :: "nat \<Rightarrow> regex" where
  "bodyPat n = rseq ([re_term (js ''p'') n, re_ws, RLit (js ''+''), re_ws, re_term (js ''c'') (n + 1)] @ optCacheStr (n + 2))"

definition re_label_body :: "nat \<Rightarrow> regex" where
  \<comment> \<open>\<open>tier\("([^"]*)",\s*\<close> with the body and the closing parenthesis\<close>
  "re_label_body n = rseq [RLit (js ''tier('' @ [34]), RGroup n (RStar (RSet not_quote)), RLit (34 # js '',''), re_ws,
     bodyPat (n + 1), RLit (js '')'')]"

definition singleRe :: regex where
  "singleRe = rseq [re_label_body 1, REnd]"

definition is_cond_char :: "code_unit \<Rightarrow> bool" where
  \<comment> \<open>\<open>[\d.eE+]\<close>\<close>
  "is_cond_char c \<longleftrightarrow> is_digit c \<or> c = 46 \<or> c = 101 \<or> c = 69 \<or> c = 43"

definition re_cond_var :: regex where
  "re_cond_var = ralt (map (\<lambda>v. RLit (js v)) [''p'', ''c'', ''len''])"

definition re_cond_op :: regex where
  "re_cond_op = ralt (map (\<lambda>l. RLit (js l)) [''<'', ''<='', ''>'', ''>=''])"

definition re_cond :: regex where
  "re_cond = rseq [re_cond_var, re_ws, re_cond_op, re_ws, rplus (RSet is_cond_char)]"

definition re_and :: regex where
  "re_and = rseq [re_ws, RLit (js ''&&''), re_ws]"

definition condGroup :: regex where
  "condGroup = RGroup 1 (RSeq re_cond (RStar (RSeq re_and re_cond)))"

definition tierRe :: regex where
  "tierRe = rseq [ROpt (rseq [condGroup, re_ws, RLit (js ''?''), re_ws]), re_label_body 2]"

function exec_all :: "regex \<Rightarrow> jstring \<Rightarrow> captures list" where
  \<comment> \<open>the loop over \<open>exec\<close>: every match after the end of the one before\<close>
  "exec_all r s =
     (case find_match r s of
        Some (rest, m) \<Rightarrow> m # (if length rest < length s then exec_all r rest else [])
      | None \<Rightarrow> [])"
  by pat_completeness auto
termination
  by (relation "measure (\<lambda>(r, s). length s)") auto

declare exec_all.simps [simp del]

function split_regex :: "regex \<Rightarrow> jstring \<Rightarrow> jstring \<Rightarrow> jstring list" where
  \<comment> \<open>\<open>s.split(/r/)\<close>, with the text since the last separator\<close>
  "split_regex r acc [] = [acc]"
| "split_regex r acc (c # s) =
     (case match_at r (c # s) of
        Some (rest, _) \<Rightarrow>
          if length rest < length (c # s) then acc # split_regex r [] rest else split_regex r (acc @ [c]) s
      | None \<Rightarrow> split_regex r (acc @ [c]) s)"
  by pat_completeness auto
termination
  by (relation "measure (\<lambda>(r, acc, s). length s)") auto

definition re_condition :: regex where
  \<comment> \<open>\<open>/^(p|c|len)\s*(<|<=|>|>=)\s*([\d.eE+]+)$/\<close>\<close>
  "re_condition = rseq [RGroup 1 re_cond_var, re_ws, RGroup 2 re_cond_op, re_ws, RGroup 3 (rplus (RSet is_cond_char)), REnd]"

definition js_number :: "jstring \<Rightarrow> jsval" where
  \<comment> \<open>\<open>Number(s)\<close> as a value; NaN is kept as the text that prints it\<close>
  "js_number s = (case str_number s of Some q \<Rightarrow> JNum q | None \<Rightarrow> JStr (js ''NaN''))"

definition parse_condition_text :: "jstring \<Rightarrow> TierConditionInput list" where
  "parse_condition_text cp =
     (case match_start re_condition (trim cp) of
        Some cm \<Rightarrow> [\<lparr>tc_var = cap cm 1, tc_op = cap cm 2, tc_value = js_number (cap cm 3)\<rparr>]
      | None \<Rightarrow> [])"

definition parse_conditions :: "jstring \<Rightarrow> TierConditionInput list" where
  "parse_conditions condStr = (if condStr = [] then [] else concat (map parse_condition_text (split_regex re_and [] condStr)))"

definition text_cost :: "jstring \<Rightarrow> cost" where
  "text_cost s = (case str_number s of Some q \<Rightarrow> Cost q | None \<Rightarrow> NaNCost)"

definition parsed_tier :: "TierConditionInput list \<Rightarrow> nat \<Rightarrow> captures \<Rightarrow> VisualTier" where
  \<comment> \<open>the tier of a match whose label is group \<open>n\<close>\<close>
  "parsed_tier conditions n m =
     normalizeVisualTier
       \<lparr>vt_label = Some (cap m n), vt_conditions = Some conditions, vt_input_unit_cost = text_cost (cap m (n + 1)),
        vt_output_unit_cost = text_cost (cap m (n + 2)), vt_cache_mode = None,
        vt_extra = (\<lambda>f.
          case map_of (zip (map fst BILLING_CACHE_VAR_MAP) [n + 3..<n + 3 + length BILLING_CACHE_VAR_MAP]) f of
            None \<Rightarrow> NoCost
          | Some i \<Rightarrow> (case map_of m i of None \<Rightarrow> NoCost | Some t \<Rightarrow> text_cost t))\<rparr>"

definition without_space :: "jstring \<Rightarrow> jstring" where
  "without_space = filter (\<lambda>c. \<not> is_space c)"

definition tryParseVisualConfig :: "jstring \<Rightarrow> VisualConfig option" where
  "tryParseVisualConfig exprStr =
     (if exprStr = [] then None
      else
        (let body = (case match_start re_version exprStr of Some m \<Rightarrow> cap m 1 | None \<Rightarrow> exprStr) in
         case match_start singleRe body of
           Some simple \<Rightarrow> Some (normalizeVisualConfig (Some [parsed_tier [] 1 simple]))
         | None \<Rightarrow>
             (let tiers = map (\<lambda>m. parsed_tier (parse_conditions (cap m 1)) 2 m) (exec_all tierRe body) in
              if tiers = [] then None
              else
                (let cfg = normalizeVisualConfig (Some tiers);
                     regenerated = generateExprFromVisualConfig (Some cfg) in
                 if without_space regenerated \<noteq> without_space body then None else Some cfg))))"

section \<open>The estimate\<close>

definition ESTIMATOR_VARS :: "(jstring \<times> jstring) list" where
  "ESTIMATOR_VARS =
     [(js ''cr'', js ''cacheReadTokens''), (js ''cc'', js ''cacheCreateTokens''),
      (js ''cc1h'', js ''cacheCreate1hTokens''), (js ''img'', js ''imageTokens''),
      (js ''img_o'', js ''imageOutputTokens''), (js ''ai'', js ''audioInputTokens''),
      (js ''ao'', js ''audioOutputTokens'')]"

record EvalResult =
  ev_cost :: rat
  ev_matchedTier :: jstring
  ev_error :: "jstring option"

definition estimator_env :: "rat \<Rightarrow> rat \<Rightarrow> (jstring \<Rightarrow> rat) \<Rightarrow> jstring \<Rightarrow> jsval option" where
  "estimator_env promptTokens completionTokens extraTokenValues =
     map_of
       ([(js ''p'', JNum promptTokens), (js ''c'', JNum completionTokens),
         (js ''len'', JNum (promptTokens + extraTokenValues (js ''cacheReadTokens'')
            + extraTokenValues (js ''cacheCreateTokens'') + extraTokenValues (js ''cacheCreate1hTokens'')))] @
        map (\<lambda>(v, stateKey). (v, JNum (extraTokenValues stateKey))) ESTIMATOR_VARS)"

fun num_list :: "jsval list \<Rightarrow> rat list option" where
  "num_list [] = Some []"
| "num_list (JNum q # vs) = map_option ((#) q) (num_list vs)"
| "num_list (_ # vs) = None"

definition estimator_call :: "jstring call" where
  \<comment> \<open>the functions in scope; the state is \<open>matchedTier\<close>\<close>
  "estimator_call f vs matched =
     (if f = js ''tier'' then
        (case vs of [JStr name, value] \<Rightarrow> Some (value, name) | _ \<Rightarrow> None)
      else
        (case num_list vs of
           Some (q # qs) \<Rightarrow>
             if f = js ''max'' then Some (JNum (foldl max q qs), matched)
             else if f = js ''min'' then Some (JNum (foldl min q qs), matched)
             else if f = js ''abs'' then Some (JNum \<bar>q\<bar>, matched)
             else if f = js ''ceil'' then Some (JNum (of_int \<lceil>q\<rceil>), matched)
             else if f = js ''floor'' then Some (JNum (of_int \<lfloor>q\<rfloor>), matched)
             else None
         | _ \<Rightarrow> None))"

definition evalExprLocally :: "jstring \<Rightarrow> rat \<Rightarrow> rat \<Rightarrow> (jstring \<Rightarrow> rat) \<Rightarrow> EvalResult option" where
  \<comment> \<open>\<open>None\<close>: the text is outside the fragment of \<open>Js_Expr\<close>\<close>
  "evalExprLocally exprStr promptTokens completionTokens extraTokenValues =
     (if trim exprStr = [] then Some \<lparr>ev_cost = 0, ev_matchedTier = [], ev_error = None\<rparr>
      else
        (case parse_expr exprStr of None \<Rightarrow> None
         | Some e \<Rightarrow>
             map_option
               (\<lambda>(v, matchedTier). \<lparr>ev_cost = (case to_number v of None \<Rightarrow> 0 | Some q \<Rightarrow> q),
                  ev_matchedTier = matchedTier, ev_error = None\<rparr>)
               (eval_expr (estimator_env promptTokens completionTokens extraTokenValues) estimator_call e [])))"

end
