(* ===== verification/Tier_Eval.thy ===== *)
theory Tier_Eval
  imports Tier_Expr
begin

text \<open>
  The expression written for the tiers of the editor means what the editor shows: the estimate evaluates it to the
  price of the first tier whose conditions hold.
\<close>

section \<open>Tokens of written text\<close>

definition follow :: "jstring \<Rightarrow> bool" where
  \<comment> \<open>what may follow a name, a number or an operator without becoming part of it\<close>
  "follow r \<longleftrightarrow> r = [] \<or> hd r \<in> {32, 34, 40, 41, 44}"

lemma follow_simps [simp]: "follow []" "follow (32 # r)" "follow (34 # r)" "follow (40 # r)" "follow (41 # r)" "follow (44 # r)"
  by (simp_all add: follow_def)

lemma follow_not: "follow r \<Longrightarrow> r = [] \<or> \<not> is_name_char (hd r) \<and> \<not> is_decimal_char (hd r)"
  by (auto simp: follow_def is_name_char_def is_decimal_char_def is_name_start_def is_digit_def)

definition name_text :: "jstring \<Rightarrow> bool" where
  "name_text v \<longleftrightarrow> v \<noteq> [] \<and> is_name_start (hd v) \<and> list_all is_name_char v"

lemma take_drop_run:
  assumes "list_all P xs" "r = [] \<or> \<not> P (hd r)"
  shows "takeWhile P (xs @ r) = xs" "dropWhile P (xs @ r) = r"
  using assms by (cases r; auto simp: takeWhile_append dropWhile_append list_all_iff)+

lemma name_start_not: "is_name_start c \<Longrightarrow> \<not> is_space c \<and> \<not> is_decimal_char c"
  using not_space_ascii [of c] by (auto simp: is_name_start_def is_decimal_char_def is_digit_def)

lemma tok_name:
  assumes "name_text v" "follow r"
  shows "tokens_of (v @ r) = map_option ((#) (TName v)) (tokens_of r)"
proof -
  obtain c s where v: "v = c # s" using assms(1) by (cases v) (auto simp: name_text_def)
  have c: "is_name_start c" "list_all is_name_char s" using assms(1) by (auto simp: v name_text_def)
  have "r = [] \<or> \<not> is_name_char (hd r)" using follow_not [OF assms(2)] by blast
  note run = take_drop_run [OF c(2) this]
  show ?thesis using name_start_not [OF c(1)] c(1) by (simp add: v tokens_of.simps(2) run)
qed

lemma tok_space [simp]: "tokens_of (32 # r) = tokens_of r"
  by (simp add: tokens_of.simps(2) is_space_def)

definition plain_number :: "jstring \<Rightarrow> rat \<Rightarrow> bool" where
  "plain_number s q \<longleftrightarrow> s \<noteq> [] \<and> list_all is_decimal_char s \<and> unsigned_decimal s = Some q \<and>
     \<not> (1 < length s \<and> s ! 0 = 48 \<and> is_digit (s ! 1))"

lemma decimal_not_space: "is_decimal_char c \<Longrightarrow> \<not> is_space c"
  using not_space_ascii [of c] by (auto simp: is_decimal_char_def is_digit_def)

lemma tok_number:
  assumes "plain_number s q" "follow r"
  shows "tokens_of (s @ r) = map_option ((#) (TNum q)) (tokens_of r)"
proof -
  obtain c s' where s: "s = c # s'" using assms(1) by (cases s) (auto simp: plain_number_def)
  have c: "is_decimal_char c" "list_all is_decimal_char s'" "list_all is_decimal_char s"
    using assms(1) by (auto simp: s plain_number_def)
  have stop: "r = [] \<or> \<not> is_decimal_char (hd r)" using follow_not [OF assms(2)] by blast
  have "number_token (s @ r) = Some (TNum q)"
    using assms(1) follow_not [OF assms(2)]
    by (auto simp: number_token_def Let_def take_drop_run [OF c(3) stop] plain_number_def)
  moreover have "dropWhile is_decimal_char (s' @ r) = r" by (rule take_drop_run(2) [OF c(2) stop])
  ultimately show ?thesis
    using c(1) decimal_not_space [OF c(1)] by (simp add: s tokens_of.simps(2))
qed

lemma tok_string:
  assumes "list_all plain_string_char s"
  shows "tokens_of (34 # s @ 34 # r) = map_option ((#) (TStr s)) (tokens_of r)"
proof -
  have "(34 # r) = [] \<or> \<not> plain_string_char (hd (34 # r))" by (simp add: plain_string_char_def)
  note run = take_drop_run [OF assms this]
  show ?thesis
    by (simp add: tokens_of.simps(2) run is_space_def is_decimal_char_def is_digit_def is_name_start_def)
qed

lemma op_char:
  assumes "c \<in> {43, 42, 60, 62, 63, 58, 40, 41, 44, 38}"
  shows "\<not> is_space c" "\<not> is_decimal_char c" "\<not> is_name_start c" "c \<noteq> 34"
  using assms by (auto simp: not_space_ascii is_decimal_char_def is_digit_def is_name_start_def)

lemma tok_op:
  assumes "c \<in> {43, 42, 60, 62, 63, 58, 40, 41, 44}" "follow r"
  shows "tokens_of (c # r) = map_option ((#) (TOp [c])) (tokens_of r)"
proof -
  have ops: "c \<in> set one_char_ops" using assms(1) by (auto simp: one_char_ops_def js_Cons)
  have c: "c \<in> {43, 42, 60, 62, 63, 58, 40, 41, 44, 38}" using assms(1) by blast
  show ?thesis
  proof (cases r)
    case (Cons d r')
    then have "d \<noteq> 38" "d \<noteq> 61" using assms(2) by (auto simp: follow_def)
    then have "[c, d] \<notin> set two_char_ops" by (simp add: two_char_ops_def js_Cons)
    then show ?thesis using op_char [OF c] ops by (simp add: tokens_of.simps(2) Cons)
  qed (use op_char [OF c] ops in \<open>simp add: tokens_of.simps(2)\<close>)
qed

lemma tok_op2:
  assumes "[c, d] \<in> set two_char_ops"
  shows "tokens_of (c # d # r) = map_option ((#) (TOp [c, d])) (tokens_of r)"
proof -
  have "c \<in> {43, 42, 60, 62, 63, 58, 40, 41, 44, 38}" using assms by (auto simp: two_char_ops_def js_Cons)
  then show ?thesis using op_char assms by (simp add: tokens_of.simps(2))
qed

lemma plain_num_str:
  assumes "short_decimal 20 q" "0 \<le> q"
  shows "plain_number (num_str q) q"
proof -
  let ?s = "num_str q" and ?f = "q - of_int (floor q)"
  have f: "0 \<le> ?f" "?f < 1" by linarith+
  have "short_decimal 20 ?f" using short_fraction [OF assms(1)] unfolding abs_of_nonneg [OF assms(2)] .
  from decimals_correct [OF f this] have ds: "list_all is_digit (decimals 20 ?f)" by (rule conjunct1)
  have eq: "?s = nat_str (nat (floor q)) @ (if ?f = 0 then [] else 46 # decimals 20 ?f)"
    using assms(2) by (simp add: num_str_def Let_def int_str_nat abs_of_nonneg)
  have digit: "is_digit c \<Longrightarrow> is_decimal_char c" for c by (simp add: is_decimal_char_def)
  have chars: "list_all is_decimal_char ?s"
    using ds nat_str_all_digits [of "nat (floor q)"] by (auto simp: eq list_all_iff digit is_decimal_char_def)
  have ne: "?s \<noteq> []" by (rule num_str_chars(2) [OF assms(1)])
  obtain c r where cr: "?s = c # r" using ne by (cases ?s) auto
  have c: "is_digit c"
    using hd_nat_str [of "nat (floor q)"] cr unfolding eq by (cases "nat_str (nat (floor q))") simp_all
  then have neg: "(case c # r of [] \<Rightarrow> False | c # _ \<Rightarrow> c = 45) = False" by (simp add: is_digit_def)
  have js: "json_number (c # r) = Some q" using json_number_num_str [OF assms(1)] by (simp add: cr)
  have num: "unsigned_decimal (c # r) = Some q" "\<not> (hd (takeWhile is_digit (c # r)) = 48 \<and> 1 < length (takeWhile is_digit (c # r)))"
    using js unfolding json_number_def neg Let_def by (auto simp: option.map_ident split: if_splits)
  then have "\<not> (1 < length (c # r) \<and> (c # r) ! 0 = 48 \<and> is_digit ((c # r) ! 1))"
    using c by (cases r) auto
  then show ?thesis
    using num(1) chars ne unfolding plain_number_def cr by blast
qed

definition reads :: "jstring \<Rightarrow> token list \<Rightarrow> bool" where
  "reads s ts \<longleftrightarrow> (\<forall>r. follow r \<longrightarrow> tokens_of (s @ r) = map_option ((@) ts) (tokens_of r))"

definition tjoin :: "token \<Rightarrow> token list list \<Rightarrow> token list" where
  "tjoin t tss = (case tss of [] \<Rightarrow> [] | ts # rest \<Rightarrow> ts @ concat (map ((#) t) rest))"

lemma map_option_append [simp]: "map_option ((@) ts) (map_option ((@) us) x) = map_option ((@) (ts @ us)) x"
  "map_option ((#) t) (map_option ((@) us) x) = map_option ((@) (t # us)) x"
  "map_option ((@) ts) (map_option ((#) t) x) = map_option ((@) (ts @ [t])) x"
  "map_option ((#) t) (map_option ((#) u) x) = map_option ((@) [t, u]) x"
  "map_option ((@) []) x = x"
  by (cases x; simp)+

lemma map_option_Cons: "map_option ((#) t) x = map_option ((@) [t]) x"
  by (cases x) simp_all

lemma reads_join:
  assumes "\<And>x. x \<in> set xs \<Longrightarrow> reads (f x) (g x)" "\<And>r. follow (sep @ r)"
    "\<And>r. tokens_of (sep @ r) = map_option ((#) t) (tokens_of r)"
  shows "reads (join sep (map f xs)) (tjoin t (map g xs))"
proof -
  have "reads (join sep (map f (x # ys))) (g x @ concat (map ((#) t) (map g ys)))" if "set (x # ys) \<subseteq> set xs" for x ys
    using that
  proof (induction ys arbitrary: x)
    case Nil
    then show ?case using assms(1) [of x] by simp
  next
    case (Cons y ys)
    have x: "reads (f x) (g x)" using Cons.prems assms(1) by simp
    have IH: "reads (join sep (map f (y # ys))) (g y @ concat (map ((#) t) (map g ys)))" using Cons by simp
    show ?case
      unfolding reads_def
    proof (intro allI impI)
      fix r assume r: "follow r"
      let ?s = "join sep (map f (y # ys)) @ r"
      have "tokens_of (f x @ sep @ ?s) = map_option ((@) (g x)) (tokens_of (sep @ ?s))"
        using x assms(2) [of ?s] unfolding reads_def by blast
      also have "\<dots> = map_option ((@) (g x)) (map_option ((#) t) (map_option ((@) (g y @ concat (map ((#) t) (map g ys)))) (tokens_of r)))"
        using IH r unfolding assms(3) reads_def by simp
      finally show "tokens_of (join sep (map f (x # y # ys)) @ r) =
          map_option ((@) (g x @ concat (map ((#) t) (map g (y # ys))))) (tokens_of r)"
        by simp
    qed
  qed
  from this [of "hd xs" "tl xs"] show ?thesis
    by (cases xs) (simp_all add: tjoin_def reads_def option.map_ident)
qed

definition term_tokens :: "jstring \<times> rat \<Rightarrow> token list" where
  "term_tokens vq = [TName (fst vq), TOp [42], TNum (snd vq)]"

lemma reads_term:
  assumes "name_text v" "short_decimal 20 q" "0 \<le> q"
  shows "reads (term_text v q) (term_tokens (v, q))"
  unfolding reads_def
proof (intro allI impI)
  fix r assume r: "follow r"
  have "tokens_of (term_text v q @ r) = tokens_of (v @ 32 # 42 # 32 # num_str q @ r)"
    by (simp add: term_text_def js_Cons)
  also have "\<dots> = map_option ((@) (term_tokens (v, q))) (tokens_of r)"
    by (simp add: tok_name [OF assms(1)] tok_op tok_number [OF plain_num_str [OF assms(2,3)] r] term_tokens_def
        map_option_Cons)
  finally show "tokens_of (term_text v q @ r) = map_option ((@) (term_tokens (v, q))) (tokens_of r)" .
qed

definition cond_number :: "TierConditionInput \<Rightarrow> rat" where
  "cond_number c = (case tc_value c of JNum q \<Rightarrow> q | _ \<Rightarrow> 0)"

definition clean_tier_condition :: "TierConditionInput \<Rightarrow> bool" where
  \<comment> \<open>what the editor lets a user enter: a variable and an operator of the lists and a number\<close>
  "clean_tier_condition c \<longleftrightarrow> tc_var c \<in> set (map js [''p'', ''c'', ''len'']) \<and>
     tc_op c \<in> set (map js [''<'', ''<='', ''>'', ''>='']) \<and>
     tc_value c = JNum (cond_number c) \<and> short_decimal 20 (cond_number c) \<and> 0 \<le> cond_number c"

definition cond_tokens :: "TierConditionInput \<Rightarrow> token list" where
  "cond_tokens c = [TName (tc_var c), TOp (tc_op c), TNum (cond_number c)]"

lemma condition_var_name: "clean_tier_condition c \<Longrightarrow> name_text (tc_var c)"
  by (auto simp: clean_tier_condition_def name_text_def is_name_start_def is_name_char_def js_Cons)

lemma tok_compare:
  assumes "l \<in> set (map js [''<'', ''<='', ''>'', ''>=''])"
  shows "tokens_of (l @ 32 # r) = map_option ((#) (TOp l)) (tokens_of r)"
  using assms by (auto simp: js_Cons tok_op tok_op2 two_char_ops_def)

lemma reads_condition:
  assumes "clean_tier_condition c"
  shows "reads (condition_text c) (cond_tokens c)"
  unfolding reads_def
proof (intro allI impI)
  fix r assume r: "follow r"
  have c: "tc_op c \<in> set (map js [''<'', ''<='', ''>'', ''>=''])" "tc_value c = JNum (cond_number c)"
    "short_decimal 20 (cond_number c)" "0 \<le> cond_number c" using assms by (auto simp: clean_tier_condition_def)
  have "tokens_of (condition_text c @ r) = tokens_of (tc_var c @ 32 # tc_op c @ 32 # num_str (cond_number c) @ r)"
    using c(2) by (simp add: condition_text_def)
  also have "\<dots> = map_option ((@) (cond_tokens c)) (tokens_of r)"
    by (simp add: tok_name [OF condition_var_name [OF assms]] tok_compare [OF c(1)]
        tok_number [OF plain_num_str [OF c(3,4)] r] cond_tokens_def map_option_Cons)
  finally show "tokens_of (condition_text c @ r) = map_option ((@) (cond_tokens c)) (tokens_of r)" .
qed

section \<open>Parsing written text\<close>

lemma op_is_simps [simp]: "op_is [] f = False" "op_is (TOp l # r) f = (l = js f)" "op_is (TNum q # r) f = False"
  "op_is (TName v # r) f = False" "op_is (TStr t # r) f = False"
  by (simp_all add: op_is_def)

lemma p_chain_join:
  assumes "\<And>x r. x \<in> set xs \<Longrightarrow> ok r \<Longrightarrow> p (g x @ r) = Some (e x, r)" "ok r" "\<And>r. ok (TOp (js l) # r)"
    "\<not> op_is r l" "length xs \<le> n"
  shows "p_chain l f p n a (concat (map ((#) (TOp (js l))) (map g xs)) @ r) = Some (foldl f a (map e xs), r)"
  using assms(1,5)
proof (induction xs arbitrary: n a)
  case Nil
  then show ?case using assms(4) by (cases n) simp_all
next
  case (Cons x xs)
  obtain m where n: "n = Suc m" using Cons.prems(2) by (cases n) auto
  let ?rest = "concat (map ((#) (TOp (js l))) (map g xs)) @ r"
  have "ok ?rest" using assms(2,3) by (cases xs) simp_all
  then have "p (g x @ ?rest) = Some (e x, ?rest)" using Cons.prems(1) by simp
  moreover have "p_chain l f p m (f a (e x)) ?rest = Some (foldl f (f a (e x)) (map e xs), r)"
    using Cons.prems by (intro Cons.IH) (simp_all add: n)
  ultimately show ?case by (simp add: n)
qed

lemma p_left_join:
  assumes "\<And>x r. x \<in> set xs \<Longrightarrow> ok r \<Longrightarrow> p (g x @ r) = Some (e x, r)" "ok r" "\<And>r. ok (TOp (js l) # r)"
    "\<not> op_is r l" "xs \<noteq> []"
  shows "p_left l f p (tjoin (TOp (js l)) (map g xs) @ r) = Some (foldl f (e (hd xs)) (map e (tl xs)), r)"
proof -
  obtain x ys where xs: "xs = x # ys" using assms(5) by (cases xs) auto
  let ?rest = "concat (map ((#) (TOp (js l))) (map g ys)) @ r"
  have "ok ?rest" using assms(2,3) by (cases ys) simp_all
  then have first: "p (g x @ ?rest) = Some (e x, ?rest)" using assms(1) by (simp add: xs)
  have "length ys \<le> length ?rest" by (induction ys) simp_all
  then have "p_chain l f p (length ?rest) (e x) ?rest = Some (foldl f (e x) (map e ys), r)"
    using assms by (intro p_chain_join [where ok = ok]) (simp_all add: xs)
  then show ?thesis using first by (simp add: p_left_def tjoin_def xs)
qed

lemma p_left_single: "p ts = Some (a, r) \<Longrightarrow> \<not> op_is r l \<Longrightarrow> p_left l f p ts = Some (a, r)"
  by (cases "length r") (simp_all add: p_left_def)

definition ends :: "token list \<Rightarrow> bool" where
  \<comment> \<open>what follows a complete operand of the conditional operator, of a call or of the whole text\<close>
  "ends r \<longleftrightarrow> r = [] \<or> hd r \<in> TOp ` {[63], [58], [41], [44]}"

lemma ends_simps [simp]: "ends []" "ends (TOp [63] # r)" "ends (TOp [58] # r)" "ends (TOp [41] # r)" "ends (TOp [44] # r)"
  by (simp_all add: ends_def)

lemma ends_ops:
  assumes "ends r"
  shows "\<not> op_is r ''*''" "\<not> op_is r ''+''" "\<not> op_is r ''&&''" "\<not> op_is r ''(''" "compare_token r = None"
  using assms by (cases r; auto simp: ends_def compare_token_def js_Cons)+

lemma p_term:
  assumes "\<not> op_is r ''*''"
  shows "p_left ''*'' EMul (p_prim p) (term_tokens (v, q) @ r) = Some (EMul (EName v) (ENum q), r)"
  using assms by (cases "length r") (simp_all add: p_left_def term_tokens_def p_prim_def js_Cons)

lemma p_operand:
  assumes "\<not> op_is r ''*''" "\<not> op_is r ''+''"
  shows "p_add p (TNum q # r) = Some (ENum q, r)"
    "\<not> op_is r ''('' \<Longrightarrow> p_add p (TName v # r) = Some (EName v, r)"
  using assms unfolding p_add_def by (intro p_left_single; simp add: p_prim_def)+

lemma p_condition:
  assumes "clean_tier_condition c" "\<not> op_is r ''*''" "\<not> op_is r ''+''"
  shows "p_compare p (cond_tokens c @ r) = Some (ECompare (tc_op c) (EName (tc_var c)) (ENum (cond_number c)), r)"
proof -
  have "tc_op c \<in> {[60], [60, 61], [62], [62, 61]}" using assms(1) by (auto simp: clean_tier_condition_def js_Cons)
  then have "compare_token (TOp (tc_op c) # TNum (cond_number c) # r) = Some (tc_op c)"
    "p_add p (TName (tc_var c) # TOp (tc_op c) # TNum (cond_number c) # r) = Some (EName (tc_var c), TOp (tc_op c) # TNum (cond_number c) # r)"
    by (auto simp: compare_token_def js_Cons intro!: p_operand(2))
  then show ?thesis by (simp add: p_compare_def cond_tokens_def p_operand(1) [OF assms(2,3)])
qed

lemma p_and_add: "p_add p ts = Some (e, r) \<Longrightarrow> ends r \<Longrightarrow> p_and p ts = Some (e, r)"
  unfolding p_and_def by (rule p_left_single) (simp_all add: p_compare_def ends_ops)

lemma p_and_prim: "p_prim p ts = Some (e, r) \<Longrightarrow> ends r \<Longrightarrow> p_and p ts = Some (e, r)"
  by (intro p_and_add) (simp_all add: p_add_def p_left_single ends_ops)

lemma p_cond_and: "p_and (p_cond n) ts = Some (e, r) \<Longrightarrow> \<not> op_is r ''?'' \<Longrightarrow> p_cond (Suc n) ts = Some (e, r)"
  by simp

definition sum_expr :: "(jstring \<times> rat) list \<Rightarrow> jexpr" where
  "sum_expr vqs = (let e = (\<lambda>vq. EMul (EName (fst vq)) (ENum (snd vq))) in foldl EAdd (e (hd vqs)) (map e (tl vqs)))"

lemma p_sum:
  assumes "ends r" "vqs \<noteq> []"
  shows "p_and p (tjoin (TOp [43]) (map term_tokens vqs) @ r) = Some (sum_expr vqs, r)"
proof -
  have plus: "[43] = js ''+''" by (simp add: js_Cons)
  have "p_add p (tjoin (TOp (js ''+'')) (map term_tokens vqs) @ r) =
      Some (foldl EAdd ((\<lambda>vq. EMul (EName (fst vq)) (ENum (snd vq))) (hd vqs)) (map (\<lambda>vq. EMul (EName (fst vq)) (ENum (snd vq))) (tl vqs)), r)"
    unfolding p_add_def
    using assms ends_ops [OF assms(1)]
    by (intro p_left_join [where ok = "\<lambda>r. \<not> op_is r ''*''"]) (auto simp: p_term js_Cons)
  then show ?thesis
    using p_and_add [OF _ assms(1)] unfolding plus by (simp add: sum_expr_def Let_def)
qed

definition cond_expr :: "TierConditionInput list \<Rightarrow> jexpr" where
  "cond_expr cs = (let e = (\<lambda>c. ECompare (tc_op c) (EName (tc_var c)) (ENum (cond_number c))) in
     foldl EAnd (e (hd cs)) (map e (tl cs)))"

lemma p_conditions:
  assumes "ends r" "cs \<noteq> []" "list_all clean_tier_condition cs"
  shows "p_and p (tjoin (TOp [38, 38]) (map cond_tokens cs) @ r) = Some (cond_expr cs, r)"
proof -
  have plus: "[38, 38] = js ''&&''" by (simp add: js_Cons)
  show ?thesis
    unfolding p_and_def cond_expr_def Let_def plus
    using assms ends_ops [OF assms(1)]
    by (intro p_left_join [where ok = "\<lambda>r. \<not> op_is r ''*'' \<and> \<not> op_is r ''+''"])
      (auto simp: p_condition js_Cons list_all_iff)
qed

section \<open>Tiers\<close>

lemma cache_var_map:
  "BILLING_CACHE_VAR_MAP = zip extra_fields (map js [''cr'', ''cc'', ''cc1h'', ''img'', ''img_o'', ''ai'', ''ao''])"
  by (simp add: BILLING_CACHE_VAR_MAP_def BILLING_EXTRA_VARS_def BILLING_VARS_def billing_var_def extra_fields_def opt_str_def)

definition clean_tier :: "VisualTier \<Rightarrow> bool" where
  \<comment> \<open>a label without quotes, backslashes and line breaks; prices that are printed without an exponent\<close>
  "clean_tier t \<longleftrightarrow> opt_str (vt_label t) \<noteq> [] \<and> list_all plain_string_char (opt_str (vt_label t)) \<and>
     list_all clean_tier_condition (tier_conditions t) \<and> list_all (\<lambda>vq. short_decimal 20 (snd vq) \<and> 0 \<le> snd vq) (body_terms t)"

lemma body_terms_names:
  assumes "(v, q) \<in> set (body_terms t)"
  shows "name_text v"
proof -
  have "v \<in> set (map js [''p'', ''c'', ''cr'', ''cc'', ''cc1h'', ''img'', ''img_o'', ''ai'', ''ao''])"
    using assms by (auto simp: body_terms_def cache_var_map dest!: set_zip_rightD)
  then show ?thesis
    by (auto simp: name_text_def is_name_start_def is_name_char_def is_digit_def js_Cons)
qed

lemma body_terms_ne [simp]: "body_terms t \<noteq> []"
  by (simp add: body_terms_def)

definition sum_tokens :: "(jstring \<times> rat) list \<Rightarrow> token list" where
  "sum_tokens vqs = tjoin (TOp [43]) (map term_tokens vqs)"

lemma reads_sum:
  assumes "\<And>v q. (v, q) \<in> set vqs \<Longrightarrow> name_text v \<and> short_decimal 20 q \<and> 0 \<le> q"
  shows "reads (join (js '' + '') (map (\<lambda>(v, q). term_text v q) vqs)) (sum_tokens vqs)"
  unfolding sum_tokens_def
proof (rule reads_join)
  fix x assume x: "x \<in> set vqs"
  obtain v q where vq: "x = (v, q)" by (cases x) auto
  then show "reads (case x of (v, q) \<Rightarrow> term_text v q) (term_tokens x)"
    using reads_term assms [of v q] x by simp
qed (simp_all add: js_Cons tok_op)

definition call_tokens :: "VisualTier \<Rightarrow> token list" where
  "call_tokens t = [TName (js ''tier''), TOp [40], TStr (opt_str (vt_label t)), TOp [44]] @ sum_tokens (body_terms t) @ [TOp [41]]"

lemma reads_call:
  assumes "clean_tier t"
  shows "reads (tier_call (opt_str (vt_label t)) t) (call_tokens t)"
  unfolding reads_def
proof (intro allI impI)
  fix r assume r: "follow r"
  let ?l = "opt_str (vt_label t)"
  have l: "list_all plain_string_char ?l" using assms by (simp add: clean_tier_def)
  have "reads (buildTierBodyExpr t) (sum_tokens (body_terms t))"
    unfolding buildTierBodyExpr_def using assms body_terms_names by (intro reads_sum) (auto simp: clean_tier_def list_all_iff)
  then have body: "tokens_of (buildTierBodyExpr t @ 41 # r) = map_option ((@) (sum_tokens (body_terms t))) (tokens_of (41 # r))"
    unfolding reads_def by simp
  have name: "name_text (js ''tier'')" by (simp add: name_text_def is_name_start_def is_name_char_def js_Cons)
  have "tokens_of (tier_call ?l t @ r) = tokens_of (js ''tier'' @ 40 # 34 # ?l @ 34 # 44 # 32 # buildTierBodyExpr t @ 41 # r)"
    by (simp add: tier_call_def js_Cons)
  also have "\<dots> = map_option ((@) (call_tokens t)) (tokens_of r)"
    by (simp add: tok_name [OF name] tok_op tok_string [OF l] body r call_tokens_def map_option_Cons)
  finally show "tokens_of (tier_call ?l t @ r) = map_option ((@) (call_tokens t)) (tokens_of r)" .
qed

definition guarded_tokens :: "VisualTier \<Rightarrow> token list" where
  "guarded_tokens t = tjoin (TOp [38, 38]) (map cond_tokens (tier_conditions t)) @ TOp [63] # call_tokens t"

definition guarded_text :: "VisualTier \<Rightarrow> jstring" where
  "guarded_text t = buildConditionStr (tier_conditions t) @ js '' ? '' @ tier_call (opt_str (vt_label t)) t"

lemma clean_filled: "list_all clean_tier_condition cs \<Longrightarrow> filter condition_filled cs = cs"
  by (induction cs) (auto simp: clean_tier_condition_def condition_filled_def js_Cons)

lemma reads_conditions:
  assumes "list_all clean_tier_condition cs"
  shows "reads (buildConditionStr cs) (tjoin (TOp [38, 38]) (map cond_tokens cs))"
  unfolding buildConditionStr_def clean_filled [OF assms]
proof (rule reads_join)
  fix c assume "c \<in> set cs"
  then show "reads (condition_text c) (cond_tokens c)" using assms reads_condition by (simp add: list_all_iff)
qed (simp_all add: js_Cons tok_op2 two_char_ops_def)

lemma reads_guarded:
  assumes "clean_tier t"
  shows "reads (guarded_text t) (guarded_tokens t)"
  unfolding reads_def
proof (intro allI impI)
  fix r assume r: "follow r"
  let ?c = "tier_call (opt_str (vt_label t)) t"
  have "tokens_of (guarded_text t @ r) = tokens_of (buildConditionStr (tier_conditions t) @ 32 # 63 # 32 # ?c @ r)"
    by (simp add: guarded_text_def js_Cons)
  also have "\<dots> = map_option ((@) (tjoin (TOp [38, 38]) (map cond_tokens (tier_conditions t)))) (tokens_of (32 # 63 # 32 # ?c @ r))"
    using reads_conditions [of "tier_conditions t"] assms by (simp add: reads_def clean_tier_def)
  also have "\<dots> = map_option ((@) (guarded_tokens t)) (tokens_of r)"
    using reads_call [OF assms] r by (simp add: tok_op reads_def guarded_tokens_def map_option_Cons)
  finally show "tokens_of (guarded_text t @ r) = map_option ((@) (guarded_tokens t)) (tokens_of r)" .
qed

definition call_expr :: "VisualTier \<Rightarrow> jexpr" where
  "call_expr t = ECall (js ''tier'') [EStr (opt_str (vt_label t)), sum_expr (body_terms t)]"

lemma p_call:
  assumes "ends r" "\<not> op_is r ''?''"
  shows "p_cond (Suc (Suc n)) (call_tokens t @ r) = Some (call_expr t, r)"
proof (rule p_cond_and)
  let ?p = "p_cond (Suc n)" and ?b = "sum_tokens (body_terms t) @ TOp [41] # r"
  have label: "?p (TStr (opt_str (vt_label t)) # TOp [44] # ?b) = Some (EStr (opt_str (vt_label t)), TOp [44] # ?b)"
    by (intro p_cond_and p_and_prim) (simp_all add: p_prim_def js_Cons)
  have body: "?p ?b = Some (sum_expr (body_terms t), TOp [41] # r)"
    unfolding sum_tokens_def by (intro p_cond_and p_sum) (simp_all add: js_Cons)
  have "p_args ?p (Suc (Suc m)) (TStr (opt_str (vt_label t)) # TOp [44] # ?b) =
      Some ([EStr (opt_str (vt_label t)), sum_expr (body_terms t)], r)" for m
    by (simp add: label body js_Cons del: p_cond.simps)
  then show "p_and ?p (call_tokens t @ r) = Some (call_expr t, r)"
    using assms(1)
    by (intro p_and_prim) (simp_all add: p_prim_def call_tokens_def call_expr_def js_Cons del: p_cond.simps p_args.simps)
qed (use assms(2) in simp)

fun tiers_expr :: "VisualTier list \<Rightarrow> jexpr \<Rightarrow> jexpr" where
  "tiers_expr [] e = e"
| "tiers_expr (t # ts) e = ECond (cond_expr (tier_conditions t)) (call_expr t) (tiers_expr ts e)"

lemma tjoin_Cons: "tss \<noteq> [] \<Longrightarrow> tjoin t (ts # tss) = ts @ t # tjoin t tss"
  by (cases tss) (simp_all add: tjoin_def)

lemma p_guarded:
  assumes "list_all (\<lambda>t. clean_tier t \<and> tier_conditions t \<noteq> []) us" "\<And>n. p_cond (Suc (Suc n)) ts = Some (e, [])"
  shows "p_cond (Suc (Suc (length us + n))) (tjoin (TOp [58]) (map guarded_tokens us @ [ts])) = Some (tiers_expr us e, [])"
  using assms(1)
proof (induction us arbitrary: n)
  case Nil
  then show ?case using assms(2) by (simp add: tjoin_def)
next
  case (Cons u us)
  let ?r = "tjoin (TOp [58]) (map guarded_tokens us @ [ts])"
  let ?n = "Suc (Suc (length us + n))"
  have "p_and (p_cond ?n) (guarded_tokens u @ TOp [58] # ?r) =
      Some (cond_expr (tier_conditions u), TOp [63] # call_tokens u @ TOp [58] # ?r)"
    unfolding guarded_tokens_def append_assoc append_Cons using Cons.prems
    by (intro p_conditions) (simp_all add: clean_tier_def)
  moreover have "p_cond ?n (call_tokens u @ TOp [58] # ?r) = Some (call_expr u, TOp [58] # ?r)"
    by (rule p_call) (simp_all add: js_Cons)
  moreover have "p_cond ?n ?r = Some (tiers_expr us e, [])"
    using Cons by simp
  ultimately have "p_cond (Suc ?n) (guarded_tokens u @ TOp [58] # ?r) = Some (tiers_expr (u # us) e, [])"
    by (subst p_cond.simps(2)) (simp add: js_Cons del: p_cond.simps)
  then show ?case by (simp add: tjoin_Cons del: p_cond.simps)
qed

section \<open>What the tiers cost\<close>

definition measured :: "rat \<Rightarrow> rat \<Rightarrow> (jstring \<Rightarrow> rat) \<Rightarrow> jstring \<Rightarrow> rat" where
  \<comment> \<open>the prompt, the completion, or the prompt with what is read from and written to the cache\<close>
  "measured p c x v =
     (if v = js ''p'' then p else if v = js ''c'' then c
      else p + x (js ''cacheReadTokens'') + x (js ''cacheCreateTokens'') + x (js ''cacheCreate1hTokens''))"

definition condition_holds :: "rat \<Rightarrow> rat \<Rightarrow> (jstring \<Rightarrow> rat) \<Rightarrow> TierConditionInput \<Rightarrow> bool" where
  "condition_holds p c x cnd =
     (let m = measured p c x (tc_var cnd); n = cond_number cnd in
      if tc_op cnd = js ''<'' then m < n else if tc_op cnd = js ''<='' then m \<le> n
      else if tc_op cnd = js ''>'' then m > n else m \<ge> n)"

definition tier_price :: "rat \<Rightarrow> rat \<Rightarrow> (jstring \<Rightarrow> rat) \<Rightarrow> VisualTier \<Rightarrow> rat" where
  "tier_price p c x t =
     p * cost_number (vt_input_unit_cost t) + c * cost_number (vt_output_unit_cost t) +
     sum_list (map2 (\<lambda>f k. x k * cost_number (vt_extra t f)) extra_fields (map snd ESTIMATOR_VARS))"

definition tier_holds :: "rat \<Rightarrow> rat \<Rightarrow> (jstring \<Rightarrow> rat) \<Rightarrow> VisualTier \<Rightarrow> bool" where
  "tier_holds p c x t = list_all (condition_holds p c x) (tier_conditions t)"

fun chosen_tier :: "(VisualTier \<Rightarrow> bool) \<Rightarrow> VisualTier list \<Rightarrow> VisualTier" where
  \<comment> \<open>the first tier that applies, else the last\<close>
  "chosen_tier P [t] = t"
| "chosen_tier P (t # ts) = (if P t then t else chosen_tier P ts)"
| "chosen_tier P [] = undefined"

definition tier_result :: "rat \<Rightarrow> rat \<Rightarrow> (jstring \<Rightarrow> rat) \<Rightarrow> VisualTier \<Rightarrow> EvalResult" where
  "tier_result p c x t = \<lparr>ev_cost = tier_price p c x t, ev_matchedTier = opt_str (vt_label t), ev_error = None\<rparr>"

definition tiers_result :: "rat \<Rightarrow> rat \<Rightarrow> (jstring \<Rightarrow> rat) \<Rightarrow> VisualTier list \<Rightarrow> EvalResult" where
  \<comment> \<open>a single tier with conditions costs nothing where they fail\<close>
  "tiers_result p c x ts =
     (if length ts = 1 \<and> \<not> tier_holds p c x (hd ts) then \<lparr>ev_cost = 0, ev_matchedTier = [], ev_error = None\<rparr>
      else tier_result p c x (chosen_tier (tier_holds p c x) ts))"

lemma eval_foldl_add:
  assumes "eval_expr env call e st = Some (JNum a, st)" "\<And>vq. vq \<in> set vqs \<Longrightarrow> env (fst vq) = Some (JNum (val (fst vq)))"
  shows "eval_expr env call (foldl EAdd e (map (\<lambda>vq. EMul (EName (fst vq)) (ENum (snd vq))) vqs)) st =
    Some (JNum (a + sum_list (map (\<lambda>vq. val (fst vq) * snd vq) vqs)), st)"
  using assms
proof (induction vqs arbitrary: e a)
  case (Cons vq vqs)
  obtain v q where vq: "vq = (v, q)" by (cases vq) auto
  have "eval_expr env call (EAdd e (EMul (EName v) (ENum q))) st = Some (JNum (a + val v * q), st)"
    using Cons.prems(1) Cons.prems(2) [of vq] by (simp add: vq num_op_def)
  from Cons.IH [OF this] Cons.prems(2) show ?case by (simp add: vq add.assoc)
qed simp

lemma eval_sum:
  assumes "vqs \<noteq> []" "\<And>vq. vq \<in> set vqs \<Longrightarrow> env (fst vq) = Some (JNum (val (fst vq)))"
  shows "eval_expr env call (sum_expr vqs) st = Some (JNum (sum_list (map (\<lambda>vq. val (fst vq) * snd vq) vqs)), st)"
proof -
  obtain v q ws where vqs: "vqs = (v, q) # ws" using assms(1) by (cases vqs) auto
  have "eval_expr env call (EMul (EName v) (ENum q)) st = Some (JNum (val v * q), st)"
    using assms(2) [of "(v, q)"] by (simp add: vqs num_op_def)
  from eval_foldl_add [OF this, of ws val] assms(2) show ?thesis by (simp add: vqs sum_expr_def)
qed

lemma eval_foldl_and:
  assumes "eval_expr env call e st = Some (JBool a, st)"
    "\<And>c. c \<in> set cs \<Longrightarrow> eval_expr env call (f c) st = Some (JBool (P c), st)"
  shows "eval_expr env call (foldl EAnd e (map f cs)) st = Some (JBool (a \<and> list_all P cs), st)"
  using assms
proof (induction cs arbitrary: e a)
  case (Cons c cs)
  have "eval_expr env call (EAnd e (f c)) st = Some (JBool (a \<and> P c), st)"
    using Cons.prems(1) Cons.prems(2) [of c] by (simp add: truthy_def)
  from Cons.IH [OF this] Cons.prems(2) show ?case by simp
qed simp

lemma estimator_var:
  assumes "v \<in> set (map js [''p'', ''c'', ''len''])"
  shows "estimator_env p c x v = Some (JNum (measured p c x v))"
  using assms by (auto simp: estimator_env_def measured_def js_Cons)

lemma eval_condition:
  assumes "clean_tier_condition cnd"
  shows "eval_expr (estimator_env p c x) call (ECompare (tc_op cnd) (EName (tc_var cnd)) (ENum (cond_number cnd))) st =
    Some (JBool (condition_holds p c x cnd), st)"
proof -
  have "tc_var cnd \<in> set (map js [''p'', ''c'', ''len''])" using assms by (simp add: clean_tier_condition_def)
  then show ?thesis
    by (simp add: estimator_var compare_values_def condition_holds_def Let_def)
qed

lemma eval_conditions:
  assumes "list_all clean_tier_condition cs" "cs \<noteq> []"
  shows "eval_expr (estimator_env p c x) call (cond_expr cs) st = Some (JBool (list_all (condition_holds p c x) cs), st)"
proof -
  obtain d ds where cs: "cs = d # ds" using assms(2) by (cases cs) auto
  have d: "clean_tier_condition d" "\<And>e. e \<in> set ds \<Longrightarrow> clean_tier_condition e" using assms(1) by (auto simp: cs list_all_iff)
  from eval_foldl_and [OF eval_condition [OF d(1)] eval_condition [OF d(2)]] show ?thesis
    by (simp add: cs cond_expr_def)
qed

definition token_count :: "rat \<Rightarrow> rat \<Rightarrow> (jstring \<Rightarrow> rat) \<Rightarrow> jstring \<Rightarrow> rat" where
  "token_count p c x v = (case estimator_env p c x v of Some (JNum n) \<Rightarrow> n | _ \<Rightarrow> 0)"

lemma body_terms_env:
  assumes "(v, q) \<in> set (body_terms t)"
  shows "estimator_env p c x v = Some (JNum (token_count p c x v))"
proof -
  have "v \<in> set (map js [''p'', ''c'', ''cr'', ''cc'', ''cc1h'', ''img'', ''img_o'', ''ai'', ''ao''])"
    using assms by (auto simp: body_terms_def cache_var_map dest!: set_zip_rightD)
  then show ?thesis
    by (auto simp: estimator_env_def token_count_def ESTIMATOR_VARS_def js_Cons)
qed

lemma sum_list_nonzero:
  "sum_list (map (\<lambda>vq. f (fst vq) * snd vq) (filter (\<lambda>(_, q). q \<noteq> 0) vqs)) = sum_list (map (\<lambda>vq. f (fst vq) * snd vq) vqs)"
  for f :: "'a \<Rightarrow> rat"
  by (induction vqs) auto

lemma body_terms_price: "sum_list (map (\<lambda>vq. token_count p c x (fst vq) * snd vq) (body_terms t)) = tier_price p c x t"
  unfolding body_terms_def map_append sum_list_append sum_list_nonzero
  by (simp add: cache_var_map tier_price_def extra_fields_def ESTIMATOR_VARS_def token_count_def estimator_env_def js_Cons)

lemma eval_call:
  "eval_expr (estimator_env p c x) estimator_call (call_expr t) st = Some (JNum (tier_price p c x t), opt_str (vt_label t))"
proof -
  have "eval_expr (estimator_env p c x) estimator_call (sum_expr (body_terms t)) st = Some (JNum (tier_price p c x t), st)"
    unfolding body_terms_price [symmetric] by (rule eval_sum) (auto intro: body_terms_env)
  then show ?thesis by (simp add: call_expr_def estimator_call_def)
qed

lemma tokens_of_blank: "list_all is_space s \<Longrightarrow> tokens_of s = Some []"
  by (induction s) (simp_all add: tokens_of.simps(2))

lemma parse_not_blank:
  assumes "parse_expr s = Some e"
  shows "trim s \<noteq> []"
proof
  assume "trim s = []"
  then have "\<forall>c \<in> set (dropWhile is_space s). is_space c" by (simp add: trim_def dropWhile_eq_Nil_conv)
  then have "dropWhile is_space s = []" by (metis hd_dropWhile hd_in_set)
  then have "list_all is_space s" by (simp add: dropWhile_eq_Nil_conv list_all_iff)
  then show False
    using assms by (simp add: parse_expr_def tokens_of_blank p_and_def p_left_def p_compare_def p_add_def p_prim_def)
qed

lemma tjoin_length: "length us + length ts \<le> length (tjoin t (map f us @ [ts]))"
  by (induction us) (simp_all add: tjoin_def [of _ "[ts]"] tjoin_Cons)

lemma parse_guarded:
  assumes "list_all (\<lambda>t. clean_tier t \<and> tier_conditions t \<noteq> []) us" "\<And>n. p_cond (Suc (Suc n)) ts = Some (e, [])"
    "reads s ts" "ts \<noteq> []"
  shows "parse_expr (join (js '' : '') (map guarded_text us @ [s])) = Some (tiers_expr us e)"
proof -
  let ?ps = "map (\<lambda>u. (guarded_text u, guarded_tokens u)) us @ [(s, ts)]"
  let ?ts = "tjoin (TOp [58]) (map guarded_tokens us @ [ts])"
  have "reads (join (js '' : '') (map fst ?ps)) (tjoin (TOp [58]) (map snd ?ps))"
  proof (rule reads_join)
    fix x assume "x \<in> set ?ps"
    then show "reads (fst x) (snd x)" using assms(1,3) reads_guarded by (auto simp: list_all_iff)
  qed (simp_all add: js_Cons tok_op)
  then have toks: "tokens_of (join (js '' : '') (map guarded_text us @ [s])) = Some ?ts"
    unfolding reads_def by (auto simp: comp_def dest!: spec [of _ "[]"])
  have "length us + 1 \<le> length ?ts" using tjoin_length [of us ts "TOp [58]" guarded_tokens] assms(4) by (cases ts) simp_all
  then obtain k where k: "length ?ts = Suc (length us + k)" by (metis Suc_eq_plus1 add_Suc le_Suc_ex)
  show ?thesis
    unfolding parse_expr_def toks using p_guarded [OF assms(1,2), of k] by (simp add: k del: p_cond.simps)
qed

lemma eval_guarded:
  assumes "list_all (\<lambda>t. clean_tier t \<and> tier_conditions t \<noteq> []) us"
  shows "eval_expr (estimator_env p c x) estimator_call (tiers_expr us e) st =
    (case find (tier_holds p c x) us of
       Some t \<Rightarrow> Some (JNum (tier_price p c x t), opt_str (vt_label t))
     | None \<Rightarrow> eval_expr (estimator_env p c x) estimator_call e st)"
  using assms
proof (induction us)
  case (Cons u us)
  then have "eval_expr (estimator_env p c x) estimator_call (cond_expr (tier_conditions u)) st = Some (JBool (tier_holds p c x u), st)"
    using eval_conditions [of "tier_conditions u"] by (simp add: clean_tier_def tier_holds_def)
  then show ?case using Cons by (simp add: eval_call truthy_def)
qed simp

lemma conditions_text_empty:
  assumes "list_all clean_tier_condition cs"
  shows "buildConditionStr cs = [] \<longleftrightarrow> cs = []"
proof -
  have "join (js '' && '') (map condition_text (d # ds)) \<noteq> []" for d ds
    by (cases ds) (simp_all add: condition_text_def)
  then have "join (js '' && '') (map condition_text cs) = [] \<longleftrightarrow> cs = []" by (cases cs) simp_all
  then show ?thesis by (simp only: buildConditionStr_def clean_filled [OF assms])
qed

lemma generated_single:
  assumes "clean_tier t"
  shows "generateExprFromVisualConfig (Some [t]) =
    (if tier_conditions t = [] then tier_call (opt_str (vt_label t)) t
     else join (js '' : '') [guarded_text t, join (js '' + '') (map (\<lambda>(v, q). term_text v q) [(js ''p'', 0), (js ''c'', 0)])])"
proof -
  have "list_all clean_tier_condition (tier_conditions t)" using assms by (simp add: clean_tier_def)
  from conditions_text_empty [OF this] show ?thesis
    using assms by (simp add: generateExprFromVisualConfig_def guarded_text_def term_text_def str_or_def clean_tier_def js_Cons
        num_str_def int_str_def nat_str.simps)
qed

lemma generated_many:
  assumes "list_all (\<lambda>t. clean_tier t \<and> tier_conditions t \<noteq> []) us" "clean_tier t" "us \<noteq> []"
  shows "generateExprFromVisualConfig (Some (us @ [t])) =
    join (js '' : '') (map guarded_text us @ [tier_call (opt_str (vt_label t)) t])"
proof -
  let ?n = "length (us @ [t])"
  have label: "str_or (opt_str (vt_label u)) d = opt_str (vt_label u)" if "clean_tier u" for u d
    using that by (simp add: str_or_def clean_tier_def)
  have part: "tier_part ?n i u = guarded_text u" if "i < length us" "clean_tier u" "tier_conditions u \<noteq> []" for i u
    using that label [of u] conditions_text_empty [of "tier_conditions u"]
    by (simp add: tier_part_def guarded_text_def Let_def clean_tier_def)
  have "map (\<lambda>(i, u). tier_part ?n i u) (enumerate 0 us) = map guarded_text us"
  proof (rule nth_equalityI)
    fix i assume i: "i < length (map (\<lambda>(i, u). tier_part ?n i u) (enumerate 0 us))"
    then have "clean_tier (us ! i)" "tier_conditions (us ! i) \<noteq> []" using assms(1) by (simp_all add: list_all_length)
    then show "map (\<lambda>(i, u). tier_part ?n i u) (enumerate 0 us) ! i = map guarded_text us ! i"
      using i part by (simp add: nth_enumerate_eq)
  qed simp
  moreover have "tier_part ?n (length us) t = tier_call (opt_str (vt_label t)) t"
    using label [OF assms(2)] by (simp add: tier_part_def Let_def)
  ultimately show ?thesis
    using assms(3) by (simp add: generateExprFromVisualConfig_def enumerate_append_eq)
qed

definition clean_tiers :: "VisualTier list \<Rightarrow> bool" where
  \<comment> \<open>every tier but the last has a condition\<close>
  "clean_tiers ts \<longleftrightarrow> ts \<noteq> [] \<and> list_all clean_tier ts \<and> list_all (\<lambda>t. tier_conditions t \<noteq> []) (butlast ts)"

lemma eval_text:
  assumes "parse_expr s = Some e" "eval_expr (estimator_env p c x) estimator_call e [] = Some (JNum q, m)"
  shows "evalExprLocally s p c x = Some \<lparr>ev_cost = q, ev_matchedTier = m, ev_error = None\<rparr>"
  using assms parse_not_blank [OF assms(1)] by (simp add: evalExprLocally_def to_number_def)

lemma call_parses: "p_cond (Suc (Suc n)) (call_tokens t) = Some (call_expr t, [])"
  using p_call [of "[]" n t] by (simp del: p_cond.simps)

lemma call_tokens_ne: "call_tokens t \<noteq> []"
  by (simp add: call_tokens_def)

lemma eval_single:
  assumes "clean_tier t"
  shows "evalExprLocally (generateExprFromVisualConfig (Some [t])) p c x = Some (tiers_result p c x [t])"
proof (cases "tier_conditions t = []")
  case True
  have "parse_expr (join (js '' : '') (map guarded_text [] @ [tier_call (opt_str (vt_label t)) t])) = Some (tiers_expr [] (call_expr t))"
    by (rule parse_guarded [OF _ call_parses reads_call [OF assms] call_tokens_ne]) simp
  then show ?thesis
    using True eval_text [OF _ eval_call, of _ t]
    by (simp add: generated_single [OF assms] tiers_result_def tier_result_def tier_holds_def)
next
  case False
  let ?z = "[(js ''p'', 0), (js ''c'', 0)] :: (jstring \<times> rat) list"
  have names: "name_text (js ''p'')" "name_text (js ''c'')"
    by (simp_all add: name_text_def is_name_start_def is_name_char_def js_Cons)
  have "parse_expr (join (js '' : '') (map guarded_text [t] @ [join (js '' + '') (map (\<lambda>(v, q). term_text v q) ?z)])) =
      Some (tiers_expr [t] (sum_expr ?z))"
  proof (rule parse_guarded)
    show "reads (join (js '' + '') (map (\<lambda>(v, q). term_text v q) ?z)) (sum_tokens ?z)"
      by (rule reads_sum) (use names short_decimal_int [of 20 0] in auto)
    show "p_cond (Suc (Suc n)) (sum_tokens ?z) = Some (sum_expr ?z, [])" for n
      using p_cond_and [OF p_sum [of "[]" ?z]] by (simp add: sum_tokens_def del: p_cond.simps)
  qed (use assms False in \<open>simp_all add: sum_tokens_def tjoin_def term_tokens_def\<close>)
  then have parse: "parse_expr (generateExprFromVisualConfig (Some [t])) = Some (tiers_expr [t] (sum_expr ?z))"
    using False by (simp add: generated_single [OF assms])
  have "eval_expr (estimator_env p c x) estimator_call (tiers_expr [t] (sum_expr ?z)) [] =
      Some (if tier_holds p c x t then (JNum (tier_price p c x t), opt_str (vt_label t)) else (JNum 0, []))"
    using eval_guarded [of "[t]"] False assms by (simp add: sum_expr_def estimator_var num_op_def del: tiers_expr.simps)
  then show ?thesis
    using eval_text [OF parse] by (cases "tier_holds p c x t") (simp_all add: tiers_result_def tier_result_def)
qed

lemma chosen_find: "chosen_tier P (us @ [t]) = (case find P us of Some u \<Rightarrow> u | None \<Rightarrow> t)"
proof (induction us)
  case (Cons u us)
  then show ?case by (cases "us @ [t]") simp_all
qed simp

text \<open>
  C17: The estimate of a generated expression is the price of the tier that applies. For tiers with plain labels,
  short decimal prices and conditions on all tiers but the last, evaluating the expression the editor writes gives
  the price of the first tier whose conditions hold (else of the last) and names that tier.
\<close>

theorem generated_expression_prices_first_tier:
  assumes "clean_tiers ts"
  shows "evalExprLocally (generateExprFromVisualConfig (Some ts)) p c x = Some (tiers_result p c x ts)"
proof (cases "butlast ts")
  case Nil
  then obtain t where "ts = [t]" using assms by (cases ts) (auto simp: clean_tiers_def split: if_splits)
  then show ?thesis using assms eval_single by (simp add: clean_tiers_def)
next
  case Cons
  obtain us t where ts: "ts = us @ [t]" using assms unfolding clean_tiers_def by (cases ts rule: rev_cases) auto
  have us: "list_all (\<lambda>t. clean_tier t \<and> tier_conditions t \<noteq> []) us" "clean_tier t" "us \<noteq> []"
    using assms Cons by (auto simp: ts clean_tiers_def list_all_iff)
  have "parse_expr (generateExprFromVisualConfig (Some ts)) = Some (tiers_expr us (call_expr t))"
    unfolding ts generated_many [OF us]
    by (rule parse_guarded [OF us(1) call_parses reads_call [OF us(2)] call_tokens_ne])
  moreover have "eval_expr (estimator_env p c x) estimator_call (tiers_expr us (call_expr t)) [] =
      (let u = chosen_tier (tier_holds p c x) ts in Some (JNum (tier_price p c x u), opt_str (vt_label u)))"
    unfolding eval_guarded [OF us(1)] ts chosen_find by (simp add: eval_call split: option.split)
  ultimately show ?thesis
    using eval_text us(3) by (simp add: Let_def ts tiers_result_def tier_result_def)
qed

definition sample_tier :: "jstring \<Rightarrow> TierConditionInput list \<Rightarrow> rat \<Rightarrow> rat \<Rightarrow> VisualTier" where
  \<comment> \<open>a tier with prices of input and output\<close>
  "sample_tier label cs i out =
     normalizeVisualTier \<lparr>vt_label = Some label, vt_conditions = Some cs, vt_input_unit_cost = Cost i,
       vt_output_unit_cost = Cost out, vt_cache_mode = None, vt_extra = (\<lambda>_. NoCost)\<rparr>"

definition sample_tiers :: "VisualTier list" where
  "sample_tiers =
     [sample_tier (js ''small'') [\<lparr>tc_var = js ''len'', tc_op = js ''<='', tc_value = JNum 1000\<rparr>] 2 (5 / 2),
      sample_tier (js ''large'') [] 3 4]"

lemma sample_terms: "body_terms (sample_tier l cs i out) = [(js ''p'', i), (js ''c'', out)]"
  by (simp add: body_terms_def sample_tier_def normalizeVisualTier_def cache_var_map extra_fields_def cost_number_def)

lemma sample_conditions: "tier_conditions (sample_tier l cs i out) = cs" "opt_str (vt_label (sample_tier l cs i out)) = l"
  by (simp_all add: tier_conditions_def sample_tier_def normalizeVisualTier_def opt_str_def)

lemma sample_tiers_clean: "clean_tiers sample_tiers"
  by (simp add: clean_tiers_def sample_tiers_def clean_tier_def sample_terms sample_conditions clean_tier_condition_def
      cond_number_def plain_string_char_def short_decimal_def js_Cons)

theorem generated_expression_prices_first_tier_witness:
  "evalExprLocally (generateExprFromVisualConfig (Some sample_tiers)) 1001 10 (\<lambda>_. 0) =
     Some \<lparr>ev_cost = 3043, ev_matchedTier = js ''large'', ev_error = None\<rparr>"
proof -
  have "tier_price 1001 10 (\<lambda>_. 0) (sample_tier (js ''large'') [] 3 4) = 3043"
    unfolding body_terms_price [symmetric] sample_terms
    by (simp add: token_count_def estimator_env_def js_Cons)
  then show ?thesis
    using generated_expression_prices_first_tier [OF sample_tiers_clean, of 1001 10 "\<lambda>_. 0"]
    by (simp add: tiers_result_def tier_result_def sample_tiers_def tier_holds_def sample_conditions condition_holds_def
        measured_def cond_number_def js_Cons)
qed

end
