(* ===== verification/Billing_Round_Trip.thy ===== *)
theory Billing_Round_Trip
  imports Billing_Rules
begin

text \<open>
  What the visual editor of request rules gets back from the text it built: the rules it can reopen, the rules it
  cannot, and the split of a stored expression into base and rules.
\<close>

section \<open>Characters a match consumes\<close>

primrec regex_chars :: "(code_unit \<Rightarrow> bool) \<Rightarrow> regex \<Rightarrow> bool" where
  "regex_chars P (RLit l) = list_all P l"
| "regex_chars P (RSet Q) = (\<forall>c. Q c \<longrightarrow> P c)"
| "regex_chars P (RSeq r q) = (regex_chars P r \<and> regex_chars P q)"
| "regex_chars P (RAlt r q) = (regex_chars P r \<and> regex_chars P q)"
| "regex_chars P (RStar r) = regex_chars P r"
| "regex_chars P (ROpt r) = regex_chars P r"
| "regex_chars P (RGroup n r) = regex_chars P r"
| "regex_chars P (RBack n) = False"
| "regex_chars P REnd = True"

definition consumes :: "(code_unit \<Rightarrow> bool) \<Rightarrow> rstate \<Rightarrow> rstate \<Rightarrow> bool" where
  "consumes P s t \<longleftrightarrow> (\<exists>u. fst s = u @ fst t \<and> list_all P u)"

lemma consumes_refl: "consumes P s s"
  by (simp add: consumes_def)

lemma consumes_trans: "consumes P s t \<Longrightarrow> consumes P t u \<Longrightarrow> consumes P s u"
  by (fastforce simp: consumes_def)

lemma consumes_repeat:
  assumes "\<And>s t. t \<in> set (f s) \<Longrightarrow> consumes P s t"
  shows "t \<in> set (repeat_greedy n f s) \<Longrightarrow> consumes P s t"
proof (induction n arbitrary: s)
  case (Suc n)
  from Suc.prems consider "t = s" | u where "u \<in> set (f s)" "t \<in> set (repeat_greedy n f u)"
    by (auto simp: set_list_bind)
  then show ?case
  proof cases
    case 2
    then show ?thesis using consumes_trans [OF assms Suc.IH] by simp
  qed (simp add: consumes_refl)
qed (simp add: consumes_refl)

lemma rmatch_consumes: "regex_chars P r \<Longrightarrow> t \<in> set (rmatch r s) \<Longrightarrow> consumes P s t"
proof (induction r arbitrary: s t)
  case (RLit l)
  then show ?case by (auto simp: consumes_def startsWith_iff split: if_splits)
next
  case (RSet Q)
  then show ?case by (cases "fst s") (auto simp: consumes_def split: if_splits)
next
  case (RSeq r q)
  then obtain u where u: "u \<in> set (rmatch r s)" "t \<in> set (rmatch q u)" by (auto simp: set_list_bind)
  have "consumes P s u" "consumes P u t" using RSeq.IH(1) [OF _ u(1)] RSeq.IH(2) [OF _ u(2)] RSeq.prems(1) by simp_all
  then show ?case by (rule consumes_trans)
next
  case (RAlt r q)
  then have "t \<in> set (rmatch r s) \<or> t \<in> set (rmatch q s)" by simp
  then show ?case using RAlt.IH RAlt.prems(1) by (elim disjE) simp_all
next
  case (RStar r)
  then have "t \<in> set (repeat_greedy (length (fst s)) (rmatch r) s)" by simp
  then show ?case by (rule consumes_repeat [rotated]) (use RStar in simp)
next
  case (ROpt r)
  then show ?case by (cases "t = s") (simp_all add: consumes_refl)
next
  case (RGroup n r)
  then obtain u where "u \<in> set (rmatch r s)" "fst t = fst u" by auto
  moreover have "consumes P s u" using RGroup calculation by simp
  ultimately show ?case by (simp add: consumes_def)
qed (auto simp: consumes_refl split: if_splits)

section \<open>Running a match along a text\<close>

definition rejects :: "(code_unit \<Rightarrow> bool) \<Rightarrow> regex \<Rightarrow> bool" where
  "rejects P q \<longleftrightarrow> (\<forall>x r m. P x \<longrightarrow> rmatch q (x # r, m) = [])"

lemma rejects_REnd [simp]: "rejects P REnd"
  by (simp add: rejects_def)

lemma rejects_RLit [simp]: "\<not> P d \<Longrightarrow> rejects P (RSeq (RLit (d # l)) q)"
  by (auto simp: rejects_def)

definition stops :: "(code_unit \<Rightarrow> bool) \<Rightarrow> jstring \<Rightarrow> bool" where
  "stops P s \<longleftrightarrow> s = [] \<or> \<not> P (hd s)"

lemma stops_simps [simp]: "stops P []" "stops P (c # s) \<longleftrightarrow> \<not> P c"
  by (simp_all add: stops_def)

lemma takeWhile_stops:
  "list_all P v \<Longrightarrow> stops P s \<Longrightarrow> takeWhile P (v @ s) = v \<and> dropWhile P (v @ s) = s"
  by (cases s) (auto simp: stops_def takeWhile_append list_all_iff dropWhile_append)

lemma group_run:
  assumes "v \<noteq> []" "list_all P v" "stops P s" "rejects P q"
  shows "List.bind (rmatch (RGroup n (rplus (RSet P))) (v @ s, m)) (rmatch q) = rmatch q (s, (n, v) # m)"
proof -
  have "rmatch q (drop k (v @ s), d) = []" if "k < length (takeWhile P (v @ s))" for k d
    using assms(4) drop_run [OF that] unfolding rejects_def by metis
  then show ?thesis
    using takeWhile_stops [OF assms(2,3)] assms(1) by (subst group_plus_run) auto
qed

lemma text_run:
  "v \<noteq> [] \<Longrightarrow> list_all not_quote v \<Longrightarrow> stops not_quote s \<Longrightarrow> rejects not_quote q \<Longrightarrow>
   List.bind (rmatch (re_text n) (v @ s, m)) (rmatch q) = rmatch q (s, (n, v) # m)"
  unfolding re_text_def by (rule group_run)

lemma number_run:
  "v \<noteq> [] \<Longrightarrow> list_all is_num_char v \<Longrightarrow> stops is_num_char s \<Longrightarrow> rejects is_num_char q \<Longrightarrow>
   List.bind (rmatch (re_number n) (v @ s, m)) (rmatch q) = rmatch q (s, (n, v) # m)"
  unfolding re_number_def by (rule group_run)

lemma number_run_end:
  "v \<noteq> [] \<Longrightarrow> list_all is_num_char v \<Longrightarrow> rejects is_num_char q \<Longrightarrow>
   List.bind (rmatch (re_number n) (v, m)) (rmatch q) = rmatch q ([], (n, v) # m)"
  using number_run [of v "[]" q n m] by simp

lemma quoted_run:
  assumes "list_all (\<lambda>c. c \<noteq> 34 \<and> c \<noteq> 92) v"
  shows "rmatch re_quoted (34 # v @ 34 # s, m) = [(s, m)]"
proof -
  let ?f = "rmatch (RAlt (RSet (\<lambda>c. c \<noteq> 34 \<and> c \<noteq> 92)) (RSeq (RLit [92]) (RSet dot)))"
  have "List.bind (repeat_greedy n ?f (w @ 34 # s, m)) (rmatch (RLit [34])) = [(s, m)]"
    if "length w \<le> n" "list_all (\<lambda>c. c \<noteq> 34 \<and> c \<noteq> 92) w" for n w
    using that
  proof (induction w arbitrary: n)
    case Nil
    show ?case by (cases n) simp_all
  next
    case (Cons x w)
    then obtain k where n: "n = Suc k" "length w \<le> k" by (cases n) auto
    with Cons show ?case by (simp add: bind_assoc)
  qed
  from this [of v "length (v @ 34 # s)"] assms show ?thesis by (simp add: re_quoted_def)
qed

section \<open>Numeric literals\<close>

lemma numeric_chars:
  assumes "is_numeric_literal s"
  shows "list_all is_num_char s \<and> s \<noteq> []"
proof
  have "regex_chars is_num_char NUMERIC_LITERAL_REGEX"
    by (auto simp: NUMERIC_LITERAL_REGEX_def rplus_def is_num_char_def)
  moreover obtain t where t: "t \<in> set (rmatch NUMERIC_LITERAL_REGEX (s, []))"
    using assms by (fastforce simp: is_numeric_literal_def match_start_def match_at_def split: list.splits)
  moreover have "fst t = []"
    using t by (auto simp: NUMERIC_LITERAL_REGEX_def set_list_bind split: if_splits)
  ultimately show "list_all is_num_char s" using rmatch_consumes by (fastforce simp: consumes_def)
  show "s \<noteq> []"
  proof
    assume "s = []"
    with t show False by (simp add: NUMERIC_LITERAL_REGEX_def rplus_def)
  qed
qed

section \<open>Rules the editor can reopen\<close>

definition plain_char :: "code_unit \<Rightarrow> bool" where
  \<comment> \<open>neither escaped in a JSON string nor a part of the expression's syntax\<close>
  "plain_char c \<longleftrightarrow> 32 \<le> c \<and> c < 65536 \<and> c \<notin> {34, 38, 40, 41, 92, 124} \<and> dot c \<and>
     \<not> high_surrogate c \<and> \<not> low_surrogate c"

definition plain :: "jstring \<Rightarrow> bool" where
  "plain s \<longleftrightarrow> list_all plain_char s \<and> trim s = s"

definition clean_time :: "TimeCondition \<Rightarrow> bool" where
  "clean_time c \<longleftrightarrow> isTimeFunc (t_timeFunc c) \<and> t_timezone c \<noteq> [] \<and> plain (t_timezone c) \<and>
     (if t_mode c = MATCH_RANGE
      then t_value c = [] \<and> is_numeric_literal (t_rangeStart c) \<and> is_numeric_literal (t_rangeEnd c)
      else t_mode c \<in> {MATCH_EQ, MATCH_GTE, MATCH_LT} \<and> is_numeric_literal (t_value c) \<and>
        t_rangeStart c = [] \<and> t_rangeEnd c = [])"

definition clean_param_header :: "ParamHeaderCondition \<Rightarrow> bool" where
  "clean_param_header c \<longleftrightarrow> ph_source c \<in> {SOURCE_PARAM, SOURCE_HEADER} \<and> ph_path c \<noteq> [] \<and> plain (ph_path c) \<and>
     plain (ph_value c) \<and>
     (ph_mode c = MATCH_EQ \<or> ph_mode c = MATCH_EXISTS \<and> ph_value c = [] \<or>
      ph_mode c = MATCH_CONTAINS \<and> ph_source c = SOURCE_HEADER)"

definition clean_condition :: "RequestCondition \<Rightarrow> bool" where
  \<comment> \<open>a time condition, or an equality, existence or header containment test, as the editor keeps it\<close>
  "clean_condition c = (case c of TimeC t \<Rightarrow> clean_time t | PHC p \<Rightarrow> clean_param_header p)"

definition clean_group :: "RequestRuleGroup \<Rightarrow> bool" where
  "clean_group g \<longleftrightarrow> rg_conditions g \<noteq> [] \<and> list_all clean_condition (rg_conditions g) \<and>
     is_numeric_literal (rg_multiplier g)"

lemmas mode_defs = MATCH_EQ_def MATCH_CONTAINS_def MATCH_GT_def MATCH_GTE_def MATCH_LT_def MATCH_LTE_def
  MATCH_EXISTS_def MATCH_RANGE_def SOURCE_PARAM_def SOURCE_HEADER_def SOURCE_TIME_def

lemma mode_distinct:
  "distinct [MATCH_EQ, MATCH_CONTAINS, MATCH_GT, MATCH_GTE, MATCH_LT, MATCH_LTE, MATCH_EXISTS, MATCH_RANGE]"
  "distinct [MATCH_RANGE, MATCH_EXISTS, MATCH_LTE, MATCH_LT, MATCH_GTE, MATCH_GT, MATCH_CONTAINS, MATCH_EQ]"
  "distinct [SOURCE_PARAM, SOURCE_HEADER, SOURCE_TIME]" "distinct [SOURCE_TIME, SOURCE_HEADER, SOURCE_PARAM]"
  by (simp_all add: mode_defs js_eval)

lemmas mode_neq [simp] = mode_distinct [simplified]

lemma quote_chars_plain: "list_all plain_char s \<Longrightarrow> quote_chars s = s"
  by (induction s rule: quote_chars.induct) (auto simp: plain_char_def quote_char_def)

lemma json_quote_plain: "list_all plain_char s \<Longrightarrow> json_quote s = 34 # s @ [34]"
  by (simp add: json_quote_def quote_chars_plain)

lemma plain_not_quote: "plain s \<Longrightarrow> list_all not_quote s" "plain s \<Longrightarrow> list_all (\<lambda>c. c \<noteq> 34 \<and> c \<noteq> 92) s"
  by (auto simp: plain_def list_all_iff plain_char_def not_quote_def)

lemma plain_dot: "plain s \<Longrightarrow> list_all dot s"
  by (auto simp: plain_def list_all_iff plain_char_def)

lemma json_parse_quote: "list_all plain_char s \<Longrightarrow> json_parse (34 # s @ [34]) = Some (JStr s)"
  using json_round_trip [of "JStr s"]
  by (simp add: json_quote_plain text_ok_def list_all_iff plain_char_def)

lemma num_dot: "list_all is_num_char s \<Longrightarrow> list_all dot s"
  by (auto simp: list_all_iff is_num_char_def is_digit_def dot_def)

lemma num_trim: "list_all is_num_char s \<Longrightarrow> trim s = s"
  by (rule trim_no_space) (auto simp: list_all_iff is_num_char_def is_digit_def is_space_def)

lemma not_numeric_quote: "\<not> is_numeric_literal (34 # s)"
  using numeric_chars [of "34 # s"] by (auto simp: is_num_char_def is_digit_def)

lemmas regex_run = match_start_def match_at_def rlit_Cons rlit_empty rlit_Nil text_run number_run number_run_end
  rseq_Cons ralt_Cons

section \<open>A condition comes back\<close>

lemma build_time:
  assumes "clean_time c"
  shows "buildRequestConditionExpr (TimeC c) =
    (let fn = t_timeFunc c @ js ''('' @ 34 # t_timezone c @ 34 # js '')'' in
     if t_mode c = MATCH_RANGE then fn @ js '' >= '' @ t_rangeStart c @ js '' || '' @ fn @ js '' < '' @ t_rangeEnd c
     else fn @ [32] @ (if t_mode c = MATCH_GTE then js ''>='' else if t_mode c = MATCH_LT then js ''<'' else js ''=='') @
       [32] @ t_value c)"
proof -
  have "normalize_time c = c"
    using assms by (auto simp: clean_time_def normalize_time_def getRequestRuleMatchOptions_def str_or_def split: if_splits)
  moreover have "trim v = v" if "is_numeric_literal v" for v
    using numeric_chars [OF that] num_trim by blast
  ultimately show ?thesis
    using assms
    by (auto simp: buildRequestConditionExpr_def buildTimeConditionExpr_def clean_time_def plain_def json_quote_plain Let_def
        split: if_splits)
qed

lemma time_func_cases:
  assumes "isTimeFunc f"
  obtains "f = js ''hour''" | "f = js ''minute''" | "f = js ''weekday''" | "f = js ''month''" | "f = js ''day''"
  using assms by (auto simp: isTimeFunc_def TIME_FUNCS_def)

lemma match_time_compare:
  assumes "isTimeFunc f" "z \<noteq> []" "list_all not_quote z" "v \<noteq> []" "list_all is_num_char v"
    and "op \<in> {js ''=='', js ''>='', js ''<''}"
  shows "match_start re_time_compare (f @ js ''('' @ 34 # z @ 34 # js '')'' @ 32 # op @ 32 # v) =
    Some [(4, v), (3, op), (2, z), (1, f)]"
proof -
  have op: "op = js ''=='' \<or> op = js ''>='' \<or> op = js ''<''" using assms(6) by simp
  from assms(1) show ?thesis using assms(2-5) op
    by (cases rule: time_func_cases; elim disjE)
      (simp_all add: re_time_compare_def re_time_func_def TIME_FUNCS_def js_eval regex_run not_quote_def is_num_char_def
        is_digit_def del: rmatch.simps(1))
qed

lemmas regex_defs = re_time_compare_def re_time_range_def re_time_func_def TIME_FUNCS_def re_header_exists_def
  re_param_exists_def re_header_contains_def re_param_contains_def re_param_compare_def re_equals_def

lemmas regex_eval = regex_defs js_eval regex_run not_quote_def is_num_char_def is_digit_def

lemma match_time_range:
  assumes "isTimeFunc f" "z \<noteq> []" "list_all not_quote z" "v \<noteq> []" "list_all is_num_char v" "w \<noteq> []" "list_all is_num_char w"
  defines "s \<equiv> f @ js ''('' @ 34 # z @ 34 # js '') >= '' @ v @ js '' || '' @ f @ js ''('' @ 34 # z @ 34 # js '') < '' @ w"
  shows "match_start (rseq (re_time_range @ [REnd])) s = Some [(4, w), (3, v), (2, z), (1, f)]"
    and "match_start (rseq (re_time_range @ [REnd])) (40 # s @ [41]) = None"
    and "match_start (rseq (RLit (js ''('') # re_time_range @ [RLit (js '')''), REnd])) (40 # s @ [41]) =
      Some [(4, w), (3, v), (2, z), (1, f)]"
  using assms(1)
  by (cases rule: time_func_cases; use assms(2-7) in \<open>simp add: s_def regex_eval del: rmatch.simps(1)\<close>)+

lemma time_compare_not_range:
  assumes "isTimeFunc f" "z \<noteq> []" "list_all not_quote z" "v \<noteq> []" "list_all is_num_char v"
    and "op = js ''=='' \<or> op = js ''>='' \<or> op = js ''<''"
  defines "s \<equiv> f @ js ''('' @ 34 # z @ 34 # js '')'' @ 32 # op @ 32 # v"
  shows "match_start (rseq (re_time_range @ [REnd])) s = None"
    and "match_start (rseq (RLit (js ''('') # re_time_range @ [RLit (js '')''), REnd])) s = None"
  using assms(1)
  by (cases rule: time_func_cases; use assms(2-6) in \<open>auto simp add: s_def regex_eval simp del: rmatch.simps(1)\<close>)+

lemma parse_time:
  assumes "clean_time c"
  shows "tryParseTimeCondition (buildRequestConditionExpr (TimeC c)) = Some (TimeC c)"
proof -
  have f: "isTimeFunc (t_timeFunc c)" and z: "t_timezone c \<noteq> []" "list_all not_quote (t_timezone c)"
    using assms plain_not_quote by (auto simp: clean_time_def)
  note build = build_time [OF assms, unfolded Let_def]
  show ?thesis
  proof (cases "t_mode c = MATCH_RANGE")
    case True
    then have v: "t_value c = []" "t_rangeStart c \<noteq> []" "list_all is_num_char (t_rangeStart c)" "t_rangeEnd c \<noteq> []"
      "list_all is_num_char (t_rangeEnd c)"
      using assms numeric_chars by (auto simp: clean_time_def)
    have "buildRequestConditionExpr (TimeC c) = t_timeFunc c @ js ''('' @ 34 # t_timezone c @ 34 # js '') >= '' @
        t_rangeStart c @ js '' || '' @ t_timeFunc c @ js ''('' @ 34 # t_timezone c @ 34 # js '') < '' @ t_rangeEnd c"
      using build True by (simp add: js_eval)
    then show ?thesis
      using match_time_range(1) [OF f z v(2-5)] v(1) True
      by (simp add: tryParseTimeCondition_def range_condition_def cap_def)
  next
    case False
    define op where "op = (if t_mode c = MATCH_GTE then js ''>='' else if t_mode c = MATCH_LT then js ''<'' else js ''=='')"
    have v: "t_value c \<noteq> []" "list_all is_num_char (t_value c)" "t_rangeStart c = []" "t_rangeEnd c = []"
      and m: "t_mode c = MATCH_EQ \<or> t_mode c = MATCH_GTE \<or> t_mode c = MATCH_LT"
      using assms False numeric_chars by (auto simp: clean_time_def)
    have op: "op = js ''=='' \<or> op = js ''>='' \<or> op = js ''<''" by (simp add: op_def)
    have "buildRequestConditionExpr (TimeC c) = t_timeFunc c @ js ''('' @ 34 # t_timezone c @ 34 # js '')'' @ 32 # op @
        32 # t_value c"
      using build False by (simp add: op_def)
    moreover have "time_mode op = t_mode c"
      using m by (auto simp: op_def time_mode_def js_eval)
    ultimately show ?thesis
      using time_compare_not_range [OF f z v(1,2) op] match_time_compare [OF f z v(1,2), of op] op v(3,4)
      by (cases c) (simp add: tryParseTimeCondition_def cap_def)
  qed
qed

lemma parse_time_wrapped:
  assumes "clean_time c" "t_mode c = MATCH_RANGE"
  shows "tryParseTimeCondition (40 # buildRequestConditionExpr (TimeC c) @ [41]) = Some (TimeC c)"
proof -
  have f: "isTimeFunc (t_timeFunc c)" and z: "t_timezone c \<noteq> []" "list_all not_quote (t_timezone c)"
    using assms plain_not_quote by (auto simp: clean_time_def)
  have v: "t_value c = []" "t_rangeStart c \<noteq> []" "list_all is_num_char (t_rangeStart c)" "t_rangeEnd c \<noteq> []"
    "list_all is_num_char (t_rangeEnd c)"
    using assms numeric_chars by (auto simp: clean_time_def)
  have "buildRequestConditionExpr (TimeC c) = t_timeFunc c @ js ''('' @ 34 # t_timezone c @ 34 # js '') >= '' @
      t_rangeStart c @ js '' || '' @ t_timeFunc c @ js ''('' @ 34 # t_timezone c @ 34 # js '') < '' @ t_rangeEnd c"
    using build_time [OF assms(1)] assms(2) by (simp add: js_eval Let_def)
  then show ?thesis
    using match_time_range(2,3) [OF f z v(2-5)] v(1) assms(2)
    by (simp add: tryParseTimeCondition_def range_condition_def cap_def)
qed

text \<open>Conditions on parameters and headers.\<close>

definition source_text :: "jstring \<Rightarrow> jstring \<Rightarrow> jstring" where
  "source_text source path = source @ js ''('' @ 34 # path @ 34 # js '')''"

lemma not_time:
  "tryParseTimeCondition (js ''header('' @ s) = None" "tryParseTimeCondition (js ''param('' @ s) = None"
  "tryParseTimeCondition (js ''has('' @ s) = None"
  by (simp_all add: tryParseTimeCondition_def regex_eval del: rmatch.simps(1))

lemma source_literals: "js ''header('' = SOURCE_HEADER @ js ''(''" "js ''param('' = SOURCE_PARAM @ js ''(''"
  by (simp_all add: mode_defs js_eval)

lemma build_param_header:
  assumes "clean_param_header c"
  shows "buildRequestConditionExpr (PHC c) =
    (let e = source_text (ph_source c) (ph_path c) in
     if ph_mode c = MATCH_EXISTS then (if ph_source c = SOURCE_HEADER then e @ js '' != '' @ [34, 34] else e @ js '' != nil'')
     else if ph_mode c = MATCH_CONTAINS then js ''has('' @ e @ js '', '' @ 34 # ph_value c @ [34] @ js '')''
     else e @ js '' == '' @ buildExprLiteral MATCH_EQ (ph_value c))"
proof -
  have n: "normalize_param_header c = c"
    using assms by (cases c) (auto simp: clean_param_header_def normalize_param_header_def getRequestRuleMatchOptions_def)
  have t: "json_quote (ph_path c) = 34 # ph_path c @ [34]" "json_quote (ph_value c) = 34 # ph_value c @ [34]"
    "trim (ph_path c) = ph_path c" "trim (ph_value c) = ph_value c" "ph_path c \<noteq> []"
    using assms by (simp_all add: clean_param_header_def plain_def json_quote_plain)
  consider "ph_source c = SOURCE_HEADER" "ph_mode c = MATCH_EQ \<or> ph_mode c = MATCH_EXISTS \<or> ph_mode c = MATCH_CONTAINS"
    | "ph_source c = SOURCE_PARAM" "ph_mode c = MATCH_EQ \<or> ph_mode c = MATCH_EXISTS"
    using assms by (auto simp: clean_param_header_def)
  then show ?thesis
    by cases (elim disjE; simp add: buildRequestConditionExpr_def source_text_def n t source_literals buildExprLiteral_def Let_def)+
qed

lemma match_exists:
  assumes "p \<noteq> []" "list_all not_quote p"
  shows "match_start re_header_exists (source_text SOURCE_HEADER p @ js '' != '' @ [34, 34]) = Some [(1, p)]"
    and "match_start re_header_exists (source_text SOURCE_PARAM p @ s) = None"
    and "match_start re_param_exists (source_text SOURCE_PARAM p @ js '' != nil'') = Some [(1, p)]"
    and "match_start re_param_exists (source_text SOURCE_HEADER p @ s) = None"
    and "match_start re_header_exists (source_text SOURCE_HEADER p @ js '' == '' @ s) = None"
    and "match_start re_param_exists (source_text SOURCE_PARAM p @ js '' == '' @ s) = None"
    and "match_start re_header_exists (js ''has('' @ s) = None" "match_start re_param_exists (js ''has('' @ s) = None"
  using assms by (simp_all add: source_text_def mode_defs regex_eval del: rmatch.simps(1))

lemma match_contains:
  assumes "p \<noteq> []" "list_all not_quote p"
  shows "list_all (\<lambda>c. c \<noteq> 34 \<and> c \<noteq> 92) v \<Longrightarrow>
      match_start re_header_contains (js ''has('' @ source_text SOURCE_HEADER p @ js '', '' @ 34 # v @ [34] @ js '')'') =
      Some [(2, 34 # v @ [34]), (1, p)]"
    and "match_start re_header_contains (source_text SOURCE_HEADER p @ s) = None"
    and "match_start re_header_contains (source_text SOURCE_PARAM p @ s) = None"
    and "match_start re_param_contains (source_text SOURCE_HEADER p @ s) = None"
    and "match_start re_param_compare (source_text SOURCE_HEADER p @ s) = None"
    and "match_start re_param_contains (source_text SOURCE_PARAM p @ js '' == '' @ s) = None"
    and "match_start re_param_compare (source_text SOURCE_PARAM p @ js '' == '' @ s) = None"
  using assms by (simp_all add: source_text_def mode_defs regex_eval quoted_run del: rmatch.simps(1))

lemma match_equals:
  assumes "p \<noteq> []" "list_all not_quote p" "v \<noteq> []" "list_all dot v" "src = SOURCE_HEADER \<or> src = SOURCE_PARAM"
  shows "match_start re_equals (source_text src p @ js '' == '' @ v) = Some [(3, v), (2, p), (1, src)]"
  using assms(5)
  by (elim disjE; use assms(1-4) in \<open>simp add: source_text_def mode_defs regex_eval
      group_run [of v dot "[]" REnd, simplified] del: rmatch.simps(1)\<close>)

lemma literal_cases:
  assumes "plain v"
  obtains (keyword) "buildExprLiteral MATCH_EQ v = v" "v = js ''true'' \<or> v = js ''false''"
    | (number) "buildExprLiteral MATCH_EQ v = v" "is_numeric_literal v" "v \<noteq> js ''true''" "v \<noteq> js ''false''"
    | (quoted) "buildExprLiteral MATCH_EQ v = 34 # v @ [34]"
proof -
  have "trim v = v" "json_quote v = 34 # v @ [34]" using assms by (simp_all add: plain_def json_quote_plain)
  then show ?thesis
    by (cases "v = js ''true'' \<or> v = js ''false''"; cases "is_numeric_literal v")
      (use that in \<open>simp_all add: buildExprLiteral_def\<close>)
qed

lemma literal_value:
  assumes "plain v"
  defines "l \<equiv> buildExprLiteral MATCH_EQ v"
  shows "l \<noteq> []" "list_all dot l" "parseExprLiteral l = JStr v"
proof -
  have v: "trim v = v" "list_all plain_char v" "list_all dot v" using assms plain_dot by (simp_all add: plain_def)
  from assms(1) have "l \<noteq> [] \<and> list_all dot l \<and> parseExprLiteral l = JStr v"
  proof (cases rule: literal_cases)
    case keyword
    then show ?thesis using v by (auto simp: l_def parseExprLiteral_def Let_def js_Cons)
  next
    case number
    then show ?thesis using v numeric_chars [of v] by (simp add: l_def parseExprLiteral_def)
  next
    case quoted
    have "trim (34 # v @ [34]) = 34 # v @ [34]" by (rule trim_no_ws_ends) (simp add: is_space_def)
    moreover have "34 # v @ [34] \<noteq> js ''true''" "34 # v @ [34] \<noteq> js ''false''" by (simp_all add: js_Cons)
    ultimately show ?thesis
      using quoted v json_parse_quote [OF v(2)]
      by (simp add: l_def parseExprLiteral_def not_numeric_quote dot_def)
  qed
  then show "l \<noteq> []" "list_all dot l" "parseExprLiteral l = JStr v" by simp_all
qed

lemma parse_param_header:
  assumes "clean_param_header c"
  shows "tryParseRequestCondition (buildRequestConditionExpr (PHC c)) = Got (PHC c)"
proof -
  have p: "ph_path c \<noteq> []" "list_all not_quote (ph_path c)" and v: "plain (ph_value c)"
    using assms plain_not_quote by (auto simp: clean_param_header_def)
  have src: "ph_source c = SOURCE_HEADER \<or> ph_source c = SOURCE_PARAM" using assms by (auto simp: clean_param_header_def)
  have no_time: "tryParseTimeCondition (source_text (ph_source c) (ph_path c) @ s) = None" for s
    using src not_time(1,2) by (auto simp: source_text_def source_literals)
  note build = build_param_header [OF assms, unfolded Let_def]
  consider (exists) "ph_mode c = MATCH_EXISTS" "ph_value c = []"
    | (contains) "ph_mode c = MATCH_CONTAINS" "ph_source c = SOURCE_HEADER" | (eq) "ph_mode c = MATCH_EQ"
    using assms by (auto simp: clean_param_header_def)
  then show ?thesis
  proof cases
    case exists
    then show ?thesis
      using src build no_time match_exists [OF p]
      by (cases c) (auto simp: tryParseRequestCondition_def cap_def)
  next
    case contains
    then show ?thesis
      using build not_time(3) match_exists(7,8) [OF p] match_contains(1) [OF p plain_not_quote(2) [OF v]]
        json_parse_quote [of "ph_value c"] v
      by (cases c) (simp add: tryParseRequestCondition_def cap_def contains_condition_def plain_def)
  next
    case eq
    note l = literal_value [OF v]
    have "match_start re_header_exists (buildRequestConditionExpr (PHC c)) = None"
      "match_start re_param_exists (buildRequestConditionExpr (PHC c)) = None"
      "match_start re_header_contains (buildRequestConditionExpr (PHC c)) = None"
      "match_start re_param_contains (buildRequestConditionExpr (PHC c)) = None"
      "match_start re_param_compare (buildRequestConditionExpr (PHC c)) = None"
      using src eq build match_exists [OF p] match_contains [OF p] by auto
    then show ?thesis
      using eq build no_time match_equals [OF p l(1,2) src] l(3)
      by (cases c) (simp add: tryParseRequestCondition_def parse_param_pair_def parse_equals_def cap_def)
  qed
qed

lemma parse_condition:
  assumes "clean_condition c"
  shows "tryParseRequestCondition (buildRequestConditionExpr c) = Got c"
  using assms parse_time parse_param_header
  by (cases c) (auto simp: clean_condition_def tryParseRequestCondition_def [of "buildRequestConditionExpr (TimeC _)"])

section \<open>Splitting gives the parts back\<close>

definition depth_after :: "int \<Rightarrow> jstring \<Rightarrow> int" where
  "depth_after depth w = fold paren_step w depth"

fun above :: "int \<Rightarrow> int \<Rightarrow> jstring \<Rightarrow> bool" where
  \<comment> \<open>read from the depth \<open>d\<close>, the text never falls below the depth \<open>b\<close>\<close>
  "above b d [] = True"
| "above b d (c # w) = (b \<le> paren_step c d \<and> above b (paren_step c d) w)"

definition no_parens :: "jstring \<Rightarrow> bool" where
  "no_parens w \<longleftrightarrow> 40 \<notin> set w \<and> 41 \<notin> set w"

lemma depth_after_simps [simp]:
  "depth_after d [] = d" "depth_after d (c # w) = depth_after (paren_step c d) w"
  "depth_after d (v @ w) = depth_after (depth_after d v) w"
  by (simp_all add: depth_after_def)

lemma above_append [simp]: "above b d (v @ w) \<longleftrightarrow> above b d v \<and> above b (depth_after d v) w"
  by (induction v arbitrary: d) auto

lemma paren_step_shift: "paren_step c (d + k) = paren_step c d + k"
  by (simp add: paren_step_def)

lemma depth_after_shift: "depth_after (d + k) w = depth_after d w + k"
  by (induction w arbitrary: d) (simp_all add: paren_step_shift)

lemma above_shift: "above (b + k) (d + k) w = above b d w"
  by (induction w arbitrary: d) (simp_all add: paren_step_shift)

lemma no_parens_depth [simp]: "no_parens w \<Longrightarrow> depth_after d w = d"
  by (induction w arbitrary: d) (auto simp: no_parens_def paren_step_def)

lemma no_parens_above [simp]: "no_parens w \<Longrightarrow> b \<le> d \<Longrightarrow> above b d w"
  by (induction w arbitrary: d) (auto simp: no_parens_def paren_step_def)

text \<open>A text is passed over if the separator starts nowhere in it at depth zero.\<close>

fun quiet :: "jstring \<Rightarrow> int \<Rightarrow> jstring \<Rightarrow> jstring \<Rightarrow> bool" where
  "quiet sep d [] s = True"
| "quiet sep d (c # w) s =
     ((paren_step c d = 0 \<longrightarrow> \<not> startsWith (c # w @ s) sep) \<and> quiet sep (paren_step c d) w s)"

lemma split_top_quiet:
  "quiet sep d w s \<Longrightarrow> split_top sep d part (w @ s) = split_top sep (depth_after d w) (part @ w) s"
  by (induction w arbitrary: d part) (auto simp: Let_def)

lemma split_top_sep:
  assumes "sep = 32 # l"
  shows "split_top sep 0 part (sep @ s) = part # split_top sep 0 [] s"
  using startsWith_append [of sep s] by (simp add: assms paren_step_def Let_def)

lemma quiet_above: "above 1 d w \<Longrightarrow> quiet sep d w s"
  by (induction w arbitrary: d) auto

lemma quiet_no_char:
  assumes "x \<notin> set w" "s = [] \<or> hd s \<noteq> x"
  shows "quiet (32 # x # l) d w s"
  using assms
proof (induction w arbitrary: d)
  case (Cons c w)
  have "\<not> startsWith (c # w @ s) (32 # x # l)"
    using Cons.prems by (cases "w @ s") (auto simp: append_eq_Cons_conv)
  with Cons show ?case by simp
qed simp

lemmas quiet_no_amp = quiet_no_char [of 38]

lemma quiet_append: "quiet sep d (v @ w) s \<longleftrightarrow> quiet sep d v (w @ s) \<and> quiet sep (depth_after d v) w s"
  by (induction v arbitrary: d) auto

definition part_ok :: "jstring \<Rightarrow> bool" where
  "part_ok e \<longleftrightarrow> e \<noteq> [] \<and> \<not> is_space (hd e) \<and> \<not> is_space (last e) \<and> 38 \<notin> set e \<and> above 0 0 e \<and>
     depth_after 0 e = 0"

lemma part_ok_trim: "part_ok e \<Longrightarrow> trim e = e"
  by (simp add: part_ok_def trim_no_ws_ends)

lemma split_and:
  assumes "ps \<noteq> []" "list_all part_ok ps"
  shows "splitTopLevelAnd (join (js '' && '') ps) = ps"
proof -
  have sep: "js '' && '' = 32 # 38 # [38, 32]" by (simp add: js_eval)
  have "split_top (js '' && '') 0 [] (join (js '' && '') ps) = ps"
    using assms
  proof (induction ps rule: induct_list012)
    case (2 p)
    then show ?case using split_top_quiet [OF quiet_no_amp, of p "[]" "[38, 32]" 0 "[]"] by (simp add: sep part_ok_def)
  next
    case (3 p q ps)
    then have "quiet (js '' && '') 0 p (js '' && '' @ join (js '' && '') (q # ps))"
      unfolding sep by (intro quiet_no_amp) (auto simp: part_ok_def)
    then have "split_top (js '' && '') 0 [] (p @ js '' && '' @ join (js '' && '') (q # ps)) =
        p # split_top (js '' && '') 0 [] (join (js '' && '') (q # ps))"
      using 3 by (simp add: split_top_quiet part_ok_def split_top_sep [OF sep])
    with 3 show ?case by simp
  qed simp
  moreover have "map trim ps = ps" "filter (\<lambda>p. p \<noteq> []) ps = ps"
    using assms(2) by (auto simp: list_all_iff part_ok_trim part_ok_def intro: map_idI filter_True)
  ultimately show ?thesis by (simp add: splitTopLevelAnd_def)
qed

definition factor_ok :: "jstring \<Rightarrow> bool" where
  \<comment> \<open>one pair of parentheses around the whole\<close>
  "factor_ok f \<longleftrightarrow> (\<exists>w. f = 40 # w @ [41] \<and> above 0 0 w \<and> depth_after 0 w = 0)"

lemma factor_ok_trim: "factor_ok f \<Longrightarrow> trim f = f \<and> f \<noteq> []"
  by (auto simp: factor_ok_def is_space_def intro!: trim_no_ws_ends)

lemma factor_ok_depth:
  assumes "factor_ok f"
  shows "depth_after 0 f = 0" "quiet (32 # l) 0 f s"
proof -
  obtain w where f: "f = 40 # w @ [41]" and w: "above 0 0 w" "depth_after 0 w = 0"
    using assms by (auto simp: factor_ok_def)
  have w1: "above 1 1 w" "depth_after 1 w = 1" using above_shift [of 0 1 0 w] depth_after_shift [of 0 1 w] w by simp_all
  have "quiet (32 # l) 1 (w @ [41]) s"
  proof -
    have "quiet (32 # l) d (v @ [41]) s" if "above 1 d v" for d v
      using that by (induction v arbitrary: d) auto
    then show ?thesis using w1(1) .
  qed
  then show "depth_after 0 f = 0" "quiet (32 # l) 0 f s" using w1 by (simp_all add: f paren_step_def)
qed

lemma split_multiply:
  assumes "fs \<noteq> []" "list_all factor_ok fs"
  shows "splitTopLevelMultiply (join (js '' * '') fs) = fs"
proof -
  have sep: "js '' * '' = 32 # [42, 32]" by (simp add: js_eval)
  have "split_top (js '' * '') 0 [] (join (js '' * '') fs) = fs"
    using assms
  proof (induction fs rule: induct_list012)
    case (2 f)
    then show ?case using split_top_quiet [OF factor_ok_depth(2), of f "[42, 32]" "[]" "[]"] factor_ok_depth(1) by (simp add: sep)
  next
    case (3 f g fs)
    then have "split_top (js '' * '') 0 [] (f @ js '' * '' @ join (js '' * '') (g # fs)) =
        f # split_top (js '' * '') 0 [] (join (js '' * '') (g # fs))"
      using factor_ok_depth [of f] split_top_quiet [of "js '' * ''" 0 f "js '' * '' @ join (js '' * '') (g # fs)" "[]"]
      by (simp add: sep paren_step_def Let_def)
    with 3 show ?case by simp
  qed simp
  moreover have "map trim fs = fs" "filter (\<lambda>p. p \<noteq> []) fs = fs"
    using assms(2) factor_ok_trim by (auto simp: list_all_iff intro: map_idI filter_True)
  ultimately show ?thesis by (simp add: splitTopLevelMultiply_def)
qed

section \<open>The rules come back\<close>

lemma plain_syntax:
  assumes "list_all plain_char s"
  shows "no_parens s" "38 \<notin> set s" "124 \<notin> set s"
  using assms by (auto simp: no_parens_def list_all_iff plain_char_def)

lemma num_syntax:
  assumes "list_all is_num_char s"
  shows "no_parens s" "38 \<notin> set s" "124 \<notin> set s" "s \<noteq> [] \<Longrightarrow> \<not> is_space (last s)"
proof -
  show "no_parens s" "38 \<notin> set s" "124 \<notin> set s"
    using assms by (auto simp: no_parens_def list_all_iff is_num_char_def is_digit_def)
  assume "s \<noteq> []"
  then have "is_num_char (last s)" using assms by (simp add: list_all_iff)
  then show "\<not> is_space (last s)" by (auto simp: is_num_char_def is_digit_def is_space_def)
qed

lemma time_ok:
  assumes "clean_time c"
  shows "part_ok (buildRequestConditionExpr (TimeC c))"
    and "str_includes (buildRequestConditionExpr (TimeC c)) (js '' || '') \<longleftrightarrow> t_mode c = MATCH_RANGE"
proof -
  let ?e = "buildRequestConditionExpr (TimeC c)"
  have z: "no_parens (t_timezone c)" "38 \<notin> set (t_timezone c)" "124 \<notin> set (t_timezone c)"
    using assms plain_syntax by (auto simp: clean_time_def plain_def)
  have f: "isTimeFunc (t_timeFunc c)" using assms by (simp add: clean_time_def)
  show "part_ok ?e"
  proof (cases "t_mode c = MATCH_RANGE")
    case True
    then have "is_numeric_literal (t_rangeStart c)" "is_numeric_literal (t_rangeEnd c)" using assms by (auto simp: clean_time_def)
    note n = this [THEN numeric_chars]
    show ?thesis using f n z True
      by (cases rule: time_func_cases)
        (auto simp: part_ok_def build_time [OF assms] js_Cons num_syntax paren_step_def not_space_ascii Let_def)
  next
    case False
    then have "is_numeric_literal (t_value c)" using assms by (auto simp: clean_time_def)
    note n = this [THEN numeric_chars]
    show ?thesis using f n z False
      by (cases rule: time_func_cases)
        (auto simp: part_ok_def build_time [OF assms] js_Cons num_syntax paren_step_def not_space_ascii Let_def)
  qed
  show "str_includes ?e (js '' || '') \<longleftrightarrow> t_mode c = MATCH_RANGE"
  proof (cases "t_mode c = MATCH_RANGE")
    case True
    then have "\<exists>a b. ?e = a @ js '' || '' @ b" unfolding build_time [OF assms] Let_def by (simp, metis append.assoc append_Cons)
    with True show ?thesis by (simp add: str_includes_iff)
  next
    case False
    then have "is_numeric_literal (t_value c)" using assms by (auto simp: clean_time_def)
    from this [THEN numeric_chars] have "124 \<notin> set (t_value c)" using num_syntax by blast
    with f z False have "124 \<notin> set ?e" unfolding build_time [OF assms] Let_def
      by (cases rule: time_func_cases) (auto simp: js_Cons)
    moreover have "124 \<in> set (js '' || '')" by (simp add: js_Cons)
    ultimately show ?thesis using False by (auto simp: str_includes_iff)
  qed
qed

lemma literal_syntax:
  assumes "plain v"
  defines "l \<equiv> buildExprLiteral MATCH_EQ v"
  shows "no_parens l" "38 \<notin> set l" "124 \<notin> set l" "\<not> is_space (last l)"
proof -
  have v: "list_all plain_char v" using assms by (simp add: plain_def)
  from assms(1) have "no_parens l \<and> 38 \<notin> set l \<and> 124 \<notin> set l \<and> \<not> is_space (last l)"
  proof (cases rule: literal_cases)
    case keyword
    then show ?thesis by (auto simp: l_def js_Cons no_parens_def not_space_ascii)
  next
    case number
    with numeric_chars [OF number(2)] show ?thesis by (simp add: l_def num_syntax)
  next
    case quoted
    with plain_syntax [OF v] show ?thesis by (simp add: l_def no_parens_def not_space_ascii)
  qed
  then show "no_parens l" "38 \<notin> set l" "124 \<notin> set l" "\<not> is_space (last l)" by simp_all
qed

lemma param_header_ok:
  assumes "clean_param_header c"
  shows "part_ok (buildRequestConditionExpr (PHC c))" "124 \<notin> set (buildRequestConditionExpr (PHC c))"
proof -
  let ?e = "buildRequestConditionExpr (PHC c)"
  have p: "no_parens (ph_path c)" "38 \<notin> set (ph_path c)" "124 \<notin> set (ph_path c)"
    and v: "no_parens (ph_value c)" "38 \<notin> set (ph_value c)" "124 \<notin> set (ph_value c)" and pv: "plain (ph_value c)"
    using assms plain_syntax by (auto simp: clean_param_header_def plain_def)
  have src: "ph_source c = SOURCE_HEADER \<or> ph_source c = SOURCE_PARAM" using assms by (auto simp: clean_param_header_def)
  note l = literal_syntax [OF pv] literal_value(1) [OF pv]
  have "part_ok ?e \<and> 124 \<notin> set ?e"
    unfolding build_param_header [OF assms] Let_def
    using src p v l
    by (elim disjE; simp add: part_ok_def source_text_def SOURCE_PARAM_def SOURCE_HEADER_def js_Cons paren_step_def
        not_space_ascii)
  then show "part_ok ?e" "124 \<notin> set ?e" by simp_all
qed

definition wrap_part :: "jstring \<Rightarrow> jstring" where
  "wrap_part e = (if str_includes e (js '' || '') then js ''('' @ e @ js '')'' else e)"

lemma part_ok_wrap: "part_ok e \<Longrightarrow> part_ok (40 # e @ [41])"
proof -
  assume e: "part_ok e"
  then have "above 1 1 e" "depth_after 1 e = 1"
    using above_shift [of 0 1 0 e] depth_after_shift [of 0 1 e] by (simp_all add: part_ok_def)
  moreover have "above 0 d w" if "above 1 d w" for d w
    using that by (induction w arbitrary: d) auto
  ultimately show ?thesis using e by (simp add: part_ok_def paren_step_def not_space_ascii)
qed

lemma condition_ok:
  assumes "clean_condition c"
  shows "part_ok (buildRequestConditionExpr c)" "part_ok (wrap_part (buildRequestConditionExpr c))"
    and "tryParseRequestCondition (wrap_part (buildRequestConditionExpr c)) = Got c"
proof -
  have ok: "part_ok (buildRequestConditionExpr c)"
    using assms time_ok(1) param_header_ok(1) by (cases c) (auto simp: clean_condition_def)
  then show "part_ok (buildRequestConditionExpr c)" "part_ok (wrap_part (buildRequestConditionExpr c))"
    using part_ok_wrap by (simp_all add: wrap_part_def js_Cons)
  show "tryParseRequestCondition (wrap_part (buildRequestConditionExpr c)) = Got c"
  proof (cases "str_includes (buildRequestConditionExpr c) (js '' || '')")
    case True
    obtain t where t: "c = TimeC t"
    proof (cases c)
      case (PHC p)
      moreover have "124 \<in> set (js '' || '')" by (simp add: js_Cons)
      ultimately show ?thesis using True assms param_header_ok(2) by (fastforce simp: clean_condition_def str_includes_iff)
    qed blast
    with True assms have "clean_time t" "t_mode t = MATCH_RANGE" using time_ok(2) by (auto simp: clean_condition_def)
    then show ?thesis using True t parse_time_wrapped by (simp add: wrap_part_def tryParseRequestCondition_def js_Cons)
  next
    case False
    then show ?thesis using parse_condition [OF assms] by (simp add: wrap_part_def)
  qed
qed

lemma plus_first:
  assumes "0 < n" "n \<le> length (takeWhile P s)"
    and "\<And>k. n < k \<Longrightarrow> k \<le> length (takeWhile P s) \<Longrightarrow> f (drop k s, c) = []"
  shows "\<exists>more. List.bind (rmatch (rplus (RSet P)) (s, c)) f = f (drop n s, c) @ more"
proof -
  obtain x r where s: "s = x # r" "P x" using assms(1,2) by (cases s) (auto split: if_splits)
  obtain m where n: "n = Suc m" using assms(1) by (cases n) auto
  let ?len = "length (takeWhile P r)"
  have m: "m \<le> ?len" using assms(2) s n by simp
  have map: "List.bind (map g xs) f = List.bind xs (\<lambda>x. f (g x))" for g :: "nat \<Rightarrow> rstate" and xs
    by (induction xs) simp_all
  have "rev [0..<Suc ?len] = rev [Suc m..<Suc ?len] @ m # rev [0..<m]"
    using m upt_add_eq_append [of 0 m "Suc ?len - m"] by (simp add: upt_conv_Cons)
  moreover have "List.bind (rev [Suc m..<Suc ?len]) (\<lambda>k. f (drop k r, c)) = []"
    by (rule bind_Nil) (use assms(3) [of "Suc _"] s n in auto)
  ultimately have "List.bind (rmatch (RStar (RSet P)) (r, c)) f =
      f (drop m r, c) @ List.bind (rev [0..<m]) (\<lambda>k. f (drop k r, c))"
    by (simp add: star_class map del: rmatch.simps upt_Suc)
  then show ?thesis using s n by (auto simp: rplus_def)
qed

lemma match_factor:
  assumes "w \<noteq> []" "v \<noteq> []" "list_all is_num_char v"
  shows "match_start re_factor (40 # w @ js '' ? '' @ v @ js '' : 1)'') = Some [(2, v), (1, w)]"
proof -
  let ?tail = "js '' ? '' @ v @ js '' : 1)''"
  let ?q = "rmatch (rseq [RLit (js '' ? ''), re_number 2, RLit (js '' : 1)''), REnd])"
  have at: "?q (?tail, d) = [([], (2, v) # d)]" for d
    using assms(2,3) by (simp add: js_Cons regex_run is_num_char_def is_digit_def del: rmatch.simps(1))
  have past: "?q (drop k (w @ ?tail), d) = []" if "length w < k" for k d
  proof -
    have "63 \<notin> set v" using assms(3) by (auto simp: list_all_iff is_num_char_def is_digit_def)
    then have rest: "63 \<notin> set (32 # v @ js '' : 1)'')" by (simp add: js_Cons)
    have "\<not> startsWith (drop j ?tail) (js '' ? '')" if "0 < j" for j
    proof (cases "j = 1")
      case False
      then have "2 \<le> j" using that by simp
      then obtain i where "j = 2 + i" using le_Suc_ex by blast
      then have "drop j ?tail = drop i (32 # v @ js '' : 1)'')" by (simp add: js_Cons)
      then have "set (drop j ?tail) \<subseteq> set (32 # v @ js '' : 1)'')" by (simp only: set_drop_subset)
      with rest have "63 \<notin> set (drop j ?tail)" by blast
      moreover have "63 \<in> set u" if "startsWith u (js '' ? '')" for u using that by (auto simp: startsWith_iff js_Cons)
      ultimately show ?thesis by blast
    qed (simp add: js_Cons)
    from this [of "k - length w"] that show ?thesis by (simp add: rseq_Cons)
  qed
  have run: "takeWhile (\<lambda>_. True) s = s" for s :: jstring by (induction s) simp_all
  obtain more where "List.bind (rmatch (rplus (RSet (\<lambda>_. True))) (w @ ?tail, []))
      (\<lambda>t. ?q (fst t, (1, take (length (w @ ?tail) - length (fst t)) (w @ ?tail)) # snd t)) =
      ?q (?tail, [(1, w)]) @ more"
    using plus_first [of "length w" "\<lambda>_. True" "w @ ?tail"
        "\<lambda>t. ?q (fst t, (1, take (length (w @ ?tail) - length (fst t)) (w @ ?tail)) # snd t)" "[]"] assms(1) past run
    by auto
  moreover have "rmatch re_factor (40 # s, []) = List.bind (rmatch (RGroup 1 (rplus (RSet (\<lambda>_. True)))) (s, [])) ?q" for s
    by (simp add: re_factor_def js_Cons [of "CHR 0x28"] del: rmatch.simps(7))
  ultimately have "rmatch re_factor (40 # w @ ?tail, []) = ?q (?tail, [(1, w)]) @ more"
    by (simp add: bind_group del: rmatch.simps rseq.simps)
  then show ?thesis by (simp add: match_start_def match_at_def at del: rmatch.simps rseq.simps)
qed

definition rule_parts :: "RequestRuleGroup \<Rightarrow> jstring list" where
  "rule_parts g = (let es = map buildRequestConditionExpr (rg_conditions g) in if length es = 1 then es else map wrap_part es)"

lemma build_factor:
  assumes "clean_group g"
  shows "buildRuleGroupFactor g = 40 # join (js '' && '') (rule_parts g) @ js '' ? '' @ rg_multiplier g @ js '' : 1)''"
proof -
  define es where "es = map buildRequestConditionExpr (rg_conditions g)"
  have es: "filter (\<lambda>e. e \<noteq> []) es = es" "es \<noteq> []"
    using assms condition_ok(1) by (auto simp: es_def clean_group_def list_all_iff part_ok_def intro!: filter_True)
  have m: "trim (rg_multiplier g) = rg_multiplier g" "is_numeric_literal (rg_multiplier g)"
    using assms numeric_chars num_trim by (auto simp: clean_group_def)
  have "(if length es = 1 then es ! 0 else join (js '' && '') (map wrap_part es)) = join (js '' && '') (rule_parts g)"
    by (cases es; cases "tl es") (simp_all add: rule_parts_def es_def [symmetric] Let_def)
  then show ?thesis
    unfolding buildRuleGroupFactor_def es_def [symmetric] es(1) Let_def m(1) wrap_part_def [abs_def]
    using es(2) m(2) by (simp add: js_Cons [of "CHR 0x28"])
qed

lemma rule_parts_ok:
  assumes "clean_group g"
  shows "rule_parts g \<noteq> []" "list_all part_ok (rule_parts g)"
    and "parse_all (\<lambda>ap. tryParseRequestCondition (trim ap)) (rule_parts g) = Got (rg_conditions g)"
proof -
  have all: "parse_all (\<lambda>ap. tryParseRequestCondition (trim ap)) (map f cs) = Got cs"
    if "\<And>c. c \<in> set cs \<Longrightarrow> part_ok (f c) \<and> tryParseRequestCondition (f c) = Got c" for f cs
    using that part_ok_trim by (induction cs) auto
  have cs: "c \<in> set (rg_conditions g) \<Longrightarrow> clean_condition c" for c
    using assms by (auto simp: clean_group_def list_all_iff)
  show "rule_parts g \<noteq> []" using assms by (auto simp: rule_parts_def clean_group_def Let_def)
  show "list_all part_ok (rule_parts g)"
    using cs condition_ok(1,2) by (auto simp: rule_parts_def list_all_iff Let_def)
  have "parse_all (\<lambda>ap. tryParseRequestCondition (trim ap)) (map buildRequestConditionExpr (rg_conditions g)) =
      Got (rg_conditions g)"
    by (rule all) (simp add: cs condition_ok(1) parse_condition)
  moreover have "parse_all (\<lambda>ap. tryParseRequestCondition (trim ap))
      (map (\<lambda>c. wrap_part (buildRequestConditionExpr c)) (rg_conditions g)) = Got (rg_conditions g)"
    by (rule all) (simp add: cs condition_ok(2,3))
  ultimately show "parse_all (\<lambda>ap. tryParseRequestCondition (trim ap)) (rule_parts g) = Got (rg_conditions g)"
    by (simp add: rule_parts_def Let_def comp_def)
qed

lemma join_not_Nil: "xs \<noteq> [] \<Longrightarrow> (\<And>x. x \<in> set xs \<Longrightarrow> x \<noteq> []) \<Longrightarrow> join s xs \<noteq> []"
  by (induction s xs rule: join.induct) auto

lemma parse_factor:
  assumes "clean_group g"
  shows "tryParseRuleGroupFactor (buildRuleGroupFactor g) = Got g"
proof -
  note parts = rule_parts_ok [OF assms]
  have m: "rg_multiplier g \<noteq> []" "list_all is_num_char (rg_multiplier g)"
    using assms numeric_chars by (auto simp: clean_group_def)
  have "join (js '' && '') (rule_parts g) \<noteq> []"
    using parts(1,2) by (intro join_not_Nil) (auto simp: list_all_iff part_ok_def)
  then have "match_start re_factor (buildRuleGroupFactor g) =
      Some [(2, rg_multiplier g), (1, join (js '' && '') (rule_parts g))]"
    using match_factor m by (simp add: build_factor [OF assms])
  then show ?thesis
    using parts assms by (simp add: tryParseRuleGroupFactor_def cap_def split_and clean_group_def)
qed

lemma above_join:
  assumes "\<And>p. p \<in> set ps \<Longrightarrow> above 0 0 p \<and> depth_after 0 p = 0" "no_parens s"
  shows "above 0 0 (join s ps) \<and> depth_after 0 (join s ps) = 0"
  using assms by (induction s ps rule: join.induct) auto

lemma factor_text_ok:
  assumes "list_all part_ok ps" "list_all is_num_char m"
  shows "factor_ok (40 # join (js '' && '') ps @ js '' ? '' @ m @ js '' : 1)'')"
proof -
  let ?w = "join (js '' && '') ps @ js '' ? '' @ m @ js '' : 1''"
  have "above 0 0 (join (js '' && '') ps) \<and> depth_after 0 (join (js '' && '') ps) = 0"
    using assms(1) by (intro above_join) (auto simp: list_all_iff part_ok_def no_parens_def js_Cons)
  then have "above 0 0 ?w \<and> depth_after 0 ?w = 0"
    using num_syntax(1) [OF assms(2)] by (simp add: no_parens_def js_Cons paren_step_def)
  moreover have "40 # join (js '' && '') ps @ js '' ? '' @ m @ js '' : 1)'' = 40 # ?w @ [41]" by (simp add: js_Cons)
  ultimately show ?thesis unfolding factor_ok_def by blast
qed

lemma factor_ok_build:
  assumes "clean_group g"
  shows "factor_ok (buildRuleGroupFactor g)"
  unfolding build_factor [OF assms]
  by (rule factor_text_ok) (use assms rule_parts_ok(2) numeric_chars in \<open>auto simp: clean_group_def\<close>)

lemma build_rules:
  assumes "list_all clean_group gs"
  shows "buildRequestRuleExpr gs = join (js '' * '') (map buildRuleGroupFactor gs)"
    and "list_all factor_ok (map buildRuleGroupFactor gs)"
proof -
  show "list_all factor_ok (map buildRuleGroupFactor gs)"
    using assms factor_ok_build by (auto simp: list_all_iff)
  then have "filter (\<lambda>e. e \<noteq> []) (map buildRuleGroupFactor gs) = map buildRuleGroupFactor gs"
    using factor_ok_trim by (auto simp: list_all_iff intro!: filter_True)
  then show "buildRequestRuleExpr gs = join (js '' * '') (map buildRuleGroupFactor gs)"
    by (simp add: buildRequestRuleExpr_def)
qed

lemma join_ends:
  assumes "ps \<noteq> []" "\<And>p. p \<in> set ps \<Longrightarrow> p \<noteq> []"
  shows "hd (join s ps) = hd (hd ps) \<and> last (join s ps) = last (last ps) \<and> join s ps \<noteq> []"
  using assms by (induction s ps rule: join.induct) auto

lemma join_factors_trim:
  assumes "fs \<noteq> []" "list_all factor_ok fs"
  shows "trim (join s fs) = join s fs \<and> join s fs \<noteq> []"
proof -
  have f: "f \<noteq> [] \<and> hd f = 40 \<and> last f = 41" if "f \<in> set fs" for f
    using that assms(2) by (auto simp: list_all_iff factor_ok_def)
  then have "hd (join s fs) = 40 \<and> last (join s fs) = 41 \<and> join s fs \<noteq> []"
    using join_ends [of fs s] assms(1) by (simp add: f)
  then show ?thesis by (auto simp: not_space_ascii intro: trim_no_ws_ends)
qed

lemma parse_all_map: "(\<And>x. x \<in> set xs \<Longrightarrow> f (g x) = Got x) \<Longrightarrow> parse_all f (map g xs) = Got xs"
  by (induction xs) auto

lemma round_trip:
  assumes "list_all clean_group gs"
  shows "tryParseRequestRuleExpr (buildRequestRuleExpr gs) = Got gs"
proof (cases "gs = []")
  case False
  note fs = build_rules [OF assms]
  have "trim (buildRequestRuleExpr gs) = buildRequestRuleExpr gs" "buildRequestRuleExpr gs \<noteq> []"
    using join_factors_trim [OF _ fs(2)] False fs(1) by simp_all
  moreover have "splitTopLevelMultiply (buildRequestRuleExpr gs) = map buildRuleGroupFactor gs"
    using split_multiply [OF _ fs(2)] False fs(1) by simp
  moreover have "parse_all tryParseRuleGroupFactor (map buildRuleGroupFactor gs) = Got gs"
    using assms parse_factor by (intro parse_all_map) (auto simp: list_all_iff)
  ultimately show ?thesis by (simp add: tryParseRequestRuleExpr_def)
qed (simp add: buildRequestRuleExpr_def tryParseRequestRuleExpr_def)

text \<open>
  C15: Request rules come back from their text. If every condition is a test of the time, of a header or of a
  parameter's presence or value, with texts free of quotes, parentheses, backslashes, ampersands and bars, then
  parsing the text the editor built gives the same groups, in the same order, with the same multipliers.
\<close>

theorem request_rules_round_trip:
  assumes "list_all clean_group gs"
  shows "tryParseRequestRuleExpr (buildRequestRuleExpr gs) = Got gs"
  using assms by (rule round_trip)

lemmas numeric_eval = is_numeric_literal_def match_start_def match_at_def NUMERIC_LITERAL_REGEX_def rplus_def rlit_Cons
  rlit_empty rlit_Nil star_class is_digit_def

definition sample_groups :: "RequestRuleGroup list" where
  "sample_groups =
     [\<lparr>rg_conditions =
         [TimeC \<lparr>t_timeFunc = js ''hour'', t_timezone = js ''UTC'', t_mode = MATCH_RANGE, t_value = [],
            t_rangeStart = js ''22'', t_rangeEnd = js ''6''\<rparr>,
          PHC \<lparr>ph_source = SOURCE_HEADER, ph_path = js ''x-plan'', ph_mode = MATCH_CONTAINS, ph_value = js ''pro''\<rparr>],
       rg_multiplier = js ''0.5''\<rparr>]"

lemma sample_numbers: "is_numeric_literal (js ''22'')" "is_numeric_literal (js ''6'')" "is_numeric_literal (js ''0.5'')"
  "is_numeric_literal (js ''2'')"
  by (simp_all add: js_Cons numeric_eval del: rmatch.simps(1,5))

lemma plainI: "list_all (\<lambda>c. plain_char c \<and> 33 \<le> c \<and> c < 127) s \<Longrightarrow> plain s"
  unfolding plain_def list_all_iff by (intro conjI trim_no_space not_space_ascii) simp_all

lemma sample_clean: "list_all clean_group sample_groups"
proof -
  have "plain (js ''UTC'')" "plain (js ''x-plan'')" "plain (js ''pro'')"
    by (rule plainI; simp add: js_Cons plain_char_def dot_def high_surrogate_def low_surrogate_def)+
  then show ?thesis
    by (simp add: sample_groups_def clean_group_def clean_condition_def clean_time_def clean_param_header_def sample_numbers
        isTimeFunc_def TIME_FUNCS_def)
qed

theorem request_rules_round_trip_witness:
  "tryParseRequestRuleExpr (buildRequestRuleExpr sample_groups) = Got sample_groups \<and> sample_groups \<noteq> []"
  using request_rules_round_trip [OF sample_clean] by (simp add: sample_groups_def)

section \<open>Rules the editor cannot reopen\<close>

definition param_test :: "ParamHeaderCondition \<Rightarrow> bool" where
  \<comment> \<open>a comparison or a containment test of a parameter\<close>
  "param_test c \<longleftrightarrow> ph_source c = SOURCE_PARAM \<and> ph_path c \<noteq> [] \<and> plain (ph_path c) \<and>
     (ph_mode c = MATCH_CONTAINS \<and> plain (ph_value c) \<or>
      ph_mode c \<in> {MATCH_GT, MATCH_GTE, MATCH_LT, MATCH_LTE} \<and> is_numeric_literal (ph_value c))"

definition test_text :: "ParamHeaderCondition \<Rightarrow> jstring" where
  "test_text c =
     (if ph_mode c = MATCH_CONTAINS
      then js ''has('' @ source_text SOURCE_PARAM (ph_path c) @ js '', '' @ 34 # ph_value c @ [34] @ js '')''
      else source_text SOURCE_PARAM (ph_path c) @ [32] @ compare_op (ph_mode c) @ [32] @ ph_value c)"

lemma build_param_test:
  assumes "param_test c"
  shows "buildRequestConditionExpr (PHC c) = join (js '' && '') [source_text SOURCE_PARAM (ph_path c) @ js '' != nil'', test_text c]"
proof -
  have n: "normalize_param_header c = c"
    using assms by (cases c) (auto simp: param_test_def normalize_param_header_def getRequestRuleMatchOptions_def)
  have sep: "js '' != nil && '' = js '' != nil'' @ js '' && ''" by (simp add: js_Cons)
  have p: "json_quote (ph_path c) = 34 # ph_path c @ [34]" "trim (ph_path c) = ph_path c" "ph_path c \<noteq> []"
    "ph_source c = SOURCE_PARAM"
    using assms by (simp_all add: param_test_def plain_def json_quote_plain)
  consider "ph_mode c = MATCH_CONTAINS" "json_quote (ph_value c) = 34 # ph_value c @ [34]" "trim (ph_value c) = ph_value c"
    | "ph_mode c \<in> {MATCH_GT, MATCH_GTE, MATCH_LT, MATCH_LTE}" "is_numeric_literal (ph_value c)" "trim (ph_value c) = ph_value c"
    using assms numeric_chars num_trim by (auto simp: param_test_def plain_def json_quote_plain)
  then show ?thesis
    by cases (auto simp: buildRequestConditionExpr_def test_text_def source_text_def n p sep source_literals
        buildExprLiteral_def Let_def)
qed

lemma test_not_parsed:
  assumes "param_test c"
  shows "tryParseRequestCondition (test_text c) = Null"
proof -
  have p: "ph_path c \<noteq> []" "list_all not_quote (ph_path c)" using assms plain_not_quote by (auto simp: param_test_def)
  have t: "tryParseTimeCondition (test_text c) = None"
    using not_time(2,3) by (auto simp: test_text_def source_text_def source_literals)
  consider "ph_mode c = MATCH_CONTAINS"
    | op where "ph_mode c \<noteq> MATCH_CONTAINS" "compare_op (ph_mode c) = op" "op = js ''>'' \<or> op = js ''>='' \<or> op = js ''<'' \<or> op = js ''<=''"
    by (cases "ph_mode c = MATCH_CONTAINS") (auto simp: compare_op_def)
  then have "match_start re_header_exists (test_text c) = None \<and> match_start re_param_exists (test_text c) = None \<and>
      match_start re_header_contains (test_text c) = None \<and> match_start re_param_contains (test_text c) = None \<and>
      match_start re_param_compare (test_text c) = None \<and> match_start re_equals (test_text c) = None"
  proof cases
    case 1
    then show ?thesis
      using p by (simp add: test_text_def source_text_def SOURCE_PARAM_def regex_eval del: rmatch.simps(1))
  next
    case 2
    from 2(3) show ?thesis
      by (elim disjE; use 2(1,2) p in \<open>simp add: test_text_def source_text_def SOURCE_PARAM_def regex_eval del: rmatch.simps(1)\<close>)
  qed
  with t show ?thesis by (simp add: tryParseRequestCondition_def parse_param_pair_def parse_equals_def)
qed

lemma test_parts_ok:
  assumes "param_test c"
  shows "part_ok (source_text SOURCE_PARAM (ph_path c) @ js '' != nil'')" "part_ok (test_text c)"
proof -
  have p: "no_parens (ph_path c)" "38 \<notin> set (ph_path c)" "124 \<notin> set (ph_path c)"
    using assms plain_syntax by (auto simp: param_test_def plain_def)
  have v: "no_parens (ph_value c)" "38 \<notin> set (ph_value c)" "124 \<notin> set (ph_value c)"
    "ph_mode c \<noteq> MATCH_CONTAINS \<Longrightarrow> ph_value c \<noteq> [] \<and> \<not> is_space (last (ph_value c))"
    using assms plain_syntax num_syntax numeric_chars by (auto simp: param_test_def plain_def)
  show "part_ok (source_text SOURCE_PARAM (ph_path c) @ js '' != nil'')"
    using p by (simp add: part_ok_def source_text_def SOURCE_PARAM_def js_Cons paren_step_def not_space_ascii)
  have op: "no_parens (compare_op m)" "38 \<notin> set (compare_op m)" "124 \<notin> set (compare_op m)" for m
    by (simp_all add: compare_op_def js_Cons no_parens_def)
  then show "part_ok (test_text c)"
    using p v by (simp add: part_ok_def test_text_def source_text_def SOURCE_PARAM_def js_Cons paren_step_def not_space_ascii)
qed

lemma param_test_null:
  assumes "param_test c" "is_numeric_literal m"
  shows "tryParseRequestRuleExpr (buildRequestRuleExpr [\<lparr>rg_conditions = [PHC c], rg_multiplier = m\<rparr>]) = Null"
proof -
  let ?ps = "[source_text SOURCE_PARAM (ph_path c) @ js '' != nil'', test_text c]"
  let ?f = "40 # join (js '' && '') ?ps @ js '' ? '' @ m @ js '' : 1)''"
  have m: "trim m = m" "m \<noteq> []" "list_all is_num_char m" using assms(2) numeric_chars num_trim by blast+
  note ok = test_parts_ok(1,2) [OF assms(1)]
  have p: "ph_path c \<noteq> []" "list_all not_quote (ph_path c)" using assms(1) plain_not_quote by (auto simp: param_test_def)
  have "join (js '' && '') ?ps \<noteq> []" using ok by (auto simp: part_ok_def)
  have build: "buildRequestRuleExpr [\<lparr>rg_conditions = [PHC c], rg_multiplier = m\<rparr>] = ?f"
    using build_param_test [OF assms(1)] assms(2) m(1) \<open>join (js '' && '') ?ps \<noteq> []\<close>
    by (simp add: buildRequestRuleExpr_def buildRuleGroupFactor_def js_Cons [of "CHR 0x28"] Let_def del: join.simps(3))
  have "factor_ok ?f" using factor_text_ok [of ?ps m] ok m(3) by simp
  then have "splitTopLevelMultiply ?f = [?f]" "trim ?f = ?f" using split_multiply [of "[?f]"] factor_ok_trim by simp_all
  moreover have "tryParseRuleGroupFactor ?f = Null"
  proof -
    have "tryParseRequestCondition (source_text SOURCE_PARAM (ph_path c) @ js '' != nil'') \<noteq> Thrown"
      using not_time(2) match_exists(2,3) [OF p] by (simp add: tryParseRequestCondition_def source_text_def source_literals)
    then have "parse_all (\<lambda>ap. tryParseRequestCondition (trim ap)) ?ps = Null"
      using part_ok_trim [OF ok(1)] part_ok_trim [OF ok(2)] test_not_parsed [OF assms(1)] by (auto split: attempt.splits)
    moreover have "splitTopLevelAnd (join (js '' && '') ?ps) = ?ps" using ok by (intro split_and) simp_all
    ultimately show ?thesis
      using match_factor [OF \<open>join (js '' && '') ?ps \<noteq> []\<close> m(2,3)]
      by (simp add: tryParseRuleGroupFactor_def cap_def del: join.simps)
  qed
  ultimately show ?thesis unfolding build by (simp add: tryParseRequestRuleExpr_def del: join.simps)
qed

text \<open>
  C38: A rule that compares a parameter with a number, or tests whether a parameter contains a text, cannot be
  opened again: the builder writes the test for \<open>nil\<close> and the test itself as two conjuncts, the parser splits
  them and knows no form of the second alone.
\<close>

theorem parameter_test_is_not_reopened:
  assumes "param_test c" "is_numeric_literal m"
  shows "tryParseRequestRuleExpr (buildRequestRuleExpr [\<lparr>rg_conditions = [PHC c], rg_multiplier = m\<rparr>]) = Null"
  using assms by (rule param_test_null)

definition sample_test :: ParamHeaderCondition where
  "sample_test = \<lparr>ph_source = SOURCE_PARAM, ph_path = js ''n'', ph_mode = MATCH_GT, ph_value = js ''2''\<rparr>"

lemma sample_test_ok: "param_test sample_test"
proof -
  have "plain (js ''n'')"
    by (rule plainI; simp add: js_Cons plain_char_def dot_def high_surrogate_def low_surrogate_def)
  then show ?thesis by (simp add: param_test_def sample_test_def sample_numbers)
qed

theorem parameter_test_is_not_reopened_witness:
  "tryParseRequestRuleExpr (buildRequestRuleExpr [\<lparr>rg_conditions = [PHC sample_test], rg_multiplier = js ''0.5''\<rparr>]) = Null"
  using parameter_test_is_not_reopened [OF sample_test_ok sample_numbers(3)] .

end
