(* ===== verification/Billing_Split.thy ===== *)
theory Billing_Split
  imports Billing_Round_Trip
begin

text \<open>
  Splitting a stored billing expression into its base and its request rules: what was combined is separated
  again, which outer parentheses are removed, and the expressions on which the parser throws.
\<close>

section \<open>Outer parentheses\<close>

text \<open>
  The texts with matching parentheses, as a grammar. It does not mention the depth counter with which the source
  looks for a pair around the whole text.
\<close>

inductive matched :: "jstring \<Rightarrow> bool" where
  empty: "matched []"
| char: "c \<noteq> 40 \<Longrightarrow> c \<noteq> 41 \<Longrightarrow> matched w \<Longrightarrow> matched (c # w)"
| pair: "matched v \<Longrightarrow> matched w \<Longrightarrow> matched (40 # v @ 41 # w)"

lemma matched_append:
  assumes "matched v" "matched w"
  shows "matched (v @ w)"
  using assms(1)
proof (induction rule: matched.induct)
  case (pair u v)
  then show ?case using matched.pair [of u "v @ w"] by simp
qed (use assms(2) in \<open>auto intro: matched.char\<close>)

lemma matched_insert:
  assumes "matched (u @ v)" "matched x"
  shows "matched (u @ x @ v)"
  using assms(1)
proof (induction "u @ v" arbitrary: u v rule: matched.induct)
  case empty
  then show ?case using assms(2) by simp
next
  case (char c w)
  show ?case
  proof (cases u)
    case Nil
    then show ?thesis using char.hyps matched_append [OF assms(2) matched.char [OF char.hyps(1-3)]] by simp
  next
    case (Cons d u')
    then show ?thesis using char.hyps(5) char.hyps(4) [of u' v] matched.char [OF char.hyps(1,2)] by simp
  qed
next
  case (pair y z)
  show ?case
  proof (cases u)
    case Nil
    then show ?thesis using pair.hyps matched_append [OF assms(2) matched.pair [OF pair.hyps(1,3)]] by simp
  next
    case (Cons d u')
    with pair.hyps(5) have eq: "d = 40" "y @ 41 # z = u' @ v" by simp_all
    then consider us where "u' = y @ us" "41 # z = us @ v" | us where "y = u' @ us" "us @ 41 # z = v"
      by (auto simp: append_eq_append_conv2)
    then show ?thesis
    proof cases
      case 1
      show ?thesis
      proof (cases us)
        case Nil
        then show ?thesis using 1 eq(1) Cons matched.pair [OF pair.hyps(2) [of y "[]"] pair.hyps(3)] by simp
      next
        case (Cons e us')
        then show ?thesis using 1 eq(1) \<open>u = d # u'\<close> matched.pair [OF pair.hyps(1) pair.hyps(4) [of us' v]] by simp
      qed
    next
      case 2
      then show ?thesis using eq(1) Cons matched.pair [OF pair.hyps(2) [of u' us] pair.hyps(3)] by simp
    qed
  qed
qed

lemma counted_matched:
  assumes "above 0 (int n) w" "depth_after (int n) w = 0"
  shows "matched (replicate n 40 @ w)"
  using assms
proof (induction w arbitrary: n)
  case Nil
  then show ?case by (simp add: matched.empty)
next
  case (Cons c w)
  consider "c = 40" | "c = 41" | "c \<noteq> 40" "c \<noteq> 41" by blast
  then show ?case
  proof cases
    case 1
    then show ?thesis using Cons.IH [of "Suc n"] Cons.prems by (simp add: paren_step_def add.commute replicate_app_Cons_same)
  next
    case 2
    then obtain k where n: "n = Suc k" using Cons.prems(1) by (cases n) (simp_all add: paren_step_def)
    have "matched (replicate k 40 @ w)" using Cons.IH [of k] Cons.prems 2 by (simp add: paren_step_def n)
    moreover have "matched [40, 41]" using matched.pair [OF matched.empty matched.empty] by simp
    ultimately have "matched (replicate k 40 @ [40, 41] @ w)" by (rule matched_insert)
    then show ?thesis using 2 by (simp add: n replicate_app_Cons_same)
  next
    case 3
    have "matched (replicate n 40 @ w)" using Cons.IH [of n] Cons.prems 3 by (simp add: paren_step_def)
    then have "matched (replicate n 40 @ [c] @ w)" by (rule matched_insert) (rule matched.char [OF 3 matched.empty])
    then show ?thesis by simp
  qed
qed

lemma matched_counted: "matched w \<Longrightarrow> above 0 0 w \<and> depth_after 0 w = 0"
proof (induction rule: matched.induct)
  case (pair v w)
  have "above 1 1 v" "depth_after 1 v = 1" using pair.IH(1) above_shift [of 0 1 0 v] depth_after_shift [of 0 1 v] by simp_all
  moreover have "above 0 d u" if "above 1 d u" for d u using that by (induction u arbitrary: d) auto
  ultimately show ?case using pair.IH(2) by (simp add: paren_step_def)
qed (simp_all add: paren_step_def)

lemma matched_iff: "matched w \<longleftrightarrow> above 0 0 w \<and> depth_after 0 w = 0"
  using counted_matched [of 0 w] matched_counted by auto

lemma scan_above_iff:
  assumes "0 < d"
  shows "scan_parens d (w @ [41]) \<longleftrightarrow> above 1 d w \<and> depth_after d w = 1"
  using assms
proof (induction w arbitrary: d)
  case (Cons c w)
  have "0 \<le> paren_step c d" using Cons.prems by (simp add: paren_step_def)
  then show ?case using Cons.IH [of "paren_step c d"] by (auto simp: Let_def)
qed (auto simp: paren_step_def)

lemma hasFullOuterParens_iff: "hasFullOuterParens e \<longleftrightarrow> (\<exists>w. e = 40 # w @ [41] \<and> matched w)"
proof -
  have ends: "startsWith e (js ''('') \<and> endsWith e (js '')'') \<longleftrightarrow> (\<exists>w. e = 40 # w @ [41])"
    by (cases e; cases "tl e" rule: rev_cases) (auto simp: startsWith_def endsWith_def js_Cons)
  have "scan_parens 0 (40 # w @ [41]) \<longleftrightarrow> matched w" for w
    using scan_above_iff [of 1 w] above_shift [of 0 1 0 w] depth_after_shift [of 0 1 w] by (simp add: paren_step_def matched_iff)
  then show ?thesis using ends unfolding hasFullOuterParens_def by auto
qed

inductive wrapped :: "jstring \<Rightarrow> jstring \<Rightarrow> bool" where
  \<comment> \<open>the first text is the second one inside any number of pairs of parentheses, with spaces inside each pair\<close>
  core: "wrapped u u"
| outer: "matched w \<Longrightarrow> wrapped (trim w) u \<Longrightarrow> wrapped (40 # w @ [41]) u"

lemma unwrap_loop_wrapped: "wrapped e (unwrap_loop e) \<and> \<not> hasFullOuterParens (unwrap_loop e)"
proof (induction e rule: unwrap_loop.induct)
  case (1 e)
  show ?case
  proof (cases "hasFullOuterParens e")
    case True
    then obtain w where w: "e = 40 # w @ [41]" "matched w" by (auto simp: hasFullOuterParens_iff)
    then have "unwrap_loop e = unwrap_loop (trim w)" using True by (subst unwrap_loop.simps) (simp add: butlast_append)
    then show ?thesis using 1 [OF True] w wrapped.outer [OF w(2)] by (simp add: butlast_append)
  next
    case False
    then show ?thesis by (simp add: unwrap_loop.simps [of e] wrapped.core)
  qed
qed

lemma wrapped_core_unique: "wrapped e u \<Longrightarrow> \<not> hasFullOuterParens u \<Longrightarrow> wrapped e v \<Longrightarrow> \<not> hasFullOuterParens v \<Longrightarrow> v = u"
proof (induction arbitrary: v rule: wrapped.induct)
  case (core u)
  from core.prems(2,1) show ?case by (cases rule: wrapped.cases) (auto simp: hasFullOuterParens_iff)
next
  case (outer w u)
  have "v \<noteq> 40 # w @ [41]" using outer.hyps(1) outer.prems(3) by (auto simp: hasFullOuterParens_iff)
  with outer.prems(2) have "wrapped (trim w) v" by (auto elim: wrapped.cases)
  then show ?case using outer.IH outer.prems(1,3) by blast
qed

text \<open>
  C34: Removing outer parentheses takes off exactly the pairs that enclose the whole text. For every expression the
  function returns the one text that lies inside some number of enclosing pairs, each of which matches
  over everything between its two ends, and that is not enclosed in such a pair itself. So "(p)+(c)" is left as it is.
\<close>

theorem unwrapOuterParens_exact:
  "unwrapOuterParens e = u \<longleftrightarrow> wrapped (trim e) u \<and> \<not> (\<exists>w. matched w \<and> u = 40 # w @ [41])"
  using unwrap_loop_wrapped [of "trim e"] wrapped_core_unique [of "trim e" "unwrap_loop (trim e)" u]
  unfolding unwrapOuterParens_def hasFullOuterParens_iff by blast

section \<open>Combining and splitting\<close>

definition base_ok :: "jstring \<Rightarrow> bool" where
  \<comment> \<open>a trimmed expression with balanced parentheses, not in parentheses itself, and not ending as a rule does\<close>
  "base_ok base \<longleftrightarrow> base \<noteq> [] \<and> trim base = base \<and> above 0 0 base \<and> depth_after 0 base = 0 \<and>
     \<not> hasFullOuterParens base \<and> \<not> endsWith base (js '' : 1'')"

lemma rmatch_literal_end:
  assumes "list_all (regex_chars (\<lambda>_. True)) rs" "t \<in> set (rmatch (rseq (rs @ [RLit l, REnd])) s)"
  shows "\<exists>u. fst s = u @ l"
  using assms
proof (induction rs arbitrary: s)
  case Nil
  then show ?case by (auto simp: startsWith_iff split: if_splits)
next
  case (Cons r rs)
  then obtain v where v: "v \<in> set (rmatch r s)" "t \<in> set (rmatch (rseq (rs @ [RLit l, REnd])) v)"
    by (auto simp: rseq_Cons set_list_bind)
  then obtain u where "fst v = u @ l" using Cons.IH [of v] Cons.prems(1) by auto
  moreover have "consumes (\<lambda>_. True) s v" using rmatch_consumes [OF _ v(1)] Cons.prems(1) by simp
  ultimately show ?case by (auto simp: consumes_def)
qed

lemma match_factor_end:
  assumes "match_start re_factor s = Some m"
  shows "\<exists>u. s = u @ js '' : 1)''"
proof -
  define rs where "rs = [RLit (js ''(''), RGroup 1 (rplus (RSet (\<lambda>_. True))), RLit (js '' ? ''), re_number 2]"
  obtain t where "t \<in> set (rmatch re_factor (s, []))"
    using assms by (auto simp: match_start_def match_at_def split: list.splits)
  moreover have "re_factor = rseq (rs @ [RLit (js '' : 1)''), REnd])" by (simp add: re_factor_def rs_def)
  moreover have "list_all (regex_chars (\<lambda>_. True)) rs" by (simp add: rs_def re_number_def rplus_def js_Cons)
  ultimately have "\<exists>u. fst (s, [] :: captures) = u @ js '' : 1)''" by (intro rmatch_literal_end [of rs t]) simp_all
  then show ?thesis by simp
qed

lemma base_not_rule:
  assumes "base_ok base"
  shows "tryParseRequestRuleExpr (40 # base @ [41]) = Null"
proof -
  have f: "factor_ok (40 # base @ [41])" using assms by (auto simp: base_ok_def factor_ok_def)
  have "match_start re_factor (40 # base @ [41]) = None"
  proof (rule ccontr)
    assume "match_start re_factor (40 # base @ [41]) \<noteq> None"
    then obtain u where "40 # base @ [41] = u @ js '' : 1)''" using match_factor_end by blast
    then have "butlast (40 # base @ [41]) = butlast (u @ js '' : 1)'')" by simp
    then have "40 # base = u @ js '' : 1''" by (simp add: js_Cons butlast_append)
    then have "endsWith base (js '' : 1'')"
      by (cases u) (auto simp: js_Cons endsWith_append)
    with assms show False by (simp add: base_ok_def)
  qed
  with f show ?thesis
    using split_multiply [of "[40 # base @ [41]]"] factor_ok_trim [OF f]
    by (simp add: tryParseRequestRuleExpr_def tryParseRuleGroupFactor_def)
qed

lemma scan_above:
  assumes "above 1 d w" "depth_after d w = 1"
  shows "scan_parens d (w @ [41])"
  using assms by (induction w arbitrary: d) (auto simp: paren_step_def Let_def)

lemma unwrap_base:
  assumes "base_ok base"
  shows "unwrapOuterParens (40 # base @ [41]) = base"
proof -
  have "above 1 1 base" "depth_after 1 base = 1"
    using assms above_shift [of 0 1 0 base] depth_after_shift [of 0 1 base] by (simp_all add: base_ok_def)
  then have "scan_parens 1 (base @ [41])" by (rule scan_above)
  then have "hasFullOuterParens (40 # base @ [41])"
    by (simp add: hasFullOuterParens_def js_Cons endsWith_def paren_step_def)
  moreover have "trim (40 # base @ [41]) = 40 # base @ [41]" by (rule trim_no_ws_ends) (simp add: not_space_ascii)
  moreover have "unwrap_loop base = base" using assms by (simp add: unwrap_loop.simps [of base] base_ok_def)
  ultimately show ?thesis
    using assms by (simp add: unwrapOuterParens_def unwrap_loop.simps [of "40 # base @ [41]"] base_ok_def)
qed

lemma rule_marks:
  assumes "list_all clean_group gs"
  shows "parse_all is_rule_part (map buildRuleGroupFactor gs) = Got (replicate (length gs) True)"
  using assms
proof (induction gs)
  case (Cons g gs)
  have "tryParseRequestRuleExpr (buildRuleGroupFactor g) = Got [g]"
    using round_trip [of "[g]"] build_rules(1) [of "[g]"] Cons.prems by simp
  with Cons show ?case by (simp add: is_rule_part_def)
qed simp

lemma split_combined:
  assumes "base_ok base" "list_all clean_group gs" "gs \<noteq> []"
  shows "splitBillingExprAndRequestRules (combineBillingExpr base (buildRequestRuleExpr gs)) =
    Got \<lparr>billingExpr = base, requestRuleExpr = buildRequestRuleExpr gs\<rparr>"
proof -
  let ?b = "40 # base @ [41]" and ?fs = "map buildRuleGroupFactor gs"
  note fs = build_rules [OF assms(2)]
  have ok: "list_all factor_ok (?b # ?fs)"
    using assms(1) fs(2) by (auto simp: base_ok_def factor_ok_def)
  have rules: "trim (buildRequestRuleExpr gs) = buildRequestRuleExpr gs" "buildRequestRuleExpr gs \<noteq> []"
    using join_factors_trim [OF _ fs(2)] assms(3) fs(1) by simp_all
  obtain g gs' where gs: "gs = g # gs'" using assms(3) by (cases gs) auto
  have combined: "combineBillingExpr base (buildRequestRuleExpr gs) = join (js '' * '') (?b # ?fs)"
    using assms(1) rules fs(1) by (simp add: combineBillingExpr_def base_ok_def gs js_Cons)
  have "is_rule_part ?b = Got False" by (simp add: is_rule_part_def base_not_rule [OF assms(1)])
  then have marks: "parse_all is_rule_part (?b # ?fs) = Got (False # replicate (length gs) True)"
    using rule_marks [OF assms(2)] by simp
  have all: "filter snd (zip ?fs (replicate (length gs) True)) = zip ?fs (replicate (length gs) True)"
    "filter (\<lambda>pm. \<not> snd pm) (zip ?fs (replicate (length gs) True)) = []"
    by (auto simp: filter_id_conv filter_empty_conv dest: set_zip_rightD)
  have "splitTopLevelMultiply (join (js '' * '') (?b # ?fs)) = ?b # ?fs"
    "trim (join (js '' * '') (?b # ?fs)) = join (js '' * '') (?b # ?fs)" "join (js '' * '') (?b # ?fs) \<noteq> []"
    using split_multiply [OF _ ok] join_factors_trim [OF _ ok] by (simp_all del: join.simps)
  then show ?thesis
    unfolding combined splitBillingExprAndRequestRules_def Let_def
    using marks all unwrap_base [OF assms(1)] fs(1) gs by (simp del: join.simps parse_all.simps)
qed

text \<open>
  C16: What is combined is separated again. Combining a base expression with the text of request rules and
  splitting the result gives back both, if the base is trimmed, has balanced parentheses, is not wrapped in a pair of its own
  and does not end as a request rule does, and if the rules are of the forms the parser knows. Comparison and containment
  tests of a parameter are not among these forms.
\<close>

theorem combined_expression_splits_back:
  assumes "base_ok base" "list_all clean_group gs" "gs \<noteq> []"
  shows "splitBillingExprAndRequestRules (combineBillingExpr base (buildRequestRuleExpr gs)) =
    Got \<lparr>billingExpr = base, requestRuleExpr = buildRequestRuleExpr gs\<rparr>"
  using assms by (rule split_combined)

lemma sample_base: "base_ok (js ''p * 1 + c * 2'')"
proof -
  have "trim (js ''p * 1 + c * 2'') = js ''p * 1 + c * 2''" by (rule trim_no_ws_ends) (simp add: js_Cons not_space_ascii)
  moreover have "no_parens (js ''p * 1 + c * 2'')" by (simp add: js_Cons no_parens_def)
  moreover have "\<not> hasFullOuterParens (js ''p * 1 + c * 2'')" by (simp add: hasFullOuterParens_def js_Cons)
  moreover have "\<not> endsWith (js ''p * 1 + c * 2'') (js '' : 1'')" by (simp add: endsWith_def js_Cons)
  ultimately show ?thesis by (simp add: base_ok_def)
qed

theorem combined_expression_splits_back_witness:
  "splitBillingExprAndRequestRules (combineBillingExpr (js ''p * 1 + c * 2'') (buildRequestRuleExpr sample_groups)) =
    Got \<lparr>billingExpr = js ''p * 1 + c * 2'', requestRuleExpr = buildRequestRuleExpr sample_groups\<rparr>"
  by (rule combined_expression_splits_back [OF sample_base sample_clean]) (simp add: sample_groups_def)

section \<open>A text on which the parser throws\<close>

definition bad_escape :: "jstring \<Rightarrow> jstring" where
  \<comment> \<open>a header test whose text ends in a backslash and a letter that no escape has\<close>
  "bad_escape m = 40 # (js ''has('' @ source_text SOURCE_HEADER (js ''x'') @ js '', '' @ [34, 92, 100, 34] @ js '')'') @
     js '' ? '' @ m @ js '' : 1)''"

lemma match_bad_escape:
  "match_start re_header_contains (js ''has('' @ source_text SOURCE_HEADER (js ''x'') @ js '', '' @ [34, 92, 100, 34] @ js '')'') =
    Some [(2, [34, 92, 100, 34]), (1, js ''x'')]"
proof -
  have "rmatch re_quoted ([34, 92, 100, 34, 41], c) = [([41], c)]" for c
    by (simp add: re_quoted_def eval_nat_numeral dot_def)
  moreover have "js ''x'' @ t = 120 # t" for t by (simp add: js_Cons)
  ultimately show ?thesis
    using text_run [of "[120]" _ _ 1]
    by (simp add: source_text_def SOURCE_HEADER_def regex_eval del: rmatch.simps(1))
qed

lemma bad_escape_parse:
  assumes "is_numeric_literal m"
  shows "factor_ok (bad_escape m)" "tryParseRequestRuleExpr (bad_escape m) = Thrown"
proof -
  let ?p = "js ''has('' @ source_text SOURCE_HEADER (js ''x'') @ js '', '' @ [34, 92, 100, 34] @ js '')''"
  have m: "m \<noteq> []" "list_all is_num_char m" using numeric_chars [OF assms] by simp_all
  have ok: "part_ok ?p"
    by (simp add: part_ok_def source_text_def SOURCE_HEADER_def js_Cons paren_step_def not_space_ascii)
  show f: "factor_ok (bad_escape m)" using factor_text_ok [of "[?p]" m] ok m(2) by (simp add: bad_escape_def)
  have "json_parse [34, 92, 100, 34] = None"
    by (simp add: json_parse_def eval_nat_numeral skip_space_def is_json_space_def parse_chars.simps simple_escape_def)
  moreover have "match_start re_header_exists ?p = None" "match_start re_param_exists ?p = None"
    using match_exists(7,8) [of "[120]"] by (simp_all add: not_quote_def)
  ultimately have "tryParseRequestCondition ?p = Thrown"
    using not_time(3) match_bad_escape by (simp add: tryParseRequestCondition_def contains_condition_def cap_def)
  then have "tryParseRuleGroupFactor (bad_escape m) = Thrown"
    using match_factor [of ?p m] m split_and [of "[?p]"] ok part_ok_trim [OF ok]
    by (simp add: tryParseRuleGroupFactor_def bad_escape_def cap_def part_ok_def)
  then show "tryParseRequestRuleExpr (bad_escape m) = Thrown"
    using split_multiply [of "[bad_escape m]"] factor_ok_trim [OF f] f by (simp add: tryParseRequestRuleExpr_def)
qed

text \<open>
  A rule whose quoted text holds a malformed escape makes the parser throw: the pattern accepts any character after a
  backslash, \<open>JSON.parse\<close> does not, and nothing catches the exception. Splitting an expression with such a rule throws too.
\<close>

theorem malformed_escape_throws:
  assumes "is_numeric_literal m"
  shows "tryParseRequestRuleExpr (bad_escape m) = Thrown \<and>
    splitBillingExprAndRequestRules (js ''p * '' @ bad_escape m) = Thrown"
proof -
  note bad = bad_escape_parse [OF assms]
  note trimmed = factor_ok_trim [OF bad(1)]
  have expr: "js ''p * '' @ bad_escape m = 112 # js '' * '' @ bad_escape m" by (simp add: js_Cons)
  have "split_top (js '' * '') 0 [] (js ''p * '' @ bad_escape m) = [[112], bad_escape m]"
    using split_top_quiet [OF factor_ok_depth(2) [OF bad(1)], of "[42, 32]" "[]" "[]"] factor_ok_depth(1) [OF bad(1)]
    by (simp add: js_Cons paren_step_def Let_def)
  moreover have "trim [112] = [112]" by (rule trim_no_ws_ends) (simp add: not_space_ascii)
  ultimately have "splitTopLevelMultiply (js ''p * '' @ bad_escape m) = [[112], bad_escape m]"
    using trimmed by (simp add: splitTopLevelMultiply_def)
  moreover have "is_rule_part [112] = Got False"
  proof -
    have "splitTopLevelMultiply [112] = [[112]]"
      using \<open>trim [112] = [112]\<close> by (simp add: splitTopLevelMultiply_def js_Cons paren_step_def Let_def)
    then show ?thesis
      using \<open>trim [112] = [112]\<close>
      by (simp add: is_rule_part_def tryParseRequestRuleExpr_def tryParseRuleGroupFactor_def re_factor_def match_start_def
          match_at_def js_Cons)
  qed
  moreover have "trim (js ''p * '' @ bad_escape m) = js ''p * '' @ bad_escape m"
  proof (rule trim_no_ws_ends)
    have "last (bad_escape m) = 41" using bad(1) by (auto simp: factor_ok_def)
    then show "js ''p * '' @ bad_escape m = [] \<or> \<not> is_space (hd (js ''p * '' @ bad_escape m)) \<and>
        \<not> is_space (last (js ''p * '' @ bad_escape m))"
      using trimmed by (simp add: expr not_space_ascii)
  qed
  ultimately show ?thesis
    using bad(2) by (simp add: splitBillingExprAndRequestRules_def is_rule_part_def [of "bad_escape m"] expr Let_def)
qed

theorem malformed_escape_throws_witness:
  "tryParseRequestRuleExpr (bad_escape (js ''2'')) = Thrown"
  using malformed_escape_throws [OF sample_numbers(4)] by simp

end
