(* ===== verification/Tier_Round_Trip.thy ===== *)
theory Tier_Round_Trip
  imports Tier_Eval Billing_Split
begin

text \<open>
  The tiers of the price editor come back from the expression written for them.
\<close>

section \<open>Matching written terms\<close>

lemma space_32 [simp]: "is_space 32"
  by (simp add: is_space_def)

lemma first_ws:
  assumes "s = [] \<or> \<not> is_space (hd s)"
  shows "first re_ws (32 # s, m) (s, m)" "first re_ws (s, m) (s, m)"
proof -
  have "dropWhile is_space s = s" using assms by (cases s) simp_all
  then show "first re_ws (32 # s, m) (s, m)" "first re_ws (s, m) (s, m)"
    using first_star_set [of is_space "32 # s" m] first_star_set [of is_space s m] unfolding re_ws_def re_space_def by simp_all
qed

lemma first_number:
  assumes "list_all is_num_char t" "t \<noteq> []" "r = [] \<or> \<not> is_num_char (hd r)"
  shows "first (re_number n) (t @ r, m) (r, (n, t) # m)"
proof -
  have "first (rplus (RSet is_num_char)) (t @ r, m) (dropWhile is_num_char (t @ r), m)"
    by (rule first_plus_set) (use assms in \<open>cases t; simp\<close>)+
  from first_group [OF this, of n] take_drop_run(2) [OF assms(1,3)] show ?thesis
    unfolding re_number_def by simp
qed

lemma num_char_not_space: "is_num_char c \<Longrightarrow> \<not> is_space c"
  using not_space_ascii [of c] by (auto simp: is_num_char_def is_digit_def)

lemma num_str_start:
  assumes "short_decimal 20 q"
  shows "num_str q @ r = [] \<or> \<not> is_space (hd (num_str q @ r))"
  using num_str_chars [OF assms] num_char_not_space by (cases "num_str q") auto

lemma first_term:
  assumes "short_decimal 20 q" "r = [] \<or> \<not> is_num_char (hd r)"
  shows "first (re_term v n) (term_text v q @ r, m) (r, (n, num_str q) # m)"
proof -
  have eq: "term_text v q @ r = v @ 32 # [42] @ 32 # num_str q @ r" by (simp add: term_text_def js_Cons)
  have star: "js ''*'' = [42]" by (simp add: js_Cons)
  show ?thesis
    unfolding re_term_def eq star
    by (intro first_rseq [OF first_lit] first_rseq [OF first_ws(1)] first_rseq [OF first_number] first_rseq_Nil)
      (use num_str_start [OF assms(1)] num_str_chars [OF assms(1)] assms(2) in \<open>simp_all add: not_space_ascii\<close>)
qed

definition extra_keys :: "jstring list" where
  "extra_keys = map js [''cr'', ''cc'', ''cc1h'', ''img'', ''img_o'', ''ai'', ''ao'']"

lemma ws_match:
  assumes "\<not> is_space c"
  shows "rmatch re_ws (c # s, m) = [(c # s, m)]" "rmatch re_ws (32 # c # s, m) = [(c # s, m), (32 # c # s, m)]"
  unfolding re_ws_def re_space_def star_class using assms by simp_all

lemma key_mismatch:
  assumes "v \<in> set extra_keys" "w \<in> set extra_keys" "v \<noteq> w"
  shows "rmatch (re_term v n) (w @ 32 # s, m) = []" "rmatch (re_term v n) (32 # w @ 32 # s, m) = []"
  using assms by (auto simp: re_term_def extra_keys_def js_Cons ws_match not_space_ascii simp del: rmatch.simps(5))

lemma optional_absent:
  assumes "v \<in> set extra_keys" "w \<in> set extra_keys" "v \<noteq> w"
  shows "rmatch (rseq [re_ws, RLit (js ''+''), re_ws, re_term v n]) (32 # 43 # 32 # w @ 32 # s, m) = []"
proof -
  obtain c w' where w: "w = c # w'" "\<not> is_space c"
    using assms(2) by (auto simp: extra_keys_def js_Cons not_space_ascii)
  show ?thesis
    using key_mismatch [OF assms] w(2) by (simp add: w(1) ws_match not_space_ascii js_Cons)
qed

lemma optional_end: "rmatch (rseq [re_ws, RLit (js ''+''), re_ws, re_term v n]) (41 # s, m) = []"
  by (simp add: ws_match js_Cons not_space_ascii)

type_synonym extra_term = "jstring \<times> nat \<times> rat"
  \<comment> \<open>a variable, the group of its price, and the price\<close>

definition extra_text :: "extra_term list \<Rightarrow> jstring" where
  "extra_text xs = concat (map (\<lambda>(v, n, q). if q = 0 then [] else js '' + '' @ term_text v q) xs)"

definition extra_caps :: "extra_term list \<Rightarrow> captures" where
  "extra_caps xs = rev (map (\<lambda>(v, n, q). (n, num_str q)) (filter (\<lambda>(v, n, q). q \<noteq> 0) xs))"

lemma extra_text_cases:
  "extra_text xs @ 41 # r = 41 # r \<or> (\<exists>w \<in> fst ` set xs. \<exists>s. extra_text xs @ 41 # r = 32 # 43 # 32 # w @ 32 # s)"
proof (induction xs)
  case (Cons x xs)
  obtain v n q where x: "x = (v, n, q)" by (cases x) auto
  show ?case
  proof (cases "q = 0")
    case True
    then show ?thesis using Cons by (auto simp: x extra_text_def)
  next
    case False
    have "extra_text (x # xs) @ 41 # r = 32 # 43 # 32 # v @ 32 # 42 # 32 # num_str q @ extra_text xs @ 41 # r"
      using False by (simp add: x extra_text_def term_text_def js_Cons)
    then show ?thesis by (auto simp: x)
  qed
qed (simp add: extra_text_def)

lemma extra_stop: "\<not> is_num_char (hd (extra_text xs @ 41 # r))"
  using extra_text_cases [of xs r] by (auto simp: is_num_char_def is_digit_def)

lemma first_optionals:
  assumes "\<And>v n q. (v, n, q) \<in> set xs \<Longrightarrow> v \<in> set extra_keys \<and> short_decimal 20 q" "distinct (map fst xs)"
  shows "first (rseq (map (\<lambda>(v, n, q). re_optional (v, n)) xs)) (extra_text xs @ 41 # r, m) (41 # r, extra_caps xs @ m)"
  using assms
proof (induction xs arbitrary: m)
  case Nil
  then show ?case using first_rseq_Nil by (simp add: extra_text_def extra_caps_def)
next
  case (Cons x xs)
  obtain v n q where x: "x = (v, n, q)" by (cases x) auto
  have v: "v \<in> set extra_keys" "short_decimal 20 q" using Cons.prems(1) [of v n q] by (simp_all add: x)
  have rest: "first (rseq (map (\<lambda>(v, n, q). re_optional (v, n)) xs)) (extra_text xs @ 41 # r, m') (41 # r, extra_caps xs @ m')" for m'
    using Cons.prems by (intro Cons.IH) auto
  show ?case
  proof (cases "q = 0")
    case True
    have "rmatch (rseq [re_ws, RLit (js ''+''), re_ws, re_term v n]) (extra_text xs @ 41 # r, m) = []"
      using extra_text_cases [of xs r]
    proof
      assume "\<exists>w \<in> fst ` set xs. \<exists>s. extra_text xs @ 41 # r = 32 # 43 # 32 # w @ 32 # s"
      then obtain w s where w: "w \<in> fst ` set xs" "extra_text xs @ 41 # r = 32 # 43 # 32 # w @ 32 # s" by blast
      have "v \<noteq> w" using w(1) Cons.prems(2) by (auto simp: x)
      moreover have "w \<in> set extra_keys" using w(1) Cons.prems(1) by fastforce
      ultimately show ?thesis using optional_absent [OF v(1)] w(2) by simp
    qed (simp add: optional_end del: rseq.simps)
    then have "first (re_optional (v, n)) (extra_text xs @ 41 # r, m) (extra_text xs @ 41 # r, m)"
      unfolding re_optional_def by (simp add: first_opt_skip del: rseq.simps)
    from first_rseq [OF this rest [of m]] show ?thesis using True by (simp add: x extra_text_def extra_caps_def)
  next
    case False
    let ?r = "extra_text xs @ 41 # r"
    have plus: "js ''+'' = [43]" by (simp add: js_Cons)
    have "first (rseq [re_ws, RLit (js ''+''), re_ws, re_term v n]) (32 # [43] @ 32 # term_text v q @ ?r, m) (?r, (n, num_str q) # m)"
      unfolding plus using v
      by (intro first_rseq [OF first_ws(1)] first_rseq [OF first_lit] first_rseq [OF first_term] first_rseq_Nil)
        (auto simp: not_space_ascii extra_stop extra_keys_def term_text_def js_Cons)
    then have "first (re_optional (v, n)) (32 # [43] @ 32 # term_text v q @ ?r, m) (?r, (n, num_str q) # m)"
      unfolding re_optional_def by (simp add: first_opt del: rseq.simps)
    from first_rseq [OF this rest] show ?thesis using False by (simp add: x extra_text_def extra_caps_def js_Cons)
  qed
qed

definition extra_terms :: "nat \<Rightarrow> VisualTier \<Rightarrow> extra_term list" where
  "extra_terms n t =
     map (\<lambda>((f, v), i). (v, i, cost_number (vt_extra t f)))
       (zip BILLING_CACHE_VAR_MAP [n..<n + length BILLING_CACHE_VAR_MAP])"

lemma optionals_terms: "optCacheStr n = map (\<lambda>(v, i, q). re_optional (v, i)) (extra_terms n t)"
  unfolding optCacheStr_def extra_terms_def zip_map1 by (simp add: comp_def case_prod_beta)

lemma join_Cons: "join sep (x # xs) = x @ concat (map (\<lambda>y. sep @ y) xs)"
  by (induction xs arbitrary: x) simp_all

lemma extra_terms_text:
  "concat (map (\<lambda>y. js '' + '' @ y) (map (\<lambda>(v, q). term_text v q) (filter (\<lambda>(_, v). v \<noteq> 0) (map (\<lambda>(f, v). (v, cost_number (vt_extra t f))) M)))) =
   extra_text (map (\<lambda>((f, v), i). (v, i, cost_number (vt_extra t f))) (zip M [n..<n + length M]))"
proof (induction M arbitrary: n)
  case (Cons fv M)
  obtain f v where "fv = (f, v)" by (cases fv) auto
  then show ?case using Cons [of "Suc n"] by (simp add: extra_text_def upt_conv_Cons del: upt_Suc)
qed (simp add: extra_text_def)

lemma body_text:
  "buildTierBodyExpr t = term_text (js ''p'') (cost_number (vt_input_unit_cost t)) @ js '' + '' @
     term_text (js ''c'') (cost_number (vt_output_unit_cost t)) @ extra_text (extra_terms n t)"
  unfolding buildTierBodyExpr_def body_terms_def extra_terms_def extra_terms_text [symmetric]
  by (simp add: join_Cons)

lemma extra_terms_keys: "map fst (extra_terms n t) = extra_keys"
  by (simp add: extra_terms_def cache_var_map extra_fields_def extra_keys_def upt_rec)

lemma extra_terms_short:
  assumes "clean_tier t" "(v, i, q) \<in> set (extra_terms n t)"
  shows "v \<in> set extra_keys" "short_decimal 20 q"
proof -
  show "v \<in> set extra_keys" using assms(2) extra_terms_keys [of n t] by (metis fst_conv image_eqI list.set_map)
  show "short_decimal 20 q"
  proof (cases "q = 0")
    case True
    then show ?thesis using short_decimal_int [of 20 0] by simp
  next
    case False
    obtain f where "(f, v) \<in> set BILLING_CACHE_VAR_MAP" "q = cost_number (vt_extra t f)"
      using assms(2) by (auto simp: extra_terms_def dest!: set_zip_leftD)
    then have "(v, q) \<in> set (body_terms t)" using False by (force simp: body_terms_def)
    then show ?thesis using assms(1) by (auto simp: clean_tier_def list_all_iff)
  qed
qed

definition tier_caps :: "nat \<Rightarrow> VisualTier \<Rightarrow> captures" where
  "tier_caps n t = extra_caps (extra_terms (n + 3) t) @
     [(n + 2, num_str (cost_number (vt_output_unit_cost t))), (n + 1, num_str (cost_number (vt_input_unit_cost t))),
      (n, opt_str (vt_label t))]"

lemma bind_return: "List.bind xs (\<lambda>x. [x]) = xs"
  by (induction xs) simp_all

lemma rmatch_rseq: "rmatch (rseq (x # xs)) s = List.bind (rmatch x s) (rmatch (rseq xs))"
proof -
  have "rmatch (RLit []) = (\<lambda>s. [s])" by (auto simp: startsWith_def)
  then show ?thesis by (cases xs) (simp_all add: bind_return del: rmatch.simps(1))
qed

lemma rmatch_rseq_append: "rmatch (rseq (xs @ ys)) s = List.bind (rmatch (rseq xs) s) (rmatch (rseq ys))"
proof (induction xs arbitrary: s)
  case (Cons x xs)
  then have "rmatch (rseq (xs @ ys)) = (\<lambda>s. List.bind (rmatch (rseq xs) s) (rmatch (rseq ys)))" by blast
  then show ?case unfolding append_Cons rmatch_rseq bind_assoc by simp
qed (simp add: startsWith_def)

lemma rseq_append: "first (rseq xs) s t \<Longrightarrow> first (rseq ys) t u \<Longrightarrow> first (rseq (xs @ ys)) s u"
  unfolding first_def rmatch_rseq_append by auto

lemma first_label_body:
  assumes "clean_tier t"
  shows "first (re_label_body n) (tier_call (opt_str (vt_label t)) t @ r, m) (r, tier_caps n t @ m)"
proof -
  let ?l = "opt_str (vt_label t)" and ?p = "cost_number (vt_input_unit_cost t)" and ?c = "cost_number (vt_output_unit_cost t)"
  have pc: "short_decimal 20 ?p" "short_decimal 20 ?c" using assms by (auto simp: clean_tier_def body_terms_def)
  have body: "first (bodyPat (n + 1)) (buildTierBodyExpr t @ 41 # r, m') (41 # r, extra_caps (extra_terms (n + 3) t) @ (n + 2, num_str ?c) # (n + 1, num_str ?p) # m')" for m'
  proof -
    have ext: "first (rseq (optCacheStr (n + 1 + 2))) (extra_text (extra_terms (n + 3) t) @ 41 # r, k) (41 # r, extra_caps (extra_terms (n + 3) t) @ k)" for k
    proof -
      have n: "n + 1 + 2 = n + 3" and d: "distinct extra_keys" by (simp_all add: extra_keys_def js_Cons)
      show ?thesis
        unfolding n optionals_terms [of _ t]
        by (rule first_optionals) (use extra_terms_short [OF assms] extra_terms_keys [of "n + 3" t] d in auto)
    qed
    have eq: "buildTierBodyExpr t @ 41 # r = term_text (js ''p'') ?p @ 32 # [43] @ 32 # term_text (js ''c'') ?c @ extra_text (extra_terms (n + 3) t) @ 41 # r"
      unfolding body_text [of t "n + 3"] by (simp add: js_Cons)
    have plus: "js ''+'' = [43]" by (simp add: js_Cons)
    show ?thesis
      unfolding bodyPat_def eq plus
      by (rule rseq_append [OF _ ext], intro first_rseq [OF first_term] first_rseq [OF first_ws(1)] first_rseq [OF first_lit] first_rseq_Nil)
        (use pc in \<open>simp_all add: not_space_ascii is_num_char_def is_digit_def term_text_def js_Cons extra_stop [unfolded is_num_char_def is_digit_def]
          first_rseq_Nil [simplified]\<close>)
  qed
  have l: "list_all not_quote ?l" using assms by (auto simp: clean_tier_def list_all_iff plain_string_char_def not_quote_def)
  have label: "first (RGroup n (RStar (RSet not_quote))) (?l @ [34, 44] @ s, m') ([34, 44] @ s, (n, ?l) # m')" for s m'
    using first_group [OF first_star_set, of n not_quote "?l @ [34, 44] @ s" m'] take_drop_run(2) [OF l, of "[34, 44] @ s"]
    by (simp add: not_quote_def)
  have close: "first (RLit [41]) (41 # r, m') (r, m')" for m' using first_lit [of "[41]" r m'] by simp
  have start: "buildTierBodyExpr t @ 41 # r = [] \<or> \<not> is_space (hd (buildTierBodyExpr t @ 41 # r))"
    unfolding body_text [of t 0] by (simp add: term_text_def js_Cons not_space_ascii)
  define h where "h = js ''tier('' @ [34]"
  have eq: "tier_call ?l t @ r = h @ ?l @ [34, 44] @ 32 # buildTierBodyExpr t @ 41 # r"
    by (simp add: tier_call_def h_def js_Cons)
  have lits: "34 # js '','' = [34, 44]" "js '')'' = [41]" by (simp_all add: js_Cons)
  show ?thesis
    unfolding re_label_body_def eq lits tier_caps_def h_def [symmetric] append_assoc append_Cons append_Nil
    by (rule first_rseq [OF first_lit], rule first_rseq [OF label [unfolded append_Cons append_Nil]], rule first_rseq [OF first_lit [of "[34, 44]", unfolded append_Cons append_Nil]],
        rule first_rseq [OF first_ws(1) [OF start]], rule first_rseq [OF body], rule first_rseq [OF close first_rseq_Nil])
qed

section \<open>Matching written conditions\<close>

lemma first_rmatch: "rmatch r s = rmatch q t \<Longrightarrow> first q t u \<Longrightarrow> first r s u"
  by (simp add: first_def)

lemma cond_var_match:
  assumes "v \<in> set (map js [''p'', ''c'', ''len''])"
  shows "rmatch re_cond_var (v @ s, m) = [(s, m)]"
  using assms by (auto simp: re_cond_var_def js_Cons)

lemma cond_op_match:
  assumes "l \<in> set (map js [''<'', ''<='', ''>'', ''>=''])"
  shows "rmatch re_cond_op (l @ 32 # s, m) = [(32 # s, m)] \<or> rmatch re_cond_op (l @ 32 # s, m) = [(61 # 32 # s, m), (32 # s, m)]"
  using assms by (auto simp: re_cond_op_def js_Cons)

lemma cond_op_first:
  assumes "l \<in> set (map js [''<'', ''<='', ''>'', ''>=''])" "rmatch q (61 # 32 # s, m) = []"
  shows "rmatch (RSeq re_cond_op q) (l @ 32 # s, m) = rmatch q (32 # s, m)"
  using cond_op_match [OF assms(1), of s m] assms(2) by auto

lemma cond_op_group_first:
  assumes "l \<in> set (map js [''<'', ''<='', ''>'', ''>=''])" "\<And>m. rmatch q (61 # 32 # s, m) = []"
  shows "rmatch (RSeq (RGroup n re_cond_op) q) (l @ 32 # s, m) = rmatch q (32 # s, (n, l) # m)"
  using cond_op_match [OF assms(1), of s m] assms(2) by auto

lemma num_str_cond_chars:
  assumes "short_decimal 20 q" "0 \<le> q"
  shows "list_all is_cond_char (num_str q)"
  using plain_num_str [OF assms] by (auto simp: plain_number_def list_all_iff is_decimal_char_def is_cond_char_def)

lemma cond_char_not_space: "is_cond_char c \<Longrightarrow> \<not> is_space c \<and> c \<noteq> 38"
  using not_space_ascii [of c] by (auto simp: is_cond_char_def is_digit_def)

lemma number_61: "rmatch (RSeq re_ws (rplus (RSet is_cond_char))) (61 # 32 # s, m) = []"
  by (simp add: ws_match not_space_ascii rplus_def is_cond_char_def is_digit_def del: rmatch.simps(5))

lemma clean_condition_parts:
  assumes "clean_tier_condition c"
  shows "tc_var c \<in> set (map js [''p'', ''c'', ''len''])" "tc_op c \<in> set (map js [''<'', ''<='', ''>'', ''>=''])"
    "condition_text c = tc_var c @ 32 # tc_op c @ 32 # num_str (cond_number c)" "short_decimal 20 (cond_number c)" "0 \<le> cond_number c"
  using assms by (auto simp: clean_tier_condition_def condition_text_def)

lemma first_cond_number:
  assumes "short_decimal 20 q" "0 \<le> q" "r = [] \<or> \<not> is_cond_char (hd r)"
  shows "first (RSeq re_ws (rplus (RSet is_cond_char))) (32 # num_str q @ r, m) (r, m)"
proof (rule first_seq [OF first_ws(1)])
  show "num_str q @ r = [] \<or> \<not> is_space (hd (num_str q @ r))" by (rule num_str_start [OF assms(1)])
  have "first (rplus (RSet is_cond_char)) (num_str q @ r, m) (dropWhile is_cond_char (num_str q @ r), m)"
    by (rule first_plus_set) (use num_str_cond_chars [OF assms(1,2)] num_str_chars(2) [OF assms(1)] in \<open>cases "num_str q"; simp\<close>)+
  then show "first (rplus (RSet is_cond_char)) (num_str q @ r, m) (r, m)"
    by (simp add: take_drop_run(2) [OF num_str_cond_chars [OF assms(1,2)] assms(3)])
qed

lemma op_start: "l \<in> set (map js [''<'', ''<='', ''>'', ''>='']) \<Longrightarrow> l @ s = [] \<or> \<not> is_space (hd (l @ s))"
  by (auto simp: js_Cons not_space_ascii)

lemma first_cond:
  assumes "clean_tier_condition c" "r = [] \<or> \<not> is_cond_char (hd r)"
  shows "first re_cond (condition_text c @ r, m) (r, m)"
proof -
  note c = clean_condition_parts [OF assms(1)]
  let ?s = "num_str (cond_number c) @ r"
  have "first (RSeq re_cond_op (RSeq re_ws (rplus (RSet is_cond_char)))) (tc_op c @ 32 # ?s, m) (r, m)"
    using cond_op_first [OF c(2) number_61] first_cond_number [OF c(4,5) assms(2)] by (rule first_rmatch)
  moreover have "first re_ws (32 # tc_op c @ 32 # ?s, m) (tc_op c @ 32 # ?s, m)"
    by (rule first_ws(1) [OF op_start [OF c(2)]])
  moreover have "first re_cond_var (tc_var c @ 32 # tc_op c @ 32 # ?s, m) (32 # tc_op c @ 32 # ?s, m)"
    by (simp add: first_def cond_var_match [OF c(1)])
  ultimately show ?thesis
    unfolding re_cond_def c(3) rseq.simps append_assoc append_Cons by (blast intro: first_seq)
qed

definition cond_tail :: "TierConditionInput list \<Rightarrow> jstring" where
  "cond_tail cs = concat (map (\<lambda>c. js '' && '' @ condition_text c) cs)"

lemma cond_text_start: "clean_tier_condition c \<Longrightarrow> condition_text c @ s = [] \<or> \<not> is_space (hd (condition_text c @ s))"
  by (auto simp: clean_tier_condition_def condition_text_def js_Cons not_space_ascii)

lemma first_and:
  assumes "s = [] \<or> \<not> is_space (hd s)"
  shows "first re_and (32 # 38 # 38 # 32 # s, m) (s, m)"
proof -
  have eq: "32 # 38 # 38 # 32 # s = 32 # [38, 38] @ 32 # s" and lit: "js ''&&'' = [38, 38]" by (simp_all add: js_Cons)
  show ?thesis
    unfolding re_and_def eq lit
    by (rule first_rseq [OF first_ws(1)], simp add: not_space_ascii, rule first_rseq [OF first_lit], rule first_rseq [OF first_ws(1) [OF assms] first_rseq_Nil])
qed

lemma first_conds:
  assumes "list_all clean_tier_condition cs" "r = [] \<or> \<not> is_cond_char (hd r)" "rmatch re_and (r, m) = []"
  shows "length cs \<le> n \<Longrightarrow> \<exists>ts. repeat_greedy n (rmatch (RSeq re_and re_cond)) (cond_tail cs @ r, m) = (r, m) # ts"
  using assms(1)
proof (induction cs arbitrary: n)
  case Nil
  then show ?case using assms(3) by (cases n) (simp_all add: cond_tail_def)
next
  case (Cons c cs)
  then obtain k where k: "n = Suc k" "length cs \<le> k" by (cases n) auto
  let ?r = "cond_tail cs @ r"
  have c: "clean_tier_condition c" "list_all clean_tier_condition cs" using Cons.prems by simp_all
  have r: "?r = [] \<or> \<not> is_cond_char (hd ?r)"
    using assms(2) by (cases cs) (simp_all add: cond_tail_def js_Cons is_cond_char_def is_digit_def)
  have eq: "cond_tail (c # cs) @ r = 32 # 38 # 38 # 32 # condition_text c @ ?r" by (simp add: cond_tail_def js_Cons)
  have "first (RSeq re_and re_cond) (cond_tail (c # cs) @ r, m) (?r, m)"
    unfolding eq by (rule first_seq [OF first_and [OF cond_text_start [OF c(1)]] first_cond [OF c(1) r]])
  moreover have "length (fst (?r, m)) < length (fst (cond_tail (c # cs) @ r, m))" unfolding eq by simp
  ultimately show ?case unfolding k(1) using Cons.IH [OF k(2) c(2)] by (rule repeat_first)
qed

lemma conditions_text_join: "list_all clean_tier_condition (c # cs) \<Longrightarrow> buildConditionStr (c # cs) = condition_text c @ cond_tail cs"
  by (simp only: buildConditionStr_def clean_filled) (simp add: join_Cons cond_tail_def comp_def)

lemma first_condGroup:
  assumes "list_all clean_tier_condition cs" "cs \<noteq> []"
  shows "first condGroup (buildConditionStr cs @ 32 # 63 # r, m) (32 # 63 # r, (1, buildConditionStr cs) # m)"
proof -
  obtain c ds where cs: "cs = c # ds" using assms(2) by (cases cs) auto
  have c: "clean_tier_condition c" "list_all clean_tier_condition ds" using assms(1) by (simp_all add: cs)
  let ?r = "32 # 63 # r"
  have stop: "rmatch re_and (?r, m) = []" by (simp add: re_and_def ws_match not_space_ascii js_Cons del: rmatch.simps(5))
  have r: "cond_tail ds @ ?r = [] \<or> \<not> is_cond_char (hd (cond_tail ds @ ?r))"
    by (cases ds) (simp_all add: cond_tail_def js_Cons is_cond_char_def is_digit_def)
  have "length ds \<le> length (cond_tail ds @ ?r)" by (induction ds) (simp_all add: cond_tail_def js_Cons)
  from first_conds [OF c(2) _ stop this]
  have "first (RStar (RSeq re_and re_cond)) (cond_tail ds @ ?r, m) (?r, m)"
    by (simp add: first_def is_cond_char_def is_digit_def)
  from first_group [OF first_seq [OF first_cond [OF c(1) r] this], of 1] show ?thesis
    unfolding condGroup_def conditions_text_join [OF assms(1) [unfolded cs]] cs by simp
qed

section \<open>Matching written tiers\<close>

lemma first_guarded:
  assumes "clean_tier t" "tier_conditions t \<noteq> []"
  shows "first tierRe (guarded_text t @ r, []) (r, tier_caps 2 t @ [(1, buildConditionStr (tier_conditions t))])"
proof -
  let ?call = "tier_call (opt_str (vt_label t)) t"
  have cs: "list_all clean_tier_condition (tier_conditions t)" using assms(1) by (simp add: clean_tier_def)
  have eq: "guarded_text t @ r = buildConditionStr (tier_conditions t) @ 32 # [63] @ 32 # ?call @ r"
    by (simp add: guarded_text_def js_Cons)
  have start: "?call @ r = [] \<or> \<not> is_space (hd (?call @ r))" by (simp add: tier_call_def js_Cons not_space_ascii)
  have lit: "js ''?'' = [63]" by (simp add: js_Cons)
  have "first (rseq [condGroup, re_ws, RLit (js ''?''), re_ws]) (guarded_text t @ r, [])
      (?call @ r, [(1, buildConditionStr (tier_conditions t))])"
    unfolding eq lit
    by (rule first_rseq, simp, rule first_condGroup [OF cs assms(2)], rule first_rseq [OF first_ws(1)], simp add: not_space_ascii,
        rule first_rseq [OF first_lit [of "[63]", unfolded append_Cons append_Nil]], rule first_rseq [OF first_ws(1) [OF start] first_rseq_Nil])
  from first_rseq [OF first_opt [OF this] first_rseq [OF first_label_body [OF assms(1)] first_rseq_Nil]]
  show ?thesis unfolding tierRe_def .
qed

lemma cond_start_fails:
  assumes "c \<notin> {112, 99, 108}"
  shows "rmatch (rseq [condGroup, re_ws, RLit (js ''?''), re_ws]) (c # s, m) = []"
  using assms by (simp add: condGroup_def re_cond_def re_cond_var_def js_Cons)

lemma first_bare:
  assumes "clean_tier t"
  shows "first tierRe (tier_call (opt_str (vt_label t)) t @ r, []) (r, tier_caps 2 t)"
proof -
  let ?call = "tier_call (opt_str (vt_label t)) t"
  obtain s where s: "?call @ r = 116 # s" by (simp add: tier_call_def js_Cons)
  have "first (ROpt (rseq [condGroup, re_ws, RLit (js ''?''), re_ws])) (?call @ r, []) (?call @ r, [])"
    unfolding s by (intro first_opt_skip cond_start_fails) simp
  from first_rseq [OF this first_rseq [OF first_label_body [OF assms] first_rseq_Nil]] show ?thesis
    unfolding tierRe_def by simp
qed

lemma tierRe_fails:
  assumes "c \<notin> {112, 99, 108, 116}"
  shows "match_at tierRe (c # s) = None"
proof -
  have "rmatch (re_label_body 2) (c # s, []) = []" using assms by (simp add: re_label_body_def js_Cons)
  then show ?thesis
    using assms cond_start_fails [of c s "[]"] by (simp add: match_at_def tierRe_def del: rseq.simps) (simp add: tierRe_def)
qed

lemma exec_first:
  assumes "first tierRe (x @ r, []) (r, m)" "x \<noteq> []"
  shows "exec_all tierRe (x @ r) = m # exec_all tierRe r" "exec_all tierRe (js '' : '' @ x @ r) = m # exec_all tierRe r"
proof -
  have "find_match tierRe (x @ r) = Some (r, m)"
    using first_match_at [OF assms(1)] assms(2) by (cases x) simp_all
  moreover from this have "find_match tierRe (js '' : '' @ x @ r) = Some (r, m)"
    using tierRe_fails by (simp add: js_Cons)
  ultimately show "exec_all tierRe (x @ r) = m # exec_all tierRe r" "exec_all tierRe (js '' : '' @ x @ r) = m # exec_all tierRe r"
    using assms(2) by (subst exec_all.simps; simp add: js_Cons)+
qed

lemma exec_Nil: "exec_all tierRe [] = []"
proof -
  have "match_at tierRe [] = None"
    by (simp add: match_at_def tierRe_def condGroup_def re_cond_def re_cond_var_def re_label_body_def js_Cons)
  then show ?thesis by (subst exec_all.simps) simp
qed

lemma guarded_text_ne: "guarded_text t \<noteq> []" "tier_call l t \<noteq> []"
  by (simp_all add: guarded_text_def tier_call_def js_Cons)

definition guarded_caps :: "VisualTier \<Rightarrow> captures" where
  "guarded_caps t = tier_caps 2 t @ [(1, buildConditionStr (tier_conditions t))]"

lemma exec_tiers:
  assumes "list_all (\<lambda>t. clean_tier t \<and> tier_conditions t \<noteq> []) us" "clean_tier t"
  shows "exec_all tierRe (join (js '' : '') (map guarded_text us @ [tier_call (opt_str (vt_label t)) t])) = map guarded_caps us @ [tier_caps 2 t]"
proof -
  let ?call = "tier_call (opt_str (vt_label t)) t"
  have bare: "first tierRe (?call @ [], []) ([], tier_caps 2 t)" by (rule first_bare [OF assms(2)])
  have tail: "exec_all tierRe (concat (map (\<lambda>y. js '' : '' @ y) (map guarded_text vs @ [?call]))) = map guarded_caps vs @ [tier_caps 2 t]"
    if "list_all (\<lambda>t. clean_tier t \<and> tier_conditions t \<noteq> []) vs" for vs
    using that
  proof (induction vs)
    case Nil
    then show ?case using exec_first(2) [OF bare guarded_text_ne(2)] by (simp add: exec_Nil)
  next
    case (Cons v vs)
    then show ?case using exec_first(2) [OF first_guarded guarded_text_ne(1)] by (simp add: guarded_caps_def)
  qed
  show ?thesis
  proof (cases us)
    case Nil
    then show ?thesis using exec_first(1) [OF bare guarded_text_ne(2)] by (simp add: exec_Nil)
  next
    case (Cons u vs)
    then show ?thesis
      using assms(1) exec_first(1) [OF first_guarded guarded_text_ne(1)] tail [of vs] by (simp add: join_Cons guarded_caps_def)
  qed
qed

lemma exec_free: "find_match tierRe (js ''p * 0 + c * 0'') = None"
proof -
  have pc: "match_at tierRe (d # 32 # 42 # s) = None" if "d \<in> {112, 99}" for d s
    using that by (auto simp: match_at_def tierRe_def condGroup_def re_cond_def re_cond_var_def re_cond_op_def re_label_body_def
        ws_match not_space_ascii js_Cons simp del: rmatch.simps(5))
  have "match_at tierRe [] = None"
    by (simp add: match_at_def tierRe_def condGroup_def re_cond_def re_cond_var_def re_label_body_def js_Cons)
  then show ?thesis using pc tierRe_fails by (simp add: js_Cons)
qed

lemma exec_zero:
  assumes "clean_tier t" "tier_conditions t \<noteq> []"
  shows "exec_all tierRe (guarded_text t @ js '' : p * 0 + c * 0'') = [guarded_caps t]"
proof -
  have "find_match tierRe (js '' : p * 0 + c * 0'') = None"
    using exec_free tierRe_fails by (simp add: js_Cons)
  then have "exec_all tierRe (js '' : p * 0 + c * 0'') = []" by (subst exec_all.simps) simp
  then show ?thesis
    using exec_first(1) [OF first_guarded [OF assms] guarded_text_ne(1)] by (simp add: guarded_caps_def)
qed

section \<open>Conditions come back\<close>

definition quiet_char :: "code_unit \<Rightarrow> bool" where
  "quiet_char c \<longleftrightarrow> \<not> is_space c \<and> c \<noteq> 38"

lemma and_fails:
  assumes "quiet_char c"
  shows "match_at re_and (c # s) = None" "match_at re_and (32 # c # s) = None"
  using assms by (simp_all add: quiet_char_def match_at_def re_and_def ws_match js_Cons del: rmatch.simps(5))

lemma split_quiet: "list_all quiet_char w \<Longrightarrow> split_regex re_and acc (w @ s) = split_regex re_and (acc @ w) s"
  by (induction w arbitrary: acc) (simp_all add: and_fails)

lemma split_space:
  assumes "list_all quiet_char w" "w \<noteq> []"
  shows "split_regex re_and acc (32 # w @ s) = split_regex re_and (acc @ 32 # w) s"
proof -
  obtain c w' where w: "w = c # w'" using assms(2) by (cases w) auto
  then have "split_regex re_and acc (32 # w @ s) = split_regex re_and (acc @ [32]) (w @ s)"
    using assms(1) by (simp add: and_fails)
  then show ?thesis using split_quiet [OF assms(1)] by simp
qed

lemma condition_quiet:
  assumes "clean_tier_condition c"
  shows "list_all quiet_char (tc_var c)" "list_all quiet_char (tc_op c)" "tc_op c \<noteq> []" "list_all quiet_char (num_str (cond_number c))"
    "num_str (cond_number c) \<noteq> []"
proof -
  note c = clean_condition_parts [OF assms]
  show "list_all quiet_char (tc_var c)" "list_all quiet_char (tc_op c)" "tc_op c \<noteq> []"
    using c(1,2) by (auto simp: quiet_char_def js_Cons not_space_ascii)
  show "list_all quiet_char (num_str (cond_number c))"
    using num_str_cond_chars [OF c(4,5)] cond_char_not_space by (auto simp: list_all_iff quiet_char_def)
  show "num_str (cond_number c) \<noteq> []" by (rule num_str_chars(2) [OF c(4)])
qed

lemma split_condition:
  assumes "clean_tier_condition c"
  shows "split_regex re_and acc (condition_text c @ s) = split_regex re_and (acc @ condition_text c) s"
  unfolding clean_condition_parts(3) [OF assms]
  using split_quiet split_space condition_quiet [OF assms] by simp

lemma split_conditions:
  assumes "list_all clean_tier_condition cs"
  shows "split_regex re_and acc (cond_tail cs) = acc # map condition_text cs"
  using assms
proof (induction cs arbitrary: acc)
  case (Cons c cs)
  have c: "clean_tier_condition c" using Cons.prems by simp
  let ?s = "condition_text c @ cond_tail cs"
  have "match_at re_and (32 # 38 # 38 # 32 # ?s) = Some (?s, [])"
    by (rule first_match_at [OF first_and [OF cond_text_start [OF c]]])
  then have "split_regex re_and acc (cond_tail (c # cs)) = acc # split_regex re_and [] ?s"
    by (simp add: cond_tail_def js_Cons)
  then show ?case using split_condition [OF c, of "[]"] Cons by simp
qed (simp add: cond_tail_def)

lemma str_number_num_str:
  assumes "short_decimal 20 q" "0 \<le> q"
  shows "str_number (num_str q) = Some q"
proof -
  have n: "num_str q \<noteq> []" "list_all is_decimal_char (num_str q)" "unsigned_decimal (num_str q) = Some q"
    using plain_num_str [OF assms] by (simp_all add: plain_number_def)
  have "trim (num_str q) = num_str q" using n(2) decimal_not_space by (intro trim_no_space) (simp add: list_all_iff)
  then show ?thesis
    using n by (cases "num_str q") (auto simp: str_number_def Let_def is_decimal_char_def is_digit_def)
qed

lemma parse_written_condition:
  assumes "clean_tier_condition c"
  shows "parse_condition_text (condition_text c) = [c]"
proof -
  note c = clean_condition_parts [OF assms] and qc = condition_quiet [OF assms]
  let ?n = "num_str (cond_number c)"
  have trim: "trim (condition_text c) = condition_text c"
  proof (rule trim_no_ws_ends)
    have "last ?n \<in> set ?n" using qc(5) by simp
    then show "condition_text c = [] \<or> \<not> is_space (hd (condition_text c)) \<and> \<not> is_space (last (condition_text c))"
      using cond_text_start [OF assms, of "[]"] qc(4,5) by (auto simp: c(3) quiet_char_def list_all_iff)
  qed
  let ?q = "rseq [re_ws, RGroup 3 (rplus (RSet is_cond_char)), REnd]"
  have eqs: "rmatch ?q (61 # 32 # s, m) = []" for s m
    by (simp add: ws_match not_space_ascii rplus_def is_cond_char_def is_digit_def del: rmatch.simps(5))
  have num: "first (RGroup 3 (rplus (RSet is_cond_char))) (?n, m) ([], (3, ?n) # m)" for m
  proof -
    have d: "dropWhile is_cond_char ?n = []" "is_cond_char (hd ?n)"
      using num_str_cond_chars [OF c(4,5)] qc(5) by (auto simp: list_all_iff)
    from first_group [OF first_plus_set [of ?n is_cond_char m, OF qc(5) d(2)], of 3] show ?thesis by (simp add: d(1))
  qed
  have tail: "first ?q (32 # ?n, m) ([], (3, ?n) # m)" for m
    using num_str_start [OF c(4), of "[]"]
    by (intro first_rseq [OF first_ws(1)] first_rseq [OF num] first_rseq [OF _ first_rseq_Nil]) (auto simp: first_def)
  have op: "first (RSeq (RGroup 2 re_cond_op) ?q) (tc_op c @ 32 # ?n, m) ([], (3, ?n) # (2, tc_op c) # m)" for m
    using cond_op_group_first [OF c(2) eqs] tail by (rule first_rmatch)
  have var: "first (RGroup 1 re_cond_var) (tc_var c @ s, m) (s, (1, tc_var c) # m)" for s m
    using first_group [of re_cond_var "(tc_var c @ s, m)" "(s, m)" 1] by (simp add: first_def cond_var_match [OF c(1)])
  have "first re_condition (condition_text c, []) ([], [(3, ?n), (2, tc_op c), (1, tc_var c)])"
    unfolding re_condition_def c(3) rseq.simps
    by (rule first_seq [OF var], rule first_seq [OF first_ws(1) [OF op_start [OF c(2)]]], rule op [unfolded rseq.simps])
  from first_match_at [OF this] have "match_start re_condition (condition_text c) = Some [(3, ?n), (2, tc_op c), (1, tc_var c)]"
    by (simp add: match_start_def)
  then show ?thesis
    using assms by (simp add: parse_condition_text_def trim cap_def js_number_def str_number_num_str [OF c(4,5)] clean_tier_condition_def)
qed

lemma parse_written_conditions:
  assumes "list_all clean_tier_condition cs"
  shows "parse_conditions (buildConditionStr cs) = cs"
proof (cases cs)
  case (Cons c ds)
  then have "split_regex re_and [] (buildConditionStr cs) = map condition_text cs"
    using conditions_text_join [of c ds] assms split_condition [of c "[]"] split_conditions [of ds] by simp
  moreover have "concat (map parse_condition_text (map condition_text es)) = es" if "list_all clean_tier_condition es" for es
    using that by (induction es) (simp_all add: parse_written_condition)
  ultimately show ?thesis
    using assms conditions_text_empty [OF assms] Cons by (simp add: parse_conditions_def parse_written_condition)
qed (simp add: parse_conditions_def buildConditionStr_def)

section \<open>Tiers come back\<close>

definition normal_tier :: "VisualTier \<Rightarrow> bool" where
  \<comment> \<open>a complete tier, with the cache mode that its prices show\<close>
  "normal_tier t \<longleftrightarrow> vt_label t \<noteq> None \<and> vt_conditions t \<noteq> None \<and>
     vt_input_unit_cost t = Cost (cost_number (vt_input_unit_cost t)) \<and>
     vt_output_unit_cost t = Cost (cost_number (vt_output_unit_cost t)) \<and>
     vt_cache_mode t = Some (if 0 < cost_number (vt_extra t (js ''cache_create_1h_unit_cost'')) then CACHE_MODE_TIMED else CACHE_MODE_GENERIC) \<and>
     vt_extra t = (\<lambda>f. if f \<in> set extra_fields then Cost (cost_number (vt_extra t f)) else NoCost)"

lemma normalize_complete:
  assumes "vt_label u = vt_label t" "vt_conditions u = vt_conditions t" "vt_input_unit_cost u = vt_input_unit_cost t"
    "vt_output_unit_cost u = vt_output_unit_cost t" "vt_cache_mode u = None \<or> vt_cache_mode u = vt_cache_mode t"
    "\<And>f. f \<in> set extra_fields \<Longrightarrow> cost_number (vt_extra u f) = cost_number (vt_extra t f)"
    "\<And>f. f \<notin> set extra_fields \<Longrightarrow> vt_extra u f = NoCost" "normal_tier t"
  shows "normalizeVisualTier u = t"
proof -
  have "js ''cache_create_1h_unit_cost'' \<in> set extra_fields" by (simp add: extra_fields_def)
  note h = assms(6) [OF this]
  have n: "vt_label t \<noteq> None" "vt_conditions t \<noteq> None" "vt_input_unit_cost t \<noteq> NoCost" "vt_output_unit_cost t \<noteq> NoCost"
    "vt_cache_mode t = Some (if 0 < cost_number (vt_extra t (js ''cache_create_1h_unit_cost'')) then CACHE_MODE_TIMED else CACHE_MODE_GENERIC)"
    using assms(8) by (auto simp: normal_tier_def)
  have "(\<lambda>f. if f \<in> set extra_fields then Cost (cost_number (vt_extra u f)) else vt_extra u f) =
      (\<lambda>f. if f \<in> set extra_fields then Cost (cost_number (vt_extra t f)) else NoCost)"
    using assms(6,7) by auto
  also have "\<dots> = vt_extra t" using assms(8) unfolding normal_tier_def by metis
  finally show ?thesis
    using n h assms(1-5) by (intro VisualTier.equality) (auto simp: normalizeVisualTier_def getTierCacheMode_def opt_str_def)
qed

lemma normalize_normal: "normal_tier t \<Longrightarrow> normalizeVisualTier t = t"
proof (rule normalize_complete)
  assume t: "normal_tier t"
  fix f assume f: "f \<notin> set extra_fields"
  have "vt_extra t f = (\<lambda>f. if f \<in> set extra_fields then Cost (cost_number (vt_extra t f)) else NoCost) f"
    using t unfolding normal_tier_def by metis
  then show "vt_extra t f = NoCost" using f by simp
qed auto

lemma extra_caps_Cons: "extra_caps ((v, i, q) # xs) = extra_caps xs @ (if q = 0 then [] else [(i, num_str q)])"
  by (simp add: extra_caps_def)

lemma extra_caps_other:
  assumes "i \<notin> fst ` snd ` set xs"
  shows "map_of (extra_caps xs @ m) i = map_of m i"
  using assms
proof (induction xs arbitrary: m)
  case (Cons x xs)
  obtain v j q where x: "x = (v, j, q)" by (cases x) auto
  show ?case using Cons.IH Cons.prems by (simp add: x extra_caps_Cons del: map_of_append)
qed (simp add: extra_caps_def)

lemma extra_caps_lookup:
  assumes "distinct (map (fst \<circ> snd) xs)" "(v, i, q) \<in> set xs"
  shows "map_of (extra_caps xs @ m) i = (if q = 0 then map_of m i else Some (num_str q))"
  using assms
proof (induction xs arbitrary: m)
  case (Cons x xs)
  obtain w j p where x: "x = (w, j, p)" by (cases x) auto
  show ?case
  proof (cases "x = (v, i, q)")
    case True
    then have "i \<notin> fst ` snd ` set xs" using Cons.prems(1) by (auto simp: image_image)
    then show ?thesis using extra_caps_other True by (simp add: extra_caps_Cons del: map_of_append)
  next
    case False
    then have "(v, i, q) \<in> set xs" using Cons.prems(2) by simp
    moreover from this have "i \<noteq> j" using Cons.prems(1) by (force simp: x)
    ultimately show ?thesis using Cons by (simp add: x extra_caps_Cons del: map_of_append)
  qed
qed simp

lemma extra_terms_index: "map (fst \<circ> snd) (extra_terms n t) = [n..<n + length BILLING_CACHE_VAR_MAP]"
proof -
  have "map (fst \<circ> snd) (extra_terms n t) = map snd (zip BILLING_CACHE_VAR_MAP [n..<n + length BILLING_CACHE_VAR_MAP])"
    by (simp add: extra_terms_def case_prod_beta comp_def)
  then show ?thesis by simp
qed

lemma extra_terms_field:
  assumes "map_of (zip (map fst BILLING_CACHE_VAR_MAP) [n..<n + length BILLING_CACHE_VAR_MAP]) f = Some i"
  shows "\<exists>v. (v, i, cost_number (vt_extra t f)) \<in> set (extra_terms n t)"
proof -
  have "(f, i) \<in> set (zip (map fst BILLING_CACHE_VAR_MAP) [n..<n + length BILLING_CACHE_VAR_MAP])"
    by (rule map_of_SomeD [OF assms])
  then obtain v where "((f, v), i) \<in> set (zip BILLING_CACHE_VAR_MAP [n..<n + length BILLING_CACHE_VAR_MAP])"
    by (auto simp: zip_map1)
  then show ?thesis unfolding extra_terms_def by (force intro: exI [of _ v])
qed

lemma tier_caps_index:
  assumes "i \<notin> {n + 3..<n + 3 + length BILLING_CACHE_VAR_MAP}"
  shows "map_of (tier_caps n t @ m) i = (if i = n + 2 then Some (num_str (cost_number (vt_output_unit_cost t)))
     else if i = n + 1 then Some (num_str (cost_number (vt_input_unit_cost t))) else if i = n then Some (opt_str (vt_label t)) else map_of m i)"
proof -
  have "fst ` snd ` set (extra_terms (n + 3) t) = set (map (fst \<circ> snd) (extra_terms (n + 3) t))" by (simp add: image_image)
  then have "i \<notin> fst ` snd ` set (extra_terms (n + 3) t)" using assms by (simp add: extra_terms_index)
  then show ?thesis unfolding tier_caps_def append_assoc by (subst extra_caps_other) auto
qed

lemma text_cost_num_str: "short_decimal 20 q \<Longrightarrow> 0 \<le> q \<Longrightarrow> text_cost (num_str q) = Cost q"
  by (simp add: text_cost_def str_number_num_str)

lemma body_terms_extra:
  assumes "(f, v) \<in> set BILLING_CACHE_VAR_MAP" "cost_number (vt_extra t f) \<noteq> 0"
  shows "(v, cost_number (vt_extra t f)) \<in> set (body_terms t)"
  using assms by (force simp: body_terms_def)

lemma parsed_tier_caps:
  assumes "clean_tier t" "normal_tier t" "\<And>i. n + 3 \<le> i \<Longrightarrow> map_of m i = None"
  shows "parsed_tier (tier_conditions t) n (tier_caps n t @ m) = t"
proof -
  have pc: "short_decimal 20 q \<and> 0 \<le> q" if "(v, q) \<in> set (body_terms t)" for v q
    using assms(1) that by (auto simp: clean_tier_def list_all_iff)
  have base: "text_cost (num_str (cost_number (vt_input_unit_cost t))) = vt_input_unit_cost t"
    "text_cost (num_str (cost_number (vt_output_unit_cost t))) = vt_output_unit_cost t"
    using pc [of "js ''p''"] pc [of "js ''c''"] assms(2) text_cost_num_str by (auto simp: body_terms_def normal_tier_def)
  let ?idx = "map_of (zip (map fst BILLING_CACHE_VAR_MAP) [n + 3..<n + 3 + length BILLING_CACHE_VAR_MAP])"
  have "set (map fst BILLING_CACHE_VAR_MAP) = set extra_fields" by (simp add: cache_var_map extra_fields_def)
  then have dom: "?idx f = None \<longleftrightarrow> f \<notin> set extra_fields" for f by (simp add: map_of_zip_is_None del: set_map)
  have extra: "cost_number (case map_of (tier_caps n t @ m) i of None \<Rightarrow> NoCost | Some s \<Rightarrow> text_cost s) = cost_number (vt_extra t f)"
    if idx: "?idx f = Some i" for f i
  proof -
    obtain v where v: "(v, i, cost_number (vt_extra t f)) \<in> set (extra_terms (n + 3) t)" using extra_terms_field [OF idx] by blast
    have i: "n + 3 \<le> i" using map_of_SomeD [OF idx] by (auto dest!: set_zip_rightD)
    have "map_of (tier_caps n t @ m) i = (if cost_number (vt_extra t f) = 0 then None else Some (num_str (cost_number (vt_extra t f))))"
      unfolding tier_caps_def append_assoc using extra_caps_lookup [OF _ v] i assms(3) by (simp add: extra_terms_index del: map_of_append)
    moreover have "short_decimal 20 (cost_number (vt_extra t f)) \<and> 0 \<le> cost_number (vt_extra t f)" if "cost_number (vt_extra t f) \<noteq> 0"
    proof -
      obtain w where "(f, w) \<in> set BILLING_CACHE_VAR_MAP" using map_of_SomeD [OF idx] by (auto dest!: set_zip_leftD)
      then show ?thesis by (rule pc [OF body_terms_extra [OF _ that]])
    qed
    ultimately show ?thesis using text_cost_num_str by (auto simp: cost_number_def split: cost.splits)
  qed
  have low: "map_of (tier_caps n t @ m) n = Some (opt_str (vt_label t))"
    "map_of (tier_caps n t @ m) (n + 1) = Some (num_str (cost_number (vt_input_unit_cost t)))"
    "map_of (tier_caps n t @ m) (n + 2) = Some (num_str (cost_number (vt_output_unit_cost t)))"
    by (simp_all add: tier_caps_index del: map_of_append)
  show ?thesis
    unfolding parsed_tier_def
  proof (rule normalize_complete [OF _ _ _ _ _ _ _ assms(2)], goal_cases)
    case (6 f)
    then obtain i where "?idx f = Some i" using dom [of f] by blast
    then show ?case using extra [of f i] by (simp only: VisualTier.simps option.case)
  next
    case (7 f)
    then have "?idx f = None" using dom by blast
    then show ?case by (simp only: VisualTier.simps option.case)
  qed (use assms(2) base low in \<open>auto simp: cap_def normal_tier_def opt_str_def tier_conditions_def\<close>)
qed

lemma version_fails: "c \<noteq> 118 \<Longrightarrow> match_start re_version (c # s) = None"
  by (simp add: match_start_def match_at_def re_version_def js_Cons)

lemma single_fails: "c \<noteq> 116 \<Longrightarrow> match_start singleRe (c # s) = None"
  by (simp add: match_start_def match_at_def singleRe_def re_label_body_def js_Cons)

lemma guarded_start:
  assumes "clean_tier t" "tier_conditions t \<noteq> []"
  shows "\<exists>c s. guarded_text t = c # s \<and> c \<in> {112, 99, 108}"
proof -
  obtain d ds where ds: "tier_conditions t = d # ds" using assms(2) by (cases "tier_conditions t") auto
  have "list_all clean_tier_condition (d # ds)" using assms(1) by (simp add: clean_tier_def ds)
  then show ?thesis
    unfolding guarded_text_def ds by (auto simp: conditions_text_join condition_text_def clean_tier_condition_def js_Cons)
qed

lemma parse_guarded_text:
  assumes "exprStr = c # s" "c \<in> {112, 99, 108}" "generateExprFromVisualConfig (Some ts) = exprStr" "ts \<noteq> []" "list_all normal_tier ts"
    "map (\<lambda>m. parsed_tier (parse_conditions (cap m 1)) 2 m) (exec_all tierRe exprStr) = ts"
  shows "tryParseVisualConfig exprStr = Some ts"
proof -
  have "match_start re_version exprStr = None" "match_start singleRe exprStr = None"
    using version_fails single_fails assms(1,2) by auto
  moreover have "map normalizeVisualTier ts = ts"
    using assms(5) by (induction ts) (simp_all add: normalize_normal)
  ultimately show ?thesis
    using assms by (simp add: tryParseVisualConfig_def Let_def normalizeVisualConfig_def)
qed

lemma guarded_caps_back:
  assumes "clean_tier t" "normal_tier t"
  shows "parsed_tier (parse_conditions (cap (guarded_caps t) 1)) 2 (guarded_caps t) = t"
proof -
  have "cap (guarded_caps t) 1 = buildConditionStr (tier_conditions t)"
    unfolding cap_def guarded_caps_def by (subst tier_caps_index) simp_all
  moreover have "parse_conditions (buildConditionStr (tier_conditions t)) = tier_conditions t"
    using assms(1) by (intro parse_written_conditions) (simp add: clean_tier_def)
  ultimately show ?thesis
    unfolding guarded_caps_def using parsed_tier_caps [OF assms, of 2] by simp
qed

lemma bare_caps_back:
  assumes "clean_tier t" "normal_tier t" "tier_conditions t = []" "n \<noteq> 0"
  shows "parsed_tier [] n (tier_caps n t) = t" "1 < n \<Longrightarrow> cap (tier_caps n t) 1 = []"
  using parsed_tier_caps [OF assms(1,2), of n "[]"] tier_caps_index [of 1 n t "[]"] assms(3,4) by (simp_all add: cap_def)

lemma single_tier_back:
  assumes "clean_tier t" "normal_tier t"
  shows "tryParseVisualConfig (generateExprFromVisualConfig (Some [t])) = Some [t]"
proof (cases "tier_conditions t = []")
  case True
  let ?call = "tier_call (opt_str (vt_label t)) t"
  have gen: "generateExprFromVisualConfig (Some [t]) = ?call" using generated_single [OF assms(1)] True by simp
  have "first singleRe (?call, []) ([], tier_caps 1 t)"
    unfolding singleRe_def using first_label_body [OF assms(1), of 1 "[]" "[]"]
    by (intro first_rseq [OF _ first_rseq [OF _ first_rseq_Nil]]) (auto simp: first_def)
  from first_match_at [OF this] have single: "match_start singleRe ?call = Some (tier_caps 1 t)" by (simp add: match_start_def)
  have "match_start re_version ?call = None" by (simp add: tier_call_def js_Cons version_fails)
  then show ?thesis
    using single bare_caps_back(1) [OF assms True, of 1] guarded_text_ne(2)
    by (simp add: gen tryParseVisualConfig_def Let_def normalizeVisualConfig_def normalize_normal [OF assms(2)])
next
  case False
  obtain c s where cs: "guarded_text t = c # s" "c \<in> {112, 99, 108}" using guarded_start [OF assms(1) False] by blast
  have gen: "generateExprFromVisualConfig (Some [t]) = guarded_text t @ js '' : p * 0 + c * 0''"
    using False by (simp add: generated_single [OF assms(1)] term_text_def num_str_def int_str_def nat_str.simps js_Cons)
  show ?thesis
    unfolding gen
  proof (rule parse_guarded_text)
    show "guarded_text t @ js '' : p * 0 + c * 0'' = c # s @ js '' : p * 0 + c * 0''" by (simp add: cs(1))
    show "map (\<lambda>m. parsed_tier (parse_conditions (cap m 1)) 2 m) (exec_all tierRe (guarded_text t @ js '' : p * 0 + c * 0'')) = [t]"
      by (simp add: exec_zero [OF assms(1) False] guarded_caps_back [OF assms] del: One_nat_def)
  qed (use cs(2) gen assms(2) in simp_all)
qed

lemma tiers_back:
  assumes "list_all (\<lambda>t. clean_tier t \<and> tier_conditions t \<noteq> []) us" "clean_tier t" "us \<noteq> []" "list_all normal_tier (us @ [t])" "tier_conditions t = []"
  shows "tryParseVisualConfig (generateExprFromVisualConfig (Some (us @ [t]))) = Some (us @ [t])"
proof -
  let ?text = "join (js '' : '') (map guarded_text us @ [tier_call (opt_str (vt_label t)) t])"
  obtain u vs where us: "us = u # vs" using assms(3) by (cases us) auto
  obtain c s where cs: "guarded_text u = c # s" "c \<in> {112, 99, 108}" using guarded_start [of u] assms(1) by (auto simp: us)
  obtain s' where s': "?text = c # s'" by (simp add: us join_Cons cs(1))
  have t: "normal_tier t" using assms(4) by simp
  have given: "map (\<lambda>m. parsed_tier (parse_conditions (cap m 1)) 2 m) (map guarded_caps us) = us"
    using assms(1,4) by (induction us) (simp_all add: guarded_caps_back del: One_nat_def)
  have "parsed_tier (parse_conditions (cap (tier_caps 2 t) 1)) 2 (tier_caps 2 t) = t"
    using bare_caps_back [OF assms(2) t assms(5), of 2] by (simp add: parse_conditions_def)
  then have "map (\<lambda>m. parsed_tier (parse_conditions (cap m 1)) 2 m) (exec_all tierRe ?text) = us @ [t]"
    using given by (simp add: exec_tiers [OF assms(1,2)] del: map_map One_nat_def)
  then show ?thesis
    unfolding generated_many [OF assms(1-3)]
    by (intro parse_guarded_text [OF s' cs(2)] generated_many [OF assms(1-3)]) (use assms(4) in simp_all)
qed

definition editable_tiers :: "VisualTier list \<Rightarrow> bool" where
  \<comment> \<open>tiers in the form the editor keeps: complete, and with several tiers the last one as the fallback\<close>
  "editable_tiers ts \<longleftrightarrow> clean_tiers ts \<and> list_all normal_tier ts \<and> (1 < length ts \<longrightarrow> tier_conditions (last ts) = [])"

lemma config_back:
  assumes "editable_tiers ts"
  shows "tryParseVisualConfig (generateExprFromVisualConfig (Some ts)) = Some ts"
proof -
  obtain us t where ts: "ts = us @ [t]" using assms unfolding editable_tiers_def clean_tiers_def by (cases ts rule: rev_cases) auto
  show ?thesis
  proof (cases us)
    case Nil
    then show ?thesis using assms single_tier_back by (simp add: ts editable_tiers_def clean_tiers_def)
  next
    case Cons
    have "list_all (\<lambda>t. clean_tier t \<and> tier_conditions t \<noteq> []) us" "clean_tier t" "list_all normal_tier (us @ [t])" "tier_conditions t = []"
      using assms Cons by (auto simp: ts editable_tiers_def clean_tiers_def list_all_iff)
    then show ?thesis unfolding ts using Cons by (intro tiers_back) simp_all
  qed
qed

text \<open>
  C18: The tiers of the price editor come back from their expression. For complete tiers with plain labels, short
  decimal prices, conditions on all tiers but the fallback and the cache mode their prices show, parsing the
  expression written for them gives exactly these tiers.
\<close>

theorem visual_config_round_trip:
  assumes "editable_tiers ts"
  shows "tryParseVisualConfig (generateExprFromVisualConfig (Some ts)) = Some ts"
  using assms by (rule config_back)

lemma sample_normal: "normal_tier (sample_tier l cs i out)"
  by (auto simp: normal_tier_def sample_tier_def normalizeVisualTier_def getTierCacheMode_def cost_number_def extra_fields_def js_Cons)

lemma sample_editable: "editable_tiers sample_tiers"
  using sample_tiers_clean by (simp add: editable_tiers_def) (simp add: sample_tiers_def sample_normal sample_conditions)

theorem visual_config_round_trip_witness:
  "tryParseVisualConfig (generateExprFromVisualConfig (Some sample_tiers)) = Some sample_tiers \<and> length sample_tiers = 2"
  using visual_config_round_trip [OF sample_editable] by (simp add: sample_tiers_def)

end
