(* ===== verification/Price_Editor.thy ===== *)
theory Price_Editor
  imports Tier_Round_Trip
begin

text \<open>
  The editor of tiered prices (\<open>features/system-settings/models/tiered-pricing-editor.tsx\<close>): the state of
  \<open>TieredPricingEditor\<close> with the two expressions that the surrounding sheet keeps for it, the handlers of the editor
  and of its parts, and the effects that run after a rendering. State set by a handler or an effect is seen
  by the next rendering; all effects of one rendering see the values of that rendering. A handler that throws is \<open>None\<close>.
\<close>

section \<open>State\<close>

datatype EditorMode = Visual | Raw

record Editor =
  editorMode :: EditorMode
  visualConfig :: "VisualConfig option"
  rawExpr :: jstring
  requestRuleGroups :: "RequestRuleGroup list"
  initRef :: bool
  currentExpr :: jstring
  currentRequestRuleExpr :: jstring
  modelName :: jstring
  committed :: "(jstring \<times> jstring \<times> jstring) option"
    \<comment> \<open>the expressions and the name at the last run of the effects\<close>

definition rules_or_none :: "jstring \<Rightarrow> RequestRuleGroup list option" where
  \<comment> \<open>\<open>tryParseRequestRuleExpr(e) || []\<close>\<close>
  "rules_or_none e = (case tryParseRequestRuleExpr e of Thrown \<Rightarrow> None | Null \<Rightarrow> Some [] | Got gs \<Rightarrow> Some gs)"

definition split_expr :: "jstring \<Rightarrow> SplitExpr option" where
  \<comment> \<open>splitting never gives \<open>null\<close>\<close>
  "split_expr e = (case splitBillingExprAndRequestRules e of Got sp \<Rightarrow> Some sp | _ \<Rightarrow> None)"

definition mount_editor :: "jstring \<Rightarrow> jstring \<Rightarrow> jstring \<Rightarrow> Editor option" where
  "mount_editor name expr rules =
     map_option
       (\<lambda>gs. \<lparr>editorMode = Visual, visualConfig = tryParseVisualConfig expr, rawExpr = combineBillingExpr expr rules,
          requestRuleGroups = gs, initRef = False, currentExpr = expr, currentRequestRuleExpr = rules, modelName = name,
          committed = None\<rparr>)
       (rules_or_none rules)"

section \<open>Rendering and effects\<close>

definition canUseVisualRules :: "Editor \<Rightarrow> bool option" where
  "canUseVisualRules ed =
     (if currentRequestRuleExpr ed = [] then Some True
      else (case tryParseRequestRuleExpr (currentRequestRuleExpr ed) of Thrown \<Rightarrow> None | Null \<Rightarrow> Some False | Got _ \<Rightarrow> Some True))"

definition effectiveExpr :: "Editor \<Rightarrow> jstring option" where
  "effectiveExpr ed =
     (if editorMode ed = Visual then Some (generateExprFromVisualConfig (visualConfig ed))
      else map_option billingExpr (split_expr (rawExpr ed)))"

definition init_effect :: "Editor \<Rightarrow> Editor option" where
  \<comment> \<open>the first effect where \<open>initRef\<close> is unset\<close>
  "init_effect ed =
     map_option
       (\<lambda>gs.
          (case tryParseVisualConfig (currentExpr ed) of
             Some cfg \<Rightarrow> ed\<lparr>visualConfig := Some cfg, editorMode := Visual\<rparr>
           | None \<Rightarrow>
               if currentExpr ed \<noteq> [] then ed\<lparr>visualConfig := None, editorMode := Raw\<rparr>
               else ed\<lparr>visualConfig := Some createDefaultVisualConfig\<rparr>)
          \<lparr>rawExpr := combineBillingExpr (currentExpr ed) (currentRequestRuleExpr ed), requestRuleGroups := gs\<rparr>)
       (rules_or_none (currentRequestRuleExpr ed))"

definition commit :: "Editor \<Rightarrow> Editor option" where
  \<comment> \<open>rendering and then the effects in their order: initialise when an expression changed, forget the initialisation
     when the name changed, report the expression, report the rules\<close>
  "commit ed =
     (case (canUseVisualRules ed, effectiveExpr ed) of
        (Some _, Some expr) \<Rightarrow>
          (let changed = (case committed ed of None \<Rightarrow> True | Some (e, r, _) \<Rightarrow> e \<noteq> currentExpr ed \<or> r \<noteq> currentRequestRuleExpr ed);
               renamed = (case committed ed of None \<Rightarrow> True | Some (_, _, n) \<Rightarrow> n \<noteq> modelName ed);
               inited = (if changed \<and> \<not> initRef ed then init_effect ed else Some ed) in
           map_option
             (\<lambda>ed'. ed'\<lparr>initRef := (if renamed then False else changed \<or> initRef ed),
                currentExpr := expr,
                currentRequestRuleExpr :=
                  (if editorMode ed = Visual then buildRequestRuleExpr (requestRuleGroups ed) else currentRequestRuleExpr ed),
                committed := Some (currentExpr ed, currentRequestRuleExpr ed, modelName ed)\<rparr>)
             inited)
      | _ \<Rightarrow> None)"

fun commits :: "nat \<Rightarrow> Editor \<Rightarrow> Editor option" where
  "commits 0 ed = Some ed"
| "commits (Suc n) ed = (case commit ed of None \<Rightarrow> None | Some ed' \<Rightarrow> commits n ed')"

section \<open>Handlers of the editor\<close>

definition handleVisualChange :: "VisualConfig \<Rightarrow> Editor \<Rightarrow> Editor" where
  "handleVisualChange cfg ed = ed\<lparr>visualConfig := Some cfg\<rparr>"

definition handleRawChange :: "jstring \<Rightarrow> Editor \<Rightarrow> Editor option" where
  "handleRawChange v ed = map_option (\<lambda>sp. ed\<lparr>rawExpr := v, currentRequestRuleExpr := requestRuleExpr sp\<rparr>) (split_expr v)"

definition handleModeChange :: "EditorMode \<Rightarrow> Editor \<Rightarrow> Editor option" where
  "handleModeChange next ed =
     (if next = Visual then
        (case split_expr (rawExpr ed) of
           None \<Rightarrow> None
         | Some sp \<Rightarrow>
             map_option
               (\<lambda>gs. ed\<lparr>visualConfig := Some (case tryParseVisualConfig (billingExpr sp) of Some cfg \<Rightarrow> cfg | None \<Rightarrow> createDefaultVisualConfig),
                  requestRuleGroups := gs, currentRequestRuleExpr := requestRuleExpr sp, editorMode := Visual\<rparr>)
               (rules_or_none (requestRuleExpr sp)))
      else
        (let expr = generateExprFromVisualConfig (visualConfig ed);
             ruleExpr = buildRequestRuleExpr (requestRuleGroups ed) in
         Some (ed\<lparr>rawExpr := str_or (combineBillingExpr expr ruleExpr) expr, editorMode := Raw\<rparr>)))"

record Preset =
  preset_key :: jstring
  preset_label :: jstring
  preset_expr :: jstring
  preset_requestRules :: "RequestRuleGroup list option"

definition applyPreset :: "Preset \<Rightarrow> Editor \<Rightarrow> Editor" where
  "applyPreset preset ed =
     (let presetGroups = (case preset_requestRules preset of None \<Rightarrow> [] | Some gs \<Rightarrow> gs);
          ruleExpr = buildRequestRuleExpr presetGroups;
          shown = ed\<lparr>rawExpr := str_or (combineBillingExpr (preset_expr preset) ruleExpr) (preset_expr preset)\<rparr> in
      (case tryParseVisualConfig (preset_expr preset) of
         Some cfg \<Rightarrow> shown\<lparr>visualConfig := Some cfg, editorMode := Visual\<rparr>
       | None \<Rightarrow> shown\<lparr>editorMode := Raw, visualConfig := None\<rparr>)
      \<lparr>requestRuleGroups := presetGroups, currentRequestRuleExpr := ruleExpr\<rparr>)"

definition handleRuleGroupsChange :: "RequestRuleGroup list \<Rightarrow> Editor \<Rightarrow> Editor" where
  "handleRuleGroupsChange gs ed = ed\<lparr>requestRuleGroups := gs\<rparr>"

section \<open>Handlers of the tiers\<close>

definition editor_config :: "Editor \<Rightarrow> VisualTier list" where
  \<comment> \<open>\<open>config.tiers\<close> of the visual editor\<close>
  "editor_config ed = normalizeVisualConfig (visualConfig ed)"

definition handleTierChange :: "nat \<Rightarrow> VisualTier \<Rightarrow> Editor \<Rightarrow> Editor" where
  \<comment> \<open>the index is that of a shown card\<close>
  "handleTierChange index next ed = handleVisualChange ((editor_config ed)[index := normalizeVisualTier next]) ed"

definition default_condition :: TierConditionInput where
  "default_condition = \<lparr>tc_var = js ''len'', tc_op = js ''<'', tc_value = JNum 200000\<rparr>"

definition new_tier :: "nat \<Rightarrow> VisualTier" where
  "new_tier n = normalizeVisualTier
     \<lparr>vt_label = Some (js ''tier_'' @ nat_str n), vt_conditions = Some [], vt_input_unit_cost = Cost 0,
      vt_output_unit_cost = Cost 0, vt_cache_mode = None, vt_extra = (\<lambda>_. NoCost)\<rparr>"

definition handleAddTier :: "Editor \<Rightarrow> Editor" where
  "handleAddTier ed =
     (let tiers = editor_config ed;
          bounded = (if tiers \<noteq> [] \<and> tier_conditions (last tiers) = []
            then butlast tiers @ [normalizeVisualTier ((last tiers)\<lparr>vt_conditions := Some [default_condition]\<rparr>)]
            else tiers) in
      handleVisualChange (bounded @ [new_tier (length bounded + 1)]) ed)"

definition remove_at :: "nat \<Rightarrow> 'a list \<Rightarrow> 'a list" where
  "remove_at index xs = take index xs @ drop (Suc index) xs"

definition handleRemoveTier :: "nat \<Rightarrow> Editor \<Rightarrow> Editor" where
  "handleRemoveTier index ed =
     (let tiers = remove_at index (editor_config ed) in
      handleVisualChange (if tiers \<noteq> [] then tiers else editor_config ed) ed)"

definition handleAddCondition :: "nat \<Rightarrow> Editor \<Rightarrow> Editor" where
  "handleAddCondition index ed =
     (let tier = editor_config ed ! index in
      if 2 \<le> length (tier_conditions tier) then ed
      else
        (let nextVar = (if js ''len'' \<in> set (map tc_var (tier_conditions tier)) then js ''c'' else js ''len'') in
         handleVisualChange
           ((editor_config ed)[index := tier\<lparr>vt_conditions := Some (tier_conditions tier @ [default_condition\<lparr>tc_var := nextVar\<rparr>])\<rparr>]) ed))"

definition handleConditionChange :: "nat \<Rightarrow> TierConditionInput \<Rightarrow> VisualTier \<Rightarrow> VisualTier" where
  "handleConditionChange conditionIndex next tier = tier\<lparr>vt_conditions := Some ((tier_conditions tier)[conditionIndex := next])\<rparr>"

definition handleConditionRemove :: "nat \<Rightarrow> VisualTier \<Rightarrow> VisualTier" where
  "handleConditionRemove conditionIndex tier = tier\<lparr>vt_conditions := Some (remove_at conditionIndex (tier_conditions tier))\<rparr>"

definition handlePriceChange :: "jstring \<Rightarrow> rat \<Rightarrow> VisualTier \<Rightarrow> VisualTier" where
  "handlePriceChange field v tier =
     (if field = js ''input_unit_cost'' then tier\<lparr>vt_input_unit_cost := Cost v\<rparr>
      else if field = js ''output_unit_cost'' then tier\<lparr>vt_output_unit_cost := Cost v\<rparr>
      else tier\<lparr>vt_extra := (vt_extra tier)(field := Cost v)\<rparr>)"

definition handleCacheModeChange :: "jstring \<Rightarrow> VisualTier \<Rightarrow> VisualTier" where
  "handleCacheModeChange mode tier =
     (let field = js ''cache_create_1h_unit_cost'';
          kept = (if vt_extra tier field = NoCost then Cost 0 else vt_extra tier field) in
      tier\<lparr>vt_cache_mode := Some mode,
        vt_extra := (vt_extra tier)(field := (if mode = CACHE_MODE_TIMED then kept else Cost 0))\<rparr>)"

definition handleLabelChange :: "jstring \<Rightarrow> VisualTier \<Rightarrow> VisualTier" where
  "handleLabelChange label tier = tier\<lparr>vt_label := Some label\<rparr>"

section \<open>Handlers of the request rules\<close>

definition handleSourceChange :: "jstring \<Rightarrow> RequestCondition \<Rightarrow> RequestCondition" where
  "handleSourceChange source condition =
     (if source = SOURCE_TIME then TimeC createEmptyTimeCondition
      else if source = SOURCE_HEADER \<or> source = SOURCE_PARAM then PHC (createEmptyCondition\<lparr>ph_source := source\<rparr>)
      else condition)"

definition rule_mode_change :: "jstring \<Rightarrow> RequestCondition \<Rightarrow> RequestCondition" where
  \<comment> \<open>\<open>handleModeChange\<close> of a condition row\<close>
  "rule_mode_change mode condition =
     (case condition of TimeC c \<Rightarrow> TimeC (c\<lparr>t_mode := mode\<rparr>) | PHC c \<Rightarrow> PHC (c\<lparr>ph_mode := mode\<rparr>))"

definition rule_condition_change :: "nat \<Rightarrow> RequestCondition \<Rightarrow> RequestRuleGroup \<Rightarrow> RequestRuleGroup" where
  "rule_condition_change conditionIndex next grp = grp\<lparr>rg_conditions := (rg_conditions grp)[conditionIndex := next]\<rparr>"

definition rule_condition_remove :: "nat \<Rightarrow> RequestRuleGroup \<Rightarrow> RequestRuleGroup" where
  "rule_condition_remove conditionIndex grp = grp\<lparr>rg_conditions := remove_at conditionIndex (rg_conditions grp)\<rparr>"

definition rule_add_condition :: "bool \<Rightarrow> RequestRuleGroup \<Rightarrow> RequestRuleGroup" where
  "rule_add_condition timeMode grp =
     grp\<lparr>rg_conditions := rg_conditions grp @ [if timeMode then TimeC createEmptyTimeCondition else PHC createEmptyCondition]\<rparr>"

definition rule_multiplier :: "rat \<Rightarrow> RequestRuleGroup \<Rightarrow> RequestRuleGroup" where
  "rule_multiplier v grp = grp\<lparr>rg_multiplier := num_str v\<rparr>"

definition rule_group_change :: "nat \<Rightarrow> RequestRuleGroup \<Rightarrow> Editor \<Rightarrow> Editor" where
  "rule_group_change groupIndex next ed = handleRuleGroupsChange ((requestRuleGroups ed)[groupIndex := next]) ed"

definition rule_group_remove :: "nat \<Rightarrow> Editor \<Rightarrow> Editor" where
  "rule_group_remove groupIndex ed = handleRuleGroupsChange (remove_at groupIndex (requestRuleGroups ed)) ed"

definition rule_group_add :: "Editor \<Rightarrow> Editor" where
  "rule_group_add ed = handleRuleGroupsChange (requestRuleGroups ed @ [createEmptyRuleGroup]) ed"

end
