(* ===== verification/Price_Editing.thy ===== *)
theory Price_Editing
  imports Price_Editor
begin

text \<open>
  What happens to a price in the editor: opening a model whose price the editor wrote changes nothing, switching
  between the two forms of the editor and back gives the same tiers and rules, a change of the tiers is what is
  kept; and the prices and rules that opening the editor destroys.
\<close>

section \<open>Generated expressions as base expressions\<close>

lemma no_parens_append [simp]: "no_parens (v @ w) \<longleftrightarrow> no_parens v \<and> no_parens w"
  by (auto simp: no_parens_def)

lemma no_parens_concat: "(\<And>w. w \<in> set ws \<Longrightarrow> no_parens w) \<Longrightarrow> no_parens (concat ws)"
  by (auto simp: no_parens_def)

lemma num_str_no_parens: "short_decimal 20 q \<Longrightarrow> no_parens (num_str q)"
  by (rule num_syntax(1) [OF num_str_chars(1)])

lemma body_no_parens:
  assumes "clean_tier t"
  shows "no_parens (buildTierBodyExpr t)"
proof -
  have "no_parens (term_text v q)" if "(v, q) \<in> set (body_terms t)" for v q
  proof -
    have "no_parens v" using body_terms_names [OF that] by (auto simp: name_text_def no_parens_def list_all_iff is_name_char_def is_name_start_def is_digit_def)
    moreover have "no_parens (num_str q)" using assms that by (intro num_str_no_parens) (auto simp: clean_tier_def list_all_iff)
    ultimately show ?thesis by (simp add: term_text_def js_Cons no_parens_def)
  qed
  moreover obtain x xs where xs: "map (\<lambda>(v, q). term_text v q) (body_terms t) = x # xs" by (cases "body_terms t") auto
  ultimately have "no_parens y" if "y \<in> set (x # xs)" for y
    using that unfolding xs [symmetric] by auto
  then show ?thesis
    unfolding buildTierBodyExpr_def xs join_Cons by (auto simp: no_parens_def js_Cons)
qed

lemma call_depth:
  assumes "clean_tier t" "no_parens (opt_str (vt_label t))"
  shows "depth_after 0 (tier_call (opt_str (vt_label t)) t) = 0" "above 0 0 (tier_call (opt_str (vt_label t)) t)"
    "quiet (32 # 42 # l) 0 (tier_call (opt_str (vt_label t)) t) s"
proof -
  define args where "args = 34 # opt_str (vt_label t) @ 34 # 44 # 32 # buildTierBodyExpr t"
  have eq: "tier_call (opt_str (vt_label t)) t = js ''tier'' @ 40 # args @ [41]" by (simp add: tier_call_def args_def js_Cons)
  have "no_parens args" using assms(2) body_no_parens [OF assms(1)] by (auto simp: no_parens_def args_def)
  then have d: "depth_after 1 args = 1" "above 1 1 args" "above 0 1 args" by simp_all
  have tier: "no_parens (js ''tier'')" "42 \<notin> set (js ''tier'')" by (simp_all add: no_parens_def js_Cons)
  show "depth_after 0 (tier_call (opt_str (vt_label t)) t) = 0" "above 0 0 (tier_call (opt_str (vt_label t)) t)"
    unfolding eq using tier(1) d by (simp_all add: paren_step_def)
  have inside: "quiet (32 # 42 # l) 1 (args @ [41]) s"
    unfolding quiet_append using d quiet_above [OF d(2)] by (simp add: paren_step_def)
  have "quiet (32 # 42 # l) 0 (js ''tier'') ((40 # args @ [41]) @ s)" by (rule quiet_no_char [OF tier(2)]) simp
  with inside show "quiet (32 # 42 # l) 0 (tier_call (opt_str (vt_label t)) t) s"
    unfolding eq quiet_append [of _ _ "js ''tier''"] using tier(1) by (simp add: paren_step_def)
qed

lemma conditions_plain:
  assumes "list_all clean_tier_condition cs"
  shows "no_parens (buildConditionStr cs)" "42 \<notin> set (buildConditionStr cs)"
proof -
  have one: "40 \<notin> set (condition_text c) \<and> 41 \<notin> set (condition_text c) \<and> 42 \<notin> set (condition_text c)" if "clean_tier_condition c" for c
  proof -
    note c = clean_condition_parts [OF that]
    have "list_all is_cond_char (num_str (cond_number c))" by (rule num_str_cond_chars [OF c(4,5)])
    then show ?thesis unfolding c(3) using c(1,2) by (auto simp: list_all_iff is_cond_char_def is_digit_def js_Cons)
  qed
  have "40 \<notin> set (buildConditionStr cs) \<and> 41 \<notin> set (buildConditionStr cs) \<and> 42 \<notin> set (buildConditionStr cs)"
  proof (cases cs)
    case (Cons c ds)
    then show ?thesis using assms one unfolding Cons conditions_text_join [OF assms [unfolded Cons]]
      by (auto simp: cond_tail_def js_Cons list_all_iff)
  qed (simp add: buildConditionStr_def)
  then show "no_parens (buildConditionStr cs)" "42 \<notin> set (buildConditionStr cs)" by (simp_all add: no_parens_def)
qed

lemma guarded_depth:
  assumes "clean_tier t" "no_parens (opt_str (vt_label t))"
  shows "depth_after 0 (guarded_text t) = 0" "above 0 0 (guarded_text t)" "quiet (32 # 42 # l) 0 (guarded_text t) s"
proof -
  have cs: "list_all clean_tier_condition (tier_conditions t)" using assms(1) by (simp add: clean_tier_def)
  define cond where "cond = buildConditionStr (tier_conditions t) @ js '' ? ''"
  have eq: "guarded_text t = cond @ tier_call (opt_str (vt_label t)) t" by (simp add: guarded_text_def cond_def)
  have c: "no_parens cond" "42 \<notin> set cond" using conditions_plain [OF cs] by (auto simp: cond_def no_parens_def js_Cons)
  have "hd (tier_call (opt_str (vt_label t)) t @ s) \<noteq> 42" by (simp add: tier_call_def js_Cons)
  then have "quiet (32 # 42 # l) 0 cond (tier_call (opt_str (vt_label t)) t @ s)" by (intro quiet_no_char [OF c(2)]) simp
  then show "depth_after 0 (guarded_text t) = 0" "above 0 0 (guarded_text t)" "quiet (32 # 42 # l) 0 (guarded_text t) s"
    unfolding eq quiet_append using c(1) call_depth [OF assms] by simp_all
qed

lemma guarded_hd:
  assumes "clean_tier t"
  shows "hd (guarded_text t @ s) \<noteq> 42"
proof -
  have "list_all clean_tier_condition (tier_conditions t)" using assms by (simp add: clean_tier_def)
  from conditions_plain(2) [OF this] show ?thesis
    by (cases "buildConditionStr (tier_conditions t)") (auto simp: guarded_text_def js_Cons)
qed

definition fallback_tiers :: "VisualTier list \<Rightarrow> bool" where
  \<comment> \<open>editable tiers whose last one has no condition, with labels without parentheses\<close>
  "fallback_tiers ts \<longleftrightarrow> editable_tiers ts \<and> tier_conditions (last ts) = [] \<and> list_all (\<lambda>t. no_parens (opt_str (vt_label t))) ts"

lemma generated_fallback:
  assumes "fallback_tiers ts"
  shows "generateExprFromVisualConfig (Some ts) =
    join (js '' : '') (map guarded_text (butlast ts) @ [tier_call (opt_str (vt_label (last ts))) (last ts)])"
proof -
  obtain us t where ts: "ts = us @ [t]"
    using assms unfolding fallback_tiers_def editable_tiers_def clean_tiers_def by (cases ts rule: rev_cases) auto
  have us: "list_all (\<lambda>t. clean_tier t \<and> tier_conditions t \<noteq> []) us" "clean_tier t" "tier_conditions t = []"
    using assms by (auto simp: ts fallback_tiers_def editable_tiers_def clean_tiers_def list_all_iff)
  show ?thesis
  proof (cases "us = []")
    case True
    then show ?thesis using generated_single [OF us(2)] us(3) by (simp add: ts)
  next
    case False
    then show ?thesis using generated_many [OF us(1,2)] by (simp add: ts)
  qed
qed

lemma generated_depth:
  assumes "list_all (\<lambda>t. clean_tier t \<and> no_parens (opt_str (vt_label t))) (us @ [t])"
  defines "e \<equiv> join (js '' : '') (map guarded_text us @ [tier_call (opt_str (vt_label t)) t])"
  shows "depth_after 0 e = 0 \<and> above 0 0 e \<and> quiet (32 # 42 # l) 0 e s"
  using assms(1) unfolding e_def
proof (induction us arbitrary: s)
  case Nil
  then show ?case using call_depth [of t] by simp
next
  case (Cons u us)
  note prems = Cons.prems
  let ?e = "join (js '' : '') (map guarded_text us @ [tier_call (opt_str (vt_label t)) t])"
  have eq: "join (js '' : '') (map guarded_text (u # us) @ [tier_call (opt_str (vt_label t)) t]) = guarded_text u @ js '' : '' @ ?e"
    by (cases us) simp_all
  have sep: "no_parens (js '' : '')" "42 \<notin> set (js '' : '')" by (simp_all add: no_parens_def js_Cons)
  have IH: "depth_after 0 ?e = 0 \<and> above 0 0 ?e \<and> quiet (32 # 42 # l) 0 ?e s" using Cons by simp
  have "?e @ s = [] \<or> hd (?e @ s) \<noteq> 42"
  proof (cases us)
    case (Cons v vs)
    then show ?thesis using guarded_hd [of v] prems by (simp add: join_Cons)
  qed (simp add: tier_call_def js_Cons)
  then have "quiet (32 # 42 # l) 0 (js '' : '') (?e @ s)" by (intro quiet_no_char [OF sep(2)])
  then show ?case
    unfolding eq quiet_append using guarded_depth [of u] Cons.prems sep(1) IH by simp
qed

lemma fallback_clean:
  assumes "fallback_tiers ts"
  shows "list_all (\<lambda>t. clean_tier t \<and> no_parens (opt_str (vt_label t))) (butlast ts @ [last ts])" "ts = butlast ts @ [last ts]"
proof -
  have ne: "ts \<noteq> []" using assms by (simp add: fallback_tiers_def editable_tiers_def clean_tiers_def)
  then show "ts = butlast ts @ [last ts]" by simp
  then show "list_all (\<lambda>t. clean_tier t \<and> no_parens (opt_str (vt_label t))) (butlast ts @ [last ts])"
    using assms by (auto simp: fallback_tiers_def editable_tiers_def clean_tiers_def list_all_iff)
qed

lemma generated_ends:
  assumes "fallback_tiers ts"
  shows "\<exists>c w. generateExprFromVisualConfig (Some ts) = c # w @ [41] \<and> c \<in> {112, 99, 108, 116}"
proof -
  let ?call = "tier_call (opt_str (vt_label (last ts))) (last ts)"
  have us: "list_all (\<lambda>t. clean_tier t \<and> tier_conditions t \<noteq> []) (butlast ts)"
    using assms by (auto simp: fallback_tiers_def editable_tiers_def clean_tiers_def list_all_iff dest: in_set_butlastD)
  obtain v where v: "?call = 116 # v @ [41]" by (simp add: tier_call_def js_Cons)
  show ?thesis
  proof (cases "butlast ts")
    case Nil
    then show ?thesis by (simp add: generated_fallback [OF assms] v)
  next
    case (Cons u vs)
    then obtain c s where "guarded_text u = c # s" "c \<in> {112, 99, 108}" using guarded_start [of u] us by auto
    then show ?thesis unfolding generated_fallback [OF assms] Cons by (auto simp: join_Cons v)
  qed
qed

lemma generated_base_ok:
  assumes "fallback_tiers ts"
  shows "base_ok (generateExprFromVisualConfig (Some ts))"
proof -
  let ?e = "generateExprFromVisualConfig (Some ts)"
  obtain c w where e: "?e = c # w @ [41]" "c \<in> {112, 99, 108, 116}" using generated_ends [OF assms] by blast
  have "depth_after 0 ?e = 0 \<and> above 0 0 ?e"
    using generated_depth [OF fallback_clean(1) [OF assms]] unfolding generated_fallback [OF assms] by blast
  moreover have "trim ?e = ?e" using e by (intro trim_no_ws_ends) (auto simp: not_space_ascii)
  moreover have "\<not> hasFullOuterParens ?e" using e by (auto simp: hasFullOuterParens_def js_Cons)
  moreover have "\<not> endsWith ?e (js '' : 1'')"
  proof
    assume "endsWith ?e (js '' : 1'')"
    then obtain u where "?e = u @ js '' : 1''" by (metis endsWith_def append_take_drop_id)
    then have "last ?e = 49" by (simp add: js_Cons)
    then show False using e(1) by simp
  qed
  ultimately show ?thesis using e(1) by (simp add: base_ok_def)
qed

lemma split_unit:
  assumes "trim e = e" "e \<noteq> []" "quiet (32 # 42 # [32]) 0 e []"
  shows "splitBillingExprAndRequestRules e = Got \<lparr>billingExpr = e, requestRuleExpr = []\<rparr>"
proof -
  have sep: "js '' * '' = 32 # 42 # [32]" by (simp add: js_Cons)
  have "split_top (js '' * '') 0 [] e = [e]"
    using split_top_quiet [OF assms(3), of "[]"] unfolding sep by simp
  then have "splitTopLevelMultiply e = [e]" using assms(1,2) by (simp add: splitTopLevelMultiply_def)
  then show ?thesis using assms(1,2) by (simp add: splitBillingExprAndRequestRules_def)
qed

lemma split_shown:
  assumes "fallback_tiers ts" "list_all clean_group gs"
  defines "e \<equiv> generateExprFromVisualConfig (Some ts)"
  shows "split_expr (combineBillingExpr e (buildRequestRuleExpr gs)) = Some \<lparr>billingExpr = e, requestRuleExpr = buildRequestRuleExpr gs\<rparr>"
    "combineBillingExpr e (buildRequestRuleExpr gs) \<noteq> []"
proof -
  have base: "base_ok e" unfolding e_def by (rule generated_base_ok [OF assms(1)])
  then have te: "trim e = e" "e \<noteq> []" by (simp_all add: base_ok_def)
  then show "combineBillingExpr e (buildRequestRuleExpr gs) \<noteq> []" by (simp add: combineBillingExpr_def js_Cons Let_def)
  show "split_expr (combineBillingExpr e (buildRequestRuleExpr gs)) = Some \<lparr>billingExpr = e, requestRuleExpr = buildRequestRuleExpr gs\<rparr>"
  proof (cases "gs = []")
    case True
    have "quiet (32 # 42 # [32]) 0 e []"
      using generated_depth [OF fallback_clean(1) [OF assms(1)]] unfolding e_def generated_fallback [OF assms(1)] by blast
    from split_unit [OF te this] show ?thesis
      using te True by (simp add: split_expr_def combineBillingExpr_def buildRequestRuleExpr_def)
  next
    case False
    then show ?thesis using split_combined [OF base assms(2)] by (simp add: split_expr_def)
  qed
qed

section \<open>Opening a price\<close>

lemma rules_parse:
  assumes "list_all clean_group gs"
  shows "rules_or_none (buildRequestRuleExpr gs) = Some gs" "canUseVisualRules (ed\<lparr>currentRequestRuleExpr := buildRequestRuleExpr gs\<rparr>) = Some True"
  using round_trip [OF assms] by (simp_all add: rules_or_none_def canUseVisualRules_def)

definition opened :: "jstring \<Rightarrow> VisualTier list \<Rightarrow> RequestRuleGroup list \<Rightarrow> Editor" where
  \<comment> \<open>the editor at rest on tiers and rules\<close>
  "opened name ts gs =
     (let e = generateExprFromVisualConfig (Some ts); r = buildRequestRuleExpr gs in
      \<lparr>editorMode = Visual, visualConfig = Some ts, rawExpr = combineBillingExpr e r, requestRuleGroups = gs, initRef = False,
       currentExpr = e, currentRequestRuleExpr = r, modelName = name, committed = Some (e, r, name)\<rparr>)"

lemma can_use: "list_all clean_group gs \<Longrightarrow> currentRequestRuleExpr ed = buildRequestRuleExpr gs \<Longrightarrow> canUseVisualRules ed = Some True"
  using round_trip [of gs] by (simp add: canUseVisualRules_def)

lemma commits_stable: "commit ed = Some ed \<Longrightarrow> commits n ed = Some ed"
  by (induction n) simp_all

lemma opened_stable:
  assumes "list_all clean_group gs"
  shows "commit (opened name ts gs) = Some (opened name ts gs)"
  using can_use [OF assms, of "opened name ts gs"] by (simp add: commit_def effectiveExpr_def opened_def Let_def)

text \<open>
  C20: Opening a price that the editor wrote changes nothing. If a model's expression was written for editable tiers and its
  rule expression for rules the parser knows, the editor opens with exactly these tiers and rules, and however
  often its effects run, both expressions stay as they were. Comparison and containment tests of a parameter are not among these rules.
\<close>

theorem opening_keeps_price:
  assumes "editable_tiers ts" "list_all clean_group gs"
  shows "Option.bind (mount_editor name (generateExprFromVisualConfig (Some ts)) (buildRequestRuleExpr gs)) (commits (Suc n)) =
    Some (opened name ts gs)"
proof -
  let ?e = "generateExprFromVisualConfig (Some ts)" and ?r = "buildRequestRuleExpr gs"
  have ts: "tryParseVisualConfig ?e = Some ts" by (rule config_back [OF assms(1)])
  have mount: "mount_editor name ?e ?r = Some ((opened name ts gs)\<lparr>committed := None\<rparr>)"
    by (simp add: mount_editor_def rules_parse [OF assms(2)] ts opened_def Let_def)
  have "commit ((opened name ts gs)\<lparr>committed := None\<rparr>) = Some (opened name ts gs)"
    using can_use [OF assms(2), of "(opened name ts gs)\<lparr>committed := None\<rparr>"]
    by (simp add: commit_def effectiveExpr_def opened_def init_effect_def rules_parse [OF assms(2)] ts Let_def)
  then show ?thesis unfolding mount using commits_stable [OF opened_stable [OF assms(2)]] by simp
qed

theorem opening_keeps_price_witness:
  "Option.bind (mount_editor (js ''m'') (generateExprFromVisualConfig (Some sample_tiers)) (buildRequestRuleExpr sample_groups)) (commits 3) =
    Some (opened (js ''m'') sample_tiers sample_groups)"
  using opening_keeps_price [OF sample_editable sample_clean, of "js ''m''" 2] by (simp add: numeral_3_eq_3)

section \<open>Switching the form of the editor\<close>

definition opened_raw :: "jstring \<Rightarrow> VisualTier list \<Rightarrow> RequestRuleGroup list \<Rightarrow> Editor" where
  "opened_raw name ts gs = (opened name ts gs)\<lparr>editorMode := Raw\<rparr>"

lemma to_raw:
  assumes "fallback_tiers ts" "list_all clean_group gs"
  shows "handleModeChange Raw (opened name ts gs) = Some (opened_raw name ts gs)" "commit (opened_raw name ts gs) = Some (opened_raw name ts gs)"
proof -
  note sp = split_shown [OF assms]
  show "handleModeChange Raw (opened name ts gs) = Some (opened_raw name ts gs)"
    using sp(2) by (simp add: handleModeChange_def opened_raw_def opened_def Let_def str_or_def)
  show "commit (opened_raw name ts gs) = Some (opened_raw name ts gs)"
    using can_use [OF assms(2), of "opened_raw name ts gs"] sp(1)
    by (simp add: commit_def effectiveExpr_def opened_raw_def opened_def Let_def)
qed

lemma to_visual:
  assumes "fallback_tiers ts" "list_all clean_group gs"
  shows "handleModeChange Visual (opened_raw name ts gs) = Some (opened name ts gs)"
proof -
  have "tryParseVisualConfig (generateExprFromVisualConfig (Some ts)) = Some ts"
    using assms(1) by (intro config_back) (simp add: fallback_tiers_def)
  then show ?thesis
    using split_shown(1) [OF assms] by (simp add: handleModeChange_def opened_raw_def opened_def Let_def rules_parse [OF assms(2)])
qed


lemma sample_fallback: "fallback_tiers sample_tiers"
  using sample_editable by (simp add: fallback_tiers_def) (simp add: sample_tiers_def sample_conditions no_parens_def js_Cons)


section \<open>Changing the tiers\<close>

definition rested :: "jstring \<Rightarrow> VisualTier list \<Rightarrow> RequestRuleGroup list \<Rightarrow> Editor" where
  "rested name ts gs = (opened name ts gs)\<lparr>initRef := True\<rparr>"

lemma rested_stable:
  assumes "list_all clean_group gs"
  shows "commit (rested name ts gs) = Some (rested name ts gs)"
  using can_use [OF assms, of "rested name ts gs"] by (simp add: commit_def effectiveExpr_def rested_def opened_def Let_def)

lemma change_kept:
  assumes "editable_tiers ts'" "list_all clean_group gs" "generateExprFromVisualConfig (Some ts') \<noteq> generateExprFromVisualConfig (Some ts)"
  shows "commits (Suc (Suc n)) (handleVisualChange ts' (opened name ts gs)) = Some (rested name ts' gs)"
proof -
  let ?e = "generateExprFromVisualConfig (Some ts)" and ?e' = "generateExprFromVisualConfig (Some ts')" and ?r = "buildRequestRuleExpr gs"
  define ed where "ed = handleVisualChange ts' (opened name ts gs)"
  define ed1 where "ed1 = ed\<lparr>currentExpr := ?e'\<rparr>"
  have ts: "tryParseVisualConfig ?e' = Some ts'" by (rule config_back [OF assms(1)])
  have "commit ed = Some ed1"
    using can_use [OF assms(2), of ed]
    by (simp add: commit_def effectiveExpr_def ed1_def ed_def opened_def handleVisualChange_def Let_def)
  moreover have "commit ed1 = Some (rested name ts' gs)"
    using can_use [OF assms(2), of ed1] assms(3)
    by (simp add: commit_def effectiveExpr_def ed1_def ed_def opened_def rested_def handleVisualChange_def init_effect_def
        rules_parse [OF assms(2)] ts Let_def)
  ultimately show ?thesis
    using commits_stable [OF rested_stable [OF assms(2)]] by (simp add: ed_def)
qed

lemma normal_conditions: "normal_tier t \<Longrightarrow> normal_tier (t\<lparr>vt_conditions := Some cs\<rparr>)"
proof -
  let ?u = "t\<lparr>vt_conditions := Some cs\<rparr>"
  have fields: "vt_label ?u = vt_label t" "vt_conditions ?u = Some cs" "vt_input_unit_cost ?u = vt_input_unit_cost t"
    "vt_output_unit_cost ?u = vt_output_unit_cost t" "vt_cache_mode ?u = vt_cache_mode t" "vt_extra ?u = vt_extra t"
    by simp_all
  assume "normal_tier t"
  then show "normal_tier ?u" unfolding normal_tier_def fields by blast
qed

lemma default_clean: "clean_tier_condition default_condition"
  by (simp add: clean_tier_condition_def default_condition_def cond_number_def short_decimal_def)

lemma body_terms_conditions: "body_terms (t\<lparr>vt_conditions := cs\<rparr>) = body_terms t"
  by (simp add: body_terms_def)

lemma bound_last:
  assumes "clean_tier t" "normal_tier t"
  shows "clean_tier (normalizeVisualTier (t\<lparr>vt_conditions := Some [default_condition]\<rparr>))"
    "normal_tier (normalizeVisualTier (t\<lparr>vt_conditions := Some [default_condition]\<rparr>))"
    "tier_conditions (normalizeVisualTier (t\<lparr>vt_conditions := Some [default_condition]\<rparr>)) = [default_condition]"
    "opt_str (vt_label (normalizeVisualTier (t\<lparr>vt_conditions := Some [default_condition]\<rparr>))) = opt_str (vt_label t)"
proof -
  have n: "normalizeVisualTier (t\<lparr>vt_conditions := Some [default_condition]\<rparr>) = t\<lparr>vt_conditions := Some [default_condition]\<rparr>"
    by (rule normalize_normal [OF normal_conditions [OF assms(2)]])
  show "clean_tier (normalizeVisualTier (t\<lparr>vt_conditions := Some [default_condition]\<rparr>))"
    unfolding n using assms(1) by (simp add: clean_tier_def body_terms_conditions tier_conditions_def default_clean)
  show "normal_tier (normalizeVisualTier (t\<lparr>vt_conditions := Some [default_condition]\<rparr>))"
    unfolding n by (rule normal_conditions [OF assms(2)])
  show "tier_conditions (normalizeVisualTier (t\<lparr>vt_conditions := Some [default_condition]\<rparr>)) = [default_condition]"
    "opt_str (vt_label (normalizeVisualTier (t\<lparr>vt_conditions := Some [default_condition]\<rparr>))) = opt_str (vt_label t)"
    unfolding n by (simp_all add: tier_conditions_def)
qed

lemma new_tier_ok:
  "clean_tier (new_tier n)" "normal_tier (new_tier n)" "tier_conditions (new_tier n) = []" "no_parens (opt_str (vt_label (new_tier n)))"
proof -
  have eq: "new_tier n = sample_tier (js ''tier_'' @ nat_str n) [] 0 0" by (simp add: new_tier_def sample_tier_def)
  have digits: "list_all is_digit (nat_str n)" by (rule nat_str_all_digits)
  then have "list_all plain_string_char (js ''tier_'' @ nat_str n)" "no_parens (js ''tier_'' @ nat_str n)"
    by (auto simp: list_all_iff plain_string_char_def no_parens_def is_digit_def js_Cons)
  then show "clean_tier (new_tier n)" "tier_conditions (new_tier n) = []" "no_parens (opt_str (vt_label (new_tier n)))"
    unfolding eq by (simp_all add: clean_tier_def sample_terms sample_conditions short_decimal_def js_Cons)
  show "normal_tier (new_tier n)" unfolding eq by (rule sample_normal)
qed

definition added_tiers :: "VisualTier list \<Rightarrow> VisualTier list" where
  "added_tiers ts = butlast ts @ [normalizeVisualTier ((last ts)\<lparr>vt_conditions := Some [default_condition]\<rparr>), new_tier (length ts + 1)]"

lemma add_tier_ok:
  assumes "fallback_tiers ts"
  shows "handleAddTier (opened name ts gs) = handleVisualChange (added_tiers ts) (opened name ts gs)" "fallback_tiers (added_tiers ts)"
proof -
  have ts: "ts \<noteq> []" "list_all normal_tier ts" "list_all clean_tier ts" "tier_conditions (last ts) = []"
    "list_all (\<lambda>t. tier_conditions t \<noteq> []) (butlast ts)" "list_all (\<lambda>t. no_parens (opt_str (vt_label t))) ts"
    using assms by (simp_all add: fallback_tiers_def editable_tiers_def clean_tiers_def)
  have "map normalizeVisualTier ts = ts" using ts(2) by (induction ts) (simp_all add: normalize_normal)
  then have cfg: "editor_config (opened name ts gs) = ts"
    using ts(1) by (simp add: editor_config_def opened_def Let_def normalizeVisualConfig_def)
  show "handleAddTier (opened name ts gs) = handleVisualChange (added_tiers ts) (opened name ts gs)"
    using ts(1,4) by (simp add: handleAddTier_def cfg added_tiers_def Let_def)
  have last: "clean_tier (last ts)" "normal_tier (last ts)" "no_parens (opt_str (vt_label (last ts)))"
    using ts by (simp_all add: list_all_iff)
  show "fallback_tiers (added_tiers ts)"
    using ts bound_last [OF last(1,2)] last(3) new_tier_ok [of "length ts + 1"]
    unfolding fallback_tiers_def editable_tiers_def clean_tiers_def added_tiers_def
    by (auto simp: list_all_iff butlast_append dest: in_set_butlastD)
qed

lemma generate_inj:
  assumes "editable_tiers ts" "editable_tiers us" "generateExprFromVisualConfig (Some ts) = generateExprFromVisualConfig (Some us)"
  shows "ts = us"
proof -
  have "Some ts = tryParseVisualConfig (generateExprFromVisualConfig (Some us))" using config_back [OF assms(1)] unfolding assms(3) by (rule sym)
  also have "\<dots> = Some us" by (rule config_back [OF assms(2)])
  finally show ?thesis by (rule option.inject [THEN iffD1])
qed

text \<open>
  C21: Adding a tier gives a price that can be edited on. The old fallback tier gets a bound, the new tier is the fallback, the
  expression that is kept is the one of the new tiers, and the editor comes to rest on them with the rules unchanged.
\<close>

theorem added_tier_is_kept:
  assumes "fallback_tiers ts" "list_all clean_group gs"
  shows "commits (Suc (Suc n)) (handleAddTier (opened name ts gs)) = Some (rested name (added_tiers ts) gs) \<and>
    fallback_tiers (added_tiers ts)"
proof -
  note add = add_tier_ok [OF assms(1)]
  have ed: "editable_tiers ts" "editable_tiers (added_tiers ts)" using assms(1) add(2) by (simp_all add: fallback_tiers_def)
  have differ: "generateExprFromVisualConfig (Some (added_tiers ts)) \<noteq> generateExprFromVisualConfig (Some ts)"
  proof
    assume "generateExprFromVisualConfig (Some (added_tiers ts)) = generateExprFromVisualConfig (Some ts)"
    then have "length (added_tiers ts) = length ts" using generate_inj [OF ed] by simp
    then show False by (simp add: added_tiers_def)
  qed
  from change_kept [OF ed(2) assms(2) differ] show ?thesis unfolding add(1) using add(2) by simp
qed

theorem added_tier_is_kept_witness:
  "commits 2 (handleAddTier (opened (js ''m'') sample_tiers sample_groups)) = Some (rested (js ''m'') (added_tiers sample_tiers) sample_groups) \<and>
    length (added_tiers sample_tiers) = 3"
proof -
  have "length (added_tiers sample_tiers) = 3" by (simp add: added_tiers_def sample_tiers_def)
  then show ?thesis using added_tier_is_kept [OF sample_fallback sample_clean, of 0 "js ''m''"] by (simp add: numeral_2_eq_2)
qed

section \<open>Prices that opening the editor destroys\<close>

definition free_expr :: jstring where
  "free_expr = js ''p * 0 + c * 0''"

lemma generate_none: "generateExprFromVisualConfig None = free_expr"
  by (simp add: generateExprFromVisualConfig_def free_expr_def)

lemma free_base: "base_ok free_expr" "trim free_expr = free_expr"
proof -
  show t: "trim free_expr = free_expr" by (rule trim_no_ws_ends) (simp add: free_expr_def js_Cons not_space_ascii)
  moreover have "no_parens free_expr" by (simp add: free_expr_def js_Cons no_parens_def)
  moreover have "\<not> hasFullOuterParens free_expr" by (simp add: free_expr_def hasFullOuterParens_def js_Cons)
  moreover have "\<not> endsWith free_expr (js '' : 1'')" by (simp add: free_expr_def endsWith_def js_Cons)
  ultimately show "base_ok free_expr" by (simp add: base_ok_def) (simp add: free_expr_def js_Cons)
qed

lemma no_factor: "no_parens s \<Longrightarrow> trim s = s \<Longrightarrow> s \<noteq> [] \<Longrightarrow> quiet (32 # 42 # [32]) 0 s [] \<Longrightarrow> tryParseRequestRuleExpr s = Null"
proof -
  assume s: "no_parens s" "trim s = s" "s \<noteq> []" "quiet (32 # 42 # [32]) 0 s []"
  have "match_start re_factor s = None"
  proof (rule ccontr)
    assume "match_start re_factor s \<noteq> None"
    then obtain u where "s = u @ js '' : 1)''" using match_factor_end by blast
    then show False using s(1) by (simp add: no_parens_def js_Cons)
  qed
  moreover have "splitTopLevelMultiply s = [s]"
    using split_top_quiet [OF s(4), of "[]"] s(2,3) by (simp add: splitTopLevelMultiply_def js_Cons)
  ultimately show ?thesis using s(2,3) by (simp add: tryParseRequestRuleExpr_def tryParseRuleGroupFactor_def)
qed

lemma split_free: "splitBillingExprAndRequestRules free_expr = Got \<lparr>billingExpr = free_expr, requestRuleExpr = []\<rparr>"
proof -
  have parts: "splitTopLevelMultiply free_expr = map js [''p'', ''0 + c'', ''0'']"
  proof -
    have "split_top (js '' * '') 0 [] free_expr = map js [''p'', ''0 + c'', ''0'']"
      by (simp add: free_expr_def js_Cons paren_step_def Let_def)
    moreover have "trim (js ''0 + c'') = js ''0 + c''" by (rule trim_no_ws_ends) (simp add: js_Cons not_space_ascii)
    moreover have "trim (js ''p'') = js ''p''" "trim (js ''0'') = js ''0''" by (rule trim_no_ws_ends, simp add: js_Cons not_space_ascii)+
    ultimately show ?thesis by (simp add: splitTopLevelMultiply_def js_Cons)
  qed
  have "tryParseRequestRuleExpr (js w) = Null" if "w \<in> {''p'', ''0 + c'', ''0''}" for w
    by (rule no_factor) (use that in \<open>auto simp: js_Cons no_parens_def paren_step_def not_space_ascii intro!: trim_no_ws_ends\<close>)
  then have "parse_all is_rule_part (map js [''p'', ''0 + c'', ''0'']) = Got [False, False, False]"
    by (simp add: is_rule_part_def)
  moreover have "free_expr \<noteq> []" by (simp add: free_expr_def js_Cons)
  ultimately show ?thesis
    using free_base(2) by (simp add: splitBillingExprAndRequestRules_def parts del: parse_all.simps)
qed

lemma split_free_rules:
  assumes "list_all clean_group gs"
  shows "split_expr (combineBillingExpr free_expr (buildRequestRuleExpr gs)) = Some \<lparr>billingExpr = free_expr, requestRuleExpr = buildRequestRuleExpr gs\<rparr>"
proof (cases "gs = []")
  case True
  then show ?thesis using split_free free_base by (simp add: split_expr_def combineBillingExpr_def buildRequestRuleExpr_def base_ok_def)
next
  case False
  then show ?thesis using split_combined [OF free_base(1) assms] by (simp add: split_expr_def)
qed

lemma parse_free: "tryParseVisualConfig free_expr = None"
proof -
  obtain s where s: "free_expr = 112 # s" by (simp add: free_expr_def js_Cons)
  have "exec_all tierRe free_expr = []" unfolding free_expr_def by (subst exec_all.simps) (simp add: exec_free)
  moreover have "match_start re_version free_expr = None" "match_start singleRe free_expr = None"
    unfolding s by (rule version_fails, simp, rule single_fails, simp)
  ultimately show ?thesis by (simp add: tryParseVisualConfig_def s)
qed


text \<open>
  C36: Opening a price that is not written as tiers makes the model free of charge. If the expression of a model is not
  in the form of tiers, then after four renderings of the newly opened editor, with no action of the user, the kept
  expression is \<open>p * 0 + c * 0\<close>, the text shown is that expression with the rules, and the editor is at rest.
\<close>

theorem opening_zeroes_other_prices:
  assumes "tryParseVisualConfig e = None" "e \<noteq> []" "e \<noteq> free_expr" "list_all clean_group gs"
    "split_expr (combineBillingExpr e (buildRequestRuleExpr gs)) \<noteq> None"
  defines "r \<equiv> buildRequestRuleExpr gs"
  shows "Option.bind (mount_editor name e r) (commits (4 + n)) =
    Some \<lparr>editorMode = Raw, visualConfig = None, rawExpr = combineBillingExpr free_expr r, requestRuleGroups = gs, initRef = True,
      currentExpr = free_expr, currentRequestRuleExpr = r, modelName = name, committed = Some (free_expr, r, name)\<rparr>"
proof -
  obtain x where x: "split_expr (combineBillingExpr e r) = Some x" using assms(5) r_def by auto
  define ed0 where "ed0 = \<lparr>editorMode = Visual, visualConfig = None, rawExpr = combineBillingExpr e r, requestRuleGroups = gs, initRef = False,
      currentExpr = e, currentRequestRuleExpr = r, modelName = name, committed = None\<rparr>"
  define ed1 where "ed1 = ed0\<lparr>editorMode := Raw, currentExpr := free_expr, committed := Some (e, r, name)\<rparr>"
  define ed2 where "ed2 = ed1\<lparr>rawExpr := combineBillingExpr free_expr r, initRef := True, currentExpr := billingExpr x, committed := Some (free_expr, r, name)\<rparr>"
  define ed3 where "ed3 = ed2\<lparr>currentExpr := free_expr, committed := Some (billingExpr x, r, name)\<rparr>"
  define ed4 where "ed4 = ed3\<lparr>committed := Some (free_expr, r, name)\<rparr>"
  note ed = ed4_def ed3_def ed2_def ed1_def ed0_def
  have rules: "rules_or_none r = Some gs" unfolding r_def by (rule rules_parse [OF assms(4)])
  have can: "canUseVisualRules d = Some True" if "currentRequestRuleExpr d = r" for d
    using can_use [OF assms(4)] that by (simp add: r_def)
  have sp: "split_expr (combineBillingExpr free_expr r) = Some \<lparr>billingExpr = free_expr, requestRuleExpr = r\<rparr>"
    unfolding r_def by (rule split_free_rules [OF assms(4)])
  have build: "buildRequestRuleExpr gs = r" by (simp add: r_def)
  have free: "free_expr \<noteq> []" by (simp add: free_expr_def js_Cons)
  have "mount_editor name e r = Some ed0" by (simp add: mount_editor_def rules assms(1) ed0_def)
  moreover have "commit ed0 = Some ed1"
    using can [of ed0] assms(1,2) by (simp add: commit_def effectiveExpr_def init_effect_def rules generate_none build ed1_def ed0_def Let_def)
  moreover have "commit ed1 = Some ed2"
    using can [of ed1] assms(3) free
    by (simp add: commit_def effectiveExpr_def init_effect_def rules x parse_free ed2_def ed1_def ed0_def Let_def)
  moreover have "commit ed2 = Some ed3" "commit ed3 = Some ed4" "commit ed4 = Some ed4"
    using can [of ed2] can [of ed3] can [of ed4] by (simp_all add: commit_def effectiveExpr_def sp ed Let_def)
  ultimately have "Option.bind (mount_editor name e r) (commits (4 + n)) = Some ed4"
    using commits_stable [of ed4 n] by (simp add: numeral_eq_Suc)
  then show ?thesis by (simp add: ed)
qed

theorem opening_zeroes_other_prices_witness:
  "map_option currentExpr (Option.bind (mount_editor (js ''m'') (js ''max(p, c)'') (buildRequestRuleExpr [])) (commits 4)) = Some free_expr"
proof -
  let ?e = "js ''max(p, c)''"
  have trim: "trim ?e = ?e" by (rule trim_no_ws_ends) (simp add: js_Cons not_space_ascii)
  have fails: "match_at tierRe (d # x # s) = None" if "d \<in> {112, 99}" "x \<in> {44, 41}" for d x s
    using that by (auto simp: match_at_def tierRe_def condGroup_def re_cond_def re_cond_var_def re_cond_op_def re_label_body_def
        ws_match not_space_ascii js_Cons simp del: rmatch.simps(5))
  have "match_at tierRe [] = None"
    by (simp add: match_at_def tierRe_def condGroup_def re_cond_def re_cond_var_def re_label_body_def js_Cons)
  then have "find_match tierRe ?e = None" using fails tierRe_fails by (simp add: js_Cons)
  then have "exec_all tierRe ?e = []" by (subst exec_all.simps) simp
  moreover have "match_start re_version ?e = None" "match_start singleRe ?e = None"
    by (simp_all add: js_Cons version_fails single_fails)
  ultimately have "tryParseVisualConfig ?e = None" by (simp add: tryParseVisualConfig_def)
  moreover have "quiet (32 # 42 # [32]) 0 ?e []" by (rule quiet_no_char) (simp_all add: js_Cons)
  from split_unit [OF trim _ this] have "split_expr (combineBillingExpr ?e (buildRequestRuleExpr [])) \<noteq> None"
    using trim by (simp add: split_expr_def combineBillingExpr_def buildRequestRuleExpr_def js_Cons [of "CHR ''m''"])
  moreover have "?e \<noteq> free_expr" "?e \<noteq> []" by (simp_all add: free_expr_def js_Cons)
  ultimately show ?thesis using opening_zeroes_other_prices [of ?e "[]" "js ''m''" 0] by simp
qed



end
