(* ===== verification/Authz.thy ===== *)
theory Authz
  imports Js_Json
begin

text \<open>
  The permission service of the server (\<open>service/authz\<close>): the registry of resources and actions, the built-in
  roles, deciding a permission, storing the permissions of a user as overrides of the role, and loading and
  seeding the policy. \<open>updateAdminPermissionsForUserInTx\<close> is the step of the user handlers that calls it.

  A Go map that is ranged over is an association list in the order of that run. The policy engine (casbin) and the
  database (gorm) are the records \<open>Casbin\<close> and \<open>Sql\<close> of the operations the package calls; \<open>None\<close> is an error.
\<close>

section \<open>Registry\<close>

record ActionDefinition =
  ad_Action :: jstring
  ad_LabelKey :: jstring
  ad_DescriptionKey :: jstring
  ad_DefaultRoles :: "jstring list"

record ResourceDefinition =
  rd_Resource :: jstring
  rd_LabelKey :: jstring
  rd_Actions :: "ActionDefinition list"

record Permission =
  pm_Resource :: jstring
  pm_Action :: jstring

type_synonym registry = "ResourceDefinition list"

type_synonym PermissionsMap = "(jstring \<times> (jstring \<times> bool) list) list"

definition go_map :: "('k \<times> 'v) list \<Rightarrow> ('k \<times> 'v) list" where
  \<comment> \<open>a map filled by assignments in this order\<close>
  "go_map kvs = foldl (\<lambda>m kv. AList.update (fst kv) (snd kv) m) [] kvs"

definition RegisterResource :: "ResourceDefinition \<Rightarrow> registry \<Rightarrow> registry" where
  "RegisterResource resource reg = reg @ [resource]"

definition Catalog :: "registry \<Rightarrow> ResourceDefinition list" where
  "Catalog reg =
     map (\<lambda>resource. \<lparr>rd_Resource = rd_Resource resource, rd_LabelKey = rd_LabelKey resource, rd_Actions = rd_Actions resource\<rparr>) reg"

definition AllPermissions :: "registry \<Rightarrow> Permission list" where
  "AllPermissions reg =
     concat (map (\<lambda>resource. map (\<lambda>action. \<lparr>pm_Resource = rd_Resource resource, pm_Action = ad_Action action\<rparr>) (rd_Actions resource)) reg)"

definition actionHasRole :: "ActionDefinition \<Rightarrow> jstring \<Rightarrow> bool" where
  "actionHasRole action roleKey = list_ex (\<lambda>r. r = roleKey) (ad_DefaultRoles action)"

definition PermissionsForRole :: "registry \<Rightarrow> jstring \<Rightarrow> Permission list" where
  "PermissionsForRole reg roleKey =
     concat (map (\<lambda>resource.
       map (\<lambda>action. \<lparr>pm_Resource = rd_Resource resource, pm_Action = ad_Action action\<rparr>)
         (filter (\<lambda>action. actionHasRole action roleKey) (rd_Actions resource))) reg)"

definition isKnownResource :: "registry \<Rightarrow> jstring \<Rightarrow> bool" where
  "isKnownResource reg resource = list_ex (\<lambda>known. rd_Resource known = resource) reg"

definition catalogActions :: "registry \<Rightarrow> jstring \<Rightarrow> ActionDefinition list" where
  "catalogActions reg resource =
     (case find (\<lambda>known. rd_Resource known = resource) reg of Some known \<Rightarrow> rd_Actions known | None \<Rightarrow> [])"

definition isKnownPermission :: "registry \<Rightarrow> Permission \<Rightarrow> bool" where
  "isKnownPermission reg permission =
     list_ex (\<lambda>resource. rd_Resource resource = pm_Resource permission \<and>
       list_ex (\<lambda>action. ad_Action action = pm_Action permission) (rd_Actions resource)) reg"

section \<open>Roles\<close>

definition BuiltInRoleRoot :: jstring where "BuiltInRoleRoot = js ''root''"
definition BuiltInRoleAdmin :: jstring where "BuiltInRoleAdmin = js ''admin''"
definition managedRoleKey :: jstring where "managedRoleKey = BuiltInRoleAdmin"

definition RoleCommonUser :: int where "RoleCommonUser = 1"
definition RoleAdminUser :: int where "RoleAdminUser = 10"
definition RoleRootUser :: int where "RoleRootUser = 100"

record RoleSpec =
  rs_Key :: jstring
  rs_Name :: jstring
  rs_Description :: jstring
  rs_BuiltIn :: bool
  rs_Superuser :: bool
  rs_Sort :: int

definition builtInRoles :: "RoleSpec list" where
  "builtInRoles =
     [\<lparr>rs_Key = BuiltInRoleRoot, rs_Name = js ''Root'', rs_Description = js ''Built-in root authorization role'',
       rs_BuiltIn = True, rs_Superuser = True, rs_Sort = 0\<rparr>,
      \<lparr>rs_Key = BuiltInRoleAdmin, rs_Name = js ''Admin'', rs_Description = js ''Built-in admin authorization role'',
       rs_BuiltIn = True, rs_Superuser = False, rs_Sort = 10\<rparr>]"

record RoleDescriptor =
  rl_Key :: jstring
  rl_Name :: jstring
  rl_BuiltIn :: bool
  rl_Superuser :: bool
  rl_Grants :: PermissionsMap

definition roleGrants :: "registry \<Rightarrow> RoleSpec \<Rightarrow> PermissionsMap" where
  "roleGrants reg spec =
     go_map (map (\<lambda>resource. (rd_Resource resource,
       go_map (map (\<lambda>action. (ad_Action action, rs_Superuser spec \<or> actionHasRole action (rs_Key spec))) (rd_Actions resource)))) reg)"

definition Roles :: "registry \<Rightarrow> RoleDescriptor list" where
  "Roles reg =
     map (\<lambda>spec. \<lparr>rl_Key = rs_Key spec, rl_Name = rs_Name spec, rl_BuiltIn = rs_BuiltIn spec,
       rl_Superuser = rs_Superuser spec, rl_Grants = roleGrants reg spec\<rparr>) builtInRoles"

definition roleSpec :: "jstring \<Rightarrow> RoleSpec option" where
  "roleSpec roleKey = find (\<lambda>spec. rs_Key spec = roleKey) builtInRoles"

definition isSuperuserRole :: "jstring \<Rightarrow> bool" where
  "isSuperuserRole roleKey = (case roleSpec roleKey of Some spec \<Rightarrow> rs_Superuser spec | None \<Rightarrow> False)"

definition resolveSubjectRoles :: "int \<Rightarrow> int \<Rightarrow> jstring list" where
  "resolveSubjectRoles userID systemRole =
     (if RoleRootUser \<le> systemRole then [BuiltInRoleRoot]
      else if RoleAdminUser \<le> systemRole then [BuiltInRoleAdmin] else [])"

section \<open>Engine and database\<close>

definition EffectAllow :: jstring where "EffectAllow = js ''allow''"
definition EffectDeny :: jstring where "EffectDeny = js ''deny''"

definition UserSubject :: "int \<Rightarrow> jstring" where
  "UserSubject userID = js ''user:'' @ int_str userID"

definition RoleSubject :: "jstring \<Rightarrow> jstring" where
  "RoleSubject roleKey = js ''role:'' @ roleKey"

type_synonym policy = "jstring list"

record CasbinRule =
  Ptype :: jstring
  V0 :: jstring
  V1 :: jstring
  V2 :: jstring
  V3 :: jstring
  V4 :: jstring
  V5 :: jstring

record AuthzRole =
  ar_Key :: jstring
  ar_Name :: jstring
  ar_Description :: jstring
  ar_BuiltIn :: bool
  ar_Enabled :: bool
  ar_Sort :: int

record 'd Sql =
  DeleteWhere :: "'d \<Rightarrow> (CasbinRule \<Rightarrow> bool) \<Rightarrow> 'd option"
  CreateIgnore :: "'d \<Rightarrow> CasbinRule list \<Rightarrow> 'd option"
    \<comment> \<open>\<open>Clauses(clause.OnConflict{DoNothing: true}).Create\<close>\<close>
  CountWhere :: "'d \<Rightarrow> (CasbinRule \<Rightarrow> bool) \<Rightarrow> nat option"
  FindOrdered :: "'d \<Rightarrow> CasbinRule list option"
    \<comment> \<open>\<open>Order("id asc").Find\<close>\<close>
  UpsertRole :: "'d \<Rightarrow> AuthzRole \<Rightarrow> 'd option"

record ('e, 'd) Casbin =
  GetFilteredPolicy :: "'e \<Rightarrow> nat \<Rightarrow> jstring list \<Rightarrow> policy list option"
  AddPolicy :: "('d \<Rightarrow> policy \<Rightarrow> 'd option) \<Rightarrow> 'e \<times> 'd \<Rightarrow> policy \<Rightarrow> ('e \<times> 'd) option"
    \<comment> \<open>with automatic saving through the adapter, which is the first argument\<close>
  RemoveFilteredPolicy :: "('d \<Rightarrow> nat \<Rightarrow> jstring list \<Rightarrow> 'd option) \<Rightarrow> 'e \<times> 'd \<Rightarrow> nat \<Rightarrow> jstring list \<Rightarrow> ('e \<times> 'd) option"
  NewModel :: 'e
  LoadPolicyLine :: "jstring \<Rightarrow> 'e \<Rightarrow> 'e option"

section \<open>Adapter\<close>

definition newRule :: "jstring \<Rightarrow> policy \<Rightarrow> CasbinRule" where
  "newRule ptype policy =
     (let value = (\<lambda>idx. if idx < length policy then policy ! idx else []) in
      \<lparr>Ptype = ptype, V0 = value 0, V1 = value 1, V2 = value 2, V3 = value 3, V4 = value 4, V5 = value 5\<rparr>)"

definition ruleToLine :: "CasbinRule \<Rightarrow> jstring" where
  "ruleToLine rule =
     (let v3 = (if Ptype rule = js ''p'' \<and> V0 rule \<noteq> [] \<and> V1 rule \<noteq> [] \<and> V2 rule \<noteq> [] \<and> V3 rule = [] then EffectAllow else V3 rule);
          values = [V0 rule, V1 rule, V2 rule, v3, V4 rule, V5 rule] in
      join (js '', '') (Ptype rule # filter (\<lambda>value. value \<noteq> []) values))"

definition rule_value :: "nat \<Rightarrow> CasbinRule \<Rightarrow> jstring" where
  \<comment> \<open>the column \<open>"v" + string(rune('0' + idx))\<close>\<close>
  "rule_value idx rule = [V0 rule, V1 rule, V2 rule, V3 rule, V4 rule, V5 rule] ! idx"

definition ruleQuery :: "jstring \<Rightarrow> policy \<Rightarrow> CasbinRule \<Rightarrow> bool" where
  "ruleQuery ptype rule row =
     (Ptype row = ptype \<and>
      list_all (\<lambda>idx. rule_value idx row = (if idx < length rule then rule ! idx else [])) [0..<6])"

definition adapter_LoadPolicy :: "('e, 'd) Casbin \<Rightarrow> 'd Sql \<Rightarrow> 'd \<Rightarrow> 'e \<Rightarrow> 'e option" where
  "adapter_LoadPolicy c s d m =
     (case FindOrdered s d of None \<Rightarrow> None
      | Some rules \<Rightarrow> foldl (\<lambda>m rule. Option.bind m (LoadPolicyLine c (ruleToLine rule))) (Some m) rules)"

definition adapter_AddPolicy :: "'d Sql \<Rightarrow> 'd \<Rightarrow> policy \<Rightarrow> 'd option" where
  "adapter_AddPolicy s d rule =
     (case CountWhere s d (ruleQuery (js ''p'') rule) of None \<Rightarrow> None
      | Some n \<Rightarrow> if 0 < n then Some d else CreateIgnore s d [newRule (js ''p'') rule])"

definition adapter_RemovePolicy :: "'d Sql \<Rightarrow> 'd \<Rightarrow> policy \<Rightarrow> 'd option" where
  "adapter_RemovePolicy s d rule = DeleteWhere s d (ruleQuery (js ''p'') rule)"

definition adapter_RemoveFilteredPolicy :: "'d Sql \<Rightarrow> 'd \<Rightarrow> nat \<Rightarrow> jstring list \<Rightarrow> 'd option" where
  "adapter_RemoveFilteredPolicy s d fieldIndex fieldValues =
     DeleteWhere s d (\<lambda>row. Ptype row = js ''p'' \<and>
       list_all (\<lambda>i. fieldValues ! i = [] \<or> rule_value (fieldIndex + i) row = fieldValues ! i) [0..<length fieldValues])"

section \<open>Decisions\<close>

definition policyEffect :: "policy \<Rightarrow> jstring" where
  "policyEffect policy = (if length policy < 4 \<or> policy ! 3 = [] then EffectAllow else policy ! 3)"

fun effect_of :: "bool \<Rightarrow> policy list \<Rightarrow> jstring option" where
  "effect_of hasAllow [] = (if hasAllow then Some EffectAllow else None)"
| "effect_of hasAllow (policy # policies) =
     (if policyEffect policy = EffectDeny then Some EffectDeny
      else effect_of (hasAllow \<or> policyEffect policy = EffectAllow) policies)"

definition explicitSubjectEffect :: "('e, 'd) Casbin \<Rightarrow> 'e \<Rightarrow> jstring \<Rightarrow> Permission \<Rightarrow> jstring option" where
  "explicitSubjectEffect c e subject permission =
     (case GetFilteredPolicy c e 0 [subject, pm_Resource permission, pm_Action permission] of
        None \<Rightarrow> None | Some policies \<Rightarrow> effect_of False policies)"

definition roleBaselineAllows :: "('e, 'd) Casbin \<Rightarrow> 'e \<Rightarrow> jstring \<Rightarrow> Permission \<Rightarrow> bool" where
  "roleBaselineAllows c e roleKey permission = (explicitSubjectEffect c e (RoleSubject roleKey) permission = Some EffectAllow)"

definition Can :: "registry \<Rightarrow> ('e, 'd) Casbin \<Rightarrow> 'e option \<Rightarrow> int \<Rightarrow> int \<Rightarrow> Permission \<Rightarrow> bool" where
  "Can reg c enforcer userID systemRole permission =
     (let roles = resolveSubjectRoles userID systemRole in
      if roles = [] then False
      else if list_ex isSuperuserRole roles then True
      else if \<not> isKnownPermission reg permission then False
      else
        (case enforcer of None \<Rightarrow> False
         | Some e \<Rightarrow>
             (case explicitSubjectEffect c e (UserSubject userID) permission of
                Some effect \<Rightarrow> effect = EffectAllow
              | None \<Rightarrow> list_ex (\<lambda>role. roleBaselineAllows c e role permission) roles)))"

definition Capabilities :: "registry \<Rightarrow> ('e, 'd) Casbin \<Rightarrow> 'e option \<Rightarrow> int \<Rightarrow> int \<Rightarrow> PermissionsMap" where
  "Capabilities reg c enforcer userID systemRole =
     go_map (map (\<lambda>resource. (rd_Resource resource,
       go_map (map (\<lambda>action. (ad_Action action,
         Can reg c enforcer userID systemRole \<lparr>pm_Resource = rd_Resource resource, pm_Action = ad_Action action\<rparr>))
         (rd_Actions resource)))) reg)"

definition ExplicitUserPermissions :: "registry \<Rightarrow> ('e, 'd) Casbin \<Rightarrow> 'e option \<Rightarrow> int \<Rightarrow> PermissionsMap" where
  "ExplicitUserPermissions reg c enforcer userID = Capabilities reg c enforcer userID RoleAdminUser"

section \<open>Storing the permissions of a user\<close>

record overridePolicy =
  op_Resource :: jstring
  op_Action :: jstring
  op_Effect :: jstring

definition override_entry :: "('e, 'd) Casbin \<Rightarrow> 'e \<Rightarrow> jstring \<Rightarrow> (jstring \<times> bool) list \<Rightarrow> ActionDefinition \<Rightarrow> overridePolicy option" where
  \<comment> \<open>the body of the loop: an entry where the wanted value differs from the role\<close>
  "override_entry c e resource actions action =
     (case map_of actions (ad_Action action) of None \<Rightarrow> None
      | Some desired \<Rightarrow>
          if desired = roleBaselineAllows c e managedRoleKey \<lparr>pm_Resource = resource, pm_Action = ad_Action action\<rparr> then None
          else Some \<lparr>op_Resource = resource, op_Action = ad_Action action,
                     op_Effect = (if desired then EffectAllow else EffectDeny)\<rparr>)"

definition userOverridePolicies :: "registry \<Rightarrow> ('e, 'd) Casbin \<Rightarrow> 'e \<Rightarrow> jstring \<Rightarrow> (jstring \<times> bool) list \<Rightarrow> overridePolicy list" where
  "userOverridePolicies reg c e resource actions =
     js_sort (\<lambda>a b. code_unit_compare (op_Action a) (op_Action b))
       (List.map_filter (override_entry c e resource actions) (catalogActions reg resource))"

definition override_line :: "int \<Rightarrow> overridePolicy \<Rightarrow> policy" where
  "override_line userID policy = [UserSubject userID, op_Resource policy, op_Action policy, op_Effect policy]"

fun add_policies :: "('e, 'd) Casbin \<Rightarrow> 'd Sql \<Rightarrow> 'e \<times> 'd \<Rightarrow> policy list \<Rightarrow> ('e \<times> 'd) option" where
  "add_policies c s st [] = Some st"
| "add_policies c s st (p # ps) =
     (case AddPolicy c (adapter_AddPolicy s) st p of None \<Rightarrow> None | Some st' \<Rightarrow> add_policies c s st' ps)"

fun SetUserPermissions :: "registry \<Rightarrow> ('e, 'd) Casbin \<Rightarrow> 'd Sql \<Rightarrow> ('e \<times> 'd) option \<Rightarrow> int \<Rightarrow> PermissionsMap \<Rightarrow> ('e \<times> 'd) option" where
  "SetUserPermissions reg c s None userID permissions = None"
| "SetUserPermissions reg c s (Some st) userID [] = Some st"
| "SetUserPermissions reg c s (Some st) userID ((resource, actions) # permissions) =
     (if \<not> isKnownResource reg resource then SetUserPermissions reg c s (Some st) userID permissions
      else
        (case RemoveFilteredPolicy c (adapter_RemoveFilteredPolicy s) st 0 [UserSubject userID, resource] of None \<Rightarrow> None
         | Some st1 \<Rightarrow>
             SetUserPermissions reg c s
               (add_policies c s st1 (map (override_line userID) (userOverridePolicies reg c (fst st1) resource actions)))
               userID permissions))"

definition user_rows :: "int \<Rightarrow> jstring \<Rightarrow> CasbinRule \<Rightarrow> bool" where
  \<comment> \<open>\<open>ptype = 'p' AND v0 = UserSubject(userID) AND v1 = resource\<close>\<close>
  "user_rows userID resource row = (Ptype row = js ''p'' \<and> V0 row = UserSubject userID \<and> V1 row = resource)"

fun SetUserPermissionsInTx :: "registry \<Rightarrow> ('e, 'd) Casbin \<Rightarrow> 'd Sql \<Rightarrow> 'e option \<Rightarrow> 'd \<Rightarrow> int \<Rightarrow> PermissionsMap \<Rightarrow> 'd option" where
  "SetUserPermissionsInTx reg c s None tx userID permissions = None"
| "SetUserPermissionsInTx reg c s (Some e) tx userID [] = Some tx"
| "SetUserPermissionsInTx reg c s (Some e) tx userID ((resource, actions) # permissions) =
     (if \<not> isKnownResource reg resource then SetUserPermissionsInTx reg c s (Some e) tx userID permissions
      else
        (case DeleteWhere s tx (user_rows userID resource) of None \<Rightarrow> None
         | Some tx1 \<Rightarrow>
             (let policies = userOverridePolicies reg c e resource actions in
              if policies = [] then SetUserPermissionsInTx reg c s (Some e) tx1 userID permissions
              else
                (case CreateIgnore s tx1 (map (\<lambda>policy. newRule (js ''p'') (override_line userID policy)) policies) of None \<Rightarrow> None
                 | Some tx2 \<Rightarrow> SetUserPermissionsInTx reg c s (Some e) tx2 userID permissions))))"

fun ClearUserPermissionsInTx :: "registry \<Rightarrow> 'd Sql \<Rightarrow> 'd \<Rightarrow> int \<Rightarrow> 'd option" where
  "ClearUserPermissionsInTx [] s tx userID = Some tx"
| "ClearUserPermissionsInTx (resource # reg) s tx userID =
     (case DeleteWhere s tx (user_rows userID (rd_Resource resource)) of None \<Rightarrow> None
      | Some tx' \<Rightarrow> ClearUserPermissionsInTx reg s tx' userID)"

fun ClearUserPermissions :: "registry \<Rightarrow> ('e, 'd) Casbin \<Rightarrow> 'd Sql \<Rightarrow> ('e \<times> 'd) option \<Rightarrow> int \<Rightarrow> ('e \<times> 'd) option" where
  "ClearUserPermissions reg c s None userID = None"
| "ClearUserPermissions [] c s (Some st) userID = Some st"
| "ClearUserPermissions (resource # reg) c s (Some st) userID =
     ClearUserPermissions reg c s
       (RemoveFilteredPolicy c (adapter_RemoveFilteredPolicy s) st 0 [UserSubject userID, rd_Resource resource]) userID"

definition override_value :: "registry \<Rightarrow> policy \<Rightarrow> (jstring \<times> bool) option" where
  "override_value reg policy =
     (if 3 \<le> length policy \<and> isKnownPermission reg \<lparr>pm_Resource = policy ! 1, pm_Action = policy ! 2\<rparr> \<and>
         (policyEffect policy = EffectAllow \<or> policyEffect policy = EffectDeny)
      then Some (policy ! 2, policyEffect policy = EffectAllow) else None)"

definition ExplicitUserOverrides :: "registry \<Rightarrow> ('e, 'd) Casbin \<Rightarrow> 'e option \<Rightarrow> int \<Rightarrow> PermissionsMap" where
  "ExplicitUserOverrides reg c enforcer userID =
     (case enforcer of None \<Rightarrow> []
      | Some e \<Rightarrow>
          (let policies = (\<lambda>resource. GetFilteredPolicy c e 0 [UserSubject userID, rd_Resource resource]) in
           if list_ex (\<lambda>resource. policies resource = None) reg then []
           else go_map (filter (\<lambda>kv. snd kv \<noteq> [])
             (map (\<lambda>resource. (rd_Resource resource, go_map (List.map_filter (override_value reg) (the (policies resource))))) reg))))"

definition updateAdminPermissionsForUserInTx ::
  "registry \<Rightarrow> ('e, 'd) Casbin \<Rightarrow> 'd Sql \<Rightarrow> 'e option \<Rightarrow> int \<Rightarrow> 'd \<Rightarrow> int \<Rightarrow> int \<Rightarrow> PermissionsMap option \<Rightarrow> (bool \<times> 'd) option" where
  "updateAdminPermissionsForUserInTx reg c s enforcer callerRole tx userID userRole permissions =
     (case permissions of
        None \<Rightarrow>
          if userRole < RoleAdminUser \<and> callerRole = RoleRootUser
          then map_option (Pair True) (ClearUserPermissionsInTx reg s tx userID) else Some (False, tx)
      | Some perms \<Rightarrow>
          if callerRole \<noteq> RoleRootUser then None
          else if userRole < RoleAdminUser then map_option (Pair True) (ClearUserPermissionsInTx reg s tx userID)
          else map_option (Pair True) (SetUserPermissionsInTx reg c s enforcer tx userID perms))"

section \<open>Start and reload\<close>

fun seedBuiltInRoles :: "'d Sql \<Rightarrow> 'd \<Rightarrow> RoleSpec list \<Rightarrow> 'd option" where
  "seedBuiltInRoles s d [] = Some d"
| "seedBuiltInRoles s d (spec # specs) =
     (case UpsertRole s d \<lparr>ar_Key = rs_Key spec, ar_Name = rs_Name spec, ar_Description = rs_Description spec,
        ar_BuiltIn = rs_BuiltIn spec, ar_Enabled = True, ar_Sort = rs_Sort spec\<rparr> of None \<Rightarrow> None
      | Some d' \<Rightarrow> seedBuiltInRoles s d' specs)"

definition resetBuiltInRolePolicies :: "'d Sql \<Rightarrow> 'd \<Rightarrow> 'd option" where
  "resetBuiltInRolePolicies s d =
     DeleteWhere s d (\<lambda>row. Ptype row = js ''p'' \<and> V0 row \<in> set (map (\<lambda>spec. RoleSubject (rs_Key spec)) builtInRoles))"

fun seedDefaultPolicies :: "registry \<Rightarrow> ('e, 'd) Casbin \<Rightarrow> 'd Sql \<Rightarrow> 'e \<times> 'd \<Rightarrow> RoleSpec list \<Rightarrow> ('e \<times> 'd) option" where
  "seedDefaultPolicies reg c s st [] = Some st"
| "seedDefaultPolicies reg c s st (spec # specs) =
     (if rs_Superuser spec then seedDefaultPolicies reg c s st specs
      else
        (case add_policies c s st
             (map (\<lambda>permission. [RoleSubject (rs_Key spec), pm_Resource permission, pm_Action permission, EffectAllow])
               (PermissionsForRole reg (rs_Key spec))) of None \<Rightarrow> None
         | Some st' \<Rightarrow> seedDefaultPolicies reg c s st' specs))"

definition Init :: "registry \<Rightarrow> ('e, 'd) Casbin \<Rightarrow> 'd Sql \<Rightarrow> bool \<Rightarrow> 'd \<Rightarrow> ('e \<times> 'd) option" where
  "Init reg c s isMasterNode d =
     (case (if isMasterNode then Option.bind (seedBuiltInRoles s d builtInRoles) (resetBuiltInRolePolicies s) else Some d) of None \<Rightarrow> None
      | Some d1 \<Rightarrow>
          (case adapter_LoadPolicy c s d1 (NewModel c) of None \<Rightarrow> None
           | Some e \<Rightarrow> if isMasterNode then seedDefaultPolicies reg c s (e, d1) builtInRoles else Some (e, d1)))"

definition ReloadPolicy :: "('e, 'd) Casbin \<Rightarrow> 'd Sql \<Rightarrow> 'e option \<Rightarrow> 'd \<Rightarrow> 'e option" where
  "ReloadPolicy c s enforcer d = (case enforcer of None \<Rightarrow> None | Some e \<Rightarrow> adapter_LoadPolicy c s d (NewModel c))"

section \<open>The registered resources\<close>

definition channel_resource :: ResourceDefinition where
  "channel_resource =
     \<lparr>rd_Resource = js ''channel'', rd_LabelKey = js ''Channel Management'',
      rd_Actions =
       [\<lparr>ad_Action = js ''read'', ad_LabelKey = js ''Read channels'',
         ad_DescriptionKey = js ''View channel lists and details without secrets.'', ad_DefaultRoles = [BuiltInRoleAdmin]\<rparr>,
        \<lparr>ad_Action = js ''operate'', ad_LabelKey = js ''Operate channels'',
         ad_DescriptionKey = js ''Test channels, refresh balances, and enable/disable individual, batch, or tagged channels.'',
         ad_DefaultRoles = [BuiltInRoleAdmin]\<rparr>,
        \<lparr>ad_Action = js ''write'', ad_LabelKey = js ''Edit channel routing'',
         ad_DescriptionKey = js ''Edit non-sensitive settings such as models, groups, and routing rules.'',
         ad_DefaultRoles = [BuiltInRoleAdmin]\<rparr>,
        \<lparr>ad_Action = js ''sensitive_write'', ad_LabelKey = js ''Edit sensitive channel settings'',
         ad_DescriptionKey = js ''Create channels or edit keys, base URLs, and overrides.'', ad_DefaultRoles = []\<rparr>,
        \<lparr>ad_Action = js ''secret_view'', ad_LabelKey = js ''View channel secrets'',
         ad_DescriptionKey = js ''Reserved for viewing complete channel keys after secure verification.'', ad_DefaultRoles = []\<rparr>]\<rparr>"

definition registered :: registry where
  \<comment> \<open>the registry after the package's \<open>init\<close>\<close>
  "registered = RegisterResource channel_resource []"

end
