(* ===== verification/Authz_Store.thy ===== *)
theory Authz_Store
  imports Authz
begin

text \<open>
  What the permission service relies on in the policy engine and in the database, and what it keeps in them. The
  documented behaviour of both is stated over the set of policies the engine holds and over the rows of the table.
  \<open>authz_run\<close> are the states of a master node, reached by starting, saving, reloading and restarting in any order;
  in all of them the table and the engine hold the grants of the role and overrides of them, nothing else.
\<close>

section \<open>Documented behaviour\<close>

definition field_match :: "nat \<Rightarrow> jstring list \<Rightarrow> policy \<Rightarrow> bool" where
  \<comment> \<open>field filters of the engine; an empty value matches everything\<close>
  "field_match i fs p = list_all (\<lambda>j. fs ! j = [] \<or> p ! (i + j) = fs ! j) [0..<length fs]"

definition held :: "('e, 'd) Casbin \<Rightarrow> 'e \<Rightarrow> policy set" where
  "held c e = (case GetFilteredPolicy c e 0 [] of Some ps \<Rightarrow> set ps | None \<Rightarrow> {})"

definition plain_field :: "jstring \<Rightarrow> bool" where
  \<comment> \<open>letters, digits and some marks, which need no quoting in a line of comma separated values\<close>
  "plain_field w \<longleftrightarrow> w \<noteq> [] \<and>
     list_all (\<lambda>c. is_digit c \<or> 97 \<le> c \<and> c \<le> 122 \<or> 65 \<le> c \<and> c \<le> 90 \<or> c = 58 \<or> c = 95 \<or> c = 45) w"

definition casbin_documented :: "('e, 'd) Casbin \<Rightarrow> bool" where
  "casbin_documented c \<longleftrightarrow>
     (\<forall>e i fs. \<exists>ps. GetFilteredPolicy c e i fs = Some ps \<and> set ps = {p \<in> held c e. field_match i fs p}) \<and>
     (\<forall>save e d p e' d'. AddPolicy c save (e, d) p = Some (e', d') \<longrightarrow>
        held c e' = insert p (held c e) \<and> (if p \<in> held c e then d' = d else save d p = Some d')) \<and>
     (\<forall>del e d i fs e' d'. RemoveFilteredPolicy c del (e, d) i fs = Some (e', d') \<longrightarrow>
        held c e' = {p \<in> held c e. \<not> field_match i fs p} \<and> del d i fs = Some d') \<and>
     held c (NewModel c) = {} \<and>
     (\<forall>e p. list_all plain_field p \<and> length p = 4 \<longrightarrow>
        (\<exists>e'. LoadPolicyLine c (join (js '', '') (js ''p'' # p)) e = Some e' \<and> held c e' = insert p (held c e)))"

definition insert_new :: "'a list \<Rightarrow> 'a list \<Rightarrow> 'a list" where
  \<comment> \<open>inserting rows into a table with a unique index over all columns, ignoring conflicts\<close>
  "insert_new rows rs = foldl (\<lambda>rows r. if r \<in> set rows then rows else rows @ [r]) rows rs"

definition sql_documented :: "'d Sql \<Rightarrow> bool" where
  "sql_documented s \<longleftrightarrow>
     (\<forall>d rows P d'. FindOrdered s d = Some rows \<and> DeleteWhere s d P = Some d' \<longrightarrow> FindOrdered s d' = Some (filter (\<lambda>r. \<not> P r) rows)) \<and>
     (\<forall>d rows rs d'. FindOrdered s d = Some rows \<and> CreateIgnore s d rs = Some d' \<longrightarrow> FindOrdered s d' = Some (insert_new rows rs)) \<and>
     (\<forall>d rows P n. FindOrdered s d = Some rows \<and> CountWhere s d P = Some n \<longrightarrow> n = length (filter P rows)) \<and>
     (\<forall>d rows role d'. FindOrdered s d = Some rows \<and> UpsertRole s d role = Some d' \<longrightarrow> FindOrdered s d' = Some rows)"

lemma casbin_get:
  assumes "casbin_documented c"
  obtains ps where "GetFilteredPolicy c e i fs = Some ps" "set ps = {p \<in> held c e. field_match i fs p}"
  using conjunct1 [OF assms [unfolded casbin_documented_def], rule_format, of e i fs] by blast

lemma casbin_add:
  assumes "casbin_documented c" "AddPolicy c save (e, d) p = Some (e', d')"
  shows "held c e' = insert p (held c e)" "if p \<in> held c e then d' = d else save d p = Some d'"
  using conjunct1 [OF conjunct2 [OF assms(1) [unfolded casbin_documented_def]], rule_format, OF assms(2)] by blast+

lemma casbin_remove:
  assumes "casbin_documented c" "RemoveFilteredPolicy c del (e, d) i fs = Some (e', d')"
  shows "held c e' = {p \<in> held c e. \<not> field_match i fs p}" "del d i fs = Some d'"
  using conjunct1 [OF conjunct2 [OF conjunct2 [OF assms(1) [unfolded casbin_documented_def]]], rule_format, OF assms(2)] by blast+

lemma casbin_new: "casbin_documented c \<Longrightarrow> held c (NewModel c) = {}"
  unfolding casbin_documented_def by (elim conjE)

lemma casbin_load:
  assumes "casbin_documented c" "list_all plain_field p" "length p = 4"
  obtains e' where "LoadPolicyLine c (join (js '', '') (js ''p'' # p)) e = Some e'" "held c e' = insert p (held c e)"
  using conjunct2 [OF conjunct2 [OF conjunct2 [OF conjunct2 [OF assms(1) [unfolded casbin_documented_def]]]], rule_format, of p e] assms(2,3) by blast

section \<open>Helpers\<close>

lemma map_of_go_map: "map_of (go_map kvs) = map_of (rev kvs)"
proof -
  have "map_of (foldl (\<lambda>m kv. AList.update (fst kv) (snd kv) m) m kvs) = map_of (rev kvs @ m)" for m :: "('a \<times> 'b) list"
    by (induction kvs arbitrary: m) (auto simp: update_conv' split: prod.splits)
  from this [of "[]"] show ?thesis by (simp add: go_map_def)
qed

lemma update_new_key: "k \<notin> fst ` set m \<Longrightarrow> AList.update k v m = m @ [(k, v)]"
  by (induction m) auto

lemma go_map_distinct_id: "distinct (map fst kvs) \<Longrightarrow> go_map kvs = kvs"
proof -
  have "distinct (map fst (m @ kvs)) \<Longrightarrow> foldl (\<lambda>m kv. AList.update (fst kv) (snd kv) m) m kvs = m @ kvs" for m :: "('a \<times> 'b) list"
  proof (induction kvs arbitrary: m)
    case (Cons kv kvs)
    have "AList.update (fst kv) (snd kv) m = m @ [kv]"
      using Cons.prems by (simp add: update_new_key)
    then show ?case using Cons by simp
  qed simp
  from this [of "[]"] show "distinct (map fst kvs) \<Longrightarrow> go_map kvs = kvs" by (simp add: go_map_def)
qed

lemma set_insert_new [simp]: "set (insert_new rows rs) = set rows \<union> set rs"
  unfolding insert_new_def by (induction rs arbitrary: rows) auto

lemma int_str_inject [simp]: "int_str m = int_str n \<longleftrightarrow> m = n"
proof
  assume "int_str m = int_str n"
  then have "json_number (int_str m) = json_number (int_str n)" by simp
  then show "m = n" by (simp add: json_number_int)
qed simp

lemma UserSubject_inject [simp]: "UserSubject m = UserSubject n \<longleftrightarrow> m = n"
  by (simp add: UserSubject_def)

lemma UserSubject_not_RoleSubject [simp]: "UserSubject n \<noteq> RoleSubject k" "RoleSubject k \<noteq> UserSubject n"
  by (simp_all add: UserSubject_def RoleSubject_def js_Cons)

lemma RoleSubject_inject [simp]: "RoleSubject j = RoleSubject k \<longleftrightarrow> j = k"
  by (simp add: RoleSubject_def)

lemma effects_differ [simp]: "EffectAllow \<noteq> EffectDeny" "EffectDeny \<noteq> EffectAllow" "EffectAllow \<noteq> []" "EffectDeny \<noteq> []"
  by (simp_all add: EffectAllow_def EffectDeny_def js_Cons)

lemma role_keys [simp]: "BuiltInRoleRoot \<noteq> BuiltInRoleAdmin" "BuiltInRoleAdmin \<noteq> BuiltInRoleRoot"
  by (simp_all add: BuiltInRoleRoot_def BuiltInRoleAdmin_def js_Cons)

lemma plain_fields [simp]:
  "plain_field EffectAllow" "plain_field EffectDeny" "plain_field (UserSubject n)" "plain_field (RoleSubject BuiltInRoleAdmin)"
proof -
  show "plain_field EffectAllow" "plain_field EffectDeny" "plain_field (RoleSubject BuiltInRoleAdmin)"
    by (simp_all add: plain_field_def EffectAllow_def EffectDeny_def RoleSubject_def BuiltInRoleAdmin_def js_Cons)
  have "list_all (\<lambda>c. is_digit c \<or> c = 45) (int_str n)"
    using nat_str_digits by (auto simp: int_str_def list_all_iff)
  then show "plain_field (UserSubject n)"
    by (auto simp: plain_field_def UserSubject_def js_Cons list_all_iff)
qed

section \<open>Rows and policies\<close>

definition rule_policy :: "CasbinRule \<Rightarrow> policy" where
  "rule_policy row = [V0 row, V1 row, V2 row, V3 row]"

definition good_row :: "CasbinRule \<Rightarrow> bool" where
  "good_row row \<longleftrightarrow> Ptype row = js ''p'' \<and> list_all plain_field (rule_policy row) \<and> V4 row = [] \<and> V5 row = []"

definition rows_hold :: "CasbinRule list \<Rightarrow> policy set \<Rightarrow> bool" where
  "rows_hold rows T \<longleftrightarrow> list_all good_row rows \<and> T = rule_policy ` set rows"

definition plain_policy :: "policy \<Rightarrow> bool" where
  "plain_policy p \<longleftrightarrow> length p = 4 \<and> list_all plain_field p"

lemma plain_policy_four [simp]: "plain_policy [a, b, v, w] \<longleftrightarrow> plain_field a \<and> plain_field b \<and> plain_field v \<and> plain_field w"
  by (simp add: plain_policy_def)

lemma four_cases:
  assumes "plain_policy p"
  obtains a b v w where "p = [a, b, v, w]"
proof -
  have "length p = 4" using assms by (simp add: plain_policy_def)
  then show ?thesis using that by (auto simp: length_Suc_conv numeral_eq_Suc)
qed

lemma newRule_good: "plain_policy p \<Longrightarrow> good_row (newRule (js ''p'') p)"
  "plain_policy p \<Longrightarrow> rule_policy (newRule (js ''p'') p) = p"
proof -
  assume p: "plain_policy p"
  then obtain a b v w where "p = [a, b, v, w]" by (rule four_cases)
  with p show "good_row (newRule (js ''p'') p)" "rule_policy (newRule (js ''p'') p) = p"
    by (simp_all add: good_row_def rule_policy_def newRule_def Let_def)
qed

lemma good_row_newRule: "good_row row \<Longrightarrow> newRule (js ''p'') (rule_policy row) = row"
  by (simp add: good_row_def rule_policy_def newRule_def Let_def)

lemma rows_hold_plain: "rows_hold rows T \<Longrightarrow> p \<in> T \<Longrightarrow> plain_policy p"
  by (auto simp: rows_hold_def good_row_def plain_policy_def rule_policy_def list_all_iff)

lemma rows_hold_filter:
  assumes "rows_hold rows T" "\<And>r. good_row r \<Longrightarrow> P r = Q (rule_policy r)"
  shows "rows_hold (filter (\<lambda>r. \<not> P r) rows) {p \<in> T. \<not> Q p}"
  using assms by (auto simp: rows_hold_def list_all_iff)

lemma rows_hold_insert:
  assumes "rows_hold rows T" "list_all plain_policy ps"
  shows "rows_hold (insert_new rows (map (newRule (js ''p'')) ps)) (T \<union> set ps)"
proof -
  have "rule_policy ` newRule (js ''p'') ` set ps = set ps"
    using assms(2) by (simp add: list_all_iff newRule_good image_image)
  then show ?thesis
    using assms by (auto simp: rows_hold_def list_all_iff newRule_good image_Un)
qed

lemma rows_hold_unique:
  assumes "rows_hold rows T" "rows_hold rows' T"
  shows "set rows = set rows'"
proof -
  have "set xs = newRule (js ''p'') ` T" if "rows_hold xs T" for xs
    using that by (force simp: rows_hold_def list_all_iff good_row_newRule image_image)
  from this [OF assms(1)] this [OF assms(2)] show ?thesis by simp
qed

lemma line_of_good_row: "good_row row \<Longrightarrow> ruleToLine row = join (js '', '') (js ''p'' # rule_policy row)"
  by (auto simp: good_row_def rule_policy_def ruleToLine_def Let_def plain_field_def)

lemma load_rows:
  assumes "casbin_documented c" "list_all good_row rows"
  shows "\<exists>e'. foldl (\<lambda>m rule. Option.bind m (LoadPolicyLine c (ruleToLine rule))) (Some m) rows = Some e' \<and>
    held c e' = held c m \<union> rule_policy ` set rows"
  using assms(2)
proof (induction rows arbitrary: m)
  case (Cons row rows)
  then have row: "good_row row" "list_all plain_field (rule_policy row)" "length (rule_policy row) = 4"
    by (simp_all add: good_row_def rule_policy_def)
  then obtain m' where m': "LoadPolicyLine c (ruleToLine row) m = Some m'" "held c m' = insert (rule_policy row) (held c m)"
    using casbin_load [OF assms(1) row(2,3), of m] unfolding line_of_good_row [OF row(1)] by metis
  from Cons.IH [of m'] Cons.prems show ?case by (auto simp: m')
qed simp

lemma adapter_load:
  assumes "casbin_documented c" "FindOrdered s d = Some rows" "rows_hold rows T"
  shows "\<exists>e'. adapter_LoadPolicy c s d (NewModel c) = Some e' \<and> held c e' = T"
proof -
  show ?thesis
    using casbin_new [OF assms(1)] load_rows [OF assms(1), of rows "NewModel c"] assms(2,3) by (auto simp: adapter_LoadPolicy_def rows_hold_def)
qed

lemma sql_delete: "sql_documented s \<Longrightarrow> FindOrdered s d = Some rows \<Longrightarrow> DeleteWhere s d P = Some d' \<Longrightarrow> FindOrdered s d' = Some (filter (\<lambda>r. \<not> P r) rows)"
  unfolding sql_documented_def by (elim conjE) metis

lemma sql_create: "sql_documented s \<Longrightarrow> FindOrdered s d = Some rows \<Longrightarrow> CreateIgnore s d rs = Some d' \<Longrightarrow> FindOrdered s d' = Some (insert_new rows rs)"
  unfolding sql_documented_def by (elim conjE) metis

lemma sql_count: "sql_documented s \<Longrightarrow> FindOrdered s d = Some rows \<Longrightarrow> CountWhere s d P = Some n \<Longrightarrow> n = length (filter P rows)"
  unfolding sql_documented_def by (elim conjE) metis

lemma sql_upsert: "sql_documented s \<Longrightarrow> FindOrdered s d = Some rows \<Longrightarrow> UpsertRole s d role = Some d' \<Longrightarrow> FindOrdered s d' = Some rows"
  unfolding sql_documented_def by (elim conjE) metis

section \<open>Effects\<close>

definition effect_in :: "policy set \<Rightarrow> jstring \<Rightarrow> jstring \<Rightarrow> jstring \<Rightarrow> jstring option" where
  \<comment> \<open>what a set of policies says of a subject and a permission: a denial wins\<close>
  "effect_in T subject r a =
     (if [subject, r, a, EffectDeny] \<in> T then Some EffectDeny
      else if [subject, r, a, EffectAllow] \<in> T then Some EffectAllow else None)"

definition decided :: "policy \<Rightarrow> bool" where
  "decided p \<longleftrightarrow> plain_policy p \<and> p ! 3 \<in> {EffectAllow, EffectDeny}"

lemma effect_of_set:
  assumes "\<And>p. p \<in> set ps \<Longrightarrow> policyEffect p \<in> {EffectAllow, EffectDeny}"
  shows "effect_of b ps =
    (if \<exists>p\<in>set ps. policyEffect p = EffectDeny then Some EffectDeny
     else if b \<or> (\<exists>p\<in>set ps. policyEffect p = EffectAllow) then Some EffectAllow else None)"
  using assms
proof (induction ps arbitrary: b)
  case (Cons p ps)
  have "policyEffect p \<in> {EffectAllow, EffectDeny}" by (rule Cons.prems) simp
  moreover have "effect_of b' ps = (if \<exists>p\<in>set ps. policyEffect p = EffectDeny then Some EffectDeny
     else if b' \<or> (\<exists>p\<in>set ps. policyEffect p = EffectAllow) then Some EffectAllow else None)" for b'
    by (rule Cons.IH) (use Cons.prems in simp)
  ultimately show ?case by auto
qed simp

lemma decided_four [simp]: "decided [a, b, v, w] \<longleftrightarrow> plain_field a \<and> plain_field b \<and> plain_field v \<and> (w = EffectAllow \<or> w = EffectDeny)"
  by (auto simp: decided_def)

lemma policyEffect_decided: "decided p \<Longrightarrow> policyEffect p = p ! 3"
  by (auto simp: decided_def plain_policy_def policyEffect_def)

lemma explicit_effect:
  assumes "casbin_documented c" "\<forall>p\<in>held c e. decided p" "subject \<noteq> []" "r \<noteq> []" "a \<noteq> []"
  shows "explicitSubjectEffect c e subject \<lparr>pm_Resource = r, pm_Action = a\<rparr> = effect_in (held c e) subject r a"
proof -
  obtain ps where ps: "GetFilteredPolicy c e 0 [subject, r, a] = Some ps" "set ps = {p \<in> held c e. field_match 0 [subject, r, a] p}"
    using casbin_get [OF assms(1)] .
  have dec: "policyEffect p = p ! 3" "p ! 3 \<in> {EffectAllow, EffectDeny}" if "p \<in> set ps" for p
  proof -
    have "decided p" using that ps(2) assms(2) by blast
    then show "policyEffect p = p ! 3" "p ! 3 \<in> {EffectAllow, EffectDeny}" by (simp_all add: policyEffect_decided decided_def)
  qed
  have four: "(\<exists>p\<in>set ps. policyEffect p = w) \<longleftrightarrow> [subject, r, a, w] \<in> held c e" if w: "w = EffectAllow \<or> w = EffectDeny" for w
  proof
    assume "\<exists>p\<in>set ps. policyEffect p = w"
    then obtain p where p: "p \<in> set ps" "p ! 3 = w" using dec(1) by auto
    then have "plain_policy p" "p \<in> held c e" using assms(2) ps(2) by (auto simp: decided_def)
    then obtain a1 a2 a3 a4 where "p = [a1, a2, a3, a4]" by (metis four_cases)
    then show "[subject, r, a, w] \<in> held c e"
      using p ps(2) assms(3-5) by (auto simp: field_match_def upt_rec)
  next
    assume *: "[subject, r, a, w] \<in> held c e"
    then have m: "[subject, r, a, w] \<in> set ps" using ps(2) by (simp add: field_match_def upt_rec)
    show "\<exists>p\<in>set ps. policyEffect p = w" using dec(1) [OF m] by (intro bexI [OF _ m]) simp
  qed
  have "effect_of False ps = (if \<exists>p\<in>set ps. policyEffect p = EffectDeny then Some EffectDeny
     else if False \<or> (\<exists>p\<in>set ps. policyEffect p = EffectAllow) then Some EffectAllow else None)"
    by (rule effect_of_set) (use dec in auto)
  then show ?thesis using ps(1) four by (simp add: explicitSubjectEffect_def effect_in_def)
qed

section \<open>The grants of the role and overrides of them\<close>

definition known :: "registry \<Rightarrow> jstring \<Rightarrow> jstring \<Rightarrow> bool" where
  "known reg r a = isKnownPermission reg \<lparr>pm_Resource = r, pm_Action = a\<rparr>"

definition base :: "registry \<Rightarrow> jstring \<Rightarrow> jstring \<Rightarrow> bool" where
  "base reg r a \<longleftrightarrow> \<lparr>pm_Resource = r, pm_Action = a\<rparr> \<in> set (PermissionsForRole reg BuiltInRoleAdmin)"

definition role_line :: "jstring \<Rightarrow> jstring \<Rightarrow> policy" where
  "role_line r a = [RoleSubject BuiltInRoleAdmin, r, a, EffectAllow]"

definition user_line :: "registry \<Rightarrow> int \<Rightarrow> jstring \<Rightarrow> jstring \<Rightarrow> policy" where
  \<comment> \<open>the only line a user can have for a permission: the opposite of the role\<close>
  "user_line reg u r a = [UserSubject u, r, a, if base reg r a then EffectDeny else EffectAllow]"

definition overrides_only :: "registry \<Rightarrow> policy set \<Rightarrow> bool" where
  "overrides_only reg T \<longleftrightarrow>
     (\<forall>p\<in>T. (\<exists>r a. base reg r a \<and> p = role_line r a) \<or> (\<exists>u r a. known reg r a \<and> p = user_line reg u r a))"

definition table_ok :: "registry \<Rightarrow> policy set \<Rightarrow> bool" where
  "table_ok reg T \<longleftrightarrow> overrides_only reg T \<and> (\<forall>r a. base reg r a \<longrightarrow> role_line r a \<in> T)"

definition registry_ok :: "registry \<Rightarrow> bool" where
  "registry_ok reg \<longleftrightarrow> distinct (map rd_Resource reg) \<and>
     list_all (\<lambda>resource. plain_field (rd_Resource resource) \<and> distinct (map ad_Action (rd_Actions resource)) \<and>
       list_all (\<lambda>action. plain_field (ad_Action action)) (rd_Actions resource)) reg"

lemma registered_ok: "registry_ok registered"
  by (simp add: registry_ok_def registered_def RegisterResource_def channel_resource_def plain_field_def js_Cons is_digit_def)

lemma known_iff: "known reg r a \<longleftrightarrow> (\<exists>resource\<in>set reg. rd_Resource resource = r \<and> (\<exists>action\<in>set (rd_Actions resource). ad_Action action = a))"
  by (auto simp: known_def isKnownPermission_def list_ex_iff)

lemma base_iff: "base reg r a \<longleftrightarrow> (\<exists>resource\<in>set reg. rd_Resource resource = r \<and>
    (\<exists>action\<in>set (rd_Actions resource). ad_Action action = a \<and> actionHasRole action BuiltInRoleAdmin))"
  by (auto simp: base_def PermissionsForRole_def)

lemma base_known: "base reg r a \<Longrightarrow> known reg r a"
  by (auto simp: base_iff known_iff)

lemma known_plain: "registry_ok reg \<Longrightarrow> known reg r a \<Longrightarrow> plain_field r \<and> plain_field a"
  by (auto simp: registry_ok_def known_iff list_all_iff)

lemma known_resource: "known reg r a \<Longrightarrow> isKnownResource reg r"
  by (auto simp: known_iff isKnownResource_def list_ex_iff)

lemma catalogActions_known:
  assumes "registry_ok reg"
  shows "(\<exists>action\<in>set (catalogActions reg r). ad_Action action = a) \<longleftrightarrow> known reg r a"
proof -
  have "set (catalogActions reg r) = (\<Union>resource \<in> {x \<in> set reg. rd_Resource x = r}. set (rd_Actions resource))"
  proof (cases "find (\<lambda>k. rd_Resource k = r) reg")
    case None
    then have "{x \<in> set reg. rd_Resource x = r} = {}" by (auto simp: find_None_iff)
    moreover have "catalogActions reg r = []" using None by (simp add: catalogActions_def)
    ultimately show ?thesis by (simp only: list.set UN_empty)
  next
    case (Some x)
    then have "x \<in> set reg" "rd_Resource x = r" by (auto simp: find_Some_iff)
    moreover have "y = x" if "y \<in> set reg" "rd_Resource y = r" for y
      using assms that \<open>x \<in> set reg\<close> \<open>rd_Resource x = r\<close> by (auto simp: registry_ok_def distinct_map inj_on_def)
    ultimately have "{y \<in> set reg. rd_Resource y = r} = {x}" by blast
    then show ?thesis using Some by (simp add: catalogActions_def)
  qed
  then show ?thesis by (auto simp: known_iff)
qed

lemma overrides_decided:
  assumes "registry_ok reg" "overrides_only reg T" "p \<in> T"
  shows "decided p"
  using assms known_plain [OF assms(1)] base_known
  by (fastforce simp: overrides_only_def role_line_def user_line_def)

lemma user_line_inject [simp]: "user_line reg u r a = user_line reg' u' r' a' \<longleftrightarrow> u = u' \<and> r = r' \<and> a = a' \<and> base reg r a = base reg' r' a'"
  by (auto simp: user_line_def)

lemma lines_differ [simp]: "user_line reg u r a \<noteq> role_line r' a'" "role_line r' a' \<noteq> user_line reg u r a"
  by (simp_all add: user_line_def role_line_def)

lemma user_entry:
  assumes "overrides_only reg T" "[UserSubject u, r, a, w] \<in> T"
  shows "[UserSubject u, r, a, w] = user_line reg u r a"
  using assms by (force simp: overrides_only_def role_line_def user_line_def)

lemma role_entry:
  assumes "overrides_only reg T" "[RoleSubject k, r, a, w] \<in> T"
  shows "base reg r a \<and> [RoleSubject k, r, a, w] = role_line r a"
  using assms by (force simp: overrides_only_def role_line_def user_line_def)

lemma user_effect:
  assumes "overrides_only reg T"
  shows "effect_in T (UserSubject u) r a =
    (if user_line reg u r a \<in> T then Some (if base reg r a then EffectDeny else EffectAllow) else None)"
  using user_entry [OF assms, of u r a EffectAllow] user_entry [OF assms, of u r a EffectDeny]
  by (auto simp: effect_in_def user_line_def)

lemma role_effect:
  assumes "table_ok reg T"
  shows "effect_in T (RoleSubject BuiltInRoleAdmin) r a = (if base reg r a then Some EffectAllow else None)"
  using assms role_entry [of reg T BuiltInRoleAdmin r a EffectAllow] role_entry [of reg T BuiltInRoleAdmin r a EffectDeny]
  by (auto simp: table_ok_def effect_in_def role_line_def)

lemma subjects_not_empty [simp]: "UserSubject u \<noteq> []" "RoleSubject k \<noteq> []"
  by (simp_all add: UserSubject_def RoleSubject_def js_Cons)

lemma roleBaselineAllows_base:
  assumes "casbin_documented c" "registry_ok reg" "table_ok reg (held c e)" "known reg r a"
  shows "roleBaselineAllows c e BuiltInRoleAdmin \<lparr>pm_Resource = r, pm_Action = a\<rparr> = base reg r a"
proof -
  have ov: "overrides_only reg (held c e)" using assms(3) by (simp add: table_ok_def)
  have "r \<noteq> []" "a \<noteq> []" using known_plain [OF assms(2,4)] by (auto simp: plain_field_def)
  then show ?thesis
    using explicit_effect [OF assms(1), of e "RoleSubject BuiltInRoleAdmin" r a] overrides_decided [OF assms(2) ov] role_effect [OF assms(3)]
    by (simp add: roleBaselineAllows_def)
qed

lemma Can_administrator:
  assumes "casbin_documented c" "registry_ok reg" "table_ok reg (held c e)" "known reg r a" "RoleAdminUser \<le> role" "role < RoleRootUser"
  shows "Can reg c (Some e) u role \<lparr>pm_Resource = r, pm_Action = a\<rparr> = (base reg r a \<noteq> (user_line reg u r a \<in> held c e))"
proof -
  have ov: "overrides_only reg (held c e)" using assms(3) by (simp add: table_ok_def)
  have ne: "r \<noteq> []" "a \<noteq> []" using known_plain [OF assms(2,4)] by (auto simp: plain_field_def)
  have sup: "\<not> isSuperuserRole BuiltInRoleAdmin"
    by (simp add: isSuperuserRole_def roleSpec_def builtInRoles_def)
  have roles: "resolveSubjectRoles u role = [BuiltInRoleAdmin]" using assms(5,6) by (simp add: resolveSubjectRoles_def)
  have eff: "explicitSubjectEffect c e (UserSubject u) \<lparr>pm_Resource = r, pm_Action = a\<rparr> =
      (if user_line reg u r a \<in> held c e then Some (if base reg r a then EffectDeny else EffectAllow) else None)"
    using explicit_effect [OF assms(1), of e "UserSubject u" r a] overrides_decided [OF assms(2) ov] ne user_effect [OF ov] by simp
  have "isKnownPermission reg \<lparr>pm_Resource = r, pm_Action = a\<rparr>" using assms(4) by (simp add: known_def)
  then show ?thesis
    using roleBaselineAllows_base [OF assms(1-4)] by (simp add: Can_def roles sup eff)
qed

section \<open>Storing a matrix\<close>

definition wanted_lines :: "registry \<Rightarrow> int \<Rightarrow> jstring \<Rightarrow> (jstring \<times> bool) list \<Rightarrow> policy set" where
  "wanted_lines reg u r actions = {user_line reg u r a | a. known reg r a \<and> map_of actions a = Some (\<not> base reg r a)}"

fun apply_matrix :: "registry \<Rightarrow> int \<Rightarrow> policy set \<Rightarrow> PermissionsMap \<Rightarrow> policy set" where
  \<comment> \<open>what storing a matrix for a user does to the policies\<close>
  "apply_matrix reg u T [] = T"
| "apply_matrix reg u T ((r, actions) # perms) =
     apply_matrix reg u
       (if isKnownResource reg r then {p \<in> T. \<not> (p ! 0 = UserSubject u \<and> p ! 1 = r)} \<union> wanted_lines reg u r actions else T) perms"

lemma set_map_filter: "set (List.map_filter f xs) = {y. \<exists>x\<in>set xs. f x = Some y}"
  by (induction xs) (auto simp: List.map_filter_simps split: option.splits)

lemma override_lines:
  assumes "casbin_documented c" "registry_ok reg" "table_ok reg (held c e)"
  shows "set (map (override_line u) (userOverridePolicies reg c e r actions)) = wanted_lines reg u r actions"
proof -
  have one: "map_option (override_line u) (override_entry c e r actions action) =
      (if map_of actions (ad_Action action) = Some (\<not> base reg r (ad_Action action)) then Some (user_line reg u r (ad_Action action)) else None)"
    if "known reg r (ad_Action action)" for action
    using roleBaselineAllows_base [OF assms that]
    by (auto simp: override_entry_def managedRoleKey_def override_line_def user_line_def split: option.splits)
  have "set (map (override_line u) (userOverridePolicies reg c e r actions)) =
      {x. \<exists>action\<in>set (catalogActions reg r). map_option (override_line u) (override_entry c e r actions action) = Some x}"
    by (auto simp: userOverridePolicies_def set_map_filter)
  also have "\<dots> = wanted_lines reg u r actions" (is "?L = ?R")
  proof
    show "?L \<subseteq> ?R"
    proof
      fix x assume "x \<in> ?L"
      then obtain action where a: "action \<in> set (catalogActions reg r)"
          "map_option (override_line u) (override_entry c e r actions action) = Some x" by blast
      then have k: "known reg r (ad_Action action)" using catalogActions_known [OF assms(2)] by blast
      from a(2) show "x \<in> ?R" unfolding one [OF k] using k by (auto simp: wanted_lines_def split: if_splits)
    qed
    show "?R \<subseteq> ?L"
    proof
      fix x assume "x \<in> ?R"
      then obtain a where x: "x = user_line reg u r a" "known reg r a" "map_of actions a = Some (\<not> base reg r a)"
        by (auto simp: wanted_lines_def)
      then obtain action where a: "action \<in> set (catalogActions reg r)" "ad_Action action = a"
        using catalogActions_known [OF assms(2)] by blast
      then have "map_option (override_line u) (override_entry c e r actions action) = Some x"
        using one [of action] x by simp
      then show "x \<in> ?L" using a(1) by blast
    qed
  qed
  finally show ?thesis .
qed

lemma wanted_plain: "registry_ok reg \<Longrightarrow> p \<in> wanted_lines reg u r actions \<Longrightarrow> plain_policy p"
  using known_plain by (auto simp: wanted_lines_def user_line_def)

lemma delete_user_rows:
  assumes "sql_documented s" "FindOrdered s d = Some rows" "rows_hold rows T" "DeleteWhere s d (user_rows u r) = Some d'"
  shows "\<exists>rows'. FindOrdered s d' = Some rows' \<and> rows_hold rows' {p \<in> T. \<not> (p ! 0 = UserSubject u \<and> p ! 1 = r)}"
  using sql_delete [OF assms(1,2,4)] rows_hold_filter [OF assms(3), of "user_rows u r" "\<lambda>p. p ! 0 = UserSubject u \<and> p ! 1 = r"]
  by (auto simp: user_rows_def rule_policy_def good_row_def)

lemma SetUserPermissionsInTx_table:
  assumes "casbin_documented c" "sql_documented s" "registry_ok reg" "table_ok reg (held c e)"
    "FindOrdered s d = Some rows" "rows_hold rows T" "SetUserPermissionsInTx reg c s (Some e) d u perms = Some d'"
  shows "\<exists>rows'. FindOrdered s d' = Some rows' \<and> rows_hold rows' (apply_matrix reg u T perms)"
  using assms(5-7)
proof (induction perms arbitrary: d rows T)
  case (Cons rp perms)
  obtain r actions where rp: "rp = (r, actions)" by force
  show ?case
  proof (cases "isKnownResource reg r")
    case False
    then show ?thesis using Cons by (simp add: rp)
  next
    case True
    let ?T1 = "{p \<in> T. \<not> (p ! 0 = UserSubject u \<and> p ! 1 = r)}"
    let ?ps = "userOverridePolicies reg c e r actions"
    obtain d1 where d1: "DeleteWhere s d (user_rows u r) = Some d1"
      using Cons.prems(3) True by (auto simp: rp split: option.splits)
    then obtain rows1 where rows1: "FindOrdered s d1 = Some rows1" "rows_hold rows1 ?T1"
      using delete_user_rows [OF assms(2) Cons.prems(1,2) d1] by blast
    have lines: "set (map (override_line u) ?ps) = wanted_lines reg u r actions"
      by (rule override_lines [OF assms(1,3,4)])
    show ?thesis
    proof (cases "?ps = []")
      case empty: True
      then have "wanted_lines reg u r actions = {}" using lines by simp
      then show ?thesis
        using Cons.IH [OF rows1] Cons.prems(3) True d1 empty by (simp add: rp Let_def)
    next
      case False
      obtain d2 where d2: "CreateIgnore s d1 (map (newRule (js ''p'')) (map (override_line u) ?ps)) = Some d2"
          "SetUserPermissionsInTx reg c s (Some e) d2 u perms = Some d'"
        using Cons.prems(3) True d1 False by (auto simp: rp Let_def comp_def split: option.splits)
      have "list_all plain_policy (map (override_line u) ?ps)"
        using lines wanted_plain [OF assms(3)] unfolding list_all_iff by blast
      then have "rows_hold (insert_new rows1 (map (newRule (js ''p'')) (map (override_line u) ?ps))) (?T1 \<union> wanted_lines reg u r actions)"
        using rows_hold_insert [OF rows1(2)] unfolding lines [symmetric] by blast
      then show ?thesis
        using Cons.IH [OF sql_create [OF assms(2) rows1(1) d2(1)] _ d2(2)] True by (simp add: rp)
    qed
  qed
qed simp

lemma wanted_subject: "p \<in> wanted_lines reg u r actions \<Longrightarrow> p ! 0 = UserSubject u \<and> p ! 1 = r"
  by (auto simp: wanted_lines_def user_line_def)

lemma apply_matrix_other:
  assumes "p ! 0 \<noteq> UserSubject u"
  shows "p \<in> apply_matrix reg u T perms \<longleftrightarrow> p \<in> T"
proof (induction perms arbitrary: T)
  case (Cons rp perms)
  obtain r actions where rp: "rp = (r, actions)" by force
  have "p \<notin> wanted_lines reg u r actions" using assms wanted_subject by blast
  then have "p \<in> (if isKnownResource reg r then {p \<in> T. \<not> (p ! 0 = UserSubject u \<and> p ! 1 = r)} \<union> wanted_lines reg u r actions else T) \<longleftrightarrow> p \<in> T"
    using assms by simp
  then show ?case unfolding rp apply_matrix.simps Cons.IH .
qed simp

lemma wanted_iff:
  "known reg r a \<Longrightarrow> user_line reg u r a \<in> wanted_lines reg u r' actions \<longleftrightarrow> r' = r \<and> map_of actions a = Some (\<not> base reg r a)"
  by (auto simp: wanted_lines_def)

lemma user_line_fields [simp]: "user_line reg u r a ! 0 = UserSubject u" "user_line reg u r a ! Suc 0 = r"
  by (simp_all add: user_line_def)

lemma apply_matrix_entry:
  assumes "known reg r a" "distinct (map fst perms)"
  shows "user_line reg u r a \<in> apply_matrix reg u T perms \<longleftrightarrow>
    (case map_of perms r of Some actions \<Rightarrow> map_of actions a = Some (\<not> base reg r a) | None \<Rightarrow> user_line reg u r a \<in> T)"
  using assms(2)
proof (induction perms arbitrary: T)
  case (Cons rp perms)
  obtain r' actions where rp: "rp = (r', actions)" by force
  have none: "map_of perms r' = None" using Cons.prems by (simp add: rp map_of_eq_None_iff)
  have dist: "distinct (map fst perms)" using Cons.prems by simp
  show ?case
  proof (cases "r' = r")
    case True
    then show ?thesis
      using Cons.IH [OF dist] none known_resource [OF assms(1)] wanted_iff [OF assms(1)] by (simp add: rp)
  next
    case False
    then show ?thesis using Cons.IH [OF dist] wanted_iff [OF assms(1)] by (simp add: rp split: option.split)
  qed
qed simp

lemma overrides_only_Un: "overrides_only reg (A \<union> B) \<longleftrightarrow> overrides_only reg A \<and> overrides_only reg B"
  unfolding overrides_only_def by blast

lemma overrides_only_subset: "overrides_only reg T \<Longrightarrow> S \<subseteq> T \<Longrightarrow> overrides_only reg S"
  unfolding overrides_only_def by blast

lemma overrides_only_wanted: "overrides_only reg (wanted_lines reg u r actions)"
  unfolding overrides_only_def wanted_lines_def by blast

lemma apply_matrix_ok: "overrides_only reg T \<Longrightarrow> overrides_only reg (apply_matrix reg u T perms)"
proof (induction reg u T perms rule: apply_matrix.induct)
  case (2 reg u T r actions perms)
  have "overrides_only reg {p \<in> T. \<not> (p ! 0 = UserSubject u \<and> p ! 1 = r)}"
    using 2(2) by (rule overrides_only_subset) blast
  then have "overrides_only reg (if isKnownResource reg r then {p \<in> T. \<not> (p ! 0 = UserSubject u \<and> p ! 1 = r)} \<union> wanted_lines reg u r actions else T)"
    using 2(2) overrides_only_wanted by (simp add: overrides_only_Un)
  then show ?case unfolding apply_matrix.simps by (rule 2(1))
qed simp

lemma apply_matrix_table_ok:
  assumes "table_ok reg T"
  shows "table_ok reg (apply_matrix reg u T perms)"
proof -
  have "role_line r a \<in> apply_matrix reg u T perms \<longleftrightarrow> role_line r a \<in> T" for r a
    by (rule apply_matrix_other) (simp add: role_line_def)
  then show ?thesis using assms apply_matrix_ok [of reg T] by (simp add: table_ok_def)
qed

section \<open>Clearing, seeding and starting\<close>

lemma ClearUserPermissionsInTx_table:
  assumes "sql_documented s" "FindOrdered s d = Some rows" "rows_hold rows T" "ClearUserPermissionsInTx reg s d u = Some d'"
  shows "\<exists>rows'. FindOrdered s d' = Some rows' \<and>
    rows_hold rows' {p \<in> T. \<not> (p ! 0 = UserSubject u \<and> p ! 1 \<in> set (map rd_Resource reg))}"
  using assms(2-4)
proof (induction reg arbitrary: d rows T)
  case (Cons resource reg)
  let ?r = "rd_Resource resource"
  obtain d1 where d1: "DeleteWhere s d (user_rows u ?r) = Some d1" "ClearUserPermissionsInTx reg s d1 u = Some d'"
    using Cons.prems(3) by (auto split: option.splits)
  obtain rows1 where rows1: "FindOrdered s d1 = Some rows1" "rows_hold rows1 {p \<in> T. \<not> (p ! 0 = UserSubject u \<and> p ! 1 = ?r)}"
    using delete_user_rows [OF assms(1) Cons.prems(1,2) d1(1)] by blast
  have "{p \<in> {p \<in> T. \<not> (p ! 0 = UserSubject u \<and> p ! 1 = ?r)}. \<not> (p ! 0 = UserSubject u \<and> p ! 1 \<in> set (map rd_Resource reg))} =
      {p \<in> T. \<not> (p ! 0 = UserSubject u \<and> p ! 1 \<in> set (map rd_Resource (resource # reg)))}" by auto
  then show ?case using Cons.IH [OF rows1 d1(2)] by simp
qed simp

definition in_step :: "('e, 'd) Casbin \<Rightarrow> 'd Sql \<Rightarrow> 'e \<times> 'd \<Rightarrow> policy set \<Rightarrow> bool" where
  \<comment> \<open>the engine holds what the table holds\<close>
  "in_step c s st T \<longleftrightarrow> held c (fst st) = T \<and> (\<exists>rows. FindOrdered s (snd st) = Some rows \<and> rows_hold rows T)"

lemma ruleQuery_good:
  assumes "plain_policy p" "ruleQuery (js ''p'') p row" "good_row row"
  shows "rule_policy row = p"
proof -
  obtain a b v w where "p = [a, b, v, w]" using assms(1) by (rule four_cases)
  with assms(2) show ?thesis by (simp add: ruleQuery_def rule_value_def rule_policy_def upt_rec numeral_eq_Suc)
qed

lemma adapter_add:
  assumes "sql_documented s" "FindOrdered s d = Some rows" "rows_hold rows T" "plain_policy p" "adapter_AddPolicy s d p = Some d'"
  shows "\<exists>rows'. FindOrdered s d' = Some rows' \<and> rows_hold rows' (insert p T)"
proof -
  obtain n where n: "CountWhere s d (ruleQuery (js ''p'') p) = Some n" using assms(5) by (auto simp: adapter_AddPolicy_def split: option.splits)
  then have len: "n = length (filter (ruleQuery (js ''p'') p) rows)" by (rule sql_count [OF assms(1,2)])
  show ?thesis
  proof (cases "0 < n")
    case True
    then have "filter (ruleQuery (js ''p'') p) rows \<noteq> []" unfolding len by simp
    then obtain row where "row \<in> set rows" "ruleQuery (js ''p'') p row" by (auto simp: filter_empty_conv)
    then have "p \<in> T" using ruleQuery_good [OF assms(4)] assms(3) by (auto simp: rows_hold_def list_all_iff)
    then show ?thesis using True n assms(2,3,5) by (auto simp: adapter_AddPolicy_def insert_absorb)
  next
    case False
    then have "CreateIgnore s d (map (newRule (js ''p'')) [p]) = Some d'" using n assms(5) by (simp add: adapter_AddPolicy_def)
    then show ?thesis using sql_create [OF assms(1,2)] rows_hold_insert [OF assms(3), of "[p]"] assms(4) by auto
  qed
qed

lemma add_policies_step:
  assumes "casbin_documented c" "sql_documented s" "list_all plain_policy ps" "in_step c s st T" "add_policies c s st ps = Some st'"
  shows "in_step c s st' (T \<union> set ps)"
  using assms(3-5)
proof (induction ps arbitrary: st T)
  case (Cons p ps)
  obtain e d where st: "st = (e, d)" by force
  obtain e1 d1 where add: "AddPolicy c (adapter_AddPolicy s) (e, d) p = Some (e1, d1)" "add_policies c s (e1, d1) ps = Some st'"
    using Cons.prems(3) by (auto simp: st split: option.splits)
  note step = casbin_add [OF assms(1) add(1)]
  obtain rows where rows: "FindOrdered s d = Some rows" "rows_hold rows T" "held c e = T"
    using Cons.prems(2) by (auto simp: in_step_def st)
  have "\<exists>rows'. FindOrdered s d1 = Some rows' \<and> rows_hold rows' (insert p T)"
  proof (cases "p \<in> held c e")
    case True
    then show ?thesis using step(2) rows by (auto simp: insert_absorb)
  next
    case False
    then show ?thesis using step(2) adapter_add [OF assms(2) rows(1,2)] Cons.prems(1) by simp
  qed
  then have "in_step c s (e1, d1) (insert p T)" using step(1) rows(3) by (simp add: in_step_def)
  from Cons.IH [OF _ this add(2)] Cons.prems(1) show ?case by simp
qed simp

lemma seedBuiltInRoles_rows:
  "sql_documented s \<Longrightarrow> FindOrdered s d = Some rows \<Longrightarrow> seedBuiltInRoles s d specs = Some d' \<Longrightarrow> FindOrdered s d' = Some rows"
proof (induction specs arbitrary: d)
  case (Cons spec specs)
  then show ?case by (auto split: option.splits dest: sql_upsert)
qed simp

definition role_lines :: "registry \<Rightarrow> policy set" where
  "role_lines reg = {role_line r a | r a. base reg r a}"

lemma seeded_lines:
  "set (map (\<lambda>permission. [RoleSubject BuiltInRoleAdmin, pm_Resource permission, pm_Action permission, EffectAllow])
     (PermissionsForRole reg BuiltInRoleAdmin)) = role_lines reg" (is "set ?l = _")
proof -
  have "(p \<in> set ?l) = (p \<in> role_lines reg)" for p
  proof
    assume "p \<in> set ?l"
    then obtain pm where "pm \<in> set (PermissionsForRole reg BuiltInRoleAdmin)" "p = role_line (pm_Resource pm) (pm_Action pm)"
      by (auto simp: role_line_def)
    moreover have "\<lparr>pm_Resource = pm_Resource pm, pm_Action = pm_Action pm\<rparr> = pm" by simp
    ultimately have "base reg (pm_Resource pm) (pm_Action pm)" unfolding base_def by (simp only:)
    then show "p \<in> role_lines reg" using \<open>p = role_line (pm_Resource pm) (pm_Action pm)\<close> by (auto simp: role_lines_def)
  next
    assume "p \<in> role_lines reg"
    then obtain r a where "base reg r a" "p = role_line r a" by (auto simp: role_lines_def)
    then show "p \<in> set ?l" by (force simp: base_def role_line_def)
  qed
  then show ?thesis by blast
qed

lemma role_lines_plain: "registry_ok reg \<Longrightarrow> p \<in> role_lines reg \<Longrightarrow> plain_policy p"
  using known_plain [OF _ base_known] by (fastforce simp: role_lines_def role_line_def)

lemma seedDefaultPolicies_step:
  assumes "casbin_documented c" "sql_documented s" "registry_ok reg" "in_step c s st T" "seedDefaultPolicies reg c s st builtInRoles = Some st'"
  shows "in_step c s st' (T \<union> role_lines reg)"
proof -
  let ?l = "map (\<lambda>permission. [RoleSubject BuiltInRoleAdmin, pm_Resource permission, pm_Action permission, EffectAllow])
    (PermissionsForRole reg BuiltInRoleAdmin)"
  have "add_policies c s st ?l = Some st'" using assms(5) by (simp add: builtInRoles_def split: option.splits)
  moreover have "list_all plain_policy ?l" using role_lines_plain [OF assms(3)] unfolding list_all_iff seeded_lines by blast
  ultimately have "in_step c s st' (T \<union> set ?l)" using add_policies_step [OF assms(1,2) _ assms(4)] by blast
  then show ?thesis unfolding seeded_lines .
qed

lemma reset_rows:
  assumes "sql_documented s" "FindOrdered s d = Some rows" "rows_hold rows T" "overrides_only reg T" "resetBuiltInRolePolicies s d = Some d'"
  shows "\<exists>rows'. FindOrdered s d' = Some rows' \<and> rows_hold rows' {p \<in> T. \<exists>u r a. p = user_line reg u r a}"
proof -
  let ?names = "set (map (\<lambda>spec. RoleSubject (rs_Key spec)) builtInRoles)"
  have names: "?names = {RoleSubject BuiltInRoleRoot, RoleSubject BuiltInRoleAdmin}" by (simp add: builtInRoles_def)
  let ?P = "\<lambda>row. Ptype row = js ''p'' \<and> V0 row \<in> ?names"
  have d': "FindOrdered s d' = Some (filter (\<lambda>r. \<not> ?P r) rows)"
    by (rule sql_delete [OF assms(1,2)]) (use assms(5) in \<open>simp add: resetBuiltInRolePolicies_def\<close>)
  have "rows_hold (filter (\<lambda>r. \<not> ?P r) rows) {p \<in> T. \<not> p ! 0 \<in> ?names}"
    by (rule rows_hold_filter [OF assms(3)]) (simp add: good_row_def rule_policy_def)
  moreover have "{p \<in> T. \<not> p ! 0 \<in> ?names} = {p \<in> T. \<exists>u r a. p = user_line reg u r a}"
  proof -
    have "(p ! 0 \<notin> ?names) = (\<exists>u r a. p = user_line reg u r a)" if "p \<in> T" for p
    proof -
      from that assms(4) consider r a where "p = role_line r a" | u r a where "p = user_line reg u r a"
        unfolding overrides_only_def by blast
      then show ?thesis unfolding names by cases (auto simp: role_line_def user_line_def)
    qed
    then show ?thesis by blast
  qed
  ultimately show ?thesis using d' by auto
qed

lemma Init_table:
  assumes "casbin_documented c" "sql_documented s" "registry_ok reg" "FindOrdered s d = Some rows" "rows_hold rows T" "overrides_only reg T"
    "Init reg c s True d = Some (e', d')"
  shows "in_step c s (e', d') ({p \<in> T. \<exists>u r a. p = user_line reg u r a} \<union> role_lines reg)"
proof -
  let ?T1 = "{p \<in> T. \<exists>u r a. p = user_line reg u r a}"
  obtain d0 d1 e where d1: "seedBuiltInRoles s d builtInRoles = Some d0" "resetBuiltInRolePolicies s d0 = Some d1"
      "adapter_LoadPolicy c s d1 (NewModel c) = Some e" "seedDefaultPolicies reg c s (e, d1) builtInRoles = Some (e', d')"
    using assms(7) by (auto simp: Init_def bind_eq_Some_conv split: option.splits)
  have "FindOrdered s d0 = Some rows" by (rule seedBuiltInRoles_rows [OF assms(2,4) d1(1)])
  then obtain rows1 where rows1: "FindOrdered s d1 = Some rows1" "rows_hold rows1 ?T1"
    using reset_rows [OF assms(2) _ assms(5,6) d1(2)] by blast
  then have "held c e = ?T1" using adapter_load [OF assms(1) rows1] d1(3) by simp
  then have "in_step c s (e, d1) ?T1" using rows1 by (simp add: in_step_def)
  from seedDefaultPolicies_step [OF assms(1-3) this d1(4)] show ?thesis .
qed

lemma Init_table_ok:
  assumes "overrides_only reg T"
  shows "table_ok reg ({p \<in> T. \<exists>u r a. p = user_line reg u r a} \<union> role_lines reg)"
proof -
  have "overrides_only reg {p \<in> T. \<exists>u r a. p = user_line reg u r a}" using assms by (rule overrides_only_subset) blast
  moreover have "overrides_only reg (role_lines reg)" unfolding overrides_only_def role_lines_def by blast
  ultimately show ?thesis unfolding table_ok_def overrides_only_Un by (auto simp: role_lines_def)
qed

section \<open>Runs of a master node\<close>

inductive authz_run :: "registry \<Rightarrow> ('e, 'd) Casbin \<Rightarrow> 'd Sql \<Rightarrow> 'd \<Rightarrow> 'e \<Rightarrow> bool" for reg c s where
  started: "FindOrdered s d = Some [] \<Longrightarrow> Init reg c s True d = Some (e', d') \<Longrightarrow> authz_run reg c s d' e'"
| restarted: "authz_run reg c s d e \<Longrightarrow> Init reg c s True d = Some (e', d') \<Longrightarrow> authz_run reg c s d' e'"
| saved: "authz_run reg c s d e \<Longrightarrow>
    updateAdminPermissionsForUserInTx reg c s (Some e) callerRole d userID userRole permissions = Some (touched, d') \<Longrightarrow> authz_run reg c s d' e"
| reloaded: "authz_run reg c s d e \<Longrightarrow> ReloadPolicy c s (Some e) d = Some e' \<Longrightarrow> authz_run reg c s d e'"

definition table_of :: "registry \<Rightarrow> 'd Sql \<Rightarrow> 'd \<Rightarrow> policy set \<Rightarrow> bool" where
  "table_of reg s d T \<longleftrightarrow> (\<exists>rows. FindOrdered s d = Some rows \<and> rows_hold rows T) \<and> table_ok reg T"

lemma cleared_table_ok:
  assumes "table_ok reg T"
  shows "table_ok reg {p \<in> T. \<not> (p ! 0 = UserSubject u \<and> p ! 1 \<in> set (map rd_Resource reg))}" (is "table_ok reg ?T'")
proof -
  have "overrides_only reg ?T'" using assms unfolding table_ok_def by (blast intro: overrides_only_subset)
  moreover have "role_line r a \<in> ?T' \<longleftrightarrow> role_line r a \<in> T" for r a by (simp add: role_line_def)
  ultimately show ?thesis using assms unfolding table_ok_def by blast
qed

lemma updateAdminPermissions_table:
  assumes "casbin_documented c" "sql_documented s" "registry_ok reg" "table_ok reg (held c e)" "table_of reg s d T"
    "updateAdminPermissionsForUserInTx reg c s (Some e) callerRole d u role perms = Some (touched, d')"
  shows "\<exists>T'. table_of reg s d' T'"
proof -
  obtain rows where rows: "FindOrdered s d = Some rows" "rows_hold rows T" "table_ok reg T" using assms(5) by (auto simp: table_of_def)
  consider "d' = d" | "ClearUserPermissionsInTx reg s d u = Some d'" | m where "SetUserPermissionsInTx reg c s (Some e) d u m = Some d'"
    using assms(6) by (auto simp: updateAdminPermissionsForUserInTx_def split: option.splits if_splits)
  then show ?thesis
  proof cases
    case 1
    then show ?thesis using assms(5) by blast
  next
    case 2
    show ?thesis
      using ClearUserPermissionsInTx_table [OF assms(2) rows(1,2) 2] cleared_table_ok [OF rows(3)] unfolding table_of_def by blast
  next
    case 3
    show ?thesis
      using SetUserPermissionsInTx_table [OF assms(1-4) rows(1,2) 3] apply_matrix_table_ok [OF rows(3)] unfolding table_of_def by blast
  qed
qed

lemma ReloadPolicy_table:
  assumes "casbin_documented c" "table_of reg s d T"
  shows "\<exists>e'. ReloadPolicy c s (Some e) d = Some e' \<and> held c e' = T"
  using assms adapter_load [OF assms(1)] by (auto simp: table_of_def ReloadPolicy_def)

lemma authz_run_table:
  assumes "casbin_documented c" "sql_documented s" "registry_ok reg" "authz_run reg c s d e"
  shows "(\<exists>T. table_of reg s d T) \<and> table_ok reg (held c e)"
  using assms(4)
proof (induction rule: authz_run.induct)
  case (started d e' d')
  have "rows_hold [] {}" "overrides_only reg {}" by (simp_all add: rows_hold_def overrides_only_def)
  from Init_table [OF assms(1-3) started(1) this started(2)] Init_table_ok [OF this(2)] show ?case
    by (auto simp: in_step_def table_of_def)
next
  case (restarted d e e' d')
  then obtain T rows where T: "FindOrdered s d = Some rows" "rows_hold rows T" "table_ok reg T" by (auto simp: table_of_def)
  then have "overrides_only reg T" by (simp add: table_ok_def)
  from Init_table [OF assms(1-3) T(1,2) this restarted(2)] Init_table_ok [OF this] show ?case
    by (auto simp: in_step_def table_of_def)
next
  case (saved d e callerRole userID userRole permissions touched d')
  then show ?case using updateAdminPermissions_table [OF assms(1-3)] by blast
next
  case (reloaded d e e')
  then obtain T where T: "table_of reg s d T" by blast
  then have "held c e' = T" using ReloadPolicy_table [OF assms(1) T, of e] reloaded(2) by simp
  then show ?case using T by (auto simp: table_of_def)
qed

section \<open>Storing through the engine\<close>

lemma remove_step:
  assumes "casbin_documented c" "sql_documented s" "in_step c s st T" "r \<noteq> []"
    "RemoveFilteredPolicy c (adapter_RemoveFilteredPolicy s) st 0 [UserSubject u, r] = Some st'"
  shows "in_step c s st' {p \<in> T. \<not> (p ! 0 = UserSubject u \<and> p ! 1 = r)}"
proof -
  obtain e d e' d' where st: "st = (e, d)" "st' = (e', d')" by force
  note rem = casbin_remove [OF assms(1) assms(5) [unfolded st]]
  obtain rows where rows: "FindOrdered s d = Some rows" "rows_hold rows T" "held c e = T" using assms(3) by (auto simp: in_step_def st)
  let ?P = "\<lambda>row. Ptype row = js ''p'' \<and> list_all (\<lambda>i. [UserSubject u, r] ! i = [] \<or> rule_value (0 + i) row = [UserSubject u, r] ! i) [0..<length [UserSubject u, r]]"
  have "FindOrdered s d' = Some (filter (\<lambda>row. \<not> ?P row) rows)"
    by (rule sql_delete [OF assms(2) rows(1)]) (use rem(2) in \<open>simp only: adapter_RemoveFilteredPolicy_def\<close>)
  moreover have "rows_hold (filter (\<lambda>row. \<not> ?P row) rows) {p \<in> T. \<not> (p ! 0 = UserSubject u \<and> p ! 1 = r)}"
    using assms(4) by (intro rows_hold_filter [OF rows(2)]) (auto simp: good_row_def rule_policy_def rule_value_def upt_rec)
  moreover have "field_match 0 [UserSubject u, r] p \<longleftrightarrow> p ! 0 = UserSubject u \<and> p ! 1 = r" for p
    using assms(4) by (simp add: field_match_def upt_rec)
  then have "held c e' = {p \<in> T. \<not> (p ! 0 = UserSubject u \<and> p ! 1 = r)}" unfolding rem(1) rows(3) by simp
  ultimately show ?thesis by (auto simp: in_step_def st)
qed

lemma known_resource_plain: "registry_ok reg \<Longrightarrow> isKnownResource reg r \<Longrightarrow> r \<noteq> []"
  by (auto simp: registry_ok_def isKnownResource_def list_ex_iff list_all_iff plain_field_def)

lemma removed_table_ok:
  assumes "table_ok reg T"
  shows "table_ok reg {p \<in> T. \<not> (p ! 0 = UserSubject u \<and> p ! 1 = r)}" (is "table_ok reg ?T'")
proof -
  have "overrides_only reg ?T'" using assms unfolding table_ok_def by (blast intro: overrides_only_subset)
  moreover have "role_line r a \<in> ?T' \<longleftrightarrow> role_line r a \<in> T" for r a by (simp add: role_line_def)
  ultimately show ?thesis using assms unfolding table_ok_def by blast
qed

lemma SetUserPermissions_step:
  assumes "casbin_documented c" "sql_documented s" "registry_ok reg" "table_ok reg T" "in_step c s st T"
    "SetUserPermissions reg c s (Some st) u perms = Some st'"
  shows "in_step c s st' (apply_matrix reg u T perms)"
  using assms(4-6)
proof (induction perms arbitrary: st T)
  case (Cons rp perms)
  obtain r actions where rp: "rp = (r, actions)" by force
  show ?case
  proof (cases "isKnownResource reg r")
    case False
    then show ?thesis using Cons by (simp add: rp)
  next
    case True
    let ?T1 = "{p \<in> T. \<not> (p ! 0 = UserSubject u \<and> p ! 1 = r)}"
    obtain st1 where st1: "RemoveFilteredPolicy c (adapter_RemoveFilteredPolicy s) st 0 [UserSubject u, r] = Some st1"
      using Cons.prems(3) True by (auto simp: rp split: option.splits)
    have in1: "in_step c s st1 ?T1" by (rule remove_step [OF assms(1,2) Cons.prems(2) known_resource_plain [OF assms(3) True] st1])
    let ?ps = "map (override_line u) (userOverridePolicies reg c (fst st1) r actions)"
    obtain st2 where st2: "add_policies c s st1 ?ps = Some st2" "SetUserPermissions reg c s (Some st2) u perms = Some st'"
      using Cons.prems(3) True st1 by (cases "add_policies c s st1 ?ps") (simp_all add: rp)
    have lines: "set ?ps = wanted_lines reg u r actions"
      by (rule override_lines [OF assms(1,3)]) (use in1 removed_table_ok [OF Cons.prems(1)] in \<open>simp add: in_step_def\<close>)
    have plain: "list_all plain_policy ?ps" using lines wanted_plain [OF assms(3)] unfolding list_all_iff by blast
    have "in_step c s st2 (?T1 \<union> wanted_lines reg u r actions)"
      using add_policies_step [OF assms(1,2) plain in1 st2(1)] unfolding lines .
    moreover have "table_ok reg (?T1 \<union> wanted_lines reg u r actions)"
      using apply_matrix_table_ok [OF Cons.prems(1), of u "[(r, actions)]"] True by simp
    ultimately show ?thesis using Cons.IH [OF _ _ st2(2)] True by (simp add: rp)
  qed
qed simp

end
