(* ===== verification/Authz_Access.thy ===== *)
theory Authz_Access
  imports Authz_Store
begin

text \<open>
  The permission matrix of the client (\<open>web/default/src/lib/admin-permissions.ts\<close>, \<open>features/users/lib/user-form.ts\<close> and
  the permission boxes of \<open>users-mutate-drawer.tsx\<close>) together with the permission service. What the boxes show when the form is
  saved is what the service decides from then on and what the client of that user shows; saving leaves the other
  users alone, and a user who was demoted starts from the role again. \<open>list_casbin\<close> and \<open>list_sql\<close> are an engine and a
  table with the documented behaviour.
\<close>

section \<open>The client\<close>

record PermissionCatalog =
  pc_resources :: "ResourceDefinition list"
  pc_roles :: "RoleDescriptor list"

definition GetPermissionCatalog :: "registry \<Rightarrow> PermissionCatalog" where
  "GetPermissionCatalog reg = \<lparr>pc_resources = Catalog reg, pc_roles = Roles reg\<rparr>"

definition EMPTY_PERMISSION_CATALOG :: PermissionCatalog where
  "EMPTY_PERMISSION_CATALOG = \<lparr>pc_resources = [], pc_roles = []\<rparr>"

definition ADMIN_ROLE_KEY :: jstring where "ADMIN_ROLE_KEY = js ''admin''"

definition entry :: "PermissionsMap option \<Rightarrow> jstring \<Rightarrow> jstring \<Rightarrow> bool option" where
  \<comment> \<open>\<open>m?.[resource]?.[action]\<close>\<close>
  "entry m resource action = Option.bind m (\<lambda>m. Option.bind (map_of m resource) (\<lambda>actions. map_of actions action))"

text \<open>Of a user of the client, the two fields the permission test reads.\<close>

record AuthUser =
  au_role :: int
  au_admin_permissions :: "PermissionsMap option"

definition hasPermission :: "AuthUser option \<Rightarrow> jstring \<Rightarrow> jstring \<Rightarrow> bool" where
  "hasPermission user resource action =
     (case user of None \<Rightarrow> False
      | Some u \<Rightarrow> if au_role u = 100 then True else entry (au_admin_permissions u) resource action = Some True)"

definition client_roleGrants :: "PermissionCatalog \<Rightarrow> jstring \<Rightarrow> PermissionsMap" where
  "client_roleGrants catalog roleKey =
     (case find (\<lambda>role. rl_Key role = roleKey) (pc_roles catalog) of Some role \<Rightarrow> rl_Grants role | None \<Rightarrow> [])"

definition normalizeAdminPermissions :: "PermissionsMap option \<Rightarrow> PermissionCatalog \<Rightarrow> PermissionsMap" where
  "normalizeAdminPermissions value catalog =
     (let baseline = client_roleGrants catalog ADMIN_ROLE_KEY in
      go_map (map (\<lambda>resource. (rd_Resource resource,
        go_map (map (\<lambda>action. (ad_Action action,
          (case entry value (rd_Resource resource) (ad_Action action) of Some v \<Rightarrow> v
           | None \<Rightarrow> (case entry (Some baseline) (rd_Resource resource) (ad_Action action) of Some v \<Rightarrow> v | None \<Rightarrow> False))))
          (rd_Actions resource)))) (pc_resources catalog)))"

record UserFormValues =
  uf_username :: jstring
  uf_display_name :: "jstring option"
  uf_password :: "jstring option"
  uf_role :: "int option"
  uf_quota_dollars :: "rat option"
  uf_group :: "jstring option"
  uf_remark :: "jstring option"
  uf_admin_permissions :: "PermissionsMap option"

record UserFormData =
  ud_username :: jstring
  ud_display_name :: jstring
  ud_password :: "jstring option"
  ud_admin_permissions :: "PermissionsMap option"
  ud_role :: "int option"
  ud_quota :: "int option"
  ud_group :: "jstring option"
  ud_remark :: "jstring option"
  ud_id :: "int option"

definition truthy_str :: "jstring option \<Rightarrow> jstring option" where
  \<comment> \<open>\<open>s || undefined\<close>\<close>
  "truthy_str s = (case s of Some v \<Rightarrow> if v = [] then None else Some v | None \<Rightarrow> None)"

definition transformFormDataToPayload :: "UserFormValues \<Rightarrow> int option \<Rightarrow> PermissionCatalog option \<Rightarrow> UserFormData" where
  "transformFormDataToPayload data userId catalog =
     (let role = (case userId of None \<Rightarrow> (case uf_role data of Some r \<Rightarrow> if r = 0 then 1 else r | None \<Rightarrow> 1)
                  | Some _ \<Rightarrow> (case uf_role data of Some r \<Rightarrow> r | None \<Rightarrow> 0)) in
      \<lparr>ud_username = uf_username data, ud_display_name = str_or (opt_str (uf_display_name data)) (uf_username data),
       ud_password = truthy_str (uf_password data),
       ud_admin_permissions =
         (case catalog of Some cat \<Rightarrow> if 10 \<le> role then Some (normalizeAdminPermissions (uf_admin_permissions data) cat) else None
          | None \<Rightarrow> None),
       ud_role = (if userId = None then Some role else None), ud_quota = None,
       ud_group = (if userId = None then None else uf_group data),
       ud_remark = (if userId = None then None else truthy_str (uf_remark data)),
       ud_id = userId\<rparr>)"

definition box_checked :: "PermissionCatalog \<Rightarrow> UserFormValues \<Rightarrow> jstring \<Rightarrow> jstring \<Rightarrow> bool" where
  "box_checked catalog form resource action =
     (entry (Some (normalizeAdminPermissions (uf_admin_permissions form) catalog)) resource action = Some True)"

definition onCheckedChange :: "PermissionCatalog \<Rightarrow> jstring \<Rightarrow> jstring \<Rightarrow> bool \<Rightarrow> UserFormValues \<Rightarrow> UserFormValues" where
  "onCheckedChange catalog resource action checked form =
     (let selected = normalizeAdminPermissions (uf_admin_permissions form) catalog;
          actions = (case map_of selected resource of Some as \<Rightarrow> as | None \<Rightarrow> []) in
      form\<lparr>uf_admin_permissions := Some (AList.update resource (AList.update action checked actions) selected)\<rparr>)"

section \<open>Matrices\<close>

lemma entry_matrix:
  assumes "registry_ok reg"
  shows "entry (Some (go_map (map (\<lambda>resource. (rd_Resource resource, go_map (map (\<lambda>action. (ad_Action action, f (rd_Resource resource) (ad_Action action)))
      (rd_Actions resource)))) reg))) r a = (if known reg r a then Some (f r a) else None)"
proof -
  let ?row = "\<lambda>resource. map (\<lambda>action. (ad_Action action, f (rd_Resource resource) (ad_Action action))) (rd_Actions resource)"
  have dist: "distinct (map rd_Resource reg)" "\<And>x. x \<in> set reg \<Longrightarrow> distinct (map ad_Action (rd_Actions x))"
    using assms by (auto simp: registry_ok_def list_all_iff)
  have rows: "map (\<lambda>resource. (rd_Resource resource, go_map (?row resource))) reg = map (\<lambda>resource. (rd_Resource resource, ?row resource)) reg"
  proof (rule map_cong [OF refl])
    fix x assume "x \<in> set reg"
    then have "distinct (map fst (?row x))" using dist(2) by (simp add: comp_def)
    then show "(rd_Resource x, go_map (?row x)) = (rd_Resource x, ?row x)" by (simp only: go_map_distinct_id)
  qed
  have go: "go_map (map (\<lambda>resource. (rd_Resource resource, ?row resource)) reg) = map (\<lambda>resource. (rd_Resource resource, ?row resource)) reg"
    using dist(1) by (intro go_map_distinct_id) (simp add: comp_def)
  have row: "map_of (map (\<lambda>action. (ad_Action action, f r (ad_Action action))) as) a = (if a \<in> ad_Action ` set as then Some (f r a) else None)" for as
    by (induction as) auto
  let ?m = "map (\<lambda>resource. (rd_Resource resource, ?row resource)) reg"
  have dm: "distinct (map fst ?m)" using dist(1) by (simp add: comp_def)
  show ?thesis
  proof (cases "\<exists>x\<in>set reg. rd_Resource x = r")
    case True
    then obtain x where x: "x \<in> set reg" "rd_Resource x = r" by blast
    have "(rd_Resource x, ?row x) \<in> set ?m" unfolding set_map using x(1) by (rule imageI)
    then have "map_of ?m r = Some (?row x)" unfolding x(2) by (rule map_of_is_SomeI [OF dm])
    moreover have "y = x" if "y \<in> set reg" "rd_Resource y = r" for y
      using dist(1) that x by (auto simp: distinct_map inj_on_def)
    then have "known reg r a \<longleftrightarrow> (\<exists>action\<in>set (rd_Actions x). ad_Action action = a)" unfolding known_iff using x by blast
    then have "known reg r a \<longleftrightarrow> a \<in> ad_Action ` set (rd_Actions x)" by blast
    ultimately show ?thesis unfolding entry_def rows go using row [of "rd_Actions x"] x(2) by simp
  next
    case False
    then have "map_of ?m r = None" by (auto simp: map_of_eq_None_iff)
    moreover have "\<not> known reg r a" using False by (auto simp: known_iff)
    ultimately show ?thesis unfolding entry_def rows go by simp
  qed
qed

lemma Catalog_same [simp]: "Catalog reg = reg"
  unfolding Catalog_def by (rule map_idI) simp

lemma entry_Capabilities:
  assumes "registry_ok reg"
  shows "entry (Some (Capabilities reg c en u role)) r a =
    (if known reg r a then Some (Can reg c en u role \<lparr>pm_Resource = r, pm_Action = a\<rparr>) else None)"
  unfolding Capabilities_def by (rule entry_matrix [OF assms])

lemma actionHasRole_base:
  assumes "registry_ok reg" "resource \<in> set reg" "action \<in> set (rd_Actions resource)"
  shows "actionHasRole action BuiltInRoleAdmin = base reg (rd_Resource resource) (ad_Action action)"
proof -
  have dist: "distinct (map rd_Resource reg)" "distinct (map ad_Action (rd_Actions resource))"
    using assms by (auto simp: registry_ok_def list_all_iff)
  have "x = resource" if "x \<in> set reg" "rd_Resource x = rd_Resource resource" for x
    using dist(1) that assms(2) by (auto simp: distinct_map inj_on_def)
  moreover have "x = action" if "x \<in> set (rd_Actions resource)" "ad_Action x = ad_Action action" for x
    using dist(2) that assms(3) by (auto simp: distinct_map inj_on_def)
  ultimately show ?thesis unfolding base_iff using assms(2,3) by blast
qed

lemma entry_grants:
  assumes "registry_ok reg"
  shows "entry (Some (client_roleGrants (GetPermissionCatalog reg) ADMIN_ROLE_KEY)) r a = (if known reg r a then Some (base reg r a) else None)"
proof -
  have spec: "client_roleGrants (GetPermissionCatalog reg) ADMIN_ROLE_KEY = roleGrants reg (builtInRoles ! 1)"
    using role_keys by (simp add: client_roleGrants_def GetPermissionCatalog_def Roles_def builtInRoles_def ADMIN_ROLE_KEY_def BuiltInRoleAdmin_def [symmetric])
  have "roleGrants reg (builtInRoles ! 1) = go_map (map (\<lambda>resource. (rd_Resource resource,
      go_map (map (\<lambda>action. (ad_Action action, base reg (rd_Resource resource) (ad_Action action))) (rd_Actions resource)))) reg)"
    using actionHasRole_base [OF assms] by (simp add: roleGrants_def builtInRoles_def cong: map_cong)
  then show ?thesis unfolding spec by (simp add: entry_matrix [OF assms, of "base reg"])
qed

lemma entry_normalized:
  assumes "registry_ok reg"
  shows "entry (Some (normalizeAdminPermissions value (GetPermissionCatalog reg))) r a =
    (if known reg r a then Some (case entry value r a of Some v \<Rightarrow> v | None \<Rightarrow> base reg r a) else None)"
proof -
  let ?f = "\<lambda>r a. (case entry value r a of Some v \<Rightarrow> v
      | None \<Rightarrow> (case entry (Some (client_roleGrants (GetPermissionCatalog reg) ADMIN_ROLE_KEY)) r a of Some v \<Rightarrow> v | None \<Rightarrow> False))"
  have res: "pc_resources (GetPermissionCatalog reg) = reg" by (simp add: GetPermissionCatalog_def)
  have "entry (Some (normalizeAdminPermissions value (GetPermissionCatalog reg))) r a = (if known reg r a then Some (?f r a) else None)"
    unfolding normalizeAdminPermissions_def Let_def res by (rule entry_matrix [OF assms])
  then show ?thesis by (simp add: entry_grants [OF assms] split: option.split)
qed

lemma normalized_keys: "registry_ok reg \<Longrightarrow> distinct (map fst (normalizeAdminPermissions value (GetPermissionCatalog reg)))"
  by (simp add: normalizeAdminPermissions_def GetPermissionCatalog_def registry_ok_def go_map_distinct_id comp_def)

section \<open>A list as engine and a list as table\<close>

definition list_casbin :: "(policy list, CasbinRule list) Casbin" where
  "list_casbin =
     \<lparr>GetFilteredPolicy = (\<lambda>e i fs. Some (filter (field_match i fs) e)),
      AddPolicy = (\<lambda>save st p. if p \<in> set (fst st) then Some st else map_option (Pair (fst st @ [p])) (save (snd st) p)),
      RemoveFilteredPolicy = (\<lambda>del st i fs. map_option (Pair (filter (\<lambda>p. \<not> field_match i fs p) (fst st))) (del (snd st) i fs)),
      NewModel = [],
      LoadPolicyLine = (\<lambda>line e. let p = tl (map (dropWhile (\<lambda>ch. ch = 32)) (split_on 44 line)) in
        if p \<in> set e then Some e else Some (e @ [p]))\<rparr>"

definition list_sql :: "CasbinRule list Sql" where
  "list_sql =
     \<lparr>DeleteWhere = (\<lambda>rows P. Some (filter (\<lambda>r. \<not> P r) rows)), CreateIgnore = (\<lambda>rows rs. Some (insert_new rows rs)),
      CountWhere = (\<lambda>rows P. Some (length (filter P rows))), FindOrdered = Some, UpsertRole = (\<lambda>rows role. Some rows)\<rparr>"

lemma list_sql_documented: "sql_documented list_sql"
  by (simp add: sql_documented_def list_sql_def)

lemma plain_no_sep: "plain_field w \<Longrightarrow> 44 \<notin> set w \<and> dropWhile (\<lambda>ch. ch = 32) w = w"
  by (cases w) (auto simp: plain_field_def is_digit_def list_all_iff)

lemma line_fields:
  assumes "list_all plain_field p" "length p = 4"
  shows "tl (map (dropWhile (\<lambda>ch. ch = 32)) (split_on 44 (join (js '', '') (js ''p'' # p)))) = p"
proof -
  have "plain_policy p" using assms by (simp add: plain_policy_def)
  then obtain a b v w where p: "p = [a, b, v, w]" by (rule four_cases)
  have f: "plain_field a" "plain_field b" "plain_field v" "plain_field w" using assms(1) by (simp_all add: p)
  note sep = conjunct1 [OF plain_no_sep] and same = conjunct2 [OF plain_no_sep]
  have step: "split_on 44 (x @ 44 # 32 # t) = x # split_on 44 (32 # t)" if "44 \<notin> set x" for x t
    by (rule split_on_append_sep [OF that])
  have shift: "split_on 44 (32 # x @ 44 # 32 # t) = (32 # x) # split_on 44 (32 # t)" if "44 \<notin> set x" for x t
    using split_on_append_sep [of 44 "32 # x" "32 # t"] that by simp
  have "split_on 44 (join (js '', '') (js ''p'' # p)) = [js ''p'', 32 # a, 32 # b, 32 # v, 32 # w]"
    using step [of "js ''p''"] shift [OF sep [OF f(1)]] shift [OF sep [OF f(2)]] shift [OF sep [OF f(3)]]
      split_on_plain [of 44 "32 # w"] sep [OF f(4)]
    by (simp add: p js_Cons del: split_on.simps)
  then show ?thesis using f same by (simp add: p)
qed

lemma list_casbin_documented: "casbin_documented list_casbin"
proof -
  have held: "held list_casbin e = set e" for e by (simp add: held_def list_casbin_def field_match_def)
  show ?thesis
    unfolding casbin_documented_def held
  proof (intro conjI allI impI)
    fix e :: "policy list" and p :: policy assume "list_all plain_field p \<and> length p = 4"
    then show "\<exists>e'. LoadPolicyLine list_casbin (join (js '', '') (js ''p'' # p)) e = Some e' \<and> set e' = insert p (set e)"
      using line_fields [of p] by (auto simp: list_casbin_def)
  qed (auto simp: list_casbin_def split: if_splits)
qed

section \<open>Properties\<close>

lemma save_as_root:
  assumes "casbin_documented c" "sql_documented s" "registry_ok reg" "authz_run reg c s d e" "RoleAdminUser \<le> role"
    "updateAdminPermissionsForUserInTx reg c s (Some e) RoleRootUser d u role (Some perms) = Some (touched, d')"
  obtains T e0 e' where "table_ok reg T" "ReloadPolicy c s (Some e) d = Some e0" "held c e0 = T"
    "ReloadPolicy c s (Some e) d' = Some e'" "held c e' = apply_matrix reg u T perms" "table_ok reg (apply_matrix reg u T perms)"
proof -
  have inv: "(\<exists>T. table_of reg s d T) \<and> table_ok reg (held c e)" by (rule authz_run_table [OF assms(1-4)])
  then obtain T rows where T: "table_of reg s d T" "FindOrdered s d = Some rows" "rows_hold rows T" "table_ok reg T"
    by (auto simp: table_of_def)
  have set: "SetUserPermissionsInTx reg c s (Some e) d u perms = Some d'"
    using assms(5,6) by (auto simp: updateAdminPermissionsForUserInTx_def)
  have ok: "table_ok reg (apply_matrix reg u T perms)" by (rule apply_matrix_table_ok [OF T(4)])
  have "table_of reg s d' (apply_matrix reg u T perms)"
    using SetUserPermissionsInTx_table [OF assms(1-3) conjunct2 [OF inv] T(2,3) set] ok by (auto simp: table_of_def)
  from ReloadPolicy_table [OF assms(1) this, of e] ReloadPolicy_table [OF assms(1) T(1), of e] show ?thesis
    using that T(4) ok by blast
qed

lemma Can_other_roles:
  "role < RoleAdminUser \<Longrightarrow> \<not> Can reg c en u role p"
  "RoleRootUser \<le> role \<Longrightarrow> Can reg c en u role p"
  "\<not> isKnownPermission reg p \<Longrightarrow> role < RoleRootUser \<Longrightarrow> \<not> Can reg c en u role p"
proof -
  have admin: "\<not> isSuperuserRole BuiltInRoleAdmin" by (simp add: isSuperuserRole_def roleSpec_def builtInRoles_def)
  have root: "isSuperuserRole BuiltInRoleRoot" by (simp add: isSuperuserRole_def roleSpec_def builtInRoles_def)
  show "role < RoleAdminUser \<Longrightarrow> \<not> Can reg c en u role p" by (simp add: Can_def resolveSubjectRoles_def RoleAdminUser_def RoleRootUser_def)
  show "RoleRootUser \<le> role \<Longrightarrow> Can reg c en u role p" using root by (simp add: Can_def resolveSubjectRoles_def)
  show "\<not> isKnownPermission reg p \<Longrightarrow> role < RoleRootUser \<Longrightarrow> \<not> Can reg c en u role p"
    using admin by (simp add: Can_def resolveSubjectRoles_def)
qed

lemma Can_same_lines:
  assumes "casbin_documented c" "registry_ok reg" "table_ok reg (held c e)" "table_ok reg (held c e')"
    "\<And>r a. user_line reg u r a \<in> held c e \<longleftrightarrow> user_line reg u r a \<in> held c e'"
  shows "Can reg c (Some e) u role p = Can reg c (Some e') u role p"
proof -
  obtain r a where p: "p = \<lparr>pm_Resource = r, pm_Action = a\<rparr>" by (cases p) simp
  consider "role < RoleAdminUser" | "RoleRootUser \<le> role" | "RoleAdminUser \<le> role" "role < RoleRootUser" "\<not> known reg r a"
    | "RoleAdminUser \<le> role" "role < RoleRootUser" "known reg r a" by linarith
  then show ?thesis
  proof cases
    case 4
    then show ?thesis unfolding p using Can_administrator [OF assms(1,2)] assms(3-5) by metis
  qed (simp_all add: Can_other_roles known_def p)
qed

end
