(* ===== verification/Authz_Props.thy ===== *)
theory Authz_Props
  imports Authz_Access
begin

text \<open>
  The properties of the permission service and its client, with a run of the list engine as witness: start on an empty
  table, then one saved matrix.
\<close>

section \<open>A run\<close>

definition sample_engine :: "policy list" where
  "sample_engine = map (\<lambda>a. role_line (js ''channel'') a) [js ''read'', js ''operate'', js ''write'']"

definition sample_table :: "CasbinRule list" where
  "sample_table = map (newRule (js ''p'')) sample_engine"

definition sample_matrix :: PermissionsMap where
  "sample_matrix = [(js ''channel'', [(js ''write'', False), (js ''sensitive_write'', True)])]"

definition sample_saved :: "CasbinRule list" where
  "sample_saved = sample_table @ map (newRule (js ''p''))
     [[js ''user:42'', js ''channel'', js ''sensitive_write'', js ''allow''], [js ''user:42'', js ''channel'', js ''write'', js ''deny'']]"

lemma sample_start: "Init registered list_casbin list_sql True [] = Some (sample_engine, sample_table)"
  by code_simp

lemma sample_run: "authz_run registered list_casbin list_sql sample_table sample_engine"
  by (rule authz_run.started [OF _ sample_start]) (simp add: list_sql_def)

lemma sample_save:
  "updateAdminPermissionsForUserInTx registered list_casbin list_sql (Some sample_engine) RoleRootUser sample_table 42 10 (Some sample_matrix) =
     Some (True, sample_saved)"
  by code_simp

lemma sample_run_saved: "authz_run registered list_casbin list_sql sample_saved sample_engine"
  by (rule authz_run.saved [OF sample_run sample_save])

definition sample_form :: UserFormValues where
  "sample_form = \<lparr>uf_username = js ''ann'', uf_display_name = None, uf_password = None, uf_role = Some 10, uf_quota_dollars = None, uf_group = None,
     uf_remark = None, uf_admin_permissions = Some sample_matrix\<rparr>"

lemma sample_form_save:
  "updateAdminPermissionsForUserInTx registered list_casbin list_sql (Some sample_engine) RoleRootUser sample_table 42 10
     (ud_admin_permissions (transformFormDataToPayload sample_form (Some 42) (Some (GetPermissionCatalog registered)))) = Some (True, sample_saved)"
  by code_simp

lemma sample_clear:
  "updateAdminPermissionsForUserInTx registered list_casbin list_sql (Some sample_engine) RoleRootUser sample_saved 42 1 None = Some (True, sample_table)"
  by code_simp

lemmas sample_laws = list_casbin_documented list_sql_documented registered_ok

section \<open>Properties\<close>

text \<open>
  C2: In every state of the service, when root saves a permission matrix for an administrator, the policy can be loaded again and
  then decides as the matrix says: an entry of the matrix is what the user may do, an action missing from a
  resource of the matrix falls back to the role, a resource missing from the matrix keeps its decisions. Nothing
  changes for any other user.
\<close>
theorem saved_permissions_are_enforced:
  assumes "casbin_documented c" "sql_documented s" "registry_ok reg" "authz_run reg c s d e"
    "RoleAdminUser \<le> role" "role < RoleRootUser" "distinct (map fst perms)"
    "updateAdminPermissionsForUserInTx reg c s (Some e) RoleRootUser d u role (Some perms) = Some (touched, d')"
  shows "\<exists>e0 e'. ReloadPolicy c s (Some e) d = Some e0 \<and> ReloadPolicy c s (Some e) d' = Some e' \<and>
    (\<forall>p. isKnownPermission reg p \<longrightarrow> Can reg c (Some e') u role p =
      (case map_of perms (pm_Resource p) of
         Some actions \<Rightarrow> (case map_of actions (pm_Action p) of Some v \<Rightarrow> v | None \<Rightarrow> p \<in> set (PermissionsForRole reg managedRoleKey))
       | None \<Rightarrow> Can reg c (Some e0) u role p)) \<and>
    (\<forall>v role' p. v \<noteq> u \<longrightarrow> Can reg c (Some e') v role' p = Can reg c (Some e0) v role' p)"
proof -
  from assms obtain T e0 e' where T: "table_ok reg T" "ReloadPolicy c s (Some e) d = Some e0" "held c e0 = T"
      "ReloadPolicy c s (Some e) d' = Some e'" "held c e' = apply_matrix reg u T perms" "table_ok reg (apply_matrix reg u T perms)"
    using save_as_root [OF assms(1-5,8)] by blast
  have tables: "table_ok reg (held c e0)" "table_ok reg (held c e')" using T by simp_all
  have "Can reg c (Some e') u role p =
      (case map_of perms (pm_Resource p) of
         Some actions \<Rightarrow> (case map_of actions (pm_Action p) of Some v \<Rightarrow> v | None \<Rightarrow> p \<in> set (PermissionsForRole reg managedRoleKey))
       | None \<Rightarrow> Can reg c (Some e0) u role p)" if "isKnownPermission reg p" for p
  proof -
    obtain r a where p: "p = \<lparr>pm_Resource = r, pm_Action = a\<rparr>" by (cases p) simp
    have k: "known reg r a" using that by (simp add: known_def p)
    have "p \<in> set (PermissionsForRole reg managedRoleKey) \<longleftrightarrow> base reg r a" by (simp add: p base_def managedRoleKey_def)
    then show ?thesis
      using Can_administrator [OF assms(1,3) tables(1) k assms(5,6), of u] Can_administrator [OF assms(1,3) tables(2) k assms(5,6), of u]
        apply_matrix_entry [OF k assms(7), of u T] T(3,5)
      by (auto simp: p split: option.split)
  qed
  moreover have "Can reg c (Some e') v role' p = Can reg c (Some e0) v role' p" if "v \<noteq> u" for v role' p
    by (rule Can_same_lines [OF assms(1,3) tables(2,1)]) (simp add: T(3,5) apply_matrix_other that)
  ultimately show ?thesis using T(2,4) by blast
qed

theorem saved_permissions_are_enforced_witness:
  "\<exists>e'. ReloadPolicy list_casbin list_sql (Some sample_engine) sample_saved = Some e' \<and>
     Can registered list_casbin (Some e') 42 10 \<lparr>pm_Resource = js ''channel'', pm_Action = js ''sensitive_write''\<rparr> \<and>
     \<not> Can registered list_casbin (Some e') 42 10 \<lparr>pm_Resource = js ''channel'', pm_Action = js ''write''\<rparr>"
proof -
  let ?p = "\<lambda>a. \<lparr>pm_Resource = js ''channel'', pm_Action = a\<rparr>"
  have "distinct (map fst sample_matrix)" "RoleAdminUser \<le> 10" "(10 :: int) < RoleRootUser"
    by (simp_all add: sample_matrix_def RoleAdminUser_def RoleRootUser_def)
  from saved_permissions_are_enforced [OF sample_laws sample_run this(2,3,1) sample_save]
  obtain e0 e' where e': "ReloadPolicy list_casbin list_sql (Some sample_engine) sample_saved = Some e'"
      "\<forall>p. isKnownPermission registered p \<longrightarrow> Can registered list_casbin (Some e') 42 10 p =
        (case map_of sample_matrix (pm_Resource p) of
           Some actions \<Rightarrow> (case map_of actions (pm_Action p) of Some v \<Rightarrow> v | None \<Rightarrow> p \<in> set (PermissionsForRole registered managedRoleKey))
         | None \<Rightarrow> Can registered list_casbin (Some e0) 42 10 p)"
    by blast
  have "isKnownPermission registered (?p (js ''sensitive_write''))" "isKnownPermission registered (?p (js ''write''))" by code_simp+
  then show ?thesis using e'(1) e'(2) [rule_format, of "?p (js ''sensitive_write'')"] e'(2) [rule_format, of "?p (js ''write'')"]
    by (simp add: sample_matrix_def js_Cons)
qed

text \<open>
  C4: What the permission boxes show when root saves the form of an administrator is what the service decides once it has loaded the
  policy again, and what the client of that user takes from the capabilities the server sends it.
\<close>
theorem permission_form_round_trip:
  assumes "casbin_documented c" "sql_documented s" "registry_ok reg" "authz_run reg c s d e"
    "uf_role form = Some role" "RoleAdminUser \<le> role" "role < RoleRootUser"
    "updateAdminPermissionsForUserInTx reg c s (Some e) RoleRootUser d u role
       (ud_admin_permissions (transformFormDataToPayload form (Some u) (Some (GetPermissionCatalog reg)))) = Some (touched, d')"
  shows "\<exists>e'. ReloadPolicy c s (Some e) d' = Some e' \<and>
    (\<forall>r a. Can reg c (Some e') u role \<lparr>pm_Resource = r, pm_Action = a\<rparr> = box_checked (GetPermissionCatalog reg) form r a \<and>
      hasPermission (Some \<lparr>au_role = role, au_admin_permissions = Some (Capabilities reg c (Some e') u role)\<rparr>) r a =
        box_checked (GetPermissionCatalog reg) form r a)"
proof -
  let ?m = "normalizeAdminPermissions (uf_admin_permissions form) (GetPermissionCatalog reg)"
  have payload: "ud_admin_permissions (transformFormDataToPayload form (Some u) (Some (GetPermissionCatalog reg))) = Some ?m"
    using assms(5,6) by (simp add: transformFormDataToPayload_def RoleAdminUser_def)
  obtain T e0 e' where T: "table_ok reg T" "ReloadPolicy c s (Some e) d' = Some e'" "held c e' = apply_matrix reg u T ?m"
      "table_ok reg (apply_matrix reg u T ?m)"
    using save_as_root [OF assms(1-4,6) assms(8) [unfolded payload]] by blast
  have "Can reg c (Some e') u role \<lparr>pm_Resource = r, pm_Action = a\<rparr> = box_checked (GetPermissionCatalog reg) form r a" for r a
  proof (cases "known reg r a")
    case True
    let ?v = "case entry (uf_admin_permissions form) r a of Some v \<Rightarrow> v | None \<Rightarrow> base reg r a"
    have box: "entry (Some ?m) r a = Some ?v" using entry_normalized [OF assms(3)] True by simp
    then obtain actions where "map_of ?m r = Some actions" "map_of actions a = Some ?v"
      by (auto simp: entry_def bind_eq_Some_conv)
    then have "user_line reg u r a \<in> held c e' \<longleftrightarrow> ?v = (\<not> base reg r a)"
      using apply_matrix_entry [OF True normalized_keys [OF assms(3)], of u T] T(3) by simp
    then show ?thesis
      using Can_administrator [OF assms(1,3) _ True assms(6,7), of e' u] T(3,4) box by (auto simp: box_checked_def)
  next
    case False
    then have "\<not> Can reg c (Some e') u role \<lparr>pm_Resource = r, pm_Action = a\<rparr>"
      using Can_other_roles(3) assms(7) by (simp add: known_def)
    then show ?thesis using entry_normalized [OF assms(3)] False by (simp add: box_checked_def)
  qed
  moreover have "hasPermission (Some \<lparr>au_role = role, au_admin_permissions = Some (Capabilities reg c (Some e') u role)\<rparr>) r a =
      Can reg c (Some e') u role \<lparr>pm_Resource = r, pm_Action = a\<rparr>" for r a
    using assms(7) entry_Capabilities [OF assms(3), of c "Some e'" u role r a] Can_other_roles(3) [of reg "\<lparr>pm_Resource = r, pm_Action = a\<rparr>" role]
    by (auto simp: hasPermission_def RoleRootUser_def known_def)
  ultimately show ?thesis using T(2) by auto
qed

theorem permission_form_round_trip_witness:
  "\<exists>e'. ReloadPolicy list_casbin list_sql (Some sample_engine) sample_saved = Some e' \<and>
     hasPermission (Some \<lparr>au_role = 10, au_admin_permissions = Some (Capabilities registered list_casbin (Some e') 42 10)\<rparr>)
       (js ''channel'') (js ''sensitive_write'') \<and>
     \<not> Can registered list_casbin (Some e') 42 10 \<lparr>pm_Resource = js ''channel'', pm_Action = js ''write''\<rparr>"
proof -
  have "uf_role sample_form = Some 10" "RoleAdminUser \<le> 10" "(10 :: int) < RoleRootUser"
    by (simp_all add: sample_form_def RoleAdminUser_def RoleRootUser_def)
  note shown = permission_form_round_trip [OF sample_laws sample_run this sample_form_save]
  have "box_checked (GetPermissionCatalog registered) sample_form (js ''channel'') (js ''sensitive_write'')"
    "\<not> box_checked (GetPermissionCatalog registered) sample_form (js ''channel'') (js ''write'')" by code_simp+
  with shown show ?thesis by auto
qed

text \<open>
  C9: When a user is no administrator any more, saving or demoting by root removes every override: after the policy has been loaded again
  and the user is promoted once more, the user may do what the role may do, whatever matrix had been saved before.
\<close>
theorem demoted_user_starts_from_role:
  assumes "casbin_documented c" "sql_documented s" "registry_ok reg" "authz_run reg c s d e" "userRole < RoleAdminUser"
    "updateAdminPermissionsForUserInTx reg c s (Some e) RoleRootUser d u userRole perms = Some (touched, d')"
  shows "\<exists>e'. ReloadPolicy c s (Some e) d' = Some e' \<and>
    (\<forall>p. isKnownPermission reg p \<longrightarrow> Can reg c (Some e') u RoleAdminUser p = (p \<in> set (PermissionsForRole reg managedRoleKey)))"
proof -
  obtain T rows where T: "FindOrdered s d = Some rows" "rows_hold rows T" "table_ok reg T"
    using authz_run_table [OF assms(1-4)] by (auto simp: table_of_def)
  let ?T' = "{p \<in> T. \<not> (p ! 0 = UserSubject u \<and> p ! 1 \<in> set (map rd_Resource reg))}"
  have clear: "ClearUserPermissionsInTx reg s d u = Some d'"
    using assms(5,6) by (auto simp: updateAdminPermissionsForUserInTx_def split: option.splits)
  have tab: "table_of reg s d' ?T'"
    using ClearUserPermissionsInTx_table [OF assms(2) T(1,2) clear] cleared_table_ok [OF T(3)] by (auto simp: table_of_def)
  then obtain e' where e': "ReloadPolicy c s (Some e) d' = Some e'" "held c e' = ?T'" "table_ok reg (held c e')"
    using ReloadPolicy_table [OF assms(1) tab, of e] cleared_table_ok [OF T(3), of u] by auto
  have "Can reg c (Some e') u RoleAdminUser p = (p \<in> set (PermissionsForRole reg managedRoleKey))" if "isKnownPermission reg p" for p
  proof -
    obtain r a where p: "p = \<lparr>pm_Resource = r, pm_Action = a\<rparr>" by (cases p) simp
    have k: "known reg r a" using that by (simp add: known_def p)
    then have "user_line reg u r a \<notin> ?T'" by (auto simp: known_iff)
    then show ?thesis
      using Can_administrator [OF assms(1,3) e'(3) k, of RoleAdminUser u] e'(2)
      by (simp add: p base_def managedRoleKey_def RoleAdminUser_def RoleRootUser_def)
  qed
  then show ?thesis using e'(1) by blast
qed

theorem demoted_user_starts_from_role_witness:
  "\<exists>e'. ReloadPolicy list_casbin list_sql (Some sample_engine) sample_table = Some e' \<and>
     Can registered list_casbin (Some e') 42 RoleAdminUser \<lparr>pm_Resource = js ''channel'', pm_Action = js ''write''\<rparr>"
proof -
  have "(1 :: int) < RoleAdminUser" by (simp add: RoleAdminUser_def)
  note role = demoted_user_starts_from_role [OF sample_laws sample_run_saved this sample_clear]
  have "isKnownPermission registered \<lparr>pm_Resource = js ''channel'', pm_Action = js ''write''\<rparr>"
    "\<lparr>pm_Resource = js ''channel'', pm_Action = js ''write''\<rparr> \<in> set (PermissionsForRole registered managedRoleKey)" by code_simp+
  with role show ?thesis by blast
qed

text \<open>
  C5: In every state of the service the table holds the grants of the role and, of every user, only entries for registered permissions that say the
  opposite of the role. No two entries of a user contradict each other, and none repeats the role.
\<close>
theorem stored_policies_are_overrides:
  assumes "casbin_documented c" "sql_documented s" "registry_ok reg" "authz_run reg c s d e"
  shows "\<exists>rows. FindOrdered s d = Some rows \<and>
    (\<forall>p \<in> set (PermissionsForRole reg BuiltInRoleAdmin). \<exists>row \<in> set rows.
       V0 row = RoleSubject BuiltInRoleAdmin \<and> V1 row = pm_Resource p \<and> V2 row = pm_Action p \<and> V3 row = EffectAllow) \<and>
    (\<forall>row \<in> set rows. let p = \<lparr>pm_Resource = V1 row, pm_Action = V2 row\<rparr>; granted = p \<in> set (PermissionsForRole reg BuiltInRoleAdmin) in
       V0 row = RoleSubject BuiltInRoleAdmin \<and> granted \<and> V3 row = EffectAllow \<or>
       (\<exists>u. V0 row = UserSubject u) \<and> isKnownPermission reg p \<and> V3 row = (if granted then EffectDeny else EffectAllow))"
proof -
  obtain T rows where T: "FindOrdered s d = Some rows" "rows_hold rows T" "table_ok reg T"
    using authz_run_table [OF assms] by (auto simp: table_of_def)
  have "\<exists>row \<in> set rows. V0 row = RoleSubject BuiltInRoleAdmin \<and> V1 row = pm_Resource p \<and> V2 row = pm_Action p \<and> V3 row = EffectAllow"
    if "p \<in> set (PermissionsForRole reg BuiltInRoleAdmin)" for p
  proof -
    obtain r a where "p = \<lparr>pm_Resource = r, pm_Action = a\<rparr>" by (cases p) simp
    then have "base reg (pm_Resource p) (pm_Action p)" using that by (simp add: base_def)
    then have "role_line (pm_Resource p) (pm_Action p) \<in> rule_policy ` set rows" using T(2,3) by (simp add: table_ok_def rows_hold_def)
    then show ?thesis by (auto simp: role_line_def rule_policy_def)
  qed
  moreover have "let p = \<lparr>pm_Resource = V1 row, pm_Action = V2 row\<rparr>; granted = p \<in> set (PermissionsForRole reg BuiltInRoleAdmin) in
       V0 row = RoleSubject BuiltInRoleAdmin \<and> granted \<and> V3 row = EffectAllow \<or>
       (\<exists>u. V0 row = UserSubject u) \<and> isKnownPermission reg p \<and> V3 row = (if granted then EffectDeny else EffectAllow)"
    if "row \<in> set rows" for row
  proof -
    have "rule_policy row \<in> T" using T(2) that by (simp add: rows_hold_def)
    then consider r a where "base reg r a" "rule_policy row = role_line r a" | u r a where "known reg r a" "rule_policy row = user_line reg u r a"
      using T(3) unfolding table_ok_def overrides_only_def by blast
    then show ?thesis by cases (auto simp: rule_policy_def role_line_def user_line_def base_def known_def Let_def)
  qed
  ultimately show ?thesis using T(1) by blast
qed

theorem stored_policies_are_overrides_witness:
  "list_all (\<lambda>row. V0 row = RoleSubject BuiltInRoleAdmin \<or> (\<exists>u. V0 row = UserSubject u)) sample_saved"
  using stored_policies_are_overrides [OF sample_laws sample_run_saved] by (auto simp: list_sql_def Let_def list_all_iff)

lemma sample_direct:
  "\<exists>e1 d1. SetUserPermissions registered list_casbin list_sql (Some (sample_engine, sample_table)) 42 sample_matrix = Some (e1, d1)"
proof -
  have "SetUserPermissions registered list_casbin list_sql (Some (sample_engine, sample_table)) 42 sample_matrix =
      Some (map rule_policy sample_saved, sample_saved)" by code_simp
  then show ?thesis by blast
qed

lemma sample_in_tx: "SetUserPermissionsInTx registered list_casbin list_sql (Some sample_engine) sample_table 42 sample_matrix = Some sample_saved"
  by code_simp

lemma sample_reload: "ReloadPolicy list_casbin list_sql (Some sample_engine) sample_table = Some sample_engine"
  by code_simp

text \<open>
  C8: Storing a matrix through the engine and storing it in a transaction that is followed by loading the policy again come to the same:
  every decision for every user is the same afterwards, and the table has the same rows.
\<close>
theorem direct_and_transactional_agree:
  assumes "casbin_documented c" "sql_documented s" "registry_ok reg" "authz_run reg c s d e0" "ReloadPolicy c s (Some e0) d = Some e"
    "SetUserPermissions reg c s (Some (e, d)) u perms = Some (e1, d1)"
    "SetUserPermissionsInTx reg c s (Some e) d u perms = Some d2"
  shows "\<exists>e2. ReloadPolicy c s (Some e) d2 = Some e2 \<and>
    (\<forall>v role p. Can reg c (Some e1) v role p = Can reg c (Some e2) v role p) \<and>
    map_option set (FindOrdered s d1) = map_option set (FindOrdered s d2)"
proof -
  obtain T rows where T: "table_of reg s d T" "FindOrdered s d = Some rows" "rows_hold rows T" "table_ok reg T"
    using authz_run_table [OF assms(1-4)] by (auto simp: table_of_def)
  let ?T' = "apply_matrix reg u T perms"
  have held: "held c e = T" using ReloadPolicy_table [OF assms(1) T(1), of e0] assms(5) by simp
  have "in_step c s (e, d) T" using held T(2,3) by (simp add: in_step_def)
  from SetUserPermissions_step [OF assms(1-3) T(4) this assms(6)] obtain rows1
    where 1: "held c e1 = ?T'" "FindOrdered s d1 = Some rows1" "rows_hold rows1 ?T'" by (auto simp: in_step_def)
  from SetUserPermissionsInTx_table [OF assms(1-3) _ T(2,3) assms(7)] held T(4) obtain rows2
    where 2: "FindOrdered s d2 = Some rows2" "rows_hold rows2 ?T'" by auto
  have ok: "table_ok reg ?T'" by (rule apply_matrix_table_ok [OF T(4)])
  with 2 have "table_of reg s d2 ?T'" by (auto simp: table_of_def)
  then obtain e2 where e2: "ReloadPolicy c s (Some e) d2 = Some e2" "held c e2 = ?T'" using ReloadPolicy_table [OF assms(1)] by blast
  have "Can reg c (Some e1) v role p = Can reg c (Some e2) v role p" for v role p
    by (rule Can_same_lines [OF assms(1,3)]) (simp_all add: 1(1) e2(2) ok)
  then show ?thesis using e2(1) rows_hold_unique [OF 1(3) 2(2)] by (simp add: 1(2) 2(1))
qed

theorem direct_and_transactional_agree_witness:
  "\<exists>e1 d1 e2. SetUserPermissions registered list_casbin list_sql (Some (sample_engine, sample_table)) 42 sample_matrix = Some (e1, d1) \<and>
     ReloadPolicy list_casbin list_sql (Some sample_engine) sample_saved = Some e2 \<and>
     Can registered list_casbin (Some e1) 42 10 \<lparr>pm_Resource = js ''channel'', pm_Action = js ''write''\<rparr> =
     Can registered list_casbin (Some e2) 42 10 \<lparr>pm_Resource = js ''channel'', pm_Action = js ''write''\<rparr>"
proof -
  obtain e1 d1 where direct: "SetUserPermissions registered list_casbin list_sql (Some (sample_engine, sample_table)) 42 sample_matrix = Some (e1, d1)"
    using sample_direct by blast
  from direct_and_transactional_agree [OF sample_laws sample_run sample_reload direct sample_in_tx] direct show ?thesis by blast
qed

end
