(* ===== verification/Channel_Keys.thy ===== *)
theory Channel_Keys
  imports Authz
begin

text \<open>
  Channels with several keys on the server (\<open>model/channel.go\<close> and \<open>ManageMultiKeys\<close> of \<open>controller/channel.go\<close>): reading the
  keys of a channel, choosing the next one, the status of each key, and the operations of the key dialog.

  Strings are lists of bytes, and only ASCII white space is trimmed. A pointer is an option, a Go map is an association
  list, \<open>nil\<close> is \<open>None\<close>. The database is the record \<open>Store\<close> of the operations that are called; the rebuilt
  routing tables (abilities and caches) and the audit log are left out.
\<close>

section \<open>Data\<close>

record ChannelInfo =
  ci_IsMultiKey :: bool
  ci_MultiKeySize :: int
  ci_MultiKeyStatusList :: "(int \<times> int) list option"
  ci_MultiKeyDisabledReason :: "(int \<times> jstring) list option"
  ci_MultiKeyDisabledTime :: "(int \<times> int) list option"
  ci_MultiKeyPollingIndex :: int
  ci_MultiKeyMode :: jstring

record Channel =
  ch_Id :: int
  ch_Type :: int
  ch_Key :: jstring
  ch_OpenAIOrganization :: "jstring option"
  ch_TestModel :: "jstring option"
  ch_Status :: int
  ch_Name :: jstring
  ch_Weight :: "nat option"
  ch_CreatedTime :: int
  ch_TestTime :: int
  ch_ResponseTime :: int
  ch_BaseURL :: "jstring option"
  ch_Other :: jstring
  ch_Balance :: rat
  ch_BalanceUpdatedTime :: int
  ch_PricePerToken :: "rat option"
  ch_PricePerRequest :: "rat option"
  ch_PriceMapping :: "jstring option"
  ch_Models :: jstring
  ch_Group :: jstring
  ch_UsedQuota :: int
  ch_ModelMapping :: "jstring option"
  ch_StatusCodeMapping :: "jstring option"
  ch_Priority :: "int option"
  ch_AutoBan :: "int option"
  ch_OtherInfo :: jstring
  ch_Tag :: "jstring option"
  ch_Setting :: "jstring option"
  ch_ParamOverride :: "jstring option"
  ch_HeaderOverride :: "jstring option"
  ch_Remark :: "jstring option"
  ch_ChannelInfo :: ChannelInfo
  ch_OtherSettings :: jstring
  ch_Keys :: "jstring list"

definition ChannelStatusEnabled :: int where "ChannelStatusEnabled = 1"
definition ChannelStatusManuallyDisabled :: int where "ChannelStatusManuallyDisabled = 2"
definition ChannelStatusAutoDisabled :: int where "ChannelStatusAutoDisabled = 3"

record 'd Store =
  First :: "'d \<Rightarrow> int \<Rightarrow> Channel option"
  Updates :: "'d \<Rightarrow> Channel \<Rightarrow> 'd option"
  SaveOmitKey :: "'d \<Rightarrow> Channel \<Rightarrow> 'd option"

section \<open>Strings\<close>

definition go_space :: "code_unit \<Rightarrow> bool" where
  "go_space c \<longleftrightarrow> 9 \<le> c \<and> c \<le> 13 \<or> c = 32"

definition TrimSpace :: "jstring \<Rightarrow> jstring" where
  "TrimSpace s = rev (dropWhile go_space (rev (dropWhile go_space s)))"

definition Trim_newlines :: "jstring \<Rightarrow> jstring" where
  \<comment> \<open>\<open>strings.Trim(s, "\n")\<close>\<close>
  "Trim_newlines s = rev (dropWhile (\<lambda>c. c = 10) (rev (dropWhile (\<lambda>c. c = 10) s)))"

fun raw_elements :: "nat \<Rightarrow> jstring \<Rightarrow> jstring list option" where
  \<comment> \<open>the elements of an array as they are written, from behind its opening bracket or a comma; the number bounds their count\<close>
  "raw_elements 0 s = None"
| "raw_elements (Suc n) s =
     (let v = skip_space s in
      case parse_value (Suc (2 * length v)) v of None \<Rightarrow> None
      | Some (_, r) \<Rightarrow>
          (let raw = take (length v - length r) v in
           case skip_space r of [] \<Rightarrow> None
           | c # r' \<Rightarrow>
               if c = 44 then map_option (\<lambda>raws. raw # raws) (raw_elements n r')
               else if c = 93 \<and> skip_space r' = [] then Some [raw] else None))"

definition raw_array :: "jstring \<Rightarrow> jstring list option" where
  \<comment> \<open>\<open>json.Unmarshal\<close> into \<open>[]json.RawMessage\<close>\<close>
  "raw_array s =
     (case skip_space s of [] \<Rightarrow> None
      | c # r \<Rightarrow>
          if c \<noteq> 91 then None
          else (case skip_space r of [] \<Rightarrow> None
                | d # r' \<Rightarrow> if d = 93 then (if skip_space r' = [] then Some [] else None) else raw_elements (length s) r))"

section \<open>Keys\<close>

definition GetKeys :: "Channel \<Rightarrow> jstring list" where
  "GetKeys channel =
     (if ch_Key channel = [] then []
      else if ch_Keys channel \<noteq> [] then ch_Keys channel
      else
        (let trimmed = TrimSpace (ch_Key channel) in
         case (if startsWith trimmed [91] then raw_array trimmed else None) of
           Some raws \<Rightarrow> raws
         | None \<Rightarrow> split_on 10 (Trim_newlines (ch_Key channel))))"

definition key_status :: "ChannelInfo \<Rightarrow> int \<Rightarrow> int" where
  \<comment> \<open>the status of a key, enabled where nothing is recorded\<close>
  "key_status info i =
     (case ci_MultiKeyStatusList info of None \<Rightarrow> ChannelStatusEnabled
      | Some m \<Rightarrow> (case map_of m i of Some status \<Rightarrow> status | None \<Rightarrow> ChannelStatusEnabled))"

definition enabledIdx :: "ChannelInfo \<Rightarrow> nat \<Rightarrow> nat list" where
  "enabledIdx info n = filter (\<lambda>i. key_status info (int i) = ChannelStatusEnabled) [0..<n]"

datatype key_choice =
    NoKeys
  | NoEnabledKeys
  | GetChannelFailed
  | Chosen jstring nat

definition MultiKeyModeRandom :: jstring where "MultiKeyModeRandom = js ''random''"
definition MultiKeyModePolling :: jstring where "MultiKeyModePolling = js ''polling''"

definition GetNextEnabledKey :: "nat \<Rightarrow> int option \<Rightarrow> Channel \<Rightarrow> key_choice \<times> Channel" where
  \<comment> \<open>the arguments are the number \<open>rand.Intn\<close> gives and the polling index \<open>CacheGetChannelInfo\<close> reads, \<open>None\<close> where it fails\<close>
  "GetNextEnabledKey rnd saved channel =
     (let info = ch_ChannelInfo channel in
      if \<not> ci_IsMultiKey info then (Chosen (ch_Key channel) 0, channel)
      else
        (let keys = GetKeys channel in
         if keys = [] then (NoKeys, channel)
         else
           (let enabled = enabledIdx info (length keys) in
            if enabled = [] then (NoEnabledKeys, channel)
            else if ci_MultiKeyMode info = MultiKeyModeRandom then
              (let i = enabled ! rnd in (Chosen (keys ! i) i, channel))
            else if ci_MultiKeyMode info = MultiKeyModePolling then
              (case saved of None \<Rightarrow> (GetChannelFailed, channel)
               | Some index \<Rightarrow>
                   (let start = (if index < 0 \<or> int (length keys) \<le> index then 0 else nat index) in
                    case find (\<lambda>i. key_status info (int ((start + i) mod length keys)) = ChannelStatusEnabled) [0..<length keys] of
                      Some i \<Rightarrow>
                        (let idx = (start + i) mod length keys in
                         (Chosen (keys ! idx) idx,
                          channel\<lparr>ch_ChannelInfo := info\<lparr>ci_MultiKeyPollingIndex := int ((idx + 1) mod length keys)\<rparr>\<rparr>))
                    | None \<Rightarrow> (Chosen (keys ! (enabled ! 0)) (enabled ! 0), channel)))
            else (Chosen (keys ! (enabled ! 0)) (enabled ! 0), channel))))"

definition hasEnabledMultiKey :: "jstring list \<Rightarrow> (int \<times> int) list option \<Rightarrow> bool" where
  "hasEnabledMultiKey keys statusList =
     list_ex (\<lambda>i. case statusList of None \<Rightarrow> True
       | Some m \<Rightarrow> (case map_of m (int i) of None \<Rightarrow> True | Some status \<Rightarrow> status = ChannelStatusEnabled)) [0..<length keys]"

definition handlerMultiKeyUpdate :: "(jstring \<Rightarrow> jstring \<Rightarrow> int \<Rightarrow> jstring) \<Rightarrow> int \<Rightarrow> Channel \<Rightarrow> jstring \<Rightarrow> int \<Rightarrow> jstring \<Rightarrow> Channel" where
  \<comment> \<open>the first argument puts \<open>status_reason\<close> and \<open>status_time\<close> into the stored \<open>other_info\<close>, the second is the time\<close>
  "handlerMultiKeyUpdate setInfo now channel usingKey status reason =
     (let keys = GetKeys channel; info = ch_ChannelInfo channel in
      if keys = [] then channel\<lparr>ch_Status := status\<rparr>
      else
        (case find_index (\<lambda>key. key = usingKey) keys of
           None \<Rightarrow>
             if usingKey \<noteq> [] then channel
             else channel\<lparr>ch_Status := status, ch_OtherInfo := setInfo (ch_OtherInfo channel) reason now\<rparr>
         | Some k \<Rightarrow>
             (let keyIndex = int k;
                  statuses = (case ci_MultiKeyStatusList info of Some m \<Rightarrow> m | None \<Rightarrow> []);
                  info' =
                    (if status = ChannelStatusEnabled then info\<lparr>ci_MultiKeyStatusList := Some (AList.delete keyIndex statuses)\<rparr>
                     else info\<lparr>ci_MultiKeyStatusList := Some (AList.update keyIndex status statuses),
                       ci_MultiKeyDisabledReason :=
                         Some (AList.update keyIndex reason (case ci_MultiKeyDisabledReason info of Some m \<Rightarrow> m | None \<Rightarrow> [])),
                       ci_MultiKeyDisabledTime :=
                         Some (AList.update keyIndex now (case ci_MultiKeyDisabledTime info of Some m \<Rightarrow> m | None \<Rightarrow> []))\<rparr>);
                  channel' = channel\<lparr>ch_ChannelInfo := info'\<rparr> in
              if \<not> hasEnabledMultiKey keys (ci_MultiKeyStatusList info') then
                channel'\<lparr>ch_Status := ChannelStatusAutoDisabled,
                  ch_OtherInfo := setInfo (ch_OtherInfo channel) (js ''All keys are disabled'') now\<rparr>
              else if status = ChannelStatusEnabled then channel'\<lparr>ch_Status := ChannelStatusEnabled\<rparr>
              else channel')))"

section \<open>Writing a channel back\<close>

definition update_size :: "'d Store \<Rightarrow> 'd \<Rightarrow> Channel \<Rightarrow> Channel" where
  \<comment> \<open>the number of keys of a channel with several keys, before it is written\<close>
  "update_size st d channel =
     (let info = ch_ChannelInfo channel in
      if \<not> ci_IsMultiKey info then channel
      else
        (let keyStr = (if ch_Key channel \<noteq> [] then ch_Key channel
               else (case First st d (ch_Id channel) of Some existing \<Rightarrow> ch_Key existing | None \<Rightarrow> []));
             trimmed = TrimSpace keyStr;
             arr = (if startsWith trimmed [91] then (case raw_array trimmed of Some raws \<Rightarrow> raws | None \<Rightarrow> []) else []);
             keys = (if keyStr = [] then [] else if arr = [] then split_on 10 (Trim_newlines keyStr) else arr);
             size = int (length keys) in
         channel\<lparr>ch_ChannelInfo := info\<lparr>ci_MultiKeySize := size,
           ci_MultiKeyStatusList := map_option (filter (\<lambda>kv. \<not> size \<le> fst kv)) (ci_MultiKeyStatusList info)\<rparr>\<rparr>))"

definition Channel_Update :: "'d Store \<Rightarrow> 'd \<Rightarrow> Channel \<Rightarrow> 'd option" where
  "Channel_Update st d channel = Updates st d (update_size st d channel)"

section \<open>The key dialog\<close>

record MultiKeyManageRequest =
  mk_ChannelId :: int
  mk_Action :: jstring
  mk_KeyIndex :: "int option"
  mk_Page :: int
  mk_PageSize :: int
  mk_Status :: "int option"

record KeyStatus =
  ks_Index :: int
  ks_Status :: int
  ks_DisabledTime :: int
  ks_Reason :: jstring
  ks_KeyPreview :: jstring

record MultiKeyStatusResponse =
  sr_Keys :: "KeyStatus list"
  sr_Total :: int
  sr_Page :: int
  sr_PageSize :: int
  sr_TotalPages :: int
  sr_EnabledCount :: nat
  sr_ManualDisabledCount :: nat
  sr_AutoDisabledCount :: nat

datatype manage_response =
    ChannelMissing
  | NotMultiKey
  | InsufficientPrivilege
  | IndexMissing
  | IndexOutOfRange
  | NothingToDisable
  | LastKey
  | NothingToDelete
  | Unsupported
  | StoreFailed
  | Panicked
  | StatusPage MultiKeyStatusResponse
  | KeysChanged nat

definition key_status_entry :: "ChannelInfo \<Rightarrow> nat \<Rightarrow> jstring \<Rightarrow> KeyStatus" where
  "key_status_entry info i key =
     (let status = key_status info (int i) in
      \<lparr>ks_Index = int i, ks_Status = status,
       ks_DisabledTime = (if status \<noteq> 1 then (case ci_MultiKeyDisabledTime info of None \<Rightarrow> 0
         | Some m \<Rightarrow> (case map_of m (int i) of Some v \<Rightarrow> v | None \<Rightarrow> 0)) else 0),
       ks_Reason = (if status \<noteq> 1 then (case ci_MultiKeyDisabledReason info of None \<Rightarrow> []
         | Some m \<Rightarrow> (case map_of m (int i) of Some v \<Rightarrow> v | None \<Rightarrow> [])) else []),
       ks_KeyPreview = (if 10 < length key then take 10 key @ js ''...'' else key)\<rparr>)"

definition wrap64 :: "int \<Rightarrow> int" where
  \<comment> \<open>the result of an operation on \<open>int\<close>, 64 bits wide and signed\<close>
  "wrap64 x = (x + 2 ^ 63) mod 2 ^ 64 - 2 ^ 63"

definition go_div :: "int \<Rightarrow> int \<Rightarrow> int" where
  \<comment> \<open>division, which drops the fraction\<close>
  "go_div a b = (if 0 \<le> a then a div b else - ((- a) div b))"

definition go_slice :: "'a list \<Rightarrow> int \<Rightarrow> int \<Rightarrow> 'a list option" where
  \<comment> \<open>\<open>xs[start:end]\<close>, which panics when the bounds are out of range\<close>
  "go_slice xs start stop =
     (if 0 \<le> start \<and> start \<le> stop \<and> stop \<le> int (length xs) then Some (take (nat (stop - start)) (drop (nat start) xs)) else None)"

definition key_status_page :: "Channel \<Rightarrow> MultiKeyManageRequest \<Rightarrow> MultiKeyStatusResponse option" where
  \<comment> \<open>\<open>None\<close> where the slice of the page panics; the divisor is positive\<close>
  "key_status_page channel request =
     (let keys = GetKeys channel; info = ch_ChannelInfo channel;
          page0 = (if mk_Page request \<le> 0 then 1 else mk_Page request);
          pageSize = (if mk_PageSize request \<le> 0 then 50 else mk_PageSize request);
          all = map (\<lambda>i. key_status_entry info i (keys ! i)) [0..<length keys];
          tally = (\<lambda>status. length (filter (\<lambda>ks. ks_Status ks = status) all));
          filtered = (case mk_Status request of Some status \<Rightarrow> filter (\<lambda>ks. ks_Status ks = status) all | None \<Rightarrow> all);
          filteredTotal = int (length filtered);
          pages0 = go_div (wrap64 (wrap64 (filteredTotal + pageSize) - 1)) pageSize;
          totalPages = (if pages0 = 0 then 1 else pages0);
          page = (if totalPages < page0 then totalPages else page0);
          start = wrap64 (wrap64 (page - 1) * pageSize);
          stop0 = wrap64 (start + pageSize);
          stop = (if filteredTotal < stop0 then filteredTotal else stop0) in
      map_option (\<lambda>pageKeyStatusList.
        \<lparr>sr_Keys = pageKeyStatusList, sr_Total = filteredTotal, sr_Page = page, sr_PageSize = pageSize, sr_TotalPages = totalPages,
         sr_EnabledCount = tally 1, sr_ManualDisabledCount = tally 2, sr_AutoDisabledCount = tally 3\<rparr>)
        (if start < filteredTotal then go_slice filtered start stop else Some []))"

definition nil_to_empty :: "'a list option \<Rightarrow> 'a list option" where
  "nil_to_empty m = (case m of None \<Rightarrow> Some [] | Some kvs \<Rightarrow> Some kvs)"

definition with_maps :: "ChannelInfo \<Rightarrow> ChannelInfo" where
  \<comment> \<open>the three maps made where they are \<open>nil\<close>\<close>
  "with_maps info = info\<lparr>ci_MultiKeyStatusList := nil_to_empty (ci_MultiKeyStatusList info),
     ci_MultiKeyDisabledTime := nil_to_empty (ci_MultiKeyDisabledTime info),
     ci_MultiKeyDisabledReason := nil_to_empty (ci_MultiKeyDisabledReason info)\<rparr>"

definition disable_key :: "int \<Rightarrow> ChannelInfo \<Rightarrow> ChannelInfo" where
  "disable_key keyIndex info =
     (let info' = with_maps info in info'\<lparr>ci_MultiKeyStatusList := map_option (AList.update keyIndex 2) (ci_MultiKeyStatusList info')\<rparr>)"

definition enable_key :: "int \<Rightarrow> ChannelInfo \<Rightarrow> ChannelInfo" where
  "enable_key keyIndex info =
     info\<lparr>ci_MultiKeyStatusList := map_option (AList.delete keyIndex) (ci_MultiKeyStatusList info),
       ci_MultiKeyDisabledTime := map_option (AList.delete keyIndex) (ci_MultiKeyDisabledTime info),
       ci_MultiKeyDisabledReason := map_option (AList.delete keyIndex) (ci_MultiKeyDisabledReason info)\<rparr>"

definition enable_all_keys :: "ChannelInfo \<Rightarrow> ChannelInfo" where
  "enable_all_keys info =
     info\<lparr>ci_MultiKeyStatusList := Some [], ci_MultiKeyDisabledTime := Some [], ci_MultiKeyDisabledReason := Some []\<rparr>"

fun disable_scan :: "int list \<Rightarrow> ChannelInfo \<Rightarrow> nat \<Rightarrow> ChannelInfo \<times> nat" where
  "disable_scan [] info disabledCount = (info, disabledCount)"
| "disable_scan (i # is) info disabledCount =
     (if key_status info i = 1
      then disable_scan is (info\<lparr>ci_MultiKeyStatusList := map_option (AList.update i 2) (ci_MultiKeyStatusList info)\<rparr>) (Suc disabledCount)
      else disable_scan is info disabledCount)"

definition disable_all_keys :: "ChannelInfo \<Rightarrow> ChannelInfo \<times> nat" where
  "disable_all_keys info = disable_scan [0..ci_MultiKeySize info - 1] (with_maps info) 0"

record KeyScan =
  sc_keys :: "jstring list"
  sc_status :: "(int \<times> int) list"
  sc_time :: "(int \<times> int) list"
  sc_reason :: "(int \<times> jstring) list"
  sc_deleted :: nat

definition empty_scan :: KeyScan where
  "empty_scan = \<lparr>sc_keys = [], sc_status = [], sc_time = [], sc_reason = [], sc_deleted = 0\<rparr>"

definition copy_entry :: "(int \<times> 'v) list option \<Rightarrow> int \<Rightarrow> int \<Rightarrow> (int \<times> 'v) list \<Rightarrow> (int \<times> 'v) list" where
  \<comment> \<open>the entry at an old index, if there is one, put at a new index\<close>
  "copy_entry m i newIndex kvs =
     (case m of None \<Rightarrow> kvs | Some old \<Rightarrow> (case map_of old i of Some v \<Rightarrow> AList.update newIndex v kvs | None \<Rightarrow> kvs))"

definition keep_status :: "ChannelInfo \<Rightarrow> int \<Rightarrow> int \<Rightarrow> (int \<times> int) list \<Rightarrow> (int \<times> int) list" where
  "keep_status info i newIndex kvs =
     (if key_status info i \<noteq> 1 then AList.update newIndex (key_status info i) kvs else kvs)"

fun delete_key_scan :: "ChannelInfo \<Rightarrow> int \<Rightarrow> int \<Rightarrow> jstring list \<Rightarrow> KeyScan \<Rightarrow> KeyScan" where
  "delete_key_scan info keyIndex i [] acc = acc"
| "delete_key_scan info keyIndex i (key # keys) acc =
     delete_key_scan info keyIndex (i + 1) keys
       (if i = keyIndex then acc
        else
          (let newIndex = int (length (sc_keys acc)) in
           acc\<lparr>sc_keys := sc_keys acc @ [key],
             sc_status := keep_status info i newIndex (sc_status acc),
             sc_time := copy_entry (ci_MultiKeyDisabledTime info) i newIndex (sc_time acc),
             sc_reason := copy_entry (ci_MultiKeyDisabledReason info) i newIndex (sc_reason acc)\<rparr>))"

fun delete_disabled_scan :: "ChannelInfo \<Rightarrow> int \<Rightarrow> jstring list \<Rightarrow> KeyScan \<Rightarrow> KeyScan" where
  "delete_disabled_scan info i [] acc = acc"
| "delete_disabled_scan info i (key # keys) acc =
     delete_disabled_scan info (i + 1) keys
       (let status = key_status info i in
        if status = 3 then acc\<lparr>sc_deleted := Suc (sc_deleted acc)\<rparr>
        else
          (let newIndex = int (length (sc_keys acc)); acc' = acc\<lparr>sc_keys := sc_keys acc @ [key]\<rparr> in
           if status \<noteq> 1 then
             acc'\<lparr>sc_status := AList.update newIndex status (sc_status acc),
               sc_time := copy_entry (ci_MultiKeyDisabledTime info) i newIndex (sc_time acc),
               sc_reason := copy_entry (ci_MultiKeyDisabledReason info) i newIndex (sc_reason acc)\<rparr>
           else acc'))"

definition with_scan :: "KeyScan \<Rightarrow> Channel \<Rightarrow> Channel" where
  "with_scan sc channel =
     channel\<lparr>ch_Key := join [10] (sc_keys sc),
       ch_ChannelInfo := (ch_ChannelInfo channel)\<lparr>ci_MultiKeySize := int (length (sc_keys sc)), ci_MultiKeyStatusList := Some (sc_status sc),
         ci_MultiKeyDisabledTime := Some (sc_time sc), ci_MultiKeyDisabledReason := Some (sc_reason sc)\<rparr>\<rparr>"

definition multiKeyActionRequiresSensitiveWrite :: "jstring \<Rightarrow> bool" where
  "multiKeyActionRequiresSensitiveWrite action = (action = js ''delete_key'' \<or> action = js ''delete_disabled_keys'')"

definition store_keys :: "'d Store \<Rightarrow> 'd \<Rightarrow> Channel \<Rightarrow> nat \<Rightarrow> 'd \<times> manage_response" where
  "store_keys st d channel n = (case Channel_Update st d channel of Some d' \<Rightarrow> (d', KeysChanged n) | None \<Rightarrow> (d, StoreFailed))"

definition ManageMultiKeys :: "'d Store \<Rightarrow> bool \<Rightarrow> 'd \<Rightarrow> MultiKeyManageRequest \<Rightarrow> 'd \<times> manage_response" where
  \<comment> \<open>the boolean is \<open>authz.Can(.., authz.ChannelSensitiveWrite)\<close> for the caller; the number in the response is the count reported\<close>
  "ManageMultiKeys st sensitiveWrite d request =
     (case First st d (mk_ChannelId request) of None \<Rightarrow> (d, ChannelMissing)
      | Some channel \<Rightarrow>
          (let info = ch_ChannelInfo channel; action = mk_Action request in
           if \<not> ci_IsMultiKey info then (d, NotMultiKey)
           else if multiKeyActionRequiresSensitiveWrite action \<and> \<not> sensitiveWrite then (d, InsufficientPrivilege)
           else if action = js ''get_key_status'' then
             (d, case key_status_page channel request of Some response \<Rightarrow> StatusPage response | None \<Rightarrow> Panicked)
           else if action = js ''disable_key'' \<or> action = js ''enable_key'' \<or> action = js ''delete_key'' then
             (case mk_KeyIndex request of None \<Rightarrow> (d, IndexMissing)
              | Some keyIndex \<Rightarrow>
                  if keyIndex < 0 \<or> ci_MultiKeySize info \<le> keyIndex then (d, IndexOutOfRange)
                  else if action = js ''disable_key'' then store_keys st d (channel\<lparr>ch_ChannelInfo := disable_key keyIndex info\<rparr>) 1
                  else if action = js ''enable_key'' then store_keys st d (channel\<lparr>ch_ChannelInfo := enable_key keyIndex info\<rparr>) 1
                  else
                    (let sc = delete_key_scan info keyIndex 0 (GetKeys channel) empty_scan in
                     if sc_keys sc = [] then (d, LastKey) else store_keys st d (with_scan sc channel) 1))
           else if action = js ''enable_all_keys'' then
             store_keys st d (channel\<lparr>ch_ChannelInfo := enable_all_keys info\<rparr>)
               (case ci_MultiKeyStatusList info of Some m \<Rightarrow> length m | None \<Rightarrow> 0)
           else if action = js ''disable_all_keys'' then
             (let (info', disabledCount) = disable_all_keys info in
              if disabledCount = 0 then (d, NothingToDisable) else store_keys st d (channel\<lparr>ch_ChannelInfo := info'\<rparr>) disabledCount)
           else if action = js ''delete_disabled_keys'' then
             (let sc = delete_disabled_scan info 0 (GetKeys channel) empty_scan in
              if sc_deleted sc = 0 then (d, NothingToDelete) else store_keys st d (with_scan sc channel) (sc_deleted sc))
           else (d, Unsupported)))"

end
