(* ===== verification/Channel_Key_Props.thy ===== *)
theory Channel_Key_Props
  imports Channel_Keys
begin

text \<open>
  What holds of channels with several keys: the next key is always an enabled one, polling uses every enabled key
  once in each round, disabling a key marks that key alone and disables a channel that has no enabled key left, and
  the pages of the key dialog make up the list.
\<close>

section \<open>An example\<close>

definition blank_channel :: Channel where
  "blank_channel =
     \<lparr>ch_Id = 0, ch_Type = 0, ch_Key = [], ch_OpenAIOrganization = None, ch_TestModel = None, ch_Status = 0, ch_Name = [], ch_Weight = None,
      ch_CreatedTime = 0, ch_TestTime = 0, ch_ResponseTime = 0, ch_BaseURL = None, ch_Other = [], ch_Balance = 0, ch_BalanceUpdatedTime = 0,
      ch_PricePerToken = None, ch_PricePerRequest = None, ch_PriceMapping = None, ch_Models = [], ch_Group = [], ch_UsedQuota = 0,
      ch_ModelMapping = None, ch_StatusCodeMapping = None, ch_Priority = None, ch_AutoBan = None, ch_OtherInfo = [], ch_Tag = None,
      ch_Setting = None, ch_ParamOverride = None, ch_HeaderOverride = None, ch_Remark = None,
      ch_ChannelInfo = \<lparr>ci_IsMultiKey = False, ci_MultiKeySize = 0, ci_MultiKeyStatusList = None, ci_MultiKeyDisabledReason = None,
        ci_MultiKeyDisabledTime = None, ci_MultiKeyPollingIndex = 0, ci_MultiKeyMode = []\<rparr>,
      ch_OtherSettings = [], ch_Keys = []\<rparr>"

definition keyed_channel :: Channel where
  \<comment> \<open>three keys in polling mode, the second one disabled automatically\<close>
  "keyed_channel = blank_channel\<lparr>ch_Id := 7, ch_Status := 1, ch_Key := join [10] [js ''ka'', js ''kb'', js ''kc''],
     ch_ChannelInfo := \<lparr>ci_IsMultiKey = True, ci_MultiKeySize = 3, ci_MultiKeyStatusList = Some [(1, 3)],
       ci_MultiKeyDisabledReason = Some [(1, js ''quota'')], ci_MultiKeyDisabledTime = Some [(1, 100)],
       ci_MultiKeyPollingIndex = 1, ci_MultiKeyMode = MultiKeyModePolling\<rparr>\<rparr>"

definition status_request :: MultiKeyManageRequest where
  "status_request = \<lparr>mk_ChannelId = 7, mk_Action = js ''get_key_status'', mk_KeyIndex = None, mk_Page = 1, mk_PageSize = 2, mk_Status = None\<rparr>"

section \<open>Choosing a key\<close>

lemma enabledIdx_iff [simp]: "i \<in> set (enabledIdx info n) \<longleftrightarrow> i < n \<and> key_status info (int i) = ChannelStatusEnabled"
  by (auto simp: enabledIdx_def)

lemma find_filter: "find Q xs = (case filter Q xs of [] \<Rightarrow> None | x # _ \<Rightarrow> Some x)"
  by (induction xs) auto

lemma find_map_image: "map_option f (find (\<lambda>x. Q (f x)) xs) = find Q (map f xs)"
  by (induction xs) auto

definition turn :: "nat \<Rightarrow> nat \<Rightarrow> nat list" where
  \<comment> \<open>the indices below \<open>n\<close> from \<open>s\<close> on and then from the beginning\<close>
  "turn n s = rotate s [0..<n]"

lemma turn_map: "map (\<lambda>i. (s + i) mod n) [0..<n] = turn n s"
  by (rule nth_equalityI) (simp_all add: turn_def nth_rotate)

definition enabled_from :: "ChannelInfo \<Rightarrow> nat \<Rightarrow> nat \<Rightarrow> nat list" where
  "enabled_from info n s = filter (\<lambda>i. key_status info (int i) = ChannelStatusEnabled) (turn n s)"

lemma set_enabled_from: "set (enabled_from info n s) = set (enabledIdx info n)"
  by (auto simp: enabled_from_def turn_def)

lemma distinct_enabled_from: "distinct (enabled_from info n s)"
  by (simp add: enabled_from_def turn_def)

lemma length_enabled_from: "length (enabled_from info n s) = length (enabledIdx info n)"
proof -
  have "distinct (enabledIdx info n)" by (simp add: enabledIdx_def)
  then show ?thesis using distinct_enabled_from [of info n s] set_enabled_from [of info n s] by (metis distinct_card)
qed

lemma turn_next:
  assumes "turn n s = A @ x # B"
  shows "turn n (Suc x mod n) = B @ A @ [x]"
proof -
  have len: "length (turn n s) = n" by (simp add: turn_def)
  then have n: "length A < n" unfolding assms by simp
  have "x = turn n s ! length A" unfolding assms by simp
  also have "\<dots> = (s + length A) mod n" using n by (simp add: turn_def nth_rotate)
  finally have x: "x = (s + length A) mod n" .
  have "turn n (Suc x mod n) = rotate (Suc x) [0..<n]" by (simp add: turn_def rotate_conv_mod [symmetric, of _ "[0..<n]", simplified])
  also have "\<dots> = rotate (Suc (length A)) (turn n s)"
  proof -
    have "Suc x mod n = (Suc (length A) + s) mod n" unfolding x by (simp add: mod_Suc_eq add.commute)
    then show ?thesis unfolding turn_def rotate_rotate by (metis length_upt minus_nat.diff_0 rotate_conv_mod)
  qed
  also have "\<dots> = rotate (length (A @ [x])) ((A @ [x]) @ B)" unfolding assms by simp
  also have "\<dots> = B @ A @ [x]" by (subst rotate_append) simp
  finally show ?thesis .
qed

lemma enabled_from_next:
  assumes "enabled_from info n s = x # xs"
  shows "enabled_from info n (Suc x mod n) = xs @ [x]"
proof -
  let ?Q = "\<lambda>i. key_status info (int i) = ChannelStatusEnabled"
  obtain A B where split: "turn n s = A @ x # B" "\<forall>a\<in>set A. \<not> ?Q a" "?Q x" "xs = filter ?Q B"
    using assms unfolding enabled_from_def filter_eq_Cons_iff by blast
  have "filter ?Q A = []" using split(2) by (simp add: filter_empty_conv)
  then show ?thesis using turn_next [OF split(1)] split(3,4) by (simp add: enabled_from_def)
qed

definition polling :: "Channel \<Rightarrow> bool" where
  "polling ch \<longleftrightarrow> ci_IsMultiKey (ch_ChannelInfo ch) \<and> ci_MultiKeyMode (ch_ChannelInfo ch) = MultiKeyModePolling"

definition poll_start :: "Channel \<Rightarrow> int \<Rightarrow> nat" where
  "poll_start ch index = (if index < 0 \<or> int (length (GetKeys ch)) \<le> index then 0 else nat index)"

lemma modes_differ [simp]: "MultiKeyModePolling \<noteq> MultiKeyModeRandom" "MultiKeyModeRandom \<noteq> MultiKeyModePolling"
  by (simp_all add: MultiKeyModePolling_def MultiKeyModeRandom_def js_Cons)

lemma poll_step:
  assumes "polling ch" "enabled_from (ch_ChannelInfo ch) (length (GetKeys ch)) (poll_start ch index) = x # xs"
  shows "GetNextEnabledKey r (Some index) ch =
    (Chosen (GetKeys ch ! x) x,
     ch\<lparr>ch_ChannelInfo := (ch_ChannelInfo ch)\<lparr>ci_MultiKeyPollingIndex := int (Suc x mod length (GetKeys ch))\<rparr>\<rparr>)"
proof -
  let ?info = "ch_ChannelInfo ch" and ?n = "length (GetKeys ch)"
  let ?Q = "\<lambda>i. key_status ?info (int i) = ChannelStatusEnabled"
  have "x \<in> set (enabledIdx ?info ?n)" using assms(2) set_enabled_from [of ?info ?n "poll_start ch index"] by auto
  then have en: "enabledIdx ?info ?n \<noteq> []" "GetKeys ch \<noteq> []" by (force, force)
  have "map_option (\<lambda>i. (poll_start ch index + i) mod ?n) (find (\<lambda>i. ?Q ((poll_start ch index + i) mod ?n)) [0..<?n]) = Some x"
    using find_map_image [of "\<lambda>i. (poll_start ch index + i) mod ?n" ?Q "[0..<?n]"] find_filter [of ?Q "turn ?n (poll_start ch index)"] assms(2)
    by (simp add: turn_map enabled_from_def)
  then obtain i where "find (\<lambda>i. ?Q ((poll_start ch index + i) mod ?n)) [0..<?n] = Some i" "(poll_start ch index + i) mod ?n = x" by auto
  then show ?thesis using assms(1) en by (simp add: GetNextEnabledKey_def polling_def Let_def poll_start_def)
qed


lemma poll_start_saved:
  assumes "GetKeys ch \<noteq> []" "GetKeys ch' = GetKeys ch"
  shows "poll_start ch' (int (m mod length (GetKeys ch))) = m mod length (GetKeys ch)"
proof -
  have "m mod length (GetKeys ch) < length (GetKeys ch)" using assms(1) by simp
  then show ?thesis using assms(2) by (simp add: poll_start_def)
qed

lemma GetKeys_info [simp]: "GetKeys (ch\<lparr>ch_ChannelInfo := info\<rparr>) = GetKeys ch"
  by (simp add: GetKeys_def Let_def cong: option.case_cong)

lemma key_status_polling [simp]: "key_status (info\<lparr>ci_MultiKeyPollingIndex := i\<rparr>) k = key_status info k"
  by (simp add: key_status_def)

lemma enabled_from_polling [simp]: "enabled_from (info\<lparr>ci_MultiKeyPollingIndex := i\<rparr>) n s = enabled_from info n s"
  by (simp add: enabled_from_def)

fun polls :: "nat \<Rightarrow> Channel \<Rightarrow> nat list" where
  \<comment> \<open>the indices of so many calls one after the other, each reading the polling index the one before saved\<close>
  "polls 0 ch = []"
| "polls (Suc k) ch =
     (case GetNextEnabledKey 0 (Some (ci_MultiKeyPollingIndex (ch_ChannelInfo ch))) ch of
        (Chosen _ i, ch') \<Rightarrow> i # polls k ch' | _ \<Rightarrow> [])"

lemma polls_take:
  assumes "polling ch" "k \<le> length (enabledIdx (ch_ChannelInfo ch) (length (GetKeys ch)))"
  shows "polls k ch = take k (enabled_from (ch_ChannelInfo ch) (length (GetKeys ch)) (poll_start ch (ci_MultiKeyPollingIndex (ch_ChannelInfo ch))))"
  using assms
proof (induction k arbitrary: ch)
  case (Suc k)
  let ?info = "ch_ChannelInfo ch" and ?n = "length (GetKeys ch)" and ?i = "ci_MultiKeyPollingIndex (ch_ChannelInfo ch)"
  have len: "length (enabled_from ?info ?n (poll_start ch ?i)) = length (enabledIdx ?info ?n)" by (rule length_enabled_from)
  then obtain x xs where xs: "enabled_from ?info ?n (poll_start ch ?i) = x # xs"
    using Suc.prems(2) by (cases "enabled_from ?info ?n (poll_start ch ?i)") auto
  let ?ch' = "ch\<lparr>ch_ChannelInfo := ?info\<lparr>ci_MultiKeyPollingIndex := int (Suc x mod ?n)\<rparr>\<rparr>"
  have "x \<in> set (enabledIdx ?info ?n)" using xs set_enabled_from [of ?info ?n "poll_start ch ?i"] by auto
  then have ne: "GetKeys ch \<noteq> []" by force
  have same: "length (enabledIdx (ch_ChannelInfo ?ch') (length (GetKeys ?ch'))) = length (enabledIdx ?info ?n)"
    by (simp add: enabledIdx_def)
  have "polls k ?ch' = take k (enabled_from ?info ?n (Suc x mod ?n))"
    using Suc.IH [of ?ch'] Suc.prems poll_start_saved [OF ne, of ?ch' "Suc x"] same by (simp add: polling_def)
  also have "\<dots> = take k (xs @ [x])" by (simp only: enabled_from_next [OF xs])
  also have "\<dots> = take k xs" using len Suc.prems(2) xs by simp
  finally show ?case using poll_step [OF Suc.prems(1) xs, of 0] xs by simp
qed simp

text \<open>
  C6: Polling is fair: when a channel in polling mode has \<open>k\<close> enabled keys, then \<open>k\<close> calls in a row, wherever the polling
  index stands, use each enabled key exactly once.
\<close>
theorem polling_uses_every_key:
  assumes "ci_IsMultiKey (ch_ChannelInfo ch)" "ci_MultiKeyMode (ch_ChannelInfo ch) = MultiKeyModePolling"
  shows "mset (polls (length (enabledIdx (ch_ChannelInfo ch) (length (GetKeys ch)))) ch) =
    mset (enabledIdx (ch_ChannelInfo ch) (length (GetKeys ch)))"
proof -
  let ?info = "ch_ChannelInfo ch" and ?n = "length (GetKeys ch)"
  let ?s = "poll_start ch (ci_MultiKeyPollingIndex ?info)"
  have "polls (length (enabledIdx ?info ?n)) ch = enabled_from ?info ?n ?s"
    using polls_take [of ch "length (enabledIdx ?info ?n)"] length_enabled_from [of ?info ?n ?s] assms by (simp add: polling_def)
  moreover have "mset (enabled_from ?info ?n ?s) = mset (enabledIdx ?info ?n)"
    using set_enabled_from distinct_enabled_from by (metis distinct_filter distinct_upt enabledIdx_def set_eq_iff_mset_eq_distinct)
  ultimately show ?thesis by simp
qed

theorem polling_uses_every_key_witness:
  "enabledIdx (ch_ChannelInfo keyed_channel) (length (GetKeys keyed_channel)) = [0, 2] \<and> polls 2 keyed_channel = [2, 0] \<and>
   mset (polls (length (enabledIdx (ch_ChannelInfo keyed_channel) (length (GetKeys keyed_channel)))) keyed_channel) =
     mset (enabledIdx (ch_ChannelInfo keyed_channel) (length (GetKeys keyed_channel)))"
proof -
  have "ci_IsMultiKey (ch_ChannelInfo keyed_channel)" "ci_MultiKeyMode (ch_ChannelInfo keyed_channel) = MultiKeyModePolling" by code_simp+
  note fair = polling_uses_every_key [OF this]
  have "enabledIdx (ch_ChannelInfo keyed_channel) (length (GetKeys keyed_channel)) = [0, 2]" "polls 2 keyed_channel = [2, 0]" by code_simp+
  then show ?thesis using fair by blast
qed

text \<open>
  C10: As long as a channel has an enabled key, choosing the next key succeeds in every mode and gives an enabled key with its own index.
\<close>
theorem next_key_is_enabled:
  assumes "ci_IsMultiKey (ch_ChannelInfo ch)" "enabledIdx (ch_ChannelInfo ch) (length (GetKeys ch)) \<noteq> []"
    "rnd < length (enabledIdx (ch_ChannelInfo ch) (length (GetKeys ch)))" "saved \<noteq> None"
  shows "\<exists>i ch'. GetNextEnabledKey rnd saved ch = (Chosen (GetKeys ch ! i) i, ch') \<and> i < length (GetKeys ch) \<and>
    key_status (ch_ChannelInfo ch) (int i) = ChannelStatusEnabled"
proof -
  let ?info = "ch_ChannelInfo ch" and ?n = "length (GetKeys ch)"
  have keys: "GetKeys ch \<noteq> []" using assms(2) by (auto simp: enabledIdx_def)
  have in_set: "enabledIdx ?info ?n ! k < ?n \<and> key_status ?info (int (enabledIdx ?info ?n ! k)) = ChannelStatusEnabled"
    if "k < length (enabledIdx ?info ?n)" for k using nth_mem [OF that] by simp
  consider "ci_MultiKeyMode ?info = MultiKeyModePolling" | "ci_MultiKeyMode ?info = MultiKeyModeRandom"
    | "ci_MultiKeyMode ?info \<noteq> MultiKeyModePolling" "ci_MultiKeyMode ?info \<noteq> MultiKeyModeRandom" by blast
  then show ?thesis
  proof cases
    case 1
    obtain index where index: "saved = Some index" using assms(4) by blast
    have "enabled_from ?info ?n (poll_start ch index) \<noteq> []" using set_enabled_from [of ?info ?n "poll_start ch index"] assms(2) by auto
    then obtain x xs where xs: "enabled_from ?info ?n (poll_start ch index) = x # xs" by (cases "enabled_from ?info ?n (poll_start ch index)") auto
    then have "x \<in> set (enabledIdx ?info ?n)" using set_enabled_from [of ?info ?n "poll_start ch index"] by auto
    then show ?thesis using poll_step [OF _ xs, of rnd] assms(1) 1 by (auto simp: polling_def index)
  next
    case 2
    then show ?thesis using assms(1,2) keys in_set [OF assms(3)] by (simp add: GetNextEnabledKey_def Let_def)
  next
    case 3
    have "0 < length (enabledIdx ?info ?n)" using assms(2) by simp
    then show ?thesis using assms(1,2) keys 3 in_set [of 0] by (simp add: GetNextEnabledKey_def Let_def)
  qed
qed

theorem next_key_is_enabled_witness:
  "\<exists>i ch'. GetNextEnabledKey 0 (Some 1) keyed_channel = (Chosen (GetKeys keyed_channel ! i) i, ch') \<and> i < length (GetKeys keyed_channel) \<and>
    key_status (ch_ChannelInfo keyed_channel) (int i) = ChannelStatusEnabled"
proof -
  have "ci_IsMultiKey (ch_ChannelInfo keyed_channel)" "enabledIdx (ch_ChannelInfo keyed_channel) (length (GetKeys keyed_channel)) \<noteq> []"
    "0 < length (enabledIdx (ch_ChannelInfo keyed_channel) (length (GetKeys keyed_channel)))" by code_simp+
  then show ?thesis by (rule next_key_is_enabled) simp
qed

section \<open>Disabling keys\<close>

lemma hasEnabledMultiKey_iff: "hasEnabledMultiKey keys (ci_MultiKeyStatusList info) \<longleftrightarrow> enabledIdx info (length keys) \<noteq> []"
  by (auto simp: hasEnabledMultiKey_def enabledIdx_def key_status_def list_ex_iff filter_empty_conv split: option.split)

lemma find_index_mem: "x \<in> set xs \<Longrightarrow> \<exists>k. find_index (\<lambda>y. y = x) xs = Some k"
  by (induction xs) auto

text \<open>
  C30: Disabling a key that a channel uses marks that key and no other, and the channel itself is disabled automatically exactly when no
  enabled key is left; otherwise its status is as before.
\<close>
theorem disabling_a_key:
  assumes "usingKey \<in> set (GetKeys ch)" "status \<noteq> ChannelStatusEnabled"
  shows "\<exists>k < length (GetKeys ch). GetKeys ch ! k = usingKey \<and>
    (let ch' = handlerMultiKeyUpdate setInfo now ch usingKey status reason in
     key_status (ch_ChannelInfo ch') (int k) = status \<and>
     (\<forall>i. i \<noteq> int k \<longrightarrow> key_status (ch_ChannelInfo ch') i = key_status (ch_ChannelInfo ch) i) \<and>
     GetKeys ch' = GetKeys ch \<and>
     ch_Status ch' = (if enabledIdx (ch_ChannelInfo ch') (length (GetKeys ch)) = [] then ChannelStatusAutoDisabled else ch_Status ch))"
proof -
  obtain k where k: "find_index (\<lambda>y. y = usingKey) (GetKeys ch) = Some k" using find_index_mem [OF assms(1)] by blast
  then have nth: "k < length (GetKeys ch)" "GetKeys ch ! k = usingKey" using find_index_Some by force+
  let ?info = "ch_ChannelInfo ch"
  define info' where "info' = ?info\<lparr>ci_MultiKeyStatusList := Some (AList.update (int k) status (case ci_MultiKeyStatusList ?info of Some m \<Rightarrow> m | None \<Rightarrow> [])),
      ci_MultiKeyDisabledReason := Some (AList.update (int k) reason (case ci_MultiKeyDisabledReason ?info of Some m \<Rightarrow> m | None \<Rightarrow> [])),
      ci_MultiKeyDisabledTime := Some (AList.update (int k) now (case ci_MultiKeyDisabledTime ?info of Some m \<Rightarrow> m | None \<Rightarrow> []))\<rparr>"
  let ?none = "enabledIdx info' (length (GetKeys ch)) = []"
  have upd: "handlerMultiKeyUpdate setInfo now ch usingKey status reason =
      (if ?none then ch\<lparr>ch_ChannelInfo := info', ch_Status := ChannelStatusAutoDisabled,
         ch_OtherInfo := setInfo (ch_OtherInfo ch) (js ''All keys are disabled'') now\<rparr> else ch\<lparr>ch_ChannelInfo := info'\<rparr>)"
    using assms k hasEnabledMultiKey_iff [of "GetKeys ch" info'] unfolding handlerMultiKeyUpdate_def Let_def info'_def [symmetric]
    by (auto simp: info'_def)
  have "key_status info' (int k) = status" "i \<noteq> int k \<Longrightarrow> key_status info' i = key_status ?info i" for i
    by (auto simp: info'_def key_status_def update_conv' split: option.split)
  moreover have "GetKeys (ch\<lparr>ch_ChannelInfo := info', ch_Status := u, ch_OtherInfo := v\<rparr>) = GetKeys ch" for u v
    by (simp add: GetKeys_def Let_def cong: option.case_cong)
  ultimately show ?thesis using nth by (intro exI [of _ k]) (simp add: upd)
qed

theorem disabling_a_key_witness:
  "(\<exists>k. GetKeys keyed_channel ! k = js ''kc'' \<and>
     key_status (ch_ChannelInfo (handlerMultiKeyUpdate (\<lambda>info _ _. info) 200 keyed_channel (js ''kc'') 3 (js ''401''))) (int k) = 3) \<and>
   GetKeys (handlerMultiKeyUpdate (\<lambda>info _ _. info) 200 keyed_channel (js ''kc'') 3 (js ''401'')) = GetKeys keyed_channel"
proof -
  have "js ''kc'' \<in> set (GetKeys keyed_channel)" "3 \<noteq> ChannelStatusEnabled" by code_simp+
  from disabling_a_key [OF this, of "\<lambda>info _ _. info" 200 "js ''401''"] show ?thesis unfolding Let_def by blast
qed

section \<open>Pages\<close>

lemma pages_cover:
  assumes "0 < (p :: nat)"
  shows "concat (map (\<lambda>i. take p (drop (i * p) xs)) [0..<n]) = take (n * p) xs"
proof (induction n)
  case (Suc n)
  have "take (n * p) xs @ take p (drop (n * p) xs) = take (Suc n * p) xs" by (simp add: take_add [symmetric] add.commute)
  then show ?case using Suc by simp
qed simp

definition shown_statuses :: "Channel \<Rightarrow> MultiKeyManageRequest \<Rightarrow> KeyStatus list" where
  "shown_statuses ch req =
     filter (\<lambda>ks. mk_Status req = None \<or> mk_Status req = Some (ks_Status ks))
       (map (\<lambda>i. key_status_entry (ch_ChannelInfo ch) i (GetKeys ch ! i)) [0..<length (GetKeys ch)])"

lemma shown_statuses_case:
  "(case mk_Status req of Some status \<Rightarrow> filter (\<lambda>ks. ks_Status ks = status) all | None \<Rightarrow> all) =
     filter (\<lambda>ks. mk_Status req = None \<or> mk_Status req = Some (ks_Status ks)) all"
  by (cases "mk_Status req") (auto intro: filter_cong)

lemma wrap64_id: "- (2 ^ 63) \<le> x \<Longrightarrow> x < 2 ^ 63 \<Longrightarrow> wrap64 x = x"
  by (simp add: wrap64_def)

lemma wrap64_id_nat: "int n < 2 ^ 63 \<Longrightarrow> wrap64 (int n) = int n"
  by (rule wrap64_id) simp_all

definition page_count :: "nat \<Rightarrow> nat \<Rightarrow> nat" where
  "page_count t p = max 1 ((t + p - 1) div p)"

lemma page_count_covers:
  assumes "0 < p"
  shows "t \<le> page_count t p * p"
proof -
  have "t \<le> (t + p - 1) div p * p"
    using div_mult_mod_eq [of "t + p - 1" p] mod_less_divisor [OF assms, of "t + p - 1"] assms by linarith
  then show ?thesis unfolding page_count_def by (meson le_trans max.cobounded2 mult_le_mono1)
qed

lemma page_starts:
  assumes "j < page_count t p" "0 < p"
  shows "j * p \<le> t"
proof (cases "j = 0")
  case False
  then have "j + 1 \<le> (t + p - 1) div p" using assms(1) by (auto simp: page_count_def max_def split: if_splits)
  then have "(j + 1) * p \<le> t + p - 1" using mult_le_mono1 [of "j + 1" "(t + p - 1) div p" p] div_times_less_eq_dividend [of "t + p - 1" p] by linarith
  then show ?thesis using assms(2) by simp
qed simp

lemma one_page:
  assumes "mk_PageSize req = int p" "0 < p" "int (length (GetKeys ch)) + int p < 2 ^ 63" "j < page_count (length (shown_statuses ch req)) p"
  shows "map_option sr_Keys (key_status_page ch (req\<lparr>mk_Page := int (Suc j)\<rparr>)) = Some (take p (drop (j * p) (shown_statuses ch req)))"
    "map_option sr_TotalPages (key_status_page ch (req\<lparr>mk_Page := int (Suc j)\<rparr>)) = Some (int (page_count (length (shown_statuses ch req)) p))"
proof -
  let ?xs = "shown_statuses ch req" and ?req = "req\<lparr>mk_Page := int (Suc j)\<rparr>"
  let ?t = "length ?xs"
  have xs: "shown_statuses ch ?req = ?xs" by (simp add: shown_statuses_def)
  have t: "int ?t + int p < 2 ^ 63" using assms(3) length_filter_le [of _ "map (\<lambda>i. key_status_entry (ch_ChannelInfo ch) i (GetKeys ch ! i)) [0..<length (GetKeys ch)]"]
    unfolding shown_statuses_def by (smt (verit) diff_zero length_map length_upt of_nat_le_iff)
  have start: "j * p \<le> ?t" by (rule page_starts [OF assms(4,2)])
  have jp: "j \<le> j * p" using assms(2) by simp
  have size: "(if mk_PageSize ?req \<le> 0 then 50 else mk_PageSize ?req) = int p" using assms(1,2) by simp
  have first: "(if mk_Page ?req \<le> 0 then 1 else mk_Page ?req) = int (Suc j)" by simp
  have "wrap64 (wrap64 (int ?t + int p) - 1) = int (?t + p - 1)" using t assms(2) by (simp add: wrap64_id of_nat_diff)
  then have pages: "go_div (wrap64 (wrap64 (int ?t + int p) - 1)) (int p) = int ((?t + p - 1) div p)" by (simp add: go_div_def zdiv_int)
  have total: "(if int ((?t + p - 1) div p) = 0 then 1 else int ((?t + p - 1) div p)) = int (page_count ?t p)"
    by (auto simp: page_count_def max_def)
  have page: "(if int (page_count ?t p) < int (Suc j) then int (page_count ?t p) else int (Suc j)) = int (Suc j)" using assms(4) by simp
  have "int j < 2 ^ 63" "int (j * p) < 2 ^ 63" using t start jp by linarith+
  then have "wrap64 (int j) = int j" "wrap64 (int (j * p)) = int (j * p)" by (simp_all only: wrap64_id_nat)
  then have lower: "wrap64 (wrap64 (int (Suc j) - 1) * int p) = int (j * p)" by simp
  have "int (j * p + p) < 2 ^ 63" using t start by linarith
  then have stop: "wrap64 (int (j * p) + int p) = int (j * p + p)" by (simp only: wrap64_id_nat of_nat_add [symmetric])
  have last: "(if int ?t < int m then int ?t else int m) = int (min m ?t)" for m by (simp add: min_def)
  have slice: "(if int m < int ?t then go_slice ?xs (int m) (int (min (m + p) ?t)) else Some []) = Some (take p (drop m ?xs))" for m
  proof (cases "m < ?t")
    case True
    then have "nat (int (min (m + p) ?t) - int m) = min (m + p) ?t - m" "m \<le> min (m + p) ?t" by simp_all
    moreover have "take (min (m + p) ?t - m) (drop m ?xs) = take p (drop m ?xs)" using True by (simp add: min_def)
    ultimately show ?thesis using True by (simp add: go_slice_def)
  qed simp
  note facts = size first pages total page lower stop last slice
  show "map_option sr_Keys (key_status_page ch ?req) = Some (take p (drop (j * p) ?xs))"
    "map_option sr_TotalPages (key_status_page ch ?req) = Some (int (page_count ?t p))"
    unfolding key_status_page_def [of ch ?req] Let_def shown_statuses_case shown_statuses_def [symmetric] xs
    by (simp_all only: MultiKeyStatusResponse.simps facts option.map)
qed

text \<open>
  C31: The pages of the key dialog make up the list. For every page size that together with the number of keys fits into 63
  bits, the first page names a number of pages, and these pages in order show every key with the requested status once
  and in order.
\<close>
theorem key_pages_make_up_list:
  assumes "0 < mk_PageSize req" "int (length (GetKeys ch)) + mk_PageSize req < 2 ^ 63"
  shows "\<exists>n. map_option sr_TotalPages (key_status_page ch (req\<lparr>mk_Page := 1\<rparr>)) = Some (int n) \<and>
    map_option concat (those (map (\<lambda>j. map_option sr_Keys (key_status_page ch (req\<lparr>mk_Page := int (Suc j)\<rparr>))) [0..<n])) =
    Some (filter (\<lambda>ks. mk_Status req = None \<or> mk_Status req = Some (ks_Status ks))
      (map (\<lambda>i. key_status_entry (ch_ChannelInfo ch) i (GetKeys ch ! i)) [0..<length (GetKeys ch)]))"
proof -
  define p where "p = nat (mk_PageSize req)"
  have p: "mk_PageSize req = int p" "0 < p" "int (length (GetKeys ch)) + int p < 2 ^ 63" using assms by (simp_all add: p_def)
  let ?xs = "shown_statuses ch req"
  define n where "n = page_count (length ?xs) p"
  have "0 < n" by (simp add: n_def page_count_def)
  then have total: "map_option sr_TotalPages (key_status_page ch (req\<lparr>mk_Page := 1\<rparr>)) = Some (int n)"
    using one_page(2) [OF p, of 0] by (simp add: n_def)
  have "map (\<lambda>j. map_option sr_Keys (key_status_page ch (req\<lparr>mk_Page := int (Suc j)\<rparr>))) [0..<n] =
      map Some (map (\<lambda>j. take p (drop (j * p) ?xs)) [0..<n])"
    using one_page(1) [OF p] unfolding n_def by (simp del: of_nat_Suc)
  moreover have "those (map Some ys) = Some ys" for ys :: "KeyStatus list list" by (induction ys) auto
  moreover have "concat (map (\<lambda>j. take p (drop (j * p) ?xs)) [0..<n]) = ?xs"
    using pages_cover [OF p(2), of ?xs n] page_count_covers [OF p(2), of "length ?xs"] by (simp add: n_def)
  ultimately show ?thesis using total unfolding shown_statuses_def by (intro exI [of _ n]) (simp only: option.map simp_thms)
qed

theorem key_pages_make_up_list_witness:
  "\<exists>n. map_option sr_TotalPages (key_status_page keyed_channel (status_request\<lparr>mk_Page := 1\<rparr>)) = Some (int n) \<and>
    map_option concat (those (map (\<lambda>j. map_option sr_Keys (key_status_page keyed_channel (status_request\<lparr>mk_Page := int (Suc j)\<rparr>))) [0..<n])) =
    Some (filter (\<lambda>ks. mk_Status status_request = None \<or> mk_Status status_request = Some (ks_Status ks))
      (map (\<lambda>i. key_status_entry (ch_ChannelInfo keyed_channel) i (GetKeys keyed_channel ! i)) [0..<length (GetKeys keyed_channel)]))"
  by (rule key_pages_make_up_list) code_simp+

text \<open>
  A page size near the largest number is taken at its word: the sums wrap around, and for three keys the slice of the page panics.
\<close>

lemma wide_page_panics:
  "key_status_page keyed_channel (status_request\<lparr>mk_PageSize := 2 ^ 63 - 1\<rparr>) = None"
  by code_simp

end
