(* ===== verification/Channel_Key_Store.thy ===== *)
theory Channel_Key_Store
  imports Channel_Key_Props
begin

text \<open>
  The stored keys of a channel after the operations of the key dialog. \<open>gorm_updates\<close> is the documented behaviour of writing a record:
  fields with their zero value and \<open>nil\<close> pointers are left as they are in the database.
\<close>

section \<open>Documented behaviour of the database\<close>

definition stored_info :: "ChannelInfo \<Rightarrow> ChannelInfo" where
  \<comment> \<open>the column holds JSON, in which empty maps marked \<open>omitempty\<close> are left out\<close>
  "stored_info info =
     info\<lparr>ci_MultiKeyDisabledReason := (if ci_MultiKeyDisabledReason info = Some [] then None else ci_MultiKeyDisabledReason info),
       ci_MultiKeyDisabledTime := (if ci_MultiKeyDisabledTime info = Some [] then None else ci_MultiKeyDisabledTime info)\<rparr>"

definition zero_info :: ChannelInfo where
  "zero_info = \<lparr>ci_IsMultiKey = False, ci_MultiKeySize = 0, ci_MultiKeyStatusList = None, ci_MultiKeyDisabledReason = None,
     ci_MultiKeyDisabledTime = None, ci_MultiKeyPollingIndex = 0, ci_MultiKeyMode = []\<rparr>"

definition nonzero :: "'a \<Rightarrow> 'a \<Rightarrow> 'a \<Rightarrow> 'a" where
  "nonzero zero new old = (if new = zero then old else new)"

definition gorm_updates :: "Channel \<Rightarrow> Channel \<Rightarrow> Channel" where
  "gorm_updates new old =
     \<lparr>ch_Id = ch_Id old, ch_Type = nonzero 0 (ch_Type new) (ch_Type old), ch_Key = nonzero [] (ch_Key new) (ch_Key old),
      ch_OpenAIOrganization = nonzero None (ch_OpenAIOrganization new) (ch_OpenAIOrganization old),
      ch_TestModel = nonzero None (ch_TestModel new) (ch_TestModel old), ch_Status = nonzero 0 (ch_Status new) (ch_Status old),
      ch_Name = nonzero [] (ch_Name new) (ch_Name old), ch_Weight = nonzero None (ch_Weight new) (ch_Weight old),
      ch_CreatedTime = nonzero 0 (ch_CreatedTime new) (ch_CreatedTime old), ch_TestTime = nonzero 0 (ch_TestTime new) (ch_TestTime old),
      ch_ResponseTime = nonzero 0 (ch_ResponseTime new) (ch_ResponseTime old), ch_BaseURL = nonzero None (ch_BaseURL new) (ch_BaseURL old),
      ch_Other = nonzero [] (ch_Other new) (ch_Other old), ch_Balance = nonzero 0 (ch_Balance new) (ch_Balance old),
      ch_BalanceUpdatedTime = nonzero 0 (ch_BalanceUpdatedTime new) (ch_BalanceUpdatedTime old),
      ch_PricePerToken = nonzero None (ch_PricePerToken new) (ch_PricePerToken old),
      ch_PricePerRequest = nonzero None (ch_PricePerRequest new) (ch_PricePerRequest old),
      ch_PriceMapping = nonzero None (ch_PriceMapping new) (ch_PriceMapping old), ch_Models = nonzero [] (ch_Models new) (ch_Models old),
      ch_Group = nonzero [] (ch_Group new) (ch_Group old), ch_UsedQuota = nonzero 0 (ch_UsedQuota new) (ch_UsedQuota old),
      ch_ModelMapping = nonzero None (ch_ModelMapping new) (ch_ModelMapping old),
      ch_StatusCodeMapping = nonzero None (ch_StatusCodeMapping new) (ch_StatusCodeMapping old),
      ch_Priority = nonzero None (ch_Priority new) (ch_Priority old), ch_AutoBan = nonzero None (ch_AutoBan new) (ch_AutoBan old),
      ch_OtherInfo = nonzero [] (ch_OtherInfo new) (ch_OtherInfo old), ch_Tag = nonzero None (ch_Tag new) (ch_Tag old),
      ch_Setting = nonzero None (ch_Setting new) (ch_Setting old), ch_ParamOverride = nonzero None (ch_ParamOverride new) (ch_ParamOverride old),
      ch_HeaderOverride = nonzero None (ch_HeaderOverride new) (ch_HeaderOverride old), ch_Remark = nonzero None (ch_Remark new) (ch_Remark old),
      ch_ChannelInfo = (if ch_ChannelInfo new = zero_info then ch_ChannelInfo old else stored_info (ch_ChannelInfo new)),
      ch_OtherSettings = nonzero [] (ch_OtherSettings new) (ch_OtherSettings old), ch_Keys = []\<rparr>"

definition store_documented :: "'d Store \<Rightarrow> bool" where
  "store_documented st \<longleftrightarrow>
     (\<forall>d ch d'. Updates st d ch = Some d' \<longrightarrow>
        (\<forall>id. First st d' id = (if id = ch_Id ch then map_option (gorm_updates ch) (First st d id) else First st d id))) \<and>
     (\<forall>d id ch. First st d id = Some ch \<longrightarrow> ch_Id ch = id \<and> ch_Keys ch = [])"

definition list_store :: "Channel list Store" where
  "list_store =
     \<lparr>First = (\<lambda>d id. map_option (\<lambda>ch. ch\<lparr>ch_Keys := []\<rparr>) (find (\<lambda>ch. ch_Id ch = id) d)),
      Updates = (\<lambda>d new. Some (map (\<lambda>old. if ch_Id old = ch_Id new then gorm_updates new old else old) d)),
      SaveOmitKey = (\<lambda>d new. Some (map (\<lambda>old. if ch_Id old = ch_Id new then new\<lparr>ch_Key := ch_Key old\<rparr> else old) d))\<rparr>"

lemma gorm_updates_keys: "gorm_updates new (old\<lparr>ch_Keys := ks\<rparr>) = gorm_updates new old"
  by (simp add: gorm_updates_def)

lemma list_store_documented: "store_documented list_store"
proof -
  have id: "ch_Id (gorm_updates new old) = ch_Id old" "(gorm_updates new old)\<lparr>ch_Keys := []\<rparr> = gorm_updates new old" for new old
    by (simp_all add: gorm_updates_def)
  have found: "ch_Id ch = i" if "find (\<lambda>ch. ch_Id ch = i) d = Some ch" for i ch d using that by (auto simp: find_Some_iff)
  have step: "First list_store (map (\<lambda>old. if ch_Id old = ch_Id new then gorm_updates new old else old) d) i =
      (if i = ch_Id new then map_option (gorm_updates new) (First list_store d i) else First list_store d i)" for i new d
  proof -
    have "find (\<lambda>ch. ch_Id ch = i) (map (\<lambda>old. if ch_Id old = ch_Id new then gorm_updates new old else old) d) =
        map_option (\<lambda>old. if ch_Id old = ch_Id new then gorm_updates new old else old) (find (\<lambda>ch. ch_Id ch = i) d)"
      by (induction d) (auto simp: id)
    note both = this
    show ?thesis
    proof (cases "find (\<lambda>ch. ch_Id ch = i) d")
      case None
      then show ?thesis using both by (auto simp: list_store_def)
    next
      case (Some ch)
      then have "ch_Id ch = i" by (rule found)
      note facts = Some both this
      show ?thesis
      proof (cases "i = ch_Id new")
        case True
        show ?thesis using facts unfolding True by (simp add: list_store_def gorm_updates_keys id)
      next
        case False
        then show ?thesis using facts by (simp add: list_store_def)
      qed
    qed
  qed
  show ?thesis
    unfolding store_documented_def
  proof (intro conjI allI impI)
    fix d new d' i assume "Updates list_store d new = Some d'"
    then have "d' = map (\<lambda>old. if ch_Id old = ch_Id new then gorm_updates new old else old) d" by (simp add: list_store_def)
    then show "First list_store d' i = (if i = ch_Id new then map_option (gorm_updates new) (First list_store d i) else First list_store d i)"
      by (simp only: step)
  qed (use found in \<open>auto simp: list_store_def\<close>)
qed

lemma store_updates: "store_documented st \<Longrightarrow> Updates st d ch = Some d' \<Longrightarrow> First st d (ch_Id ch) = Some old \<Longrightarrow>
    First st d' (ch_Id ch) = Some (gorm_updates ch old)"
  by (simp add: store_documented_def)

lemma store_loaded: "store_documented st \<Longrightarrow> First st d i = Some ch \<Longrightarrow> ch_Id ch = i \<and> ch_Keys ch = []"
  by (auto simp: store_documented_def)

section \<open>Keys as text\<close>

definition plain_key :: "jstring \<Rightarrow> bool" where
  "plain_key k \<longleftrightarrow> TrimSpace k \<noteq> [] \<and> 10 \<notin> set k \<and> \<not> startsWith (TrimSpace k) [91]"

lemma TrimSpace_hd:
  assumes "dropWhile go_space s = c # t"
  shows "\<exists>u. TrimSpace s = c # u"
proof -
  have c: "\<not> go_space c" using assms by (metis dropWhile_eq_Cons_conv)
  have "dropWhile go_space (rev t @ [c]) \<noteq> []" using c by (simp add: dropWhile_eq_Nil_conv)
  moreover have "last (dropWhile go_space (rev t @ [c])) = c" using c by (simp add: dropWhile_append3 last_append dropWhile_append)
  ultimately show ?thesis unfolding TrimSpace_def assms by (cases "dropWhile go_space (rev (c # t))" rule: rev_cases) auto
qed

lemma TrimSpace_Nil: "TrimSpace s = [] \<longleftrightarrow> dropWhile go_space s = []"
proof (cases "dropWhile go_space s")
  case Nil
  then show ?thesis unfolding TrimSpace_def Nil by simp
next
  case (Cons c t)
  then show ?thesis using TrimSpace_hd [OF Cons] by auto
qed

lemma plain_key_hd: "plain_key k \<longleftrightarrow> 10 \<notin> set k \<and> (\<exists>c t. dropWhile go_space k = c # t \<and> c \<noteq> 91)"
proof (cases "dropWhile go_space k")
  case Nil
  then have "TrimSpace k = []" by (simp only: TrimSpace_Nil)
  then show ?thesis unfolding Nil by (simp add: plain_key_def)
next
  case (Cons c t)
  then obtain u where "TrimSpace k = c # u" using TrimSpace_hd by blast
  then show ?thesis using Cons by (auto simp: plain_key_def startsWith_def)
qed

lemma last_of_join:
  assumes "ks \<noteq> []" "\<forall>x\<in>set ks. c \<notin> set x \<and> x \<noteq> []"
  shows "join [c] ks \<noteq> [] \<and> last (join [c] ks) \<noteq> c"
  using assms
proof (induction ks)
  case (Cons k ks)
  show ?case
  proof (cases ks)
    case Nil
    then show ?thesis using Cons.prems by (auto simp: last_in_set)
  next
    case (Cons k' ks')
    then show ?thesis using Cons.IH Cons.prems by simp
  qed
qed simp

lemma Trim_newlines_id:
  assumes "s \<noteq> []" "hd s \<noteq> 10" "last s \<noteq> 10"
  shows "Trim_newlines s = s"
proof -
  have "dropWhile (\<lambda>c. c = 10) s = s" using assms(1,2) by (cases s) auto
  moreover have "dropWhile (\<lambda>c. c = 10) (rev s) = rev s" using assms(1,3) by (cases s rule: rev_cases) auto
  ultimately show ?thesis by (simp add: Trim_newlines_def)
qed

lemma keys_text:
  assumes "list_all plain_key ks" "ks \<noteq> []"
  shows "\<not> startsWith (TrimSpace (join [10] ks)) [91]" "split_on 10 (Trim_newlines (join [10] ks)) = ks" "join [10] ks \<noteq> []"
proof -
  obtain k ks' where ks: "ks = k # ks'" using assms(2) by (cases ks) auto
  then obtain r where r: "join [10] ks = k @ r" by (cases ks') auto
  have k: "plain_key k" using assms(1) ks by simp
  then obtain c t where c: "dropWhile go_space k = c # t" "c \<noteq> 91" by (auto simp: plain_key_hd)
  have "dropWhile go_space (k @ r) = c # t @ r" using c(1) by (induction k) (auto split: if_splits)
  then obtain u where "TrimSpace (join [10] ks) = c # u" using TrimSpace_hd r by metis
  then show "\<not> startsWith (TrimSpace (join [10] ks)) [91]" using c(2) by (simp add: startsWith_def)
  have plain: "\<forall>x\<in>set ks. 10 \<notin> set x \<and> x \<noteq> []" using assms(1) by (auto simp: list_all_iff plain_key_hd)
  show ne: "join [10] ks \<noteq> []" using last_of_join [OF assms(2) plain] by blast
  have "hd (join [10] ks) \<noteq> 10" using plain r ks by (cases k) auto
  then have "Trim_newlines (join [10] ks) = join [10] ks" using last_of_join [OF assms(2) plain] by (intro Trim_newlines_id) auto
  then show "split_on 10 (Trim_newlines (join [10] ks)) = ks" using split_on_join [of ks 10] assms(2) plain by simp
qed

section \<open>Deleting keys\<close>

definition key_statuses :: "Channel \<Rightarrow> int list" where
  "key_statuses ch = map (\<lambda>i. key_status (ch_ChannelInfo ch) (int i)) [0..<length (GetKeys ch)]"

definition scan_status :: "KeyScan \<Rightarrow> int \<Rightarrow> int" where
  "scan_status sc i = (case map_of (sc_status sc) i of Some status \<Rightarrow> status | None \<Rightarrow> ChannelStatusEnabled)"

definition scan_statuses :: "KeyScan \<Rightarrow> int list" where
  "scan_statuses sc = map (\<lambda>i. scan_status sc (int i)) [0..<length (sc_keys sc)]"

definition fresh_scan :: "KeyScan \<Rightarrow> bool" where
  "fresh_scan sc \<longleftrightarrow> list_all (\<lambda>kv. fst kv < int (length (sc_keys sc))) (sc_status sc)"

lemma update_keys: "fst ` set (AList.update k v kvs) = insert k (fst ` set kvs)"
  by (induction kvs) auto

lemma scan_keep:
  assumes "fresh_scan acc" "sc_keys acc' = sc_keys acc @ [key]" "sc_status acc' = keep_status info i (int (length (sc_keys acc))) (sc_status acc)"
  shows "fresh_scan acc' \<and> scan_statuses acc' = scan_statuses acc @ [key_status info i]"
proof -
  let ?n = "length (sc_keys acc)"
  have below: "k < int ?n" if "k \<in> fst ` set (sc_status acc)" for k using assms(1) that by (auto simp: fresh_scan_def list_all_iff)
  then have none: "map_of (sc_status acc) (int ?n) = None" by (force simp: map_of_eq_None_iff)
  have same: "scan_status acc' (int j) = scan_status acc (int j)" if "j < ?n" for j
    using that by (simp add: scan_status_def assms(3) keep_status_def update_conv')
  moreover have "scan_status acc' (int ?n) = key_status info i"
    using none by (simp add: scan_status_def assms(3) keep_status_def update_conv' ChannelStatusEnabled_def)
  moreover have "k < int (Suc ?n)" if "k \<in> fst ` set (sc_status acc')" for k
    using that below unfolding assms(3) keep_status_def by (auto simp: update_keys split: if_splits) (force simp: update_keys)+
  ultimately show ?thesis
    using assms(2) by (auto simp: fresh_scan_def list_all_iff scan_statuses_def)
qed

lemma delete_key_scan_result:
  assumes "fresh_scan acc"
  shows "let r = delete_key_scan info k i keys acc; js = filter (\<lambda>j. i + int j \<noteq> k) [0..<length keys] in
    fresh_scan r \<and> sc_keys r = sc_keys acc @ map (\<lambda>j. keys ! j) js \<and>
    scan_statuses r = scan_statuses acc @ map (\<lambda>j. key_status info (i + int j)) js"
  using assms
proof (induction keys arbitrary: i acc)
  case (Cons key keys)
  have shift: "filter (\<lambda>j. i + int j \<noteq> k) [0..<length (key # keys)] =
      (if i = k then [] else [0]) @ map Suc (filter (\<lambda>j. i + 1 + int j \<noteq> k) [0..<length keys])"
    by (simp add: upt_conv_Cons filter_map comp_def map_Suc_upt [symmetric] add.assoc del: upt_Suc map_Suc_upt)
  show ?case
  proof (cases "i = k")
    case True
    then show ?thesis using Cons.IH [OF Cons.prems, of "i + 1"] unfolding Let_def shift by (simp add: comp_def add.assoc)
  next
    case False
    let ?acc = "acc\<lparr>sc_keys := sc_keys acc @ [key],
             sc_status := keep_status info i (int (length (sc_keys acc))) (sc_status acc),
             sc_time := copy_entry (ci_MultiKeyDisabledTime info) i (int (length (sc_keys acc))) (sc_time acc),
             sc_reason := copy_entry (ci_MultiKeyDisabledReason info) i (int (length (sc_keys acc))) (sc_reason acc)\<rparr>"
    have kept: "fresh_scan ?acc \<and> scan_statuses ?acc = scan_statuses acc @ [key_status info i]"
      by (rule scan_keep [OF Cons.prems]) simp_all
    have "delete_key_scan info k i (key # keys) acc = delete_key_scan info k (i + 1) keys ?acc" using False by (simp add: Let_def)
    then show ?thesis
      using Cons.IH [OF conjunct1 [OF kept], of "i + 1"] conjunct2 [OF kept] False unfolding Let_def shift by (simp add: comp_def add.assoc)
  qed
qed simp

lemma without_index: "k < n \<Longrightarrow> filter (\<lambda>j. int j \<noteq> int k) [0..<n] = [0..<k] @ [Suc k..<n]"
proof -
  assume "k < n"
  then have "[0..<n] = [0..<k] @ k # [Suc k..<n]" by (metis append_Cons append_Nil append_assoc less_imp_le_nat upt_add_eq_append upt_conv_Cons le0 le_Suc_ex)
  moreover have "filter (\<lambda>j. int j \<noteq> int k) [0..<k] = [0..<k]" by (rule filter_True) simp
  moreover have "filter (\<lambda>j. int j \<noteq> int k) [Suc k..<n] = [Suc k..<n]" by (rule filter_True) simp
  ultimately show ?thesis by simp
qed

lemma delete_key_lists:
  assumes "k < length keys"
  shows "sc_keys (delete_key_scan info (int k) 0 keys empty_scan) = take k keys @ drop (Suc k) keys"
    "fresh_scan (delete_key_scan info (int k) 0 keys empty_scan)"
    "scan_statuses (delete_key_scan info (int k) 0 keys empty_scan) =
       take k (map (\<lambda>i. key_status info (int i)) [0..<length keys]) @ drop (Suc k) (map (\<lambda>i. key_status info (int i)) [0..<length keys])"
proof -
  have fresh: "fresh_scan empty_scan" by (simp add: fresh_scan_def empty_scan_def)
  have empty: "sc_keys empty_scan = []" "scan_statuses empty_scan = []" by (simp_all add: empty_scan_def scan_statuses_def)
  have part: "map (\<lambda>j. keys ! j) ([0..<k] @ [Suc k..<length keys]) = take k keys @ drop (Suc k) keys"
    using assms by (intro nth_equalityI) (auto simp: nth_append)
  have parts: "map f ([0..<k] @ [Suc k..<length keys]) = take k (map f [0..<length keys]) @ drop (Suc k) (map f [0..<length keys])" for f :: "nat \<Rightarrow> int"
    using assms by (simp add: take_map drop_map)
  from delete_key_scan_result [OF fresh, of info "int k" 0 keys] show
    "sc_keys (delete_key_scan info (int k) 0 keys empty_scan) = take k keys @ drop (Suc k) keys"
    "fresh_scan (delete_key_scan info (int k) 0 keys empty_scan)"
    "scan_statuses (delete_key_scan info (int k) 0 keys empty_scan) =
       take k (map (\<lambda>i. key_status info (int i)) [0..<length keys]) @ drop (Suc k) (map (\<lambda>i. key_status info (int i)) [0..<length keys])"
    unfolding Let_def empty without_index [OF assms] add_0 append_Nil part parts by simp_all
qed

lemma gorm_info: "ci_IsMultiKey (ch_ChannelInfo new) \<Longrightarrow> ch_ChannelInfo (gorm_updates new old) = stored_info (ch_ChannelInfo new)"
  by (auto simp: gorm_updates_def zero_info_def)

lemma scan_stored:
  assumes "store_documented st" "First st d i = Some ch" "ci_IsMultiKey (ch_ChannelInfo ch)"
    "list_all plain_key (sc_keys sc)" "sc_keys sc \<noteq> []" "fresh_scan sc" "Channel_Update st d (with_scan sc ch) = Some d'"
  shows "\<exists>ch'. First st d' i = Some ch' \<and> GetKeys ch' = sc_keys sc \<and> key_statuses ch' = scan_statuses sc \<and>
    ci_MultiKeySize (ch_ChannelInfo ch') = int (length (sc_keys sc))"
proof -
  note txts = keys_text [OF assms(4,5)]
  have loaded: "ch_Id ch = i" "ch_Keys ch = []" using store_loaded [OF assms(1,2)] by auto
  have "filter (\<lambda>kv. \<not> int (length (sc_keys sc)) \<le> fst kv) (sc_status sc) = sc_status sc"
    using assms(6) by (intro filter_True) (auto simp: fresh_scan_def list_all_iff)
  then have same: "update_size st d (with_scan sc ch) = with_scan sc ch"
    using txts assms(3) by (simp add: update_size_def with_scan_def Let_def)
  have "First st d' (ch_Id (with_scan sc ch)) = Some (gorm_updates (with_scan sc ch) ch)"
    using assms(2,7) loaded by (intro store_updates [OF assms(1)]) (simp_all add: Channel_Update_def same, simp_all add: with_scan_def)
  then have stored: "First st d' i = Some (gorm_updates (with_scan sc ch) ch)" using loaded by (simp add: with_scan_def)
  let ?ch = "gorm_updates (with_scan sc ch) ch"
  have key: "ch_Key ?ch = join [10] (sc_keys sc)" "ch_Keys ?ch = []" using txts(3) by (simp_all add: gorm_updates_def nonzero_def with_scan_def)
  have info: "ci_MultiKeyStatusList (ch_ChannelInfo ?ch) = Some (sc_status sc)" "ci_MultiKeySize (ch_ChannelInfo ?ch) = int (length (sc_keys sc))"
    using gorm_info [of "with_scan sc ch" ch] assms(3) by (simp_all add: with_scan_def stored_info_def)
  have keys: "GetKeys ?ch = sc_keys sc" unfolding GetKeys_def key using txts by simp
  have "key_statuses ?ch = scan_statuses sc"
    unfolding key_statuses_def scan_statuses_def keys by (simp add: key_status_def scan_status_def info)
  then show ?thesis using stored keys info(2) by blast
qed

text \<open>
  C7: Deleting one of several keys removes exactly that key: the other keys stay in their order, each with the status it had, and the
  recorded number of keys is the number that is left. The keys are lines of text that are not blank and do not begin like a JSON array.
\<close>
theorem deleting_a_key:
  assumes "store_documented st" "First st d (mk_ChannelId request) = Some ch" "ci_IsMultiKey (ch_ChannelInfo ch)"
    "ci_MultiKeySize (ch_ChannelInfo ch) = int (length (GetKeys ch))" "list_all plain_key (GetKeys ch)" "1 < length (GetKeys ch)"
    "mk_Action request = js ''delete_key''" "mk_KeyIndex request = Some (int k)" "k < length (GetKeys ch)"
  shows "ManageMultiKeys st True d request = (d, StoreFailed) \<or>
    (\<exists>d' ch'. ManageMultiKeys st True d request = (d', KeysChanged 1) \<and> First st d' (mk_ChannelId request) = Some ch' \<and>
      GetKeys ch' = take k (GetKeys ch) @ drop (Suc k) (GetKeys ch) \<and>
      key_statuses ch' = take k (key_statuses ch) @ drop (Suc k) (key_statuses ch) \<and>
      ci_MultiKeySize (ch_ChannelInfo ch') = int (length (GetKeys ch')))"
proof -
  let ?info = "ch_ChannelInfo ch"
  let ?sc = "delete_key_scan ?info (int k) 0 (GetKeys ch) empty_scan"
  note lists = delete_key_lists [OF assms(9), of ?info]
  have left: "sc_keys ?sc \<noteq> []" "list_all plain_key (sc_keys ?sc)"
    using assms(5,6,9) unfolding lists(1) list_all_iff by (auto dest: in_set_takeD in_set_dropD)
  have run: "ManageMultiKeys st True d request = store_keys st d (with_scan ?sc ch) 1"
    using assms(2,3,4,7,8,9) left(1) by (simp add: ManageMultiKeys_def Let_def js_Cons)
  show ?thesis
  proof (cases "Channel_Update st d (with_scan ?sc ch)")
    case None
    then show ?thesis unfolding run by (simp add: store_keys_def)
  next
    case (Some d')
    obtain ch' where "First st d' (mk_ChannelId request) = Some ch'" "GetKeys ch' = sc_keys ?sc" "key_statuses ch' = scan_statuses ?sc"
        "ci_MultiKeySize (ch_ChannelInfo ch') = int (length (sc_keys ?sc))"
      using scan_stored [OF assms(1-3) left(2,1) lists(2) Some] by blast
    then show ?thesis using Some unfolding run lists key_statuses_def by (auto simp: store_keys_def lists)
  qed
qed

definition key_request :: "jstring \<Rightarrow> int \<Rightarrow> MultiKeyManageRequest" where
  "key_request action i = \<lparr>mk_ChannelId = 7, mk_Action = action, mk_KeyIndex = Some i, mk_Page = 1, mk_PageSize = 2, mk_Status = None\<rparr>"

theorem deleting_a_key_witness:
  "ManageMultiKeys list_store True [keyed_channel] (key_request (js ''delete_key'') 0) = ([keyed_channel], StoreFailed) \<or>
    (\<exists>d' ch'. ManageMultiKeys list_store True [keyed_channel] (key_request (js ''delete_key'') 0) = (d', KeysChanged 1) \<and>
      First list_store d' (mk_ChannelId (key_request (js ''delete_key'') 0)) = Some ch' \<and>
      GetKeys ch' = take 0 (GetKeys keyed_channel) @ drop (Suc 0) (GetKeys keyed_channel) \<and>
      key_statuses ch' = take 0 (key_statuses keyed_channel) @ drop (Suc 0) (key_statuses keyed_channel) \<and>
      ci_MultiKeySize (ch_ChannelInfo ch') = int (length (GetKeys ch')))"
proof (rule deleting_a_key [OF list_store_documented])
  show "First list_store [keyed_channel] (mk_ChannelId (key_request (js ''delete_key'') 0)) = Some keyed_channel"
    by (simp add: list_store_def key_request_def keyed_channel_def blank_channel_def)
  show "list_all plain_key (GetKeys keyed_channel)" by code_simp
  show "mk_KeyIndex (key_request (js ''delete_key'') 0) = Some (int 0)" by (simp add: key_request_def)
qed code_simp+

section \<open>Deleting every key\<close>

lemma delete_disabled_all:
  assumes "\<forall>j < length keys. key_status info (i + int j) = 3"
  shows "delete_disabled_scan info i keys acc = acc\<lparr>sc_deleted := sc_deleted acc + length keys\<rparr>"
  using assms
proof (induction keys arbitrary: i acc)
  case (Cons key keys)
  have "key_status info i = 3" using Cons.prems by force
  moreover have "\<forall>j < length keys. key_status info (i + 1 + int j) = 3" using Cons.prems by (auto simp: add.assoc dest: spec [of _ "Suc _"])
  note Cons.IH [OF this]
  ultimately show ?case by (simp add: Let_def)
qed simp

text \<open>
  C35: When every key of a channel was disabled automatically, \<open>delete_disabled_keys\<close> reports all of them deleted, but the keys stay in the
  database, because an empty \<open>Key\<close> is not written, and all of them are enabled again, because their statuses are.
\<close>
theorem deleting_all_keys_enables_them:
  assumes "store_documented st" "First st d (mk_ChannelId request) = Some ch" "ci_IsMultiKey (ch_ChannelInfo ch)"
    "\<forall>i < length (GetKeys ch). key_status (ch_ChannelInfo ch) (int i) = ChannelStatusAutoDisabled" "GetKeys ch \<noteq> []"
    "mk_Action request = js ''delete_disabled_keys''"
  shows "ManageMultiKeys st True d request = (d, StoreFailed) \<or>
    (\<exists>d' ch'. ManageMultiKeys st True d request = (d', KeysChanged (length (GetKeys ch))) \<and> First st d' (mk_ChannelId request) = Some ch' \<and>
      GetKeys ch' = GetKeys ch \<and> (\<forall>i. key_status (ch_ChannelInfo ch') i = ChannelStatusEnabled))"
proof -
  let ?info = "ch_ChannelInfo ch"
  let ?sc = "delete_disabled_scan ?info 0 (GetKeys ch) empty_scan"
  have sc: "?sc = empty_scan\<lparr>sc_deleted := length (GetKeys ch)\<rparr>"
    using delete_disabled_all [of "GetKeys ch" ?info 0 empty_scan] assms(4) by (simp add: ChannelStatusAutoDisabled_def empty_scan_def)
  have run: "ManageMultiKeys st True d request = store_keys st d (with_scan ?sc ch) (length (GetKeys ch))"
    using assms(2,3,5,6) by (simp add: ManageMultiKeys_def Let_def js_Cons sc)
  have loaded: "ch_Id ch = mk_ChannelId request" "ch_Keys ch = []" using store_loaded [OF assms(1,2)] by auto
  let ?new = "update_size st d (with_scan ?sc ch)"
  have new: "ch_Id ?new = ch_Id ch" "ch_Key ?new = []" "ci_IsMultiKey (ch_ChannelInfo ?new)" "ci_MultiKeyStatusList (ch_ChannelInfo ?new) = Some []"
    using assms(3) unfolding sc by (simp_all add: update_size_def Let_def with_scan_def empty_scan_def)
  show ?thesis
  proof (cases "Channel_Update st d (with_scan ?sc ch)")
    case None
    then show ?thesis unfolding run by (simp add: store_keys_def)
  next
    case (Some d')
    have "First st d' (ch_Id ?new) = Some (gorm_updates ?new ch)"
      using Some assms(2) loaded new(1) by (intro store_updates [OF assms(1)]) (simp_all add: Channel_Update_def)
    moreover have "GetKeys (gorm_updates ?new ch) = GetKeys ch"
      using new(2) loaded(2) by (simp add: GetKeys_def gorm_updates_def nonzero_def Let_def cong: option.case_cong)
    moreover have "key_status (ch_ChannelInfo (gorm_updates ?new ch)) i = ChannelStatusEnabled" for i
      using new(4) by (simp add: gorm_info [OF new(3)] key_status_def stored_info_def)
    ultimately show ?thesis using Some loaded new(1) unfolding run by (auto simp: store_keys_def)
  qed
qed

definition failed_channel :: Channel where
  "failed_channel = keyed_channel\<lparr>ch_ChannelInfo := (ch_ChannelInfo keyed_channel)\<lparr>ci_MultiKeyStatusList := Some [(0, 3), (1, 3), (2, 3)]\<rparr>\<rparr>"

theorem deleting_all_keys_enables_them_witness:
  "ManageMultiKeys list_store True [failed_channel] (key_request (js ''delete_disabled_keys'') 0) = ([failed_channel], StoreFailed) \<or>
    (\<exists>d' ch'. ManageMultiKeys list_store True [failed_channel] (key_request (js ''delete_disabled_keys'') 0) =
        (d', KeysChanged (length (GetKeys failed_channel))) \<and>
      First list_store d' (mk_ChannelId (key_request (js ''delete_disabled_keys'') 0)) = Some ch' \<and>
      GetKeys ch' = GetKeys failed_channel \<and> (\<forall>i. key_status (ch_ChannelInfo ch') i = ChannelStatusEnabled))"
proof (rule deleting_all_keys_enables_them [OF list_store_documented])
  show "First list_store [failed_channel] (mk_ChannelId (key_request (js ''delete_disabled_keys'') 0)) = Some failed_channel"
    by (simp add: list_store_def key_request_def failed_channel_def keyed_channel_def blank_channel_def)
  have "\<forall>i \<in> set [0..<length (GetKeys failed_channel)]. key_status (ch_ChannelInfo failed_channel) (int i) = ChannelStatusAutoDisabled" by code_simp
  then show "\<forall>i < length (GetKeys failed_channel). key_status (ch_ChannelInfo failed_channel) (int i) = ChannelStatusAutoDisabled" by simp
qed code_simp+

end
