(* ===== verification/Spec2Isabelle.thy ===== *)
theory Spec2Isabelle
  imports Status_Code_Rules Flow_Marks Flow_Data Playground_Answers Playground_State Channel_Mappings Price_Editing Authz_Props Channel_Key_Store
begin

text \<open>
  A verification library for the HotAI gateway: seven parts of its web client (\<open>src/web/default/src\<close>, paths below are
  relative to it), over a shared model of the language, and two parts of its Go server (paths that begin with \<open>src\<close>),
  the first together with the form of the client that uses it.

  \<^bold>\<open>The language.\<close> \<open>Js_Prelude\<close> has strings as lists of UTF-16 code units, the string and array methods the
  client calls, stable sorting and insertion-ordered sets and maps, with the locales \<open>comparator\<close> (what sorting
  relies on), \<open>collation\<close> (what \<open>localeCompare\<close> promises) and \<open>accumulator\<close> (summing entries by key in a map).
  \<open>Js_Value\<close> has values of unknown shape and \<open>Js_Json\<close> has \<open>JSON.parse\<close> and \<open>JSON.stringify\<close> with their round
  trip. The parser carries a nesting bound of twice the length of the text plus one; \<open>json_parse_bound\<close> shows
  that any larger bound gives the same result. \<open>Machines\<close> has the invariant rule for event-driven components.

  \<^bold>\<open>Status code rules\<close> (\<open>lib/http-status-code-rules.ts\<close>, theory \<open>Status_Code_Rules\<close>): \<open>parseToken\<close>,
  \<open>mergeRanges\<close> and \<open>parseHttpStatusCodeRules\<close>. An accepted text denotes the codes its tokens name, the result is
  in normal form and survives another parse, and the error list is exact.

  \<^bold>\<open>Dashboard flow view\<close> (\<open>features/dashboard/lib/flow.ts\<close> and \<open>flow-selection.ts\<close>). \<open>Flow_Paths\<close> turns quota
  rows into paths through the visible columns, with the filters and the top-N limit; \<open>Flow_Graph\<close> adds paths to
  the nodes and links of the Sankey graph, with colours, shares, highlighting and masking; \<open>Flow_Data\<close> has the filter
  options, \<open>buildDashboardFlowData\<close>, the chart data and its click events. \<open>Flow_Balance\<close> shows that every column
  carries the summary of the shown rows and every node balances; \<open>Flow_Marks\<close> that masking leaves no sensitive label and keeps the shape,
  highlighting marks exactly the paths through the active node or link, and the limit bounds a column.

  \<^bold>\<open>Playground\<close> (\<open>features/playground\<close>). \<open>Think_Tags\<close> and \<open>Playground_Messages\<close> have the message functions of
  \<open>lib/message\<close>, \<open>Playground_Streaming\<close> what they make of a streamed answer. \<open>Playground_Chat\<close> has the
  state of \<open>use-chat-handler.ts\<close> and \<open>use-stream-request.ts\<close> as the record \<open>ChatState\<close> and each handler
  as a function on it; \<open>Playground_Conversation\<close> adds the user's actions, the guards of the page and
  \<open>chat_run\<close>, the runs in which actions, stream events, timers and responses come in any order.
  \<open>Playground_Runs\<close> proves the invariant of all runs, that stopping ends a generation and that connection events
  leave the history alone; \<open>Playground_Answers\<close> what a question sends and that the stream buffer refines direct
  writing, with the chunks for which it does not. \<open>Playground_Storage\<close> has \<open>lib/storage\<close>, \<open>Playground_Reload\<close> what
  comes back from it (the locale \<open>stored_codec\<close>, interpreted for the settings, the enabled parameters and the
  conversation), and \<open>Playground_State\<close> the state hook with delayed loading and debounced saving.

  \<^bold>\<open>Channel submission\<close> (\<open>features/channels\<close>, theory \<open>Channel_Mappings\<close>): the checks of the model mapping and of
  the status code mapping, and \<open>onSubmit\<close> of the channel drawer. What is submitted has passed every check, and
  the redirects a user is asked about are exactly the new risky ones.

  \<^bold>\<open>Billing request rules\<close> (\<open>features/pricing/lib/billing-expr.ts\<close>). \<open>Js_Regex\<close> has regular expressions with
  captures and back references as a backtracking matcher that lists the matches in the order the language tries
  them. \<open>Billing_Rules\<close> has the rules of the visual editor, the text built from them, the parser with the regular
  expressions of the source, and combining with the base expression; a parser that may throw returns \<open>attempt\<close>.
  \<open>Billing_Round_Trip\<close> shows that rules come back from their text and which do not; \<open>Billing_Split\<close> that a combined
  expression is separated again, which outer parentheses are removed, and which text makes the parser throw.

  \<^bold>\<open>Price tiers\<close> (\<open>features/pricing/lib/tier-expr.ts\<close> and the registry of \<open>billing-expr.ts\<close>). \<open>Js_Expr\<close> has the
  expressions the client passes to \<open>new Function\<close>: tokens, a parser of parser combinators and an evaluator.
  \<open>Tier_Expr\<close> has the tiers of the visual editor, the expression written for them, and its parser with the regular
  expressions of the source. \<open>Tier_Eval\<close> shows that evaluating the written expression charges the first tier whose
  conditions hold; \<open>Tier_Round_Trip\<close> that the tiers come back from the expression.

  \<^bold>\<open>Price editor\<close> (\<open>features/system-settings/models/tiered-pricing-editor.tsx\<close>). \<open>Price_Editor\<close> has its state as the
  record \<open>Editor\<close>, together with the two expressions its owner keeps, the effects of one rendering as \<open>commit\<close>, in
  the order React runs them and with the values of that rendering, and every handler. \<open>Price_Editing\<close> shows that a
  price the editor wrote is opened unchanged, that switching the form and back loses nothing, and that an added tier
  is kept; and which prices and rules are lost when they are opened.

  \<^bold>\<open>Permissions\<close> (\<open>src/service/authz\<close>, \<open>src/controller/authz.go\<close> and \<open>updateAdminPermissionsForUserInTx\<close> of
  \<open>src/controller/user.go\<close>; in the client \<open>lib/admin-permissions.ts\<close> and \<open>features/users\<close>). \<open>Authz\<close> has the registry of
  permissions, the roles, the decision \<open>Can\<close>, the overrides of users, written through the policy engine or in a
  transaction, the adapter between engine and table, and the start of the service. \<open>Authz_Store\<close> has the documented behaviour of engine and table,
  the runs \<open>authz_run\<close> of the service and what each operation makes of the table; \<open>Authz_Access\<close> the catalog, the form of the client and
  instances of engine and table. \<open>Authz_Props\<close> shows that a saved matrix is what is decided afterwards and what the form showed, that
  both ways of storing agree, that the table holds only overrides, and that a demoted user starts from the role.

  \<^bold>\<open>Channels with several keys\<close> (\<open>src/model/channel.go\<close> and \<open>ManageMultiKeys\<close> of \<open>src/controller/channel.go\<close>).
  \<open>Channel_Keys\<close> has the records, the list of keys, the choice of the next key, the marking of a failed key, the
  update of a channel and every action of the key dialog. \<open>Channel_Key_Props\<close> shows that polling is fair, that only enabled keys are
  chosen, what disabling does and that the pages make up the list; \<open>Channel_Key_Store\<close> what deleting keys leaves in the database.

  \<^bold>\<open>Parameters.\<close> Collation, the id generator, the clock (its value at each place that reads it), translations,
  whether the browser's storage accepts a write, whether a stream starts, the events of the event source package (a closed source
  delivers no message, its error and state events may still come), the user's answers to dialogs, and the zod
  schemas (a record of parsers; \<open>documented_schemas\<close> is the instance the witnesses use). On the server the policy engine, the tables of policies and of
  channels, the random number of a choice and the cached polling index; \<open>casbin_documented\<close>, \<open>sql_documented\<close> and
  \<open>store_documented\<close> state what is relied on, and \<open>list_casbin\<close>, \<open>list_sql\<close> and \<open>list_store\<close> are instances.

  \<^bold>\<open>Bounds.\<close> Numbers are exact rationals or integers: rounding of doubles, \<open>NaN\<close> inside sums and the exponent
  notation of very large and very small printed numbers are outside. The limits of the storage (100 messages,
  120000 characters, one megabyte) are those of the source. The expression parser carries a nesting bound of the number
  of tokens, and every level consumes one; \<open>commit\<close> is iterated a stated number of times.
  Strings of the server are lists of bytes, trimmed of the ASCII spaces only; its maps are association lists, in any order of iteration. The
  sums and products of the page arithmetic of the key dialog wrap around at 64 bits; the other integers of the server are counts and indices of lists
  in memory and stay below that. The
  elements of a JSON array of keys are bounded by the length of the text.

  \<^bold>\<open>Not modelled.\<close> React components, routes, translations, styles and chart options, which render state;
  requests to the server and the forms around them (wallet, keys, models, system settings, authentication, users apart from the
  permission form), whose behaviour is the server's; the rest of the pricing pages; number drafts, the
  estimator panel and the preset templates of the price editor; the other channel helpers; the classic client; the desktop shell;
  and the rest of the Go server (relaying, billing, accounts, caches and the other handlers), which the client meets through events and responses.
\<close>

end
